(* ===== verification/Prelude.thy ===== *)
theory Prelude
  imports Main "HOL-Library.AList" "HOL-Library.Sublist"
begin

text \<open>
  Shared vocabulary of the development: JSON values and Python dictionaries as the
  sources use them, results with an error value, and the generic lemmas on lists and
  association lists that the component theories share.

  A Python \<open>dict\<close> with string keys is an association list in insertion order:
  reading is \<open>map_of\<close>, writing is \<open>AList.update\<close> (which replaces in place or
  appends at the end, as \<open>d[k] = v\<close> does).  JSON numbers are integers; floats
  do not occur in the code modelled here.
\<close>

section \<open>Collections of rules\<close>

named_theorems py_simps \<open>rewrite rules of the Python vocabulary\<close>

section \<open>JSON values\<close>

datatype json =
    JNull
  | JBool bool
  | JInt int
  | JStr string
  | JArr "json list"
  | JObj "(string \<times> json) list"

type_synonym dict = "(string \<times> json) list"

text \<open>\<open>d.get(k)\<close> is \<open>dget d k\<close>: a missing key reads as \<open>None\<close>.\<close>

definition dget :: "dict \<Rightarrow> string \<Rightarrow> json" where
  "dget d k = (case map_of d k of None \<Rightarrow> JNull | Some v \<Rightarrow> v)"

abbreviation has_key :: "dict \<Rightarrow> string \<Rightarrow> bool" where
  "has_key d k \<equiv> map_of d k \<noteq> None"

abbreviation dset :: "string \<Rightarrow> json \<Rightarrow> dict \<Rightarrow> dict" where
  "dset k v d \<equiv> AList.update k v d"

text \<open>\<open>isinstance(v, str)\<close>, \<open>isinstance(v, dict)\<close>, \<open>isinstance(v, list)\<close>.\<close>

fun as_str :: "json \<Rightarrow> string option" where
  "as_str (JStr s) = Some s"
| "as_str _ = None"

fun as_obj :: "json \<Rightarrow> dict option" where
  "as_obj (JObj d) = Some d"
| "as_obj _ = None"

fun as_list :: "json \<Rightarrow> json list option" where
  "as_list (JArr xs) = Some xs"
| "as_list _ = None"

text \<open>\<open>isinstance(v, int)\<close>: in Python a bool is an int, with \<open>True == 1\<close>.\<close>

fun as_int :: "json \<Rightarrow> int option" where
  "as_int (JInt i) = Some i"
| "as_int (JBool b) = Some (if b then 1 else 0)"
| "as_int _ = None"

text \<open>Truth value testing.\<close>

fun truthy :: "json \<Rightarrow> bool" where
  "truthy JNull = False"
| "truthy (JBool b) = b"
| "truthy (JInt i) = (i \<noteq> 0)"
| "truthy (JStr s) = (s \<noteq> [])"
| "truthy (JArr xs) = (xs \<noteq> [])"
| "truthy (JObj d) = (d \<noteq> [])"

lemma dget_Nil [py_simps]: "dget [] k = JNull"
  by (simp add: dget_def)

lemma dget_Cons [py_simps]: "dget ((k', v) # d) k = (if k' = k then v else dget d k)"
  by (simp add: dget_def)

lemma dget_dset [py_simps]: "dget (dset k v d) k' = (if k' = k then v else dget d k')"
  by (simp add: dget_def update_conv')

lemma as_str_eq_Some [py_simps]: "as_str v = Some s \<longleftrightarrow> v = JStr s"
  by (cases v) auto

lemma as_obj_eq_Some [py_simps]: "as_obj v = Some d \<longleftrightarrow> v = JObj d"
  by (cases v) auto

lemma as_list_eq_Some [py_simps]: "as_list v = Some xs \<longleftrightarrow> v = JArr xs"
  by (cases v) auto

section \<open>Results\<close>

text \<open>A computation that may raise returns \<open>Inl\<close> of the exception.\<close>

fun rbind :: "'e + 'a \<Rightarrow> ('a \<Rightarrow> 'e + 'b) \<Rightarrow> 'e + 'b" where
  "rbind (Inl e) f = Inl e"
| "rbind (Inr a) f = f a"

definition is_ok :: "'e + 'a \<Rightarrow> bool" where
  "is_ok r = (case r of Inl _ \<Rightarrow> False | Inr _ \<Rightarrow> True)"

lemma is_ok_simps [simp]: "is_ok (Inl e) = False" "is_ok (Inr a) = True"
  by (simp_all add: is_ok_def)

lemma rbind_eq_Inr [py_simps]: "rbind r f = Inr b \<longleftrightarrow> (\<exists>a. r = Inr a \<and> f a = Inr b)"
  by (cases r) auto

lemma rbind_eq_Inl: "rbind r f = Inl e \<longleftrightarrow> r = Inl e \<or> (\<exists>a. r = Inr a \<and> f a = Inl e)"
  by (cases r) auto

lemma rbind_assoc: "rbind (rbind r f) g = rbind r (\<lambda>a. rbind (f a) g)"
  by (cases r) simp_all

lemma rbind_Inr [simp]: "rbind r Inr = r"
  by (cases r) simp_all

lemma rbind_cong [fundef_cong]:
  "r = r' \<Longrightarrow> (\<And>a. r' = Inr a \<Longrightarrow> f a = g a) \<Longrightarrow> rbind r f = rbind r' g"
  by (cases r') auto

text \<open>A loop that stops at the first exception.\<close>

fun rfold :: "('s \<Rightarrow> 'x \<Rightarrow> 'e + 's) \<Rightarrow> 's \<Rightarrow> 'x list \<Rightarrow> 'e + 's" where
  "rfold f s [] = Inr s"
| "rfold f s (x # xs) = rbind (f s x) (\<lambda>s'. rfold f s' xs)"

lemma rfold_append: "rfold f s (xs @ ys) = rbind (rfold f s xs) (\<lambda>s'. rfold f s' ys)"
proof (induction xs arbitrary: s)
  case (Cons x xs)
  then show ?case by (cases "f s x") simp_all
qed simp

lemma rfold_snoc: "rfold f s (xs @ [x]) = rbind (rfold f s xs) (\<lambda>s'. f s' x)"
proof (induction xs arbitrary: s)
  case Nil
  show ?case by (cases "f s x") simp_all
next
  case (Cons y xs)
  then show ?case by (cases "f s y") simp_all
qed

lemma rfold_prefix_ok:
  assumes "rfold f s (xs @ ys) = Inr t"
  shows "\<exists>u. rfold f s xs = Inr u \<and> rfold f u ys = Inr t"
  using assms by (auto simp: rfold_append py_simps)

text \<open>An invariant of the body is an invariant of the loop.\<close>

lemma rfold_invariant:
  assumes "rfold f s xs = Inr t" and "P s"
    and step: "\<And>s x s'. P s \<Longrightarrow> x \<in> set xs \<Longrightarrow> f s x = Inr s' \<Longrightarrow> P s'"
  shows "P t"
  using assms
proof (induction xs arbitrary: s)
  case (Cons x xs)
  from Cons.prems(1) obtain u where u: "f s x = Inr u" "rfold f u xs = Inr t"
    by (auto simp: py_simps)
  from Cons.prems(2) have "P u"
    by (rule Cons.prems(3) [of s x u]) (simp_all add: u(1))
  with u(2) show ?case
  proof (rule Cons.IH)
    fix s' y t'
    assume "P s'" "y \<in> set xs" "f s' y = Inr t'"
    then show "P t'" using Cons.prems(3) [of s' y t'] by simp
  qed
qed simp

section \<open>Association lists as insertion-ordered dictionaries\<close>

lemma map_of_update_cases:
  "map_of (AList.update k v al) k' = (if k' = k then Some v else map_of al k')"
  by (simp add: update_conv')

lemma set_map_fst_update: "fst ` set (AList.update k v al) = insert k (fst ` set al)"
  using dom_update [of k v al] by (simp add: dom_map_of_conv_image_fst)

text \<open>\<open>d[k].append(x)\<close> on a \<open>defaultdict(list)\<close>.\<close>

definition bucket_add :: "'k \<Rightarrow> 'v \<Rightarrow> ('k \<times> 'v list) list \<Rightarrow> ('k \<times> 'v list) list" where
  "bucket_add k v al =
     AList.update k ((case map_of al k of None \<Rightarrow> [] | Some vs \<Rightarrow> vs) @ [v]) al"

definition bucket :: "('k \<times> 'v list) list \<Rightarrow> 'k \<Rightarrow> 'v list" where
  "bucket al k = (case map_of al k of None \<Rightarrow> [] | Some vs \<Rightarrow> vs)"

lemma bucket_Nil [simp]: "bucket [] k = []"
  by (simp add: bucket_def)

lemma bucket_bucket_add [simp]:
  "bucket (bucket_add k v al) k' = (if k' = k then bucket al k @ [v] else bucket al k')"
  by (simp add: bucket_def bucket_add_def map_of_update_cases)

section \<open>Lists\<close>

lemma takeWhile_dropWhile_last:
  "dropWhile P xs \<noteq> [] \<Longrightarrow> \<not> P (hd (dropWhile P xs))"
  by (simp add: hd_dropWhile)

lemma map_of_distinct_Some:
  "distinct (map f xs) \<Longrightarrow> x \<in> set xs \<Longrightarrow> map_of (map (\<lambda>y. (f y, y)) xs) (f x) = Some x"
  by (rule map_of_is_SomeI) (auto simp: o_def)

lemma subseq_filter_mono:
  assumes "\<And>x. x \<in> set xs \<Longrightarrow> P x \<Longrightarrow> Q x"
  shows "subseq (filter P xs) (filter Q xs)"
  using assms by (induction xs) auto

lemma update_new: "k \<notin> fst ` set al \<Longrightarrow> AList.update k v al = al @ [(k, v)]"
  by (induction al) auto

lemma map_filter_append: "List.map_filter f (xs @ ys) = List.map_filter f xs @ List.map_filter f ys"
  by (simp add: map_filter_def)

lemma Min_list_le: "x \<in> set xs \<Longrightarrow> Min (set xs) \<le> (x :: 'a :: linorder)"
  by simp

section \<open>Decimal numerals\<close>

text \<open>\<open>str(n)\<close> and \<open>int(s)\<close> for the numerals the code writes as dictionary keys.\<close>

definition digit_char :: "nat \<Rightarrow> char" where
  "digit_char d = ''0123456789'' ! d"

definition char_digit :: "char \<Rightarrow> nat" where
  "char_digit c = length (takeWhile (\<lambda>d. d \<noteq> c) ''0123456789'')"

fun nat_str :: "nat \<Rightarrow> string" where
  "nat_str n = (if n < 10 then [digit_char n] else nat_str (n div 10) @ [digit_char (n mod 10)])"

declare nat_str.simps [simp del]

definition str_nat :: "string \<Rightarrow> nat" where
  "str_nat s = foldl (\<lambda>n c. 10 * n + char_digit c) 0 s"

definition int_str :: "int \<Rightarrow> string" where
  "int_str i = (if i < 0 then CHR ''-'' # nat_str (nat (- i)) else nat_str (nat i))"

definition str_int :: "string \<Rightarrow> int" where
  "str_int s = (case s of [] \<Rightarrow> 0
     | c # cs \<Rightarrow> if c = CHR ''-'' then - int (str_nat cs) else int (str_nat s))"

lemma digit_cases: "d < (10 :: nat) \<Longrightarrow> d \<in> {0, 1, 2, 3, 4, 5, 6, 7, 8, 9}"
  by auto

lemma char_digit_char: "d < 10 \<Longrightarrow> char_digit (digit_char d) = d"
  by (drule digit_cases) (auto simp: char_digit_def digit_char_def)

lemma digit_char_minus: "d < 10 \<Longrightarrow> digit_char d \<noteq> CHR ''-''"
  by (drule digit_cases) (auto simp: digit_char_def)

lemma str_nat_str [simp]: "str_nat (nat_str n) = n"
proof (induction n rule: nat_str.induct)
  case (1 n)
  then show ?case
    by (cases "n < 10") (simp_all add: nat_str.simps [of n] str_nat_def char_digit_char)
qed

lemma nat_str_hd: "\<exists>d cs. nat_str n = digit_char d # cs \<and> d < 10"
proof (induction n rule: nat_str.induct)
  case (1 n)
  show ?case
  proof (cases "n < 10")
    case True
    then show ?thesis by (auto simp: nat_str.simps [of n])
  next
    case False
    with 1 obtain d cs where "nat_str (n div 10) = digit_char d # cs" "d < 10" by blast
    with False show ?thesis by (auto simp: nat_str.simps [of n])
  qed
qed

lemma str_int_str [simp]: "str_int (int_str i) = i"
proof (cases "i < 0")
  case True
  then show ?thesis by (simp add: int_str_def str_int_def)
next
  case False
  obtain d cs where "nat_str (nat i) = digit_char d # cs" "d < 10"
    using nat_str_hd by blast
  with False digit_char_minus [of d] str_nat_str [of "nat i"] show ?thesis
    by (simp add: int_str_def str_int_def)
qed

lemma inj_int_str: "inj int_str"
  by (rule inj_on_inverseI) (rule str_int_str)

lemma int_str_eq_iff [simp]: "int_str i = int_str j \<longleftrightarrow> i = j"
  using inj_int_str by (auto dest: injD)

end
