(* ===== verification/Text_Lines.thy ===== *)
theory Text_Lines
  imports Prelude
begin

text \<open>
  Line structure of the append-only files: what \<open>bytes.splitlines()\<close> and text-mode
  iteration (universal newlines) return, the cut after the last newline that the loaders
  make, and \<open>str.strip()\<close> on the ASCII white space.
\<close>

section \<open>Splitting\<close>

abbreviation LF :: char where "LF \<equiv> CHR 0x0A"
abbreviation CR :: char where "CR \<equiv> CHR 0x0D"

definition skip_lf :: "string \<Rightarrow> string" where
  "skip_lf cs = (case cs of [] \<Rightarrow> [] | d # ds \<Rightarrow> if d = LF then ds else d # ds)"

lemma length_skip_lf: "length (skip_lf cs) \<le> length cs"
  by (auto simp: skip_lf_def split: list.splits)

function ulines :: "string \<Rightarrow> string list" where
  "ulines [] = []"
| "ulines (c # cs) =
     (if c = LF then [] # ulines cs
      else if c = CR then [] # ulines (skip_lf cs)
      else (case ulines cs of [] \<Rightarrow> [[c]] | l # ls \<Rightarrow> (c # l) # ls))"
  by pat_completeness auto
termination
  by (relation "measure length") (auto simp: le_imp_less_Suc length_skip_lf)

text \<open>A text that is empty or ends with a newline consists of whole lines.\<close>

definition whole_lines :: "string \<Rightarrow> bool" where
  "whole_lines s \<longleftrightarrow> s = [] \<or> last s = LF"

definition one_line :: "string \<Rightarrow> bool" where
  "one_line s \<longleftrightarrow> LF \<notin> set s \<and> CR \<notin> set s"

lemma whole_lines_Nil [simp]: "whole_lines []"
  and whole_lines_snoc [simp]: "whole_lines (s @ [LF])"
  by (simp_all add: whole_lines_def)

lemma whole_lines_append: "whole_lines t \<Longrightarrow> whole_lines s \<Longrightarrow> whole_lines (s @ t)"
  by (cases "t = []") (auto simp: whole_lines_def)

lemma skip_lf_append: "cs \<noteq> [] \<Longrightarrow> skip_lf (cs @ t) = skip_lf cs @ t"
  by (cases cs) (auto simp: skip_lf_def)

lemma whole_lines_skip_lf: "whole_lines (c # cs) \<Longrightarrow> cs \<noteq> [] \<Longrightarrow> whole_lines (skip_lf cs)"
  by (cases cs) (auto simp: skip_lf_def whole_lines_def split: if_splits)

lemma ulines_Nil_iff [simp]: "ulines s = [] \<longleftrightarrow> s = []"
  by (cases s) (auto split: list.splits)

lemma ulines_append:
  "whole_lines s \<Longrightarrow> ulines (s @ t) = ulines s @ ulines t"
proof (induction s rule: ulines.induct)
  case (2 c cs)
  show ?case
  proof (cases "c = LF \<or> cs = []")
    case True
    with "2.prems" show ?thesis
      using "2.IH"(1) by (cases cs) (auto simp: whole_lines_def)
  next
    case False
    with "2.prems" have w: "whole_lines cs" by (simp add: whole_lines_def)
    show ?thesis
    proof (cases "c = CR")
      case True
      with False "2.prems" have "whole_lines (skip_lf cs)"
        by (auto intro: whole_lines_skip_lf)
      with True False show ?thesis
        using "2.IH"(2) by (simp add: skip_lf_append)
    next
      case c: False
      from False have "ulines cs \<noteq> []" by simp
      then obtain l ls where "ulines cs = l # ls" by (cases "ulines cs") auto
      with False c w show ?thesis using "2.IH"(3) by simp
    qed
  qed
qed simp

lemma ulines_line: "one_line l \<Longrightarrow> ulines (l @ [LF]) = [l]"
  by (induction l) (auto simp: one_line_def)

lemma ulines_append_line:
  "whole_lines s \<Longrightarrow> one_line l \<Longrightarrow> ulines (s @ l @ [LF]) = ulines s @ [l]"
  by (simp add: ulines_append ulines_line)

section \<open>The cut after the last newline\<close>

definition upto_last_lf :: "string \<Rightarrow> string" where
  "upto_last_lf raw = rev (dropWhile (\<lambda>c. c \<noteq> LF) (rev raw))"

lemma dropWhile_LF_whole: "whole_lines s \<longleftrightarrow> dropWhile (\<lambda>c. c \<noteq> LF) (rev s) = rev s"
proof (cases s rule: rev_cases)
  case (snoc ys y)
  show ?thesis
  proof (cases "y = LF")
    case False
    have "length (dropWhile (\<lambda>c. c \<noteq> LF) (rev ys)) \<le> length (rev ys)"
      by (rule length_dropWhile_le)
    then have "dropWhile (\<lambda>c. c \<noteq> LF) (rev ys) \<noteq> y # rev ys"
      by auto
    with False snoc show ?thesis by (simp add: whole_lines_def)
  qed (simp add: snoc whole_lines_def)
qed simp

lemma upto_last_lf_whole: "whole_lines (upto_last_lf raw)"
  by (simp add: dropWhile_LF_whole upto_last_lf_def)

lemma upto_last_lf_torn:
  assumes "whole_lines s" and "LF \<notin> set t"
  shows "upto_last_lf (s @ t) = s"
proof -
  have "dropWhile (\<lambda>c. c \<noteq> LF) (rev t @ rev s) = dropWhile (\<lambda>c. c \<noteq> LF) (rev s)"
    using assms(2) by (intro dropWhile_append2) auto
  also have "\<dots> = rev s"
    using assms(1) by (simp add: dropWhile_LF_whole)
  finally show ?thesis by (simp add: upto_last_lf_def)
qed

lemma upto_last_lf_prefix: "prefix (upto_last_lf raw) raw"
proof -
  have "raw = rev (dropWhile (\<lambda>c. c \<noteq> LF) (rev raw)) @ rev (takeWhile (\<lambda>c. c \<noteq> LF) (rev raw))"
    by (metis rev_append rev_rev_ident takeWhile_dropWhile_id)
  then show ?thesis unfolding upto_last_lf_def prefix_def by blast
qed

section \<open>White space\<close>

definition is_space :: "char \<Rightarrow> bool" where
  "is_space c \<longleftrightarrow> c \<in> {CHR '' '', CHR 0x09, LF, CHR 0x0B, CHR 0x0C, CR,
                       CHR 0x1C, CHR 0x1D, CHR 0x1E, CHR 0x1F}"

definition py_strip :: "string \<Rightarrow> string" where
  "py_strip s = rev (dropWhile is_space (rev (dropWhile is_space s)))"

definition stripped :: "string \<Rightarrow> bool" where
  "stripped s \<longleftrightarrow> s \<noteq> [] \<and> \<not> is_space (hd s) \<and> \<not> is_space (last s)"

lemma py_strip_stripped:
  assumes "stripped s"
  shows "py_strip s = s"
proof -
  have "dropWhile is_space s = s"
    using assms by (cases s) (auto simp: stripped_def)
  moreover have "dropWhile is_space (rev s) = rev s"
    using assms by (cases s rule: rev_cases) (auto simp: stripped_def)
  ultimately show ?thesis by (simp add: py_strip_def)
qed

text \<open>The non-empty stripped lines of a text, which the raw readers iterate over.\<close>

definition raw_lines :: "string \<Rightarrow> string list" where
  "raw_lines text = filter (\<lambda>l. l \<noteq> []) (map py_strip (ulines text))"

lemma raw_lines_Nil [simp]: "raw_lines [] = []"
  by (simp add: raw_lines_def)

lemma raw_lines_append: "whole_lines s \<Longrightarrow> raw_lines (s @ t) = raw_lines s @ raw_lines t"
  by (simp add: raw_lines_def ulines_append)

lemma raw_lines_line: "one_line l \<Longrightarrow> stripped l \<Longrightarrow> raw_lines (l @ [LF]) = [l]"
  by (auto simp: raw_lines_def ulines_line py_strip_stripped stripped_def)

end
