(* ===== verification/Ledger.thy ===== *)
theory Ledger
  imports Text_Lines "HOL-Library.List_Lexorder" "HOL-Library.Char_ord"
begin

text \<open>
  The public ledger core, \<open>public-core/flowness-ledger-core/src/flowness_ledger_core/ledger.py\<close>:
  an append-only JSONL stream of proposals, proposed records and decisions, in which a
  record becomes visible when its proposal is accepted.

  The stream is the text of \<open>ledger.jsonl\<close>.  A record of the stream is a \<open>row\<close>: the
  fields the code reads, with \<open>None\<close> for a field that is absent or not a string; the
  payload, whose meaning the class leaves to its caller, is a type variable.  The JSON
  codec and the hash are the argument \<open>'p codec\<close>: \<open>parse_row\<close> is \<open>json.loads\<close>
  of a line, \<open>dump_row\<close> the canonical serialisation \<open>_canonical\<close>, \<open>sha_row\<close> the
  digest \<open>_sha\<close>.  Random identifiers and timestamps are arguments of the operations
  that draw them.  An operation returns its outcome, an exception or a value, together
  with the store it leaves behind.
\<close>

section \<open>Data\<close>

datatype lerr = LedgerError string | KeyError string

record 'p row =
  r_format :: string
  r_record_id :: "string option"
  r_sequence :: int
  r_kind :: "string option"
  r_proposal_id :: "string option"
  r_occurred_at :: string
  r_payload :: 'p
  r_outcome :: "string option"
  r_previous :: "string option"
  r_hash :: "string option"

datatype 'p parsed = BadJson | NotObject | Obj "'p row"

record 'p codec =
  parse_row :: "string \<Rightarrow> 'p parsed"
  dump_row :: "'p row \<Rightarrow> string"
  sha_row :: "'p row \<Rightarrow> string"

text \<open>A persisted recovery report, with the two fields whose type is checked kept as JSON.\<close>

record report_doc =
  d_format :: string
  d_ledger_format :: string
  d_stream :: string
  d_action :: string
  d_affected :: nat
  d_pending :: "string list"
  d_watermark :: int
  d_head_sequence :: json
  d_head_hash :: json
  d_report_hash :: "string option"

datatype report_file = NotJsonFile | NotObjectFile | ReportFile report_doc

record 'p proposal =
  p_begin :: "'p row"
  p_records :: "'p row list"
  p_decision :: "'p row option"

type_synonym 'p proposals = "(string \<times> 'p proposal) list"

record store =
  stream :: string
  lock_unsafe :: bool
  reports :: "(string \<times> report_file) list"

type_synonym ('p, 'a) outcome = "(lerr + 'a) \<times> store"

definition ledger_format :: string where
  "ledger_format = ''flowness-ledger-core/v0''"

definition report_format :: string where
  "report_format = ''flowness-ledger-core/recovery-report/v1''"

section \<open>Loading and indexing\<close>

definition unsigned :: "'p row \<Rightarrow> 'p row" where
  "unsigned r = r\<lparr>r_hash := None\<rparr>"

fun load_rows :: "'p codec \<Rightarrow> int \<Rightarrow> string option \<Rightarrow> string list \<Rightarrow> lerr + 'p row list" where
  "load_rows cd index previous [] = Inr []"
| "load_rows cd index previous (line # lines) =
     (case parse_row cd line of
        BadJson \<Rightarrow> Inl (LedgerError ''invalid complete record'')
      | NotObject \<Rightarrow> Inl (LedgerError ''record is not an object'')
      | Obj row \<Rightarrow>
          (if r_format row \<noteq> ledger_format \<or> r_sequence row \<noteq> index
              \<or> r_previous row \<noteq> previous
              \<or> r_hash row \<noteq> Some (sha_row cd (unsigned row))
              \<or> r_record_id row = None
           then Inl (LedgerError ''invalid immutable record'')
           else rbind (load_rows cd (index + 1) (r_hash row) lines) (\<lambda>rows. Inr (row # rows))))"

definition load :: "'p codec \<Rightarrow> string \<Rightarrow> lerr + ('p row list \<times> nat)" where
  "load cd raw =
     (let complete = (if raw \<noteq> [] \<and> last raw \<noteq> LF then upto_last_lf raw else raw);
          incomplete = length raw - length complete
      in rbind (load_rows cd 1 None (ulines complete)) (\<lambda>rows.
           if distinct (map r_record_id rows) then Inr (rows, incomplete)
           else Inl (LedgerError ''duplicate record_id'')))"

definition lookup_proposal :: "'p proposals \<Rightarrow> string option \<Rightarrow> 'p proposal option" where
  "lookup_proposal ps pid = (case pid of None \<Rightarrow> None | Some p \<Rightarrow> map_of ps p)"

definition index_step :: "'p proposals \<Rightarrow> 'p row \<Rightarrow> lerr + 'p proposals" where
  "index_step ps row =
     (case r_kind row of
        None \<Rightarrow> Inl (KeyError ''kind'')
      | Some kind \<Rightarrow>
          (if kind = ''proposal'' then
             (case r_proposal_id row of
                None \<Rightarrow> Inl (LedgerError ''invalid or duplicate proposal'')
              | Some pid \<Rightarrow>
                  if map_of ps pid \<noteq> None
                  then Inl (LedgerError ''invalid or duplicate proposal'')
                  else Inr (AList.update pid \<lparr>p_begin = row, p_records = [], p_decision = None\<rparr> ps))
           else if kind = ''proposed_record'' then
             (case lookup_proposal ps (r_proposal_id row) of
                None \<Rightarrow> Inl (LedgerError ''record outside a pending proposal'')
              | Some p \<Rightarrow>
                  if p_decision p \<noteq> None
                  then Inl (LedgerError ''record outside a pending proposal'')
                  else Inr (AList.update (the (r_proposal_id row))
                              (p\<lparr>p_records := p_records p @ [row]\<rparr>) ps))
           else if kind = ''decision'' then
             (case lookup_proposal ps (r_proposal_id row) of
                None \<Rightarrow> Inl (LedgerError ''invalid decision'')
              | Some p \<Rightarrow>
                  if p_decision p \<noteq> None then Inl (LedgerError ''invalid decision'')
                  else if r_outcome row \<notin> {Some ''accepted'', Some ''rejected''}
                  then Inl (LedgerError ''invalid decision outcome'')
                  else Inr (AList.update (the (r_proposal_id row)) (p\<lparr>p_decision := Some row\<rparr>) ps))
           else Inl (LedgerError ''unknown record kind'')))"

definition index :: "'p row list \<Rightarrow> lerr + 'p proposals" where
  "index rows = rfold index_step [] rows"

section \<open>Operations\<close>

definition head_hash :: "'p row list \<Rightarrow> string option" where
  "head_hash rows = (if rows = [] then None else r_hash (last rows))"

definition new_row :: "'p codec \<Rightarrow> 'p row list \<Rightarrow> string \<Rightarrow> string \<Rightarrow> string \<Rightarrow> string \<Rightarrow> 'p
    \<Rightarrow> string option \<Rightarrow> 'p row" where
  "new_row cd rows rid now kind pid payload outcome =
     (let row = \<lparr>r_format = ledger_format, r_record_id = Some rid,
                 r_sequence = int (length rows) + 1, r_kind = Some kind,
                 r_proposal_id = Some pid, r_occurred_at = now, r_payload = payload,
                 r_outcome = outcome, r_previous = head_hash rows, r_hash = None\<rparr>
      in row\<lparr>r_hash := Some (sha_row cd row)\<rparr>)"

text \<open>Loading and indexing before an operation, refusing an incomplete tail.\<close>

definition load_index :: "'p codec \<Rightarrow> string \<Rightarrow> string \<Rightarrow> lerr + ('p row list \<times> 'p proposals)" where
  "load_index cd refusal raw =
     rbind (load cd raw) (\<lambda>(rows, incomplete).
       if incomplete \<noteq> 0 then Inl (LedgerError refusal)
       else rbind (index rows) (\<lambda>ps. Inr (rows, ps)))"

definition append_row :: "'p codec \<Rightarrow> store \<Rightarrow> string \<Rightarrow> string \<Rightarrow> string \<Rightarrow> string \<Rightarrow> 'p
    \<Rightarrow> string option \<Rightarrow> ('p, 'p row) outcome" where
  "append_row cd st rid now kind pid payload outcome =
     (if lock_unsafe st then (Inl (LedgerError ''ledger lock is unsafe''), st)
      else (case load_index cd ''run recover before appending after an incomplete tail'' (stream st) of
        Inl e \<Rightarrow> (Inl e, st)
      | Inr (rows, _) \<Rightarrow>
          let row = new_row cd rows rid now kind pid payload outcome
          in (Inr row, st\<lparr>stream := stream st @ dump_row cd row @ [LF]\<rparr>)))"

definition begin_proposal :: "'p codec \<Rightarrow> store \<Rightarrow> string \<Rightarrow> string \<Rightarrow> string \<Rightarrow> 'p
    \<Rightarrow> ('p, 'p row) outcome" where
  "begin_proposal cd st rid now pid payload =
     (if pid = [] then (Inl (LedgerError ''proposal_id is required''), st)
      else case load_index cd ''run recover before beginning a proposal'' (stream st) of
        Inl e \<Rightarrow> (Inl e, st)
      | Inr (rows, ps) \<Rightarrow>
          (case map_of ps pid of
             Some existing \<Rightarrow>
               if r_payload (p_begin existing) = payload then (Inr (p_begin existing), st)
               else (Inl (LedgerError ''proposal_id is already bound to different immutable input''), st)
           | None \<Rightarrow> append_row cd st rid now ''proposal'' pid payload None))"

text \<open>One proposed record: the record's identifier, its timestamp and its payload.\<close>

fun append_each :: "'p codec \<Rightarrow> store \<Rightarrow> string \<Rightarrow> (string \<times> string \<times> 'p) list
    \<Rightarrow> ('p, 'p row list) outcome" where
  "append_each cd st pid [] = (Inr [], st)"
| "append_each cd st pid ((rid, now, payload) # xs) =
     (case append_row cd st rid now ''proposed_record'' pid payload None of
        (Inl e, st') \<Rightarrow> (Inl e, st')
      | (Inr row, st') \<Rightarrow>
          (case append_each cd st' pid xs of
             (Inl e, st'') \<Rightarrow> (Inl e, st'')
           | (Inr rows, st'') \<Rightarrow> (Inr (row # rows), st'')))"

definition append_proposed :: "'p codec \<Rightarrow> store \<Rightarrow> string \<Rightarrow> (string \<times> string \<times> 'p) list
    \<Rightarrow> ('p, 'p row list) outcome" where
  "append_proposed cd st pid records =
     (if records = [] then (Inl (LedgerError ''at least one proposed record is required''), st)
      else case load_index cd ''run recover before appending proposed records'' (stream st) of
        Inl e \<Rightarrow> (Inl e, st)
      | Inr (rows, ps) \<Rightarrow>
          (case map_of ps pid of
             None \<Rightarrow> (Inl (LedgerError ''proposal is not pending''), st)
           | Some p \<Rightarrow>
               if p_decision p \<noteq> None then (Inl (LedgerError ''proposal is not pending''), st)
               else append_each cd st pid records))"

definition decide :: "'p codec \<Rightarrow> store \<Rightarrow> string \<Rightarrow> string \<Rightarrow> string \<Rightarrow> string \<Rightarrow> 'p
    \<Rightarrow> ('p, 'p row) outcome" where
  "decide cd st rid now pid verdict payload =
     (if verdict \<noteq> ''accepted'' \<and> verdict \<noteq> ''rejected''
      then (Inl (LedgerError ''outcome must be accepted or rejected''), st)
      else case load_index cd ''run recover before deciding'' (stream st) of
        Inl e \<Rightarrow> (Inl e, st)
      | Inr (rows, ps) \<Rightarrow>
          (case map_of ps pid of
             None \<Rightarrow> (Inl (LedgerError ''unknown proposal''), st)
           | Some p \<Rightarrow>
               (case p_decision p of
                  Some existing \<Rightarrow>
                    if r_outcome existing = Some verdict \<and> r_payload existing = payload
                    then (Inr existing, st)
                    else (Inl (LedgerError ''conflicting immutable decision''), st)
                | None \<Rightarrow> append_row cd st rid now ''decision'' pid payload (Some verdict))))"

definition accepted_ids :: "'p proposals \<Rightarrow> string list" where
  "accepted_ids ps =
     [k. (k, p) \<leftarrow> ps, \<exists>d. p_decision p = Some d \<and> r_outcome d = Some ''accepted'']"

definition committed_rows :: "'p proposals \<Rightarrow> 'p row list \<Rightarrow> 'p row list" where
  "committed_rows ps rows =
     filter (\<lambda>row. r_kind row = Some ''proposed_record''
                 \<and> r_proposal_id row \<in> Some ` set (accepted_ids ps)) rows"

definition read_view :: "'p codec \<Rightarrow> string \<Rightarrow> string \<Rightarrow> lerr + 'p row list" where
  "read_view cd raw view =
     (if view \<noteq> ''audit'' \<and> view \<noteq> ''committed''
      then Inl (LedgerError ''view must be audit or committed'')
      else rbind (load_index cd ''incomplete tail requires recover before reading'' raw) (\<lambda>(rows, ps).
             if view = ''audit'' then Inr rows else Inr (committed_rows ps rows)))"

section \<open>Recovery\<close>

definition pending_ids :: "'p proposals \<Rightarrow> string list" where
  "pending_ids ps = sort [k. (k, p) \<leftarrow> ps, p_decision p = None]"

definition watermark :: "'p row list \<Rightarrow> int" where
  "watermark committed = (if committed = [] then 0 else r_sequence (last committed))"

text \<open>\<open>RecoveryReport.to_dict\<close>: the digest of a report is computed over the other fields.\<close>

definition signed_report :: "(report_doc \<Rightarrow> string) \<Rightarrow> report_doc \<Rightarrow> report_doc" where
  "signed_report sha d = d\<lparr>d_report_hash := Some (sha (d\<lparr>d_report_hash := None\<rparr>))\<rparr>"

definition head_json :: "'p row list \<Rightarrow> json" where
  "head_json rows = (case head_hash rows of None \<Rightarrow> JNull | Some h \<Rightarrow> JStr h)"

definition make_report :: "string \<Rightarrow> nat \<Rightarrow> 'p proposals \<Rightarrow> 'p row list \<Rightarrow> report_doc" where
  "make_report action affected ps rows =
     \<lparr>d_format = report_format, d_ledger_format = ledger_format,
      d_stream = ''ledger.jsonl'', d_action = action, d_affected = affected,
      d_pending = pending_ids ps, d_watermark = watermark (committed_rows ps rows),
      d_head_sequence = JInt (if rows = [] then 0 else r_sequence (last rows)),
      d_head_hash = head_json rows, d_report_hash = None\<rparr>"

definition remove_prefix :: "string \<Rightarrow> string \<Rightarrow> string" where
  "remove_prefix p s = (if prefix p s then drop (length p) s else s)"

definition report_name :: "report_doc \<Rightarrow> string" where
  "report_name d =
     (case d_report_hash d of None \<Rightarrow> [] | Some h \<Rightarrow> remove_prefix ''sha256:'' h) @ ''.json''"

definition persist_report :: "store \<Rightarrow> report_doc \<Rightarrow> (lerr + string) \<times> store" where
  "persist_report st d =
     (case map_of (reports st) (report_name d) of
        Some f \<Rightarrow>
          if f = ReportFile d then (Inr (report_name d), st)
          else (Inl (LedgerError ''immutable recovery report hash collision''), st)
      | None \<Rightarrow> (Inr (report_name d),
                 st\<lparr>reports := AList.update (report_name d) (ReportFile d) (reports st)\<rparr>))"

definition recover :: "'p codec \<Rightarrow> (report_doc \<Rightarrow> string) \<Rightarrow> store \<Rightarrow> bool
    \<Rightarrow> (lerr + report_doc) \<times> store" where
  "recover cd sha st persist =
     (if lock_unsafe st then (Inl (LedgerError ''ledger lock is unsafe''), st)
      else (case load cd (stream st) of
        Inl e \<Rightarrow> (Inl e, st)
      | Inr (_, incomplete) \<Rightarrow>
          let st' = (if incomplete \<noteq> 0
                     then st\<lparr>stream := take (length (stream st) - incomplete) (stream st)\<rparr> else st);
              action = (if incomplete \<noteq> 0 then ''truncated_incomplete_tail''
                        else ''no_physical_tail_change'')
          in (case load_index cd ''tail recovery did not converge'' (stream st') of
                Inl e \<Rightarrow> (Inl e, st')
              | Inr (rows, ps) \<Rightarrow>
                  let report = signed_report sha (make_report action incomplete ps rows)
                  in (if persist
                      then (case persist_report st' report of
                              (Inl e, st'') \<Rightarrow> (Inl e, st'')
                            | (Inr _, st'') \<Rightarrow> (Inr report, st''))
                      else (Inr report, st')))))"

definition verify_report :: "'p codec \<Rightarrow> (report_doc \<Rightarrow> string) \<Rightarrow> store \<Rightarrow> string
    \<Rightarrow> lerr + report_doc" where
  "verify_report cd sha st name =
     (case map_of (reports st) name of
        None \<Rightarrow> Inl (LedgerError ''recovery report is outside the safe report directory'')
      | Some NotJsonFile \<Rightarrow> Inl (LedgerError ''recovery report is not valid JSON'')
      | Some NotObjectFile \<Rightarrow> Inl (LedgerError ''recovery report is not an object'')
      | Some (ReportFile d) \<Rightarrow>
          (if d_format d \<noteq> report_format \<or> d_ledger_format d \<noteq> ledger_format
              \<or> d_report_hash d \<noteq> Some (sha (d\<lparr>d_report_hash := None\<rparr>))
           then Inl (LedgerError ''invalid self-hashed recovery report'')
           else if d_stream d \<noteq> ''ledger.jsonl''
           then Inl (LedgerError ''recovery report names an unexpected stream'')
           else (case as_int (d_head_sequence d) of
             None \<Rightarrow> Inl (LedgerError ''recovery report has invalid ledger head sequence'')
           | Some n \<Rightarrow>
               if n < 0 then Inl (LedgerError ''recovery report has invalid ledger head sequence'')
               else if n = 0 \<and> d_head_hash d \<noteq> JNull
               then Inl (LedgerError ''empty ledger recovery report has a head hash'')
               else if n > 0 \<and> as_str (d_head_hash d) = None
               then Inl (LedgerError ''nonempty ledger recovery report has no head hash'')
               else rbind (load cd (stream st)) (\<lambda>(rows, incomplete).
                 if incomplete \<noteq> 0 then Inl (LedgerError ''current ledger has an incomplete tail'')
                 else if n > int (length rows)
                 then Inl (LedgerError ''recovery report names a future ledger head'')
                 else let pre = take (nat n) rows in
                   if head_json pre \<noteq> d_head_hash d
                   then Inl (LedgerError ''recovery report ledger head hash does not match'')
                   else rbind (index pre) (\<lambda>ps.
                     if d_pending d \<noteq> pending_ids ps
                        \<or> d_watermark d \<noteq> watermark (committed_rows ps pre)
                     then Inl (LedgerError ''recovery report state summary does not match ledger prefix'')
                     else Inr d)))))"

end
