(* ===== verification/Ledger_Safety.thy ===== *)
theory Ledger_Safety
  imports Ledger
begin

text \<open>
  What the ledger core promises: a stream that was valid stays valid and only grows, the
  committed view shows exactly the records of accepted proposals, decisions are final, a
  torn tail is refused until recovery removes it, and a recovery report stays verifiable
  after later appends.  All of this is for operations that run one after the other; the
  last section shows what the check outside the lock allows when two writers interleave.
\<close>

section \<open>Valid streams\<close>

text \<open>The codec reads back what it wrote, on one line: JSON escapes control characters.\<close>

definition codec_sound :: "'p codec \<Rightarrow> bool" where
  "codec_sound cd \<longleftrightarrow> (\<forall>r. parse_row cd (dump_row cd r) = Obj r \<and> one_line (dump_row cd r))"

definition valid_stream :: "'p codec \<Rightarrow> string \<Rightarrow> 'p row list \<Rightarrow> 'p proposals \<Rightarrow> bool" where
  "valid_stream cd raw rows ps \<longleftrightarrow>
     whole_lines raw \<and> load_rows cd 1 None (ulines raw) = Inr rows
     \<and> distinct (map r_record_id rows) \<and> index rows = Inr ps"

lemma load_whole:
  "whole_lines raw \<Longrightarrow>
   load cd raw = rbind (load_rows cd 1 None (ulines raw)) (\<lambda>rows.
     if distinct (map r_record_id rows) then Inr (rows, 0)
     else Inl (LedgerError ''duplicate record_id''))"
  by (auto simp: load_def whole_lines_def cong: if_cong)

lemma load_torn:
  assumes "whole_lines raw" and "LF \<notin> set t" and "t \<noteq> []"
  shows "load cd (raw @ t) = rbind (load_rows cd 1 None (ulines raw)) (\<lambda>rows.
     if distinct (map r_record_id rows) then Inr (rows, length t)
     else Inl (LedgerError ''duplicate record_id''))"
proof -
  have "last (raw @ t) \<noteq> LF"
    using assms(2,3) by (auto dest: last_in_set)
  then show ?thesis
    using assms by (simp add: load_def upto_last_lf_torn cong: if_cong)
qed

lemma load_complete_whole:
  assumes "load cd raw = Inr (rows, 0)"
  shows "whole_lines raw"
proof (rule ccontr)
  assume "\<not> whole_lines raw"
  then have "raw \<noteq> [] \<and> last raw \<noteq> LF"
    by (simp add: whole_lines_def)
  with assms have "length raw - length (upto_last_lf raw) = 0"
    by (auto simp: load_def Let_def py_simps split: if_splits)
  moreover obtain zs where zs: "raw = upto_last_lf raw @ zs"
    using upto_last_lf_prefix [of raw] by (auto simp: prefix_def)
  ultimately have "upto_last_lf raw = raw"
    by (metis append_Nil2 diff_add_inverse length_0_conv length_append)
  with \<open>\<not> whole_lines raw\<close> show False
    using upto_last_lf_whole [of raw] by simp
qed

lemma load_index_iff_valid:
  "load_index cd refusal raw = Inr (rows, ps) \<longleftrightarrow> valid_stream cd raw rows ps"
proof
  assume "load_index cd refusal raw = Inr (rows, ps)"
  then have l: "load cd raw = Inr (rows, 0)" and i: "index rows = Inr ps"
    by (auto simp: load_index_def py_simps split: if_splits)
  from l have w: "whole_lines raw" by (rule load_complete_whole)
  with l i show "valid_stream cd raw rows ps"
    by (auto simp: valid_stream_def load_whole py_simps split: if_splits)
next
  assume "valid_stream cd raw rows ps"
  then show "load_index cd refusal raw = Inr (rows, ps)"
    by (simp add: valid_stream_def load_index_def load_whole)
qed

lemma load_rows_append:
  "load_rows cd i prev (xs @ ys) =
     rbind (load_rows cd i prev xs) (\<lambda>rs.
       rbind (load_rows cd (i + int (length rs)) (if rs = [] then prev else r_hash (last rs)) ys)
         (\<lambda>rs'. Inr (rs @ rs')))"
proof (induction xs arbitrary: i prev)
  case (Cons x xs)
  show ?case
  proof (cases "parse_row cd x")
    case (Obj row)
    then show ?thesis
      by (simp add: Cons.IH rbind_assoc algebra_simps if_distrib [where f = r_hash] cong: if_cong)
  qed simp_all
qed simp

text \<open>The fields a loaded row carries: numbered from 1, chained by the hash of the row before.\<close>

lemma load_rows_chain:
  assumes "load_rows cd i prev ls = Inr rows" and "k < length rows"
  shows "r_sequence (rows ! k) = i + int k
       \<and> r_previous (rows ! k) = (if k = 0 then prev else r_hash (rows ! (k - 1)))
       \<and> r_hash (rows ! k) = Some (sha_row cd (unsigned (rows ! k)))
       \<and> r_format (rows ! k) = ledger_format"
  using assms
proof (induction ls arbitrary: i prev rows k)
  case (Cons l ls)
  from Cons.prems(1) obtain row rows' where
    row: "rows = row # rows'" "r_format row = ledger_format" "r_sequence row = i"
      "r_previous row = prev" "r_hash row = Some (sha_row cd (unsigned row))" and
    rest: "load_rows cd (i + 1) (r_hash row) ls = Inr rows'"
    by (auto simp: py_simps split: parsed.splits if_splits)
  show ?case
  proof (cases k)
    case 0
    with row show ?thesis by simp
  next
    case (Suc m)
    with row Cons.prems(2) have "m < length rows'" by simp
    from Cons.IH [OF rest this] row Suc show ?thesis
      by (cases m) simp_all
  qed
qed simp

lemma new_row_simps [simp]:
  "r_format (new_row cd rows rid now k pid pl oc) = ledger_format"
  "r_record_id (new_row cd rows rid now k pid pl oc) = Some rid"
  "r_sequence (new_row cd rows rid now k pid pl oc) = int (length rows) + 1"
  "r_kind (new_row cd rows rid now k pid pl oc) = Some k"
  "r_proposal_id (new_row cd rows rid now k pid pl oc) = Some pid"
  "r_payload (new_row cd rows rid now k pid pl oc) = pl"
  "r_outcome (new_row cd rows rid now k pid pl oc) = oc"
  "r_previous (new_row cd rows rid now k pid pl oc) = head_hash rows"
  by (simp_all add: new_row_def Let_def)

lemma new_row_hash:
  "r_hash (new_row cd rows rid now k pid pl oc)
     = Some (sha_row cd (unsigned (new_row cd rows rid now k pid pl oc)))"
  by (simp add: new_row_def Let_def unsigned_def)

lemma append_valid:
  assumes v: "valid_stream cd raw rows ps" and c: "codec_sound cd"
    and fresh: "Some rid \<notin> set (map r_record_id rows)"
    and row: "row = new_row cd rows rid now kind pid payload oc"
    and step: "index_step ps row = Inr ps'"
  shows "valid_stream cd (raw @ dump_row cd row @ [LF]) (rows @ [row]) ps'"
proof -
  have ok: "parse_row cd (dump_row cd row) = Obj row" "one_line (dump_row cd row)"
    using c by (auto simp: codec_sound_def)
  have w: "whole_lines raw" and l: "load_rows cd 1 None (ulines raw) = Inr rows"
    using v by (simp_all add: valid_stream_def)
  have "load_rows cd (1 + int (length rows)) (head_hash rows) [dump_row cd row] = Inr [row]"
    unfolding load_rows.simps ok(1)
    using new_row_hash [of cd rows rid now kind pid payload oc] by (simp add: row)
  then have "load_rows cd 1 None (ulines raw @ [dump_row cd row]) = Inr (rows @ [row])"
    by (simp add: load_rows_append l head_hash_def del: load_rows.simps(2))
  moreover have "whole_lines (raw @ dump_row cd row @ [LF])"
    by (rule whole_lines_append [OF whole_lines_snoc w])
  ultimately show ?thesis
    using v fresh step ok(2) w
    by (auto simp: valid_stream_def ulines_append_line index_def rfold_snoc row)
qed

section \<open>The index of proposals\<close>

text \<open>What an index says about the rows it was built from.\<close>

definition index_inv :: "'p row list \<Rightarrow> 'p proposals \<Rightarrow> bool" where
  "index_inv rows ps \<longleftrightarrow>
     distinct (map fst ps) \<and>
     (\<forall>pid p. map_of ps pid = Some p \<longrightarrow>
        p_begin p \<in> set rows \<and> r_kind (p_begin p) = Some ''proposal'' \<and>
        r_proposal_id (p_begin p) = Some pid \<and>
        p_records p = filter (\<lambda>r. r_kind r = Some ''proposed_record'' \<and> r_proposal_id r = Some pid) rows \<and>
        filter (\<lambda>r. r_kind r = Some ''decision'' \<and> r_proposal_id r = Some pid) rows
          = (case p_decision p of None \<Rightarrow> [] | Some d \<Rightarrow> [d]) \<and>
        (\<forall>d. p_decision p = Some d \<longrightarrow> r_outcome d \<in> {Some ''accepted'', Some ''rejected''})) \<and>
     (\<forall>r \<in> set rows. r_proposal_id r \<in> Some ` fst ` set ps)"

lemma index_step_shape:
  assumes "index_step ps row = Inr ps'"
  obtains (Proposal) pid where "r_kind row = Some ''proposal''" "r_proposal_id row = Some pid"
      "map_of ps pid = None"
      "ps' = AList.update pid \<lparr>p_begin = row, p_records = [], p_decision = None\<rparr> ps"
  | (Record) pid p where "r_kind row = Some ''proposed_record''" "r_proposal_id row = Some pid"
      "map_of ps pid = Some p" "p_decision p = None"
      "ps' = AList.update pid (p\<lparr>p_records := p_records p @ [row]\<rparr>) ps"
  | (Decision) pid p where "r_kind row = Some ''decision''" "r_proposal_id row = Some pid"
      "map_of ps pid = Some p" "p_decision p = None"
      "r_outcome row \<in> {Some ''accepted'', Some ''rejected''}"
      "ps' = AList.update pid (p\<lparr>p_decision := Some row\<rparr>) ps"
  using assms
  by (auto simp: index_step_def lookup_proposal_def split: option.splits if_splits)

lemma index_step_inv:
  assumes "index_inv rows ps" and "index_step ps row = Inr ps'"
  shows "index_inv (rows @ [row]) ps'"
  using assms(2)
proof (cases rule: index_step_shape)
  case (Proposal pid)
  have "\<forall>r \<in> set rows. r_proposal_id r \<in> Some ` fst ` set ps"
    using assms(1) by (simp add: index_inv_def)
  with Proposal(3) have "\<forall>r \<in> set rows. r_proposal_id r \<noteq> Some pid"
    by (force simp: map_of_eq_None_iff)
  with assms(1) Proposal show ?thesis
    unfolding index_inv_def
    by (auto simp: distinct_update map_of_update_cases set_map_fst_update filter_empty_conv)
next
  case (Record pid p)
  with assms(1) show ?thesis
    unfolding index_inv_def by (auto simp: distinct_update map_of_update_cases set_map_fst_update)
next
  case (Decision pid p)
  with assms(1) show ?thesis
    unfolding index_inv_def by (auto simp: distinct_update map_of_update_cases set_map_fst_update)
qed

lemma index_snoc: "index (rows @ [row]) = rbind (index rows) (\<lambda>ps. index_step ps row)"
  by (simp add: index_def rfold_snoc)

lemma index_index_inv: "index rows = Inr ps \<Longrightarrow> index_inv rows ps"
proof (induction rows arbitrary: ps rule: rev_induct)
  case Nil
  then show ?case by (simp add: index_def index_inv_def)
next
  case (snoc row rows)
  then show ?case by (auto simp: index_snoc py_simps intro: index_step_inv)
qed

text \<open>A decided proposal never changes again.\<close>

lemma index_step_frozen:
  assumes "index_step ps row = Inr ps'" and "map_of ps k = Some p" and "p_decision p \<noteq> None"
  shows "map_of ps' k = Some p"
  using assms(1) by (cases rule: index_step_shape) (use assms(2,3) in \<open>auto simp: map_of_update_cases\<close>)

lemma index_extend_frozen:
  assumes "rfold index_step ps rs = Inr ps'" and "map_of ps k = Some p" and "p_decision p \<noteq> None"
  shows "map_of ps' k = Some p"
  using assms(1,2) by (rule rfold_invariant) (use assms(3) in \<open>auto intro: index_step_frozen\<close>)

lemma accepted_ids_iff:
  assumes "distinct (map fst ps)"
  shows "k \<in> set (accepted_ids ps) \<longleftrightarrow>
     (\<exists>p d. map_of ps k = Some p \<and> p_decision p = Some d \<and> r_outcome d = Some ''accepted'')"
  using assms by (fastforce simp: accepted_ids_def dest: map_of_SomeD intro: map_of_is_SomeI)

lemma index_distinct: "index rows = Inr ps \<Longrightarrow> distinct (map fst ps)"
  using index_index_inv by (auto simp: index_inv_def)

lemma accepted_ids_mono:
  assumes "index rows = Inr ps" and "index (rows @ rs) = Inr ps'"
  shows "set (accepted_ids ps) \<subseteq> set (accepted_ids ps')"
proof -
  from assms have "rfold index_step ps rs = Inr ps'"
    by (simp add: index_def rfold_append)
  then show ?thesis
    using assms [THEN index_distinct] index_extend_frozen [of ps rs ps']
    by (simp add: subset_iff accepted_ids_iff del: map_of_eq_Some_iff) blast
qed

section \<open>The committed view\<close>

lemma committed_rows_iff:
  assumes "index rows = Inr ps"
  shows "row \<in> set (committed_rows ps rows) \<longleftrightarrow>
     row \<in> set rows \<and> r_kind row = Some ''proposed_record'' \<and>
     (\<exists>d \<in> set rows. r_kind d = Some ''decision'' \<and> r_proposal_id d = r_proposal_id row
                    \<and> r_outcome d = Some ''accepted'')"
    (is "_ \<longleftrightarrow> _ \<and> _ \<and> ?acc row")
proof -
  have inv: "index_inv rows ps" using assms by (rule index_index_inv)
  have "r_proposal_id row \<in> Some ` set (accepted_ids ps) \<longleftrightarrow> ?acc row" if "row \<in> set rows"
  proof -
    from inv that obtain pid p where pid: "r_proposal_id row = Some pid" "map_of ps pid = Some p"
      by (fastforce simp: index_inv_def)
    define ds where
      "ds = filter (\<lambda>r. r_kind r = Some ''decision'' \<and> r_proposal_id r = Some pid) rows"
    have ds: "ds = (case p_decision p of None \<Rightarrow> [] | Some d \<Rightarrow> [d])"
      using inv pid(2) unfolding index_inv_def ds_def by blast
    have "?acc row \<longleftrightarrow> (\<exists>d \<in> set ds. r_outcome d = Some ''accepted'')"
      unfolding ds_def using pid(1) by auto
    also have "\<dots> \<longleftrightarrow> (\<exists>d. p_decision p = Some d \<and> r_outcome d = Some ''accepted'')"
      by (cases "p_decision p") (auto simp: ds)
    also have "\<dots> \<longleftrightarrow> pid \<in> set (accepted_ids ps)"
      using pid(2) by (simp add: accepted_ids_iff index_distinct [OF assms] del: map_of_eq_Some_iff)
    finally show ?thesis using pid(1) by auto
  qed
  then show ?thesis by (auto simp: committed_rows_def)
qed

lemma committed_rows_mono:
  assumes "index rows = Inr ps" and "index (rows @ rs) = Inr ps'"
  shows "subseq (committed_rows ps rows) (committed_rows ps' (rows @ rs))"
proof -
  have "subseq (committed_rows ps rows) (committed_rows ps' rows)"
    unfolding committed_rows_def
    using accepted_ids_mono [OF assms] by (intro subseq_filter_mono) auto
  then show ?thesis
    by (auto simp: committed_rows_def intro: subseq_order.trans)
qed

section \<open>Sequential operation\<close>

text \<open>The commands of a client, with the identifiers and timestamps they will draw.\<close>

datatype 'p command =
    Begin string string string 'p
  | Propose string "(string \<times> string \<times> 'p) list"
  | Decide string string string string 'p

fun exec :: "'p codec \<Rightarrow> store \<Rightarrow> 'p command \<Rightarrow> store" where
  "exec cd st (Begin rid now pid payload) = snd (begin_proposal cd st rid now pid payload)"
| "exec cd st (Propose pid records) = snd (append_proposed cd st pid records)"
| "exec cd st (Decide rid now pid verdict payload) = snd (decide cd st rid now pid verdict payload)"

fun drawn_ids :: "'p command \<Rightarrow> string list" where
  "drawn_ids (Begin rid now pid payload) = [rid]"
| "drawn_ids (Propose pid records) = map fst records"
| "drawn_ids (Decide rid now pid verdict payload) = [rid]"

text \<open>A store that extends a valid one by rows with the given identifiers, and stays valid.\<close>

definition extends :: "'p codec \<Rightarrow> 'p row list \<Rightarrow> string \<Rightarrow> string list \<Rightarrow> store \<Rightarrow> bool" where
  "extends cd rows raw ids st \<longleftrightarrow>
     (\<exists>rs ps. valid_stream cd (stream st) (rows @ rs) ps \<and> prefix raw (stream st)
            \<and> set (map r_record_id rs) \<subseteq> Some ` set ids)"

lemma extends_refl: "valid_stream cd (stream st) rows ps \<Longrightarrow> extends cd rows (stream st) ids st"
  unfolding extends_def by (rule exI [of _ "[]"]) auto

lemma append_row_cases:
  assumes "append_row cd st rid now kind pid payload oc = (res, st')"
    and v: "valid_stream cd (stream st) rows ps"
  obtains e where "res = Inl e" "st' = st"
  | "res = Inr (new_row cd rows rid now kind pid payload oc)"
    "st' = st\<lparr>stream := stream st @ dump_row cd (new_row cd rows rid now kind pid payload oc) @ [LF]\<rparr>"
proof -
  have "load_index cd ''run recover before appending after an incomplete tail'' (stream st) = Inr (rows, ps)"
    using v by (simp add: load_index_iff_valid)
  then show ?thesis
    using assms(1) that by (auto simp: append_row_def Let_def split: if_splits)
qed

lemma append_row_extends:
  assumes v: "valid_stream cd (stream st) rows ps" and c: "codec_sound cd"
    and fresh: "Some rid \<notin> set (map r_record_id rows)"
    and step: "\<exists>ps'. index_step ps (new_row cd rows rid now kind pid payload oc) = Inr ps'"
  shows "extends cd rows (stream st) [rid] (snd (append_row cd st rid now kind pid payload oc))"
proof -
  obtain res st' where a: "append_row cd st rid now kind pid payload oc = (res, st')"
    by fastforce
  from a v show ?thesis
  proof (cases rule: append_row_cases)
    case (1 e)
    with a v show ?thesis by (simp add: extends_refl)
  next
    case 2
    from step obtain ps' where
      "index_step ps (new_row cd rows rid now kind pid payload oc) = Inr ps'" by blast
    from append_valid [OF v c fresh refl this] 2(2) a show ?thesis
      unfolding extends_def by force
  qed
qed

lemma extends_trans:
  assumes "extends cd (rows @ rs) raw' ids' st'" and "prefix raw raw'"
    and "set (map r_record_id rs) \<subseteq> Some ` set ids"
  shows "extends cd rows raw (ids @ ids') st'"
proof -
  from assms(1) obtain rs' ps' where
    "valid_stream cd (stream st') ((rows @ rs) @ rs') ps'" "prefix raw' (stream st')"
    "set (map r_record_id rs') \<subseteq> Some ` set ids'"
    by (auto simp: extends_def)
  then show ?thesis
    using assms(2,3) unfolding extends_def
    by (intro exI [of _ "rs @ rs'"] exI [of _ ps']) auto
qed

lemma index_step_propose:
  assumes "map_of ps pid = Some p" and "p_decision p = None"
  shows "index_step ps (new_row cd rows rid now ''proposed_record'' pid pl None)
    = Inr (AList.update pid (p\<lparr>p_records := p_records p @
             [new_row cd rows rid now ''proposed_record'' pid pl None]\<rparr>) ps)"
  using assms by (simp add: index_step_def lookup_proposal_def)

lemma append_each_extends:
  assumes "append_each cd st pid recs = (res, st')"
    and "valid_stream cd (stream st) rows ps" and "codec_sound cd"
    and "map_of ps pid = Some p" and "p_decision p = None"
    and "distinct (map fst recs)"
    and "Some ` set (map fst recs) \<inter> set (map r_record_id rows) = {}"
  shows "extends cd rows (stream st) (map fst recs) st'"
  using assms
proof (induction recs arbitrary: st rows ps p res)
  case Nil
  then show ?case by (auto intro: extends_refl)
next
  case (Cons x recs)
  obtain rid now pl where x: "x = (rid, now, pl)" by (cases x) auto
  let ?row = "new_row cd rows rid now ''proposed_record'' pid pl None"
  obtain r1 st1 where a: "append_row cd st rid now ''proposed_record'' pid pl None = (r1, st1)"
    by fastforce
  from a Cons.prems(2) show ?case
  proof (cases rule: append_row_cases)
    case (1 e)
    with Cons.prems(1,2) a x show ?thesis by (auto intro: extends_refl)
  next
    case 2
    let ?ps = "AList.update pid (p\<lparr>p_records := p_records p @ [?row]\<rparr>) ps"
    have fresh: "Some rid \<notin> set (map r_record_id rows)" using Cons.prems(7) x by auto
    have v1: "valid_stream cd (stream st1) (rows @ [?row]) ?ps"
      using append_valid [OF Cons.prems(2,3) fresh refl index_step_propose [OF Cons.prems(4,5)]] 2(2)
      by simp
    obtain r2 where "append_each cd st1 pid recs = (r2, st')"
      using Cons.prems(1) a 2(1) x by (auto split: prod.splits sum.splits)
    moreover have "map_of ?ps pid = Some (p\<lparr>p_records := p_records p @ [?row]\<rparr>)"
      by (simp add: map_of_update_cases)
    moreover have "Some ` set (map fst recs) \<inter> set (map r_record_id (rows @ [?row])) = {}"
      using Cons.prems(6,7) x by auto
    ultimately have "extends cd (rows @ [?row]) (stream st1) (map fst recs) st'"
      using Cons.IH [OF _ v1 Cons.prems(3)] Cons.prems(5,6) by simp
    then have "extends cd rows (stream st) ([rid] @ map fst recs) st'"
      by (rule extends_trans) (simp_all add: 2(2))
    with x show ?thesis by simp
  qed
qed

lemma exec_extends:
  assumes v: "valid_stream cd (stream st) rows ps" and c: "codec_sound cd"
    and d: "distinct (drawn_ids cmd)"
    and fresh: "Some ` set (drawn_ids cmd) \<inter> set (map r_record_id rows) = {}"
  shows "extends cd rows (stream st) (drawn_ids cmd) (exec cd st cmd)"
proof -
  have li: "load_index cd refusal (stream st) = Inr (rows, ps)" for refusal
    using v by (simp add: load_index_iff_valid)
  note refl = extends_refl [OF v]
  show ?thesis
  proof (cases cmd)
    case (Begin rid now pid pl)
    have "extends cd rows (stream st) [rid] (snd (append_row cd st rid now ''proposal'' pid pl None))"
      if "map_of ps pid = None"
      using fresh Begin that by (intro append_row_extends [OF v c]) (auto simp: index_step_def)
    then show ?thesis
      using refl Begin by (auto simp: begin_proposal_def li split: option.splits)
  next
    case (Propose pid recs)
    show ?thesis
    proof (cases "recs \<noteq> [] \<and> (\<exists>p. map_of ps pid = Some p \<and> p_decision p = None)")
      case True
      then obtain p where p: "map_of ps pid = Some p" "p_decision p = None" and "recs \<noteq> []"
        by blast
      then have "append_proposed cd st pid recs = append_each cd st pid recs"
        by (simp add: append_proposed_def li)
      then show ?thesis
        using append_each_extends [OF _ v c p] d fresh Propose
        by (cases "append_each cd st pid recs") auto
    next
      case False
      then have "snd (append_proposed cd st pid recs) = st"
        by (cases "map_of ps pid") (auto simp: append_proposed_def li)
      with Propose refl show ?thesis by simp
    qed
  next
    case (Decide rid now pid verdict pl)
    have "extends cd rows (stream st) [rid]
        (snd (append_row cd st rid now ''decision'' pid pl (Some verdict)))"
      if "map_of ps pid = Some p" "p_decision p = None"
        "verdict = ''accepted'' \<or> verdict = ''rejected''" for p
      using fresh Decide that
      by (intro append_row_extends [OF v c]) (auto simp: index_step_def lookup_proposal_def)
    then show ?thesis
      using refl Decide by (auto simp: decide_def li split: option.splits)
  qed
qed

definition run_all :: "'p codec \<Rightarrow> 'p command list \<Rightarrow> store \<Rightarrow> store" where
  "run_all cd cmds st = foldl (exec cd) st cmds"

lemma run_all_extends:
  assumes "valid_stream cd (stream st) rows ps" and "codec_sound cd"
    and "distinct (concat (map drawn_ids cmds))"
    and "Some ` set (concat (map drawn_ids cmds)) \<inter> set (map r_record_id rows) = {}"
  shows "extends cd rows (stream st) (concat (map drawn_ids cmds)) (run_all cd cmds st)"
  using assms
proof (induction cmds arbitrary: st rows ps)
  case Nil
  then show ?case by (simp add: run_all_def extends_refl)
next
  case (Cons cmd cmds)
  have "extends cd rows (stream st) (drawn_ids cmd) (exec cd st cmd)"
    using Cons.prems by (intro exec_extends) auto
  then obtain rs ps' where v: "valid_stream cd (stream (exec cd st cmd)) (rows @ rs) ps'"
    and p: "prefix (stream st) (stream (exec cd st cmd))"
    and ids: "set (map r_record_id rs) \<subseteq> Some ` set (drawn_ids cmd)"
    by (auto simp: extends_def)
  have "extends cd (rows @ rs) (stream (exec cd st cmd)) (concat (map drawn_ids cmds))
          (run_all cd cmds (exec cd st cmd))"
    using Cons.prems ids by (intro Cons.IH [OF v]) fastforce+
  from extends_trans [OF this p ids] show ?case by (simp add: run_all_def)
qed

section \<open>Torn tails and recovery\<close>

text \<open>A crash in the middle of an append leaves a tail without a newline.\<close>

definition torn :: "store \<Rightarrow> string \<Rightarrow> store" where
  "torn st t = st\<lparr>stream := stream st @ t\<rparr>"

lemma load_index_torn:
  assumes "valid_stream cd raw rows ps" and "LF \<notin> set t" and "t \<noteq> []"
  shows "load_index cd refusal (raw @ t) = Inl (LedgerError refusal)"
  using assms by (simp add: load_index_def load_torn valid_stream_def)

lemma exec_torn:
  assumes "valid_stream cd (stream st) rows ps" and "LF \<notin> set t" and "t \<noteq> []"
  shows "exec cd (torn st t) cmd = torn st t"
  by (cases cmd)
     (simp_all add: begin_proposal_def append_proposed_def decide_def torn_def
        load_index_torn [OF assms])

lemma recover_torn:
  assumes "valid_stream cd (stream st) rows ps" and "LF \<notin> set t" and "t \<noteq> []"
    and "\<not> lock_unsafe st"
  shows "recover cd sha (torn st t) False
    = (Inr (signed_report sha (make_report ''truncated_incomplete_tail'' (length t) ps rows)), st)"
proof -
  have "load cd (stream st @ t) = Inr (rows, length t)"
    using assms(1-3) by (simp add: load_torn valid_stream_def)
  moreover have "load_index cd refusal (stream st) = Inr (rows, ps)" for refusal
    using assms(1) by (simp add: load_index_iff_valid)
  ultimately show ?thesis
    using assms(3,4) by (simp add: recover_def torn_def Let_def)
qed

lemma recover_whole:
  assumes "valid_stream cd (stream st) rows ps" and "\<not> lock_unsafe st"
  shows "recover cd sha st persist =
    (let report = signed_report sha (make_report ''no_physical_tail_change'' 0 ps rows)
     in if persist
        then (case persist_report st report of
                (Inl e, st'') \<Rightarrow> (Inl e, st'') | (Inr _, st'') \<Rightarrow> (Inr report, st''))
        else (Inr report, st))"
proof -
  have "load_index cd refusal (stream st) = Inr (rows, ps)" for refusal
    using assms(1) by (simp add: load_index_iff_valid)
  moreover have "load cd (stream st) = Inr (rows, 0)"
    using assms(1) by (simp add: load_whole valid_stream_def)
  ultimately show ?thesis
    using assms(2) by (simp add: recover_def Let_def)
qed

lemma persist_report_found:
  "persist_report st d = (Inr n, st') \<Longrightarrow>
     map_of (reports st') (report_name d) = Some (ReportFile d) \<and> stream st' = stream st"
  by (auto simp: persist_report_def map_of_update_cases split: option.splits if_splits)

lemma append_row_reports [simp]: "reports (snd (append_row cd st rid now k pid pl oc)) = reports st"
  by (auto simp: append_row_def Let_def split: sum.splits)

lemma append_each_reports [simp]: "reports (snd (append_each cd st pid recs)) = reports st"
proof (induction recs arbitrary: st)
  case (Cons x recs)
  obtain rid now pl where x: "x = (rid, now, pl)" by (cases x) auto
  obtain r st1 where a: "append_row cd st rid now ''proposed_record'' pid pl None = (r, st1)"
    by fastforce
  then have "reports st1 = reports st" by (metis append_row_reports snd_conv)
  with a x Cons.IH [of st1] show ?case by (auto split: sum.splits prod.splits)
qed simp

lemma exec_reports [simp]: "reports (exec cd st cmd) = reports st"
  by (cases cmd)
     (simp_all add: begin_proposal_def append_proposed_def decide_def split: sum.splits option.splits)

lemma run_all_reports [simp]: "reports (run_all cd cmds st) = reports st"
  by (induction cmds arbitrary: st) (simp_all add: run_all_def)

lemma valid_head:
  assumes "valid_stream cd raw rows ps" and "rows \<noteq> []"
  shows "r_sequence (last rows) = int (length rows)"
    and "\<exists>h. r_hash (last rows) = Some h"
proof -
  have "load_rows cd 1 None (ulines raw) = Inr rows"
    using assms(1) by (simp add: valid_stream_def)
  from load_rows_chain [OF this, of "length rows - 1"] assms(2)
  show "r_sequence (last rows) = int (length rows)" "\<exists>h. r_hash (last rows) = Some h"
    by (simp_all add: last_conv_nth Suc_leI)
qed

text \<open>A report about a prefix of a valid stream passes verification on the whole stream.\<close>

lemma verify_prefix_report:
  assumes v: "valid_stream cd raw rows ps"
    and v': "valid_stream cd (stream st) (rows @ rs) ps'"
    and found: "map_of (reports st) name
                  = Some (ReportFile (signed_report sha (make_report action affected ps rows)))"
  shows "verify_report cd sha st name = Inr (signed_report sha (make_report action affected ps rows))"
proof -
  have l: "load cd (stream st) = Inr (rows @ rs, 0)"
    using v' by (simp add: load_whole valid_stream_def)
  have i: "index rows = Inr ps"
    using v by (simp add: valid_stream_def)
  show ?thesis
  proof (cases "rows = []")
    case True
    with found l i show ?thesis
      by (simp add: verify_report_def signed_report_def make_report_def head_json_def head_hash_def)
  next
    case False
    from valid_head [OF v this] obtain h where
      "r_sequence (last rows) = int (length rows)" "r_hash (last rows) = Some h" by blast
    with False found l i show ?thesis
      by (simp add: verify_report_def signed_report_def make_report_def head_json_def head_hash_def)
  qed
qed

section \<open>Two writers\<close>

text \<open>
  \<open>begin_proposal\<close> looks the identifier up before it takes the lock, and \<open>append_row\<close>
  checks the rows that are there but not the row it adds.
\<close>

lemma begin_proposal_new:
  assumes "valid_stream cd (stream st) rows ps" and "map_of ps pid = None" and "pid \<noteq> []"
  shows "begin_proposal cd st rid now pid pl = append_row cd st rid now ''proposal'' pid pl None"
  using assms(2,3) load_index_iff_valid [THEN iffD2, OF assms(1)]
  by (simp add: begin_proposal_def)

lemma append_row_ok:
  assumes "valid_stream cd (stream st) rows ps" and "\<not> lock_unsafe st"
  shows "append_row cd st rid now k pid pl oc =
    (let row = new_row cd rows rid now k pid pl oc
     in (Inr row, st\<lparr>stream := stream st @ dump_row cd row @ [LF]\<rparr>))"
  using assms(2) load_index_iff_valid [THEN iffD2, OF assms(1)]
  by (simp add: append_row_def)


lemma index_step_duplicate:
  "r_kind row = Some ''proposal'' \<Longrightarrow> r_proposal_id row = Some pid \<Longrightarrow> map_of ps pid = Some p \<Longrightarrow>
   index_step ps row = Inl (LedgerError ''invalid or duplicate proposal'')"
  by (simp add: index_step_def)

text \<open>The stream that an append of an acceptable row followed by an unacceptable one leaves.\<close>

lemma load_index_bad_row:
  assumes v: "valid_stream cd raw rows ps" and c: "codec_sound cd"
    and fresh: "Some rid \<notin> set (map r_record_id rows)"
    and row: "row = new_row cd rows rid now kind pid payload oc"
    and step: "index_step ps row = Inl e"
  shows "load_index cd refusal (raw @ dump_row cd row @ [LF]) = Inl e"
proof -
  have ok: "parse_row cd (dump_row cd row) = Obj row" "one_line (dump_row cd row)"
    using c by (auto simp: codec_sound_def)
  have w: "whole_lines raw" and l: "load_rows cd 1 None (ulines raw) = Inr rows"
    using v by (simp_all add: valid_stream_def)
  have "load_rows cd (1 + int (length rows)) (head_hash rows) [dump_row cd row] = Inr [row]"
    unfolding load_rows.simps ok(1)
    using new_row_hash [of cd rows rid now kind pid payload oc] by (simp add: row)
  then have "load_rows cd 1 None (ulines raw @ [dump_row cd row]) = Inr (rows @ [row])"
    by (simp add: load_rows_append l head_hash_def del: load_rows.simps(2))
  moreover have "whole_lines (raw @ dump_row cd row @ [LF])"
    by (rule whole_lines_append [OF whole_lines_snoc w])
  ultimately show ?thesis
    using v fresh step ok(2) w
    by (auto simp: valid_stream_def load_index_def load_whole ulines_append_line index_snoc row)
qed

section \<open>The hash chain\<close>

lemma unsigned_eqD: "unsigned r = unsigned r' \<Longrightarrow> r_hash r = r_hash r' \<Longrightarrow> r = (r' :: 'p row)"
  by (cases r; cases r') (simp add: unsigned_def)

lemma hash_chain_determines:
  assumes "load_rows cd 1 None ls = Inr rows" and "load_rows cd 1 None ls' = Inr rows'"
    and inj: "inj_on (sha_row cd) (unsigned ` (set rows \<union> set rows'))"
    and "length rows = length rows'" and "head_hash rows = head_hash rows'"
  shows "rows = rows'"
proof -
  let ?n = "length rows"
  have chain: "r_hash (rows ! k) = Some (sha_row cd (unsigned (rows ! k)))"
       "r_hash (rows' ! k) = Some (sha_row cd (unsigned (rows' ! k)))"
       "r_previous (rows ! k) = (if k = 0 then None else r_hash (rows ! (k - 1)))"
       "r_previous (rows' ! k) = (if k = 0 then None else r_hash (rows' ! (k - 1)))"
    if "k < ?n" for k
    using load_rows_chain [OF assms(1), of k] load_rows_chain [OF assms(2), of k] that assms(4)
    by simp_all
  have eq: "rows ! k = rows' ! k" if "k < ?n" and h: "r_hash (rows ! k) = r_hash (rows' ! k)" for k
  proof -
    have m: "rows ! k \<in> set rows" "rows' ! k \<in> set rows'" using that assms(4) by simp_all
    have "sha_row cd (unsigned (rows ! k)) = sha_row cd (unsigned (rows' ! k))"
      using chain(1,2) [OF that(1)] h by simp
    then have "unsigned (rows ! k) = unsigned (rows' ! k)"
      by (rule inj_onD [OF inj]) (use m in auto)
    then show ?thesis using h by (rule unsigned_eqD)
  qed
  have backwards: "rows ! (?n - 1 - j) = rows' ! (?n - 1 - j)" if "j < ?n" for j
    using that
  proof (induction j)
    case 0
    then have "rows \<noteq> []" "rows' \<noteq> []" using assms(4) by auto
    with assms(4,5) have "r_hash (rows ! (?n - 1)) = r_hash (rows' ! (?n - 1))"
      by (simp add: head_hash_def last_conv_nth)
    with 0 show ?case by (simp add: eq)
  next
    case (Suc j)
    let ?k = "?n - 1 - j"
    from Suc have k: "?k < ?n" "?k \<noteq> 0" "?k - 1 = ?n - 1 - Suc j" by auto
    from Suc have "rows ! ?k = rows' ! ?k" by simp
    then have "r_hash (rows ! (?k - 1)) = r_hash (rows' ! (?k - 1))"
      using chain(3,4) [OF k(1)] k(2) by simp
    then show ?case using k by (simp add: eq)
  qed
  have "rows ! i = rows' ! i" if "i < ?n" for i
    using backwards [of "?n - 1 - i"] that by simp
  with assms(4) show ?thesis by (simp add: list_eq_iff_nth_eq)
qed

end
