(* ===== verification/Ledger_Views.thy ===== *)
theory Ledger_Views
  imports Ledger_Safety
begin

text \<open>
  The readers of the ledger core: the committed-type projection with its freshness check
  (\<open>projection.py\<close>) and the review verdict (\<open>review.py\<close>).  The projection relies on
  the ledger through one interface, the locale \<open>audit_stream\<close>: its head moves with every
  append.  The payload's \<open>"type"\<close> entry is read by the argument \<open>type_of\<close>.
\<close>

section \<open>What a projection relies on\<close>

locale audit_stream =
  fixes head :: "'s \<Rightarrow> 'e + (int \<times> 'h)"
    and committed :: "'s \<Rightarrow> 'e + 'r list"
    and grows :: "'s \<Rightarrow> 's \<Rightarrow> bool"
  assumes head_moves: "grows s s' \<Longrightarrow> head s = Inr (n, h) \<Longrightarrow> \<exists>n' h'. head s' = Inr (n', h') \<and> n < n'"
    and committed_grows: "grows s s' \<Longrightarrow> committed s = Inr xs \<Longrightarrow> \<exists>ys. committed s' = Inr ys \<and> subseq xs ys"
    and grows_trans: "grows s s' \<Longrightarrow> grows s' s'' \<Longrightarrow> grows s s''"
begin

text \<open>A watermark taken at one state is never the head of a later one.\<close>

lemma watermark_expires:
  assumes "grows s s'" and "head s = Inr w"
  shows "head s' \<noteq> Inr w"
  using head_moves [OF assms(1), of "fst w" "snd w"] assms(2) by auto

text \<open>Whatever is counted over the committed records can only go up.\<close>

lemma committed_count_mono:
  assumes "grows s s'" and "committed s = Inr xs" and "committed s' = Inr ys"
  shows "length (filter P xs) \<le> length (filter P ys)"
proof -
  from committed_grows [OF assms(1,2)] assms(3) have "subseq xs ys" by auto
  then have "subseq (filter P xs) (filter P ys)" by (rule subseq_filter)
  then show ?thesis by (rule list_emb_length)
qed

end

section \<open>The projection\<close>

datatype 'd view_file = NotJsonView | ViewFile 'd

record projection_doc =
  pj_format :: string
  pj_id :: string
  pj_watermark :: "int \<times> string option"
  pj_counts :: "(string \<times> nat) list"
  pj_hash :: "string option"

type_synonym projections = "(string \<times> projection_doc view_file) list"

definition projection_format :: string where
  "projection_format = ''flowness-ledger-core/projection/v1''"

definition ledger_head :: "'p codec \<Rightarrow> string \<Rightarrow> lerr + (int \<times> string option)" where
  "ledger_head cd raw =
     rbind (load_index cd ''projection refuses an incomplete ledger tail'' raw) (\<lambda>(rows, ps).
       Inr (if rows = [] then (0, None) else (r_sequence (last rows), r_hash (last rows))))"

definition count_type :: "('p \<Rightarrow> string option) \<Rightarrow> (string \<times> nat) list \<Rightarrow> 'p row \<Rightarrow> (string \<times> nat) list" where
  "count_type type_of counts row =
     (case type_of (r_payload row) of
        None \<Rightarrow> counts
      | Some t \<Rightarrow> AList.update t ((case map_of counts t of None \<Rightarrow> 0 | Some n \<Rightarrow> n) + 1) counts)"

definition unsafe_projection_id :: "string \<Rightarrow> bool" where
  "unsafe_projection_id pid \<longleftrightarrow> pid = [] \<or> CHR ''/'' \<in> set pid \<or> sublist ''..'' pid"

definition rebuild_type_projection :: "'p codec \<Rightarrow> (projection_doc \<Rightarrow> string) \<Rightarrow> ('p \<Rightarrow> string option)
    \<Rightarrow> string \<Rightarrow> projections \<Rightarrow> string \<Rightarrow> (lerr + projection_doc) \<times> projections" where
  "rebuild_type_projection cd sha type_of raw files pid =
     (if unsafe_projection_id pid then (Inl (LedgerError ''projection_id is unsafe''), files)
      else case rbind (ledger_head cd raw) (\<lambda>w.
             rbind (read_view cd raw ''committed'') (\<lambda>rows. Inr (w, rows))) of
        Inl e \<Rightarrow> (Inl e, files)
      | Inr (w, rows) \<Rightarrow>
          let unsigned = \<lparr>pj_format = projection_format, pj_id = pid, pj_watermark = w,
                          pj_counts = sort_key fst (foldl (count_type type_of) [] rows),
                          pj_hash = None\<rparr>;
              payload = unsigned\<lparr>pj_hash := Some (sha unsigned)\<rparr>
          in (Inr payload, AList.update pid (ViewFile payload) files))"

definition read_fresh_type_projection :: "'p codec \<Rightarrow> (projection_doc \<Rightarrow> string) \<Rightarrow> string
    \<Rightarrow> projections \<Rightarrow> string \<Rightarrow> lerr + projection_doc" where
  "read_fresh_type_projection cd sha raw files pid =
     (case map_of files pid of
        None \<Rightarrow> Inl (LedgerError ''projection does not exist or is unsafe'')
      | Some NotJsonView \<Rightarrow> Inl (LedgerError ''projection is not valid JSON'')
      | Some (ViewFile payload) \<Rightarrow>
          (if pj_format payload \<noteq> projection_format
              \<or> pj_hash payload \<noteq> Some (sha (payload\<lparr>pj_hash := None\<rparr>))
           then Inl (LedgerError ''projection hash is invalid'')
           else rbind (ledger_head cd raw) (\<lambda>w.
             if pj_watermark payload \<noteq> w
             then Inl (LedgerError ''projection is stale; rebuild required'')
             else Inr payload)))"

section \<open>The review verdict\<close>

record verdict_doc =
  v_format :: string
  v_proposal_id :: string
  v_proposal_hash :: "string option"
  v_decision_hash :: "string option"
  v_decision :: "string option"
  v_verdict :: string
  v_record_hashes :: "string option list"
  v_hash :: "string option"

definition build_review_verdict :: "'p codec \<Rightarrow> (verdict_doc \<Rightarrow> string) \<Rightarrow> string \<Rightarrow> string
    \<Rightarrow> lerr + verdict_doc" where
  "build_review_verdict cd sha raw pid =
     rbind (load_index cd ''review verdict refuses incomplete ledger tail'' raw) (\<lambda>(rows, ps).
       case map_of ps pid of
         None \<Rightarrow> Inl (LedgerError ''review verdict proposal does not exist'')
       | Some p \<Rightarrow>
           (case p_decision p of
              None \<Rightarrow> Inl (LedgerError ''review verdict requires terminal decision'')
            | Some d \<Rightarrow>
                let unsigned =
                  \<lparr>v_format = ''flowness-ledger-core/review-verdict/v1'', v_proposal_id = pid,
                   v_proposal_hash = r_hash (p_begin p), v_decision_hash = r_hash d,
                   v_decision = r_outcome d,
                   v_verdict = (if r_outcome d = Some ''accepted'' then ''accepted_committed''
                                else ''rejected_not_committed''),
                   v_record_hashes = map r_hash (p_records p), v_hash = None\<rparr>
                in Inr (unsigned\<lparr>v_hash := Some (sha unsigned)\<rparr>)))"

section \<open>The ledger is an audit stream\<close>

text \<open>One stream is a strict, still valid extension of another.\<close>

definition stream_grows :: "'p codec \<Rightarrow> string \<Rightarrow> string \<Rightarrow> bool" where
  "stream_grows cd raw raw' \<longleftrightarrow>
     (\<exists>rows rs ps ps'. rs \<noteq> [] \<and> valid_stream cd raw rows ps \<and> valid_stream cd raw' (rows @ rs) ps')"

lemma ledger_head_valid:
  "valid_stream cd raw rows ps \<Longrightarrow> ledger_head cd raw =
     Inr (int (length rows), head_hash rows)"
  using valid_head(1) [of cd raw rows ps]
  by (auto simp: ledger_head_def load_index_iff_valid [THEN iffD2] head_hash_def)

lemma read_view_valid:
  assumes "valid_stream cd raw rows ps"
  shows "read_view cd raw ''audit'' = Inr rows"
    and "read_view cd raw ''committed'' = Inr (committed_rows ps rows)"
  using load_index_iff_valid [THEN iffD2, OF assms] by (simp_all add: read_view_def)

lemma valid_stream_unique:
  "valid_stream cd raw rows ps \<Longrightarrow> valid_stream cd raw rows' ps' \<Longrightarrow> rows' = rows \<and> ps' = ps"
  by (auto simp: valid_stream_def)

interpretation ledger: audit_stream
  "ledger_head cd" "\<lambda>raw. read_view cd raw ''committed''" "stream_grows cd" for cd :: "'p codec"
proof unfold_locales
  fix s s' n h
  assume "stream_grows cd s s'" "ledger_head cd s = Inr (n, h)"
  then show "\<exists>n' h'. ledger_head cd s' = Inr (n', h') \<and> n < n'"
    by (force simp: stream_grows_def ledger_head_valid)
next
  fix s s' xs
  assume "stream_grows cd s s'" "read_view cd s ''committed'' = Inr xs"
  then obtain rows rs ps ps' where
    v: "valid_stream cd s rows ps" "valid_stream cd s' (rows @ rs) ps'"
    and "xs = committed_rows ps rows"
    by (auto simp: stream_grows_def read_view_valid(2))
  moreover have "subseq (committed_rows ps rows) (committed_rows ps' (rows @ rs))"
    using v by (intro committed_rows_mono) (simp_all add: valid_stream_def)
  ultimately show "\<exists>ys. read_view cd s' ''committed'' = Inr ys \<and> subseq xs ys"
    by (simp add: read_view_valid(2))
next
  fix s s' s''
  assume "stream_grows cd s s'" "stream_grows cd s' s''"
  then obtain r0 r1 p0 p1 r2 r3 p2 p3 where
    a: "r1 \<noteq> []" "valid_stream cd s r0 p0" "valid_stream cd s' (r0 @ r1) p1" and
    b: "valid_stream cd s' r2 p2" "valid_stream cd s'' (r2 @ r3) p3"
    by (auto simp: stream_grows_def)
  from a(3) b(1) have "r2 = r0 @ r1" by (auto dest: valid_stream_unique)
  with a b show "stream_grows cd s s''"
    unfolding stream_grows_def
    by (intro exI [of _ r0] exI [of _ "r1 @ r3"] exI [of _ p0] exI [of _ p3]) auto
qed

lemma count_type_map:
  "map_of (count_type type_of counts row) t =
     (if type_of (r_payload row) = Some t
      then Some ((case map_of counts t of None \<Rightarrow> 0 | Some n \<Rightarrow> n) + 1) else map_of counts t)"
  by (auto simp: count_type_def map_of_update_cases split: option.splits)

lemma foldl_count_type:
  "map_of (foldl (count_type type_of) counts rows) t =
     (let n = length (filter (\<lambda>row. type_of (r_payload row) = Some t) rows)
      in if n = 0 then map_of counts t
         else Some ((case map_of counts t of None \<Rightarrow> 0 | Some m \<Rightarrow> m) + n))"
  by (induction rows arbitrary: counts) (auto simp: count_type_map Let_def)

lemma foldl_count_type_distinct:
  "distinct (map fst counts) \<Longrightarrow> distinct (map fst (foldl (count_type type_of) counts rows))"
  by (induction rows arbitrary: counts)
     (auto simp: count_type_def distinct_update split: option.splits)

lemma map_of_sort_key:
  assumes "distinct (map fst xs)"
  shows "map_of (sort_key fst xs) = map_of xs"
proof -
  have "distinct (map fst (sort_key fst xs))"
    using assms by (simp add: distinct_map)
  then show ?thesis
    by (intro map_of_inject_set [THEN iffD2]) (use assms in simp_all)
qed

end
