(* ===== verification/Ledger_Properties.thy ===== *)
theory Ledger_Properties
  imports Ledger_Views "HOL-Library.Countable"
begin

text \<open>
  The properties of the ledger core, each with a witness at a concrete input.  Two codecs
  serve the witnesses: a table that maps a few one-letter lines to rows, and an encoding of
  every row as a run of one letter, which is sound for all rows.
\<close>

section \<open>Codecs for the witnesses\<close>

definition table_codec :: "(string \<times> nat row) list \<Rightarrow> nat codec" where
  "table_codec tbl =
     \<lparr>parse_row = (\<lambda>s. case map_of tbl s of None \<Rightarrow> BadJson | Some r \<Rightarrow> Obj r),
      dump_row = (\<lambda>r. case map_of (map (\<lambda>(s, r). (r, s)) tbl) r of None \<Rightarrow> ''?'' | Some s \<Rightarrow> s),
      sha_row = (\<lambda>r. replicate (nat (r_sequence r)) (CHR ''h''))\<rparr>"

definition row_tuple :: "nat row \<Rightarrow> _" where
  "row_tuple r = (r_format r, r_record_id r, r_sequence r, r_kind r, r_proposal_id r,
                  r_occurred_at r, r_payload r, r_outcome r, r_previous r, r_hash r)"

definition tuple_row :: "_ \<Rightarrow> nat row" where
  "tuple_row t = (case t of (a, b, c, d, e, f, g, h, i, j) \<Rightarrow>
     \<lparr>r_format = a, r_record_id = b, r_sequence = c, r_kind = d, r_proposal_id = e,
      r_occurred_at = f, r_payload = g, r_outcome = h, r_previous = i, r_hash = j\<rparr>)"

definition unary_codec :: "nat codec" where
  "unary_codec =
     \<lparr>parse_row = (\<lambda>s. Obj (tuple_row (from_nat (length s)))),
      dump_row = (\<lambda>r. replicate (to_nat (row_tuple r)) (CHR ''x'')),
      sha_row = (\<lambda>r. replicate (to_nat (row_tuple r)) (CHR ''h''))\<rparr>"

lemma tuple_row_tuple [simp]: "tuple_row (row_tuple r) = r"
  by (simp add: row_tuple_def tuple_row_def)

lemma unary_codec_sound: "codec_sound unary_codec"
  by (simp add: codec_sound_def unary_codec_def one_line_def)

definition empty_store :: store where
  "empty_store = \<lparr>stream = [], lock_unsafe = False, reports = []\<rparr>"

lemma empty_store_valid: "valid_stream cd (stream empty_store) [] []"
  by (simp add: empty_store_def valid_stream_def index_def)

text \<open>A stream of three rows: a proposal, one record, its acceptance.\<close>

definition demo_row :: "int \<Rightarrow> string \<Rightarrow> string option \<Rightarrow> nat row" where
  "demo_row n kind oc =
     \<lparr>r_format = ledger_format, r_record_id = Some (replicate (nat n) (CHR ''i'')), r_sequence = n,
      r_kind = Some kind, r_proposal_id = Some ''p'', r_occurred_at = ''t'', r_payload = 7,
      r_outcome = oc,
      r_previous = (if n = 1 then None else Some (replicate (nat n - 1) (CHR ''h''))),
      r_hash = Some (replicate (nat n) (CHR ''h''))\<rparr>"

definition demo_rows :: "nat row list" where
  "demo_rows = [demo_row 1 ''proposal'' None, demo_row 2 ''proposed_record'' None,
                demo_row 3 ''decision'' (Some ''accepted'')]"

definition demo_codec :: "nat codec" where
  "demo_codec = table_codec (zip [''a'', ''b'', ''c''] demo_rows)"

definition demo_stream :: string where
  "demo_stream = [CHR ''a'', LF, CHR ''b'', LF, CHR ''c'', LF]"

definition demo_proposal :: "nat proposal" where
  "demo_proposal = \<lparr>p_begin = demo_rows ! 0, p_records = [demo_rows ! 1], p_decision = Some (demo_rows ! 2)\<rparr>"

lemma demo_valid: "valid_stream demo_codec demo_stream demo_rows [(''p'', demo_proposal)]"
  by (simp add: valid_stream_def demo_stream_def whole_lines_def demo_codec_def table_codec_def
      demo_rows_def demo_row_def unsigned_def index_def index_step_def lookup_proposal_def
      demo_proposal_def numeral_2_eq_2 numeral_3_eq_3)

definition demo_store :: store where
  "demo_store = empty_store\<lparr>stream := demo_stream\<rparr>"

lemma demo_store_valid: "valid_stream demo_codec (stream demo_store) demo_rows [(''p'', demo_proposal)]"
  by (simp add: demo_store_def demo_valid)


text \<open>A short session on an empty ledger: begin, one record, accept.\<close>

definition demo_commands :: "nat command list" where
  "demo_commands = [Begin ''r1'' ''t'' ''p'' 7, Propose ''p'' [(''r2'', ''t'', 8)],
                    Decide ''r3'' ''t'' ''p'' ''accepted'' 9]"

text \<open>The rows such a session writes with the sound codec.\<close>

definition live1 :: "nat row" where
  "live1 = new_row unary_codec [] ''r1'' ''t'' ''proposal'' ''p'' 7 None"

definition live2 :: "nat row" where
  "live2 = new_row unary_codec [live1] ''r2'' ''t'' ''proposed_record'' ''p'' 8 None"

definition live3 :: "nat row" where
  "live3 = new_row unary_codec [live1, live2] ''r3'' ''t'' ''decision'' ''p'' 9 (Some ''accepted'')"

definition live_store :: store where
  "live_store = empty_store\<lparr>stream := (([] @ dump_row unary_codec live1 @ [LF])
     @ dump_row unary_codec live2 @ [LF]) @ dump_row unary_codec live3 @ [LF]\<rparr>"

definition live_proposal :: "nat proposal" where
  "live_proposal = \<lparr>p_begin = live1, p_records = [live2], p_decision = Some live3\<rparr>"

lemma live_fields [simp]:
  "r_record_id live1 = Some ''r1''" "r_kind live1 = Some ''proposal''" "r_proposal_id live1 = Some ''p''"
  "r_record_id live2 = Some ''r2''" "r_kind live2 = Some ''proposed_record''" "r_proposal_id live2 = Some ''p''"
  "r_record_id live3 = Some ''r3''" "r_kind live3 = Some ''decision''" "r_proposal_id live3 = Some ''p''"
  "r_outcome live3 = Some ''accepted''" "r_payload live3 = 9"
  by (simp_all only: live1_def live2_def live3_def new_row_simps)

lemma live_valid: "valid_stream unary_codec (stream live_store) [live1, live2, live3] [(''p'', live_proposal)]"
proof -
  have v0: "valid_stream unary_codec [] [] []"
    using empty_store_valid [of unary_codec] by (simp add: empty_store_def)
  have v1: "valid_stream unary_codec ([] @ dump_row unary_codec live1 @ [LF]) ([] @ [live1])
      [(''p'', \<lparr>p_begin = live1, p_records = [], p_decision = None\<rparr>)]"
    by (rule append_valid [OF v0 unary_codec_sound _ live1_def]) (simp_all add: index_step_def)
  have d2: "live2 = new_row unary_codec ([] @ [live1]) ''r2'' ''t'' ''proposed_record'' ''p'' 8 None"
    and d3: "live3 = new_row unary_codec (([] @ [live1]) @ [live2]) ''r3'' ''t'' ''decision'' ''p'' 9 (Some ''accepted'')"
    by (simp_all only: live2_def live3_def append_Nil append_Cons)
  have v2: "valid_stream unary_codec (([] @ dump_row unary_codec live1 @ [LF]) @ dump_row unary_codec live2 @ [LF])
      (([] @ [live1]) @ [live2]) [(''p'', \<lparr>p_begin = live1, p_records = [live2], p_decision = None\<rparr>)]"
    by (rule append_valid [OF v1 unary_codec_sound _ d2])
       (simp_all add: index_step_def lookup_proposal_def)
  have "valid_stream unary_codec (stream live_store) ((([] @ [live1]) @ [live2]) @ [live3]) [(''p'', live_proposal)]"
    unfolding live_store_def store.simps empty_store_def
    by (rule append_valid [OF v2 unary_codec_sound _ d3])
       (simp_all add: index_step_def lookup_proposal_def live_proposal_def)
  then show ?thesis by simp
qed

lemmas demo_start = empty_store_valid [of unary_codec] unary_codec_sound

lemma demo_ids: "concat (map drawn_ids demo_commands) = [''r1'', ''r2'', ''r3'']"
  by (simp add: demo_commands_def)

section \<open>Sequential operation\<close>

text \<open>C9: A ledger that loads stays loadable.  Whatever commands a client runs one after
  the other, successful or refused, the stream is afterwards a valid one whose rows
  extend the rows of before, and its text extends the text of before.\<close>

theorem ledger_run_stays_valid:
  assumes "valid_stream cd (stream st) rows ps" and "codec_sound cd"
    and "distinct (concat (map drawn_ids cmds))"
    and "Some ` set (concat (map drawn_ids cmds)) \<inter> set (map r_record_id rows) = {}"
  shows "\<exists>rs ps'. valid_stream cd (stream (run_all cd cmds st)) (rows @ rs) ps'
                \<and> prefix (stream st) (stream (run_all cd cmds st))"
  using run_all_extends [OF assms] by (auto simp: extends_def)

theorem ledger_run_stays_valid_witness:
  "\<exists>rs ps'. valid_stream unary_codec (stream (run_all unary_codec demo_commands empty_store)) ([] @ rs) ps'
          \<and> prefix (stream empty_store) (stream (run_all unary_codec demo_commands empty_store))"
  by (rule ledger_run_stays_valid [OF demo_start]) (simp_all add: demo_ids)

text \<open>C10: The committed view shows exactly the proposed records whose proposal has an
  accepting decision in the audit view, in the order of the audit view: nothing pending,
  nothing rejected, nothing lost.\<close>

theorem committed_view_exact:
  assumes "read_view cd raw ''audit'' = Inr rows"
  shows "read_view cd raw ''committed'' =
    Inr (filter (\<lambda>row. r_kind row = Some ''proposed_record'' \<and>
           (\<exists>d \<in> set rows. r_kind d = Some ''decision'' \<and> r_proposal_id d = r_proposal_id row
                          \<and> r_outcome d = Some ''accepted'')) rows)"
proof -
  obtain ps where v: "valid_stream cd raw rows ps"
    using assms by (auto simp: read_view_def py_simps load_index_iff_valid)
  then have i: "index rows = Inr ps" by (simp add: valid_stream_def)
  have "committed_rows ps rows = filter (\<lambda>row. row \<in> set (committed_rows ps rows)) rows"
    by (simp add: committed_rows_def cong: filter_cong)
  also have "\<dots> = filter (\<lambda>row. r_kind row = Some ''proposed_record'' \<and>
           (\<exists>d \<in> set rows. r_kind d = Some ''decision'' \<and> r_proposal_id d = r_proposal_id row
                          \<and> r_outcome d = Some ''accepted'')) rows"
    by (rule filter_cong) (auto simp: committed_rows_iff [OF i])
  finally show ?thesis by (simp add: read_view_valid [OF v])
qed

theorem committed_view_exact_witness:
  "read_view demo_codec demo_stream ''audit'' = Inr demo_rows \<and>
   read_view demo_codec demo_stream ''committed'' =
    Inr (filter (\<lambda>row. r_kind row = Some ''proposed_record'' \<and>
           (\<exists>d \<in> set demo_rows. r_kind d = Some ''decision'' \<and> r_proposal_id d = r_proposal_id row
                          \<and> r_outcome d = Some ''accepted'')) demo_rows)"
  using read_view_valid(1) [OF demo_valid]
  by (intro conjI committed_view_exact)

text \<open>A committed record is never retracted: after any further commands the committed
  view still contains the earlier one, in the same order.\<close>

theorem committed_never_retracted:
  assumes "valid_stream cd (stream st) rows ps" and "codec_sound cd"
    and "distinct (concat (map drawn_ids cmds))"
    and "Some ` set (concat (map drawn_ids cmds)) \<inter> set (map r_record_id rows) = {}"
  shows "\<exists>old new. read_view cd (stream st) ''committed'' = Inr old
           \<and> read_view cd (stream (run_all cd cmds st)) ''committed'' = Inr new \<and> subseq old new"
proof -
  obtain rs ps' where v: "valid_stream cd (stream (run_all cd cmds st)) (rows @ rs) ps'"
    using run_all_extends [OF assms] by (auto simp: extends_def)
  then have "subseq (committed_rows ps rows) (committed_rows ps' (rows @ rs))"
    using assms(1) by (intro committed_rows_mono) (simp_all add: valid_stream_def)
  then show ?thesis
    using read_view_valid(2) [OF v] read_view_valid(2) [OF assms(1)] by blast
qed

theorem committed_never_retracted_witness:
  "\<exists>old new. read_view unary_codec (stream empty_store) ''committed'' = Inr old
     \<and> read_view unary_codec (stream (run_all unary_codec demo_commands empty_store)) ''committed''
         = Inr new \<and> subseq old new"
  by (rule committed_never_retracted [OF demo_start]) (simp_all add: demo_ids)

text \<open>A decision is final.  Once a proposal is decided, after any further commands
  deciding it again returns the recorded decision when outcome and payload are the same
  and is refused otherwise, proposing more records is refused, and the store is unchanged.\<close>

theorem decision_is_final:
  assumes v: "valid_stream cd (stream st) rows ps" and "codec_sound cd"
    and "distinct (concat (map drawn_ids cmds))"
    and "Some ` set (concat (map drawn_ids cmds)) \<inter> set (map r_record_id rows) = {}"
    and p: "map_of ps pid = Some p" "p_decision p = Some d"
    and verdict: "verdict \<in> {''accepted'', ''rejected''}" and "recs \<noteq> []"
    and st': "st' = run_all cd cmds st"
  shows "decide cd st' rid now pid verdict payload =
           ((if r_outcome d = Some verdict \<and> r_payload d = payload then Inr d
             else Inl (LedgerError ''conflicting immutable decision'')), st')
         \<and> append_proposed cd st' pid recs = (Inl (LedgerError ''proposal is not pending''), st')"
proof -
  obtain rs ps' where v': "valid_stream cd (stream st') (rows @ rs) ps'"
    using run_all_extends [OF assms(1-4)] by (auto simp: extends_def st')
  have "rfold index_step ps rs = Inr ps'"
    using v v' by (simp add: valid_stream_def index_def rfold_append)
  then have "map_of ps' pid = Some p"
    by (rule index_extend_frozen [OF _ p(1)]) (simp add: p(2))
  moreover have "load_index cd refusal (stream st') = Inr (rows @ rs, ps')" for refusal
    using v' by (simp add: load_index_iff_valid)
  ultimately show ?thesis
    using p(2) verdict \<open>recs \<noteq> []\<close> by (auto simp: decide_def append_proposed_def)
qed

theorem decision_is_final_witness:
  "decide unary_codec (run_all unary_codec [] live_store) ''x'' ''t'' ''p'' ''rejected'' 7 =
     ((if r_outcome live3 = Some ''rejected'' \<and> r_payload live3 = 7 then Inr live3
       else Inl (LedgerError ''conflicting immutable decision'')), run_all unary_codec [] live_store)
   \<and> append_proposed unary_codec (run_all unary_codec [] live_store) ''p'' [(''y'', ''t'', 1)] =
     (Inl (LedgerError ''proposal is not pending''), run_all unary_codec [] live_store)"
  by (rule decision_is_final [OF live_valid unary_codec_sound, where p = live_proposal])
     (simp_all add: live_proposal_def)

section \<open>Crashes\<close>

text \<open>A torn tail is refused and recovered.  After a crash in the middle of an append
  every command leaves the file alone, every read is refused, and recovery removes the
  torn bytes and nothing else, and says in its report how many they were.\<close>

theorem torn_tail_recovers:
  assumes "valid_stream cd (stream st) rows ps" and "LF \<notin> set t" and "t \<noteq> []"
    and "\<not> lock_unsafe st"
  shows "run_all cd cmds (torn st t) = torn st t
    \<and> read_view cd (stream (torn st t)) ''audit''
           = Inl (LedgerError ''incomplete tail requires recover before reading'')
    \<and> (\<exists>report. recover cd sha (torn st t) False = (Inr report, st) \<and> d_affected report = length t)"
proof (intro conjI)
  show "run_all cd cmds (torn st t) = torn st t"
    by (induction cmds) (simp_all add: run_all_def exec_torn [OF assms(1-3)])
  show "read_view cd (stream (torn st t)) ''audit''
           = Inl (LedgerError ''incomplete tail requires recover before reading'')"
    by (simp add: read_view_def torn_def load_index_torn [OF assms(1-3)])
  show "\<exists>report. recover cd sha (torn st t) False = (Inr report, st) \<and> d_affected report = length t"
    unfolding recover_torn [OF assms] by (simp add: signed_report_def make_report_def)
qed

theorem torn_tail_recovers_witness:
  "run_all demo_codec [Begin ''r'' ''t'' ''q'' 0] (torn demo_store ''{'') = torn demo_store ''{''
   \<and> read_view demo_codec (stream (torn demo_store ''{'')) ''audit''
           = Inl (LedgerError ''incomplete tail requires recover before reading'')
   \<and> (\<exists>report. recover demo_codec d_action (torn demo_store ''{'') False = (Inr report, demo_store)
        \<and> d_affected report = length ''{'')"
  by (rule torn_tail_recovers [OF demo_store_valid]) (simp_all add: demo_store_def empty_store_def)

text \<open>A persisted recovery report stays verifiable: whatever is appended after the
  recovery, verifying the report by the name it was stored under returns the report.\<close>

theorem recovery_report_stays_verifiable:
  assumes "valid_stream cd (stream st) rows ps" and "codec_sound cd"
    and "distinct (concat (map drawn_ids cmds))"
    and "Some ` set (concat (map drawn_ids cmds)) \<inter> set (map r_record_id rows) = {}"
    and r: "recover cd sha st True = (Inr report, st')" and "\<not> lock_unsafe st"
  shows "verify_report cd sha (run_all cd cmds st') (report_name report) = Inr report"
proof -
  let ?report = "signed_report sha (make_report ''no_physical_tail_change'' 0 ps rows)"
  obtain n where rp: "report = ?report" and "persist_report st ?report = (Inr n, st')"
    using r recover_whole [OF assms(1) \<open>\<not> lock_unsafe st\<close>, of sha True]
    by (auto simp: Let_def split: prod.splits sum.splits)
  then have found: "map_of (reports st') (report_name ?report) = Some (ReportFile ?report)"
    and eq: "stream st' = stream st"
    using persist_report_found by blast+
  then have "valid_stream cd (stream st') rows ps" using assms(1) by simp
  from run_all_extends [OF this assms(2-4)] obtain rs ps' where
    "valid_stream cd (stream (run_all cd cmds st')) (rows @ rs) ps'"
    by (auto simp: extends_def)
  then show ?thesis
    unfolding rp by (rule verify_prefix_report [OF assms(1)]) (simp add: found)
qed

theorem recovery_report_stays_verifiable_witness:
  "\<exists>report st'. recover unary_codec d_action empty_store True = (Inr report, st') \<and>
     verify_report unary_codec d_action (run_all unary_codec demo_commands st') (report_name report)
       = Inr report"
proof -
  obtain report st' where r: "recover unary_codec d_action empty_store True = (Inr report, st')"
    using recover_whole [OF empty_store_valid [of unary_codec], of d_action True]
    by (simp add: empty_store_def persist_report_def Let_def)
  have "\<not> lock_unsafe empty_store" by (simp add: empty_store_def)
  with r have "verify_report unary_codec d_action (run_all unary_codec demo_commands st') (report_name report)
       = Inr report"
    by (intro recovery_report_stays_verifiable [OF demo_start]) (simp_all add: demo_ids)
  with r show ?thesis by blast
qed

text \<open>The hash chain fixes the history: two streams that load and have the same head
  hash and the same length carry the same rows, as long as the digest does not collide on
  the rows of the two.\<close>

theorem hash_chain_fixes_history:
  assumes "valid_stream cd raw rows ps" and "valid_stream cd raw' rows' ps'"
    and "inj_on (sha_row cd) (unsigned ` (set rows \<union> set rows'))"
    and "ledger_head cd raw = ledger_head cd raw'"
  shows "read_view cd raw ''audit'' = read_view cd raw' ''audit''"
proof -
  have "length rows = length rows'" "head_hash rows = head_hash rows'"
    using assms(4) by (simp_all add: ledger_head_valid [OF assms(1)] ledger_head_valid [OF assms(2)])
  with assms(1-3) have "rows = rows'"
    by (intro hash_chain_determines) (auto simp: valid_stream_def)
  then show ?thesis by (simp add: read_view_valid [OF assms(1)] read_view_valid [OF assms(2)])
qed

theorem hash_chain_fixes_history_witness:
  "read_view demo_codec demo_stream ''audit'' = read_view demo_codec demo_stream ''audit''
   \<and> inj_on (sha_row demo_codec) (unsigned ` (set demo_rows \<union> set demo_rows))"
proof -
  have inj: "inj_on (sha_row demo_codec) (unsigned ` (set demo_rows \<union> set demo_rows))"
    by (simp add: demo_codec_def table_codec_def demo_rows_def demo_row_def unsigned_def inj_on_def
        numeral_2_eq_2 numeral_3_eq_3)
  show ?thesis
    using hash_chain_fixes_history [OF demo_valid demo_valid inj refl] inj by blast
qed

section \<open>Two writers\<close>

text \<open>Two concurrent begins of one identifier break the ledger.  \<open>begin_proposal\<close>
  looks the identifier up before the append takes the lock.  When two writers have both
  looked and not found it, each goes on to the append of a proposal row; both appends
  succeed one after the other, and from then on every read, append and decision is refused.\<close>

theorem begin_race_breaks_ledger:
  assumes v: "valid_stream cd (stream st) rows ps" and c: "codec_sound cd"
    and new: "map_of ps pid = None" "pid \<noteq> []" and lock: "\<not> lock_unsafe st"
    and ids: "rid1 \<noteq> rid2" "Some rid1 \<notin> set (map r_record_id rows)"
      "Some rid2 \<notin> set (map r_record_id rows)"
    and st1: "append_row cd st rid1 now1 ''proposal'' pid pl1 None = (res1, st1)"
    and st2: "append_row cd st1 rid2 now2 ''proposal'' pid pl2 None = (res2, st2)"
  shows "begin_proposal cd st rid1 now1 pid pl1 = append_row cd st rid1 now1 ''proposal'' pid pl1 None
    \<and> begin_proposal cd st rid2 now2 pid pl2 = append_row cd st rid2 now2 ''proposal'' pid pl2 None
    \<and> (is_ok res1 \<and> is_ok res2) \<and> run_all cd cmds st2 = st2
    \<and> read_view cd (stream st2) ''audit'' = Inl (LedgerError ''invalid or duplicate proposal'')"
proof (intro conjI)
  show "begin_proposal cd st rid1 now1 pid pl1 = append_row cd st rid1 now1 ''proposal'' pid pl1 None"
    "begin_proposal cd st rid2 now2 pid pl2 = append_row cd st rid2 now2 ''proposal'' pid pl2 None"
    by (rule begin_proposal_new [OF v new])+
  let ?r1 = "new_row cd rows rid1 now1 ''proposal'' pid pl1 None"
  let ?r2 = "new_row cd (rows @ [?r1]) rid2 now2 ''proposal'' pid pl2 None"
  let ?ps = "AList.update pid \<lparr>p_begin = ?r1, p_records = [], p_decision = None\<rparr> ps"
  have 1: "st1 = st\<lparr>stream := stream st @ dump_row cd ?r1 @ [LF]\<rparr>" "is_ok res1"
    using st1 by (auto simp: append_row_ok [OF v lock] Let_def)
  have step: "index_step ps ?r1 = Inr ?ps" using new by (simp add: index_step_def)
  have v1: "valid_stream cd (stream st1) (rows @ [?r1]) ?ps"
    using append_valid [OF v c ids(2) refl step] 1 by simp
  have lock1: "\<not> lock_unsafe st1" using 1 lock by simp
  have 2: "st2 = st1\<lparr>stream := stream st1 @ dump_row cd ?r2 @ [LF]\<rparr>" "is_ok res2"
    using st2 by (auto simp: append_row_ok [OF v1 lock1] Let_def)
  show "is_ok res1" "is_ok res2" using 1 2 by simp_all
  have "index_step ?ps ?r2 = Inl (LedgerError ''invalid or duplicate proposal'')"
    by (simp add: index_step_def map_of_update_cases)
  then have bad: "load_index cd refusal (stream st2) = Inl (LedgerError ''invalid or duplicate proposal'')"
    for refusal
    using load_index_bad_row [OF v1 c _ refl, of rid2] ids 2 by simp
  show "read_view cd (stream st2) ''audit'' = Inl (LedgerError ''invalid or duplicate proposal'')"
    by (simp add: read_view_def bad)
  have "exec cd st2 cmd = st2" for cmd
    by (cases cmd) (simp_all add: begin_proposal_def append_proposed_def decide_def bad)
  then show "run_all cd cmds st2 = st2"
    by (induction cmds) (simp_all add: run_all_def)
qed

theorem begin_race_breaks_ledger_witness:
  "\<exists>st1 st2 res1 res2. append_row unary_codec empty_store ''r1'' ''t'' ''proposal'' ''p'' 1 None = (res1, st1) \<and>
     append_row unary_codec st1 ''r2'' ''t'' ''proposal'' ''p'' 2 None = (res2, st2) \<and>
     begin_proposal unary_codec empty_store ''r2'' ''t'' ''p'' 2
       = append_row unary_codec empty_store ''r2'' ''t'' ''proposal'' ''p'' 2 None \<and>
     read_view unary_codec (stream st2) ''audit'' = Inl (LedgerError ''invalid or duplicate proposal'')"
proof -
  obtain res1 st1 where 1: "append_row unary_codec empty_store ''r1'' ''t'' ''proposal'' ''p'' 1 None = (res1, st1)"
    by fastforce
  obtain res2 st2 where 2: "append_row unary_codec st1 ''r2'' ''t'' ''proposal'' ''p'' 2 None = (res2, st2)"
    by fastforce
  have "map_of [] ''p'' = None" "''p'' \<noteq> []" "\<not> lock_unsafe empty_store" "''r1'' \<noteq> ''r2''"
    "Some ''r1'' \<notin> set (map r_record_id [])" "Some ''r2'' \<notin> set (map r_record_id [])"
    by (simp_all add: empty_store_def)
  from begin_race_breaks_ledger [OF demo_start this 1 2] 1 2 show ?thesis by blast
qed

section \<open>Projections and verdicts\<close>

text \<open>A type projection is fresh until the ledger grows.  Rebuilding the projection of
  a valid stream stores, for every type, the number of committed records of that type;
  reading it back returns it; and once the stream has grown the read is refused as stale.\<close>

theorem projection_fresh_then_stale:
  assumes v: "valid_stream cd raw rows ps" and id: "\<not> unsafe_projection_id pid"
    and grown: "stream_grows cd raw raw'"
    and built: "rebuild_type_projection cd sha type_of raw files pid = (res, files')"
  shows "\<exists>d. res = Inr d \<and> read_fresh_type_projection cd sha raw files' pid = Inr d
     \<and> (\<forall>t. map_of (pj_counts d) t =
           (let n = length (filter (\<lambda>r. type_of (r_payload r) = Some t) (committed_rows ps rows))
            in if n = 0 then None else Some n))
     \<and> read_fresh_type_projection cd sha raw' files' pid
         = Inl (LedgerError ''projection is stale; rebuild required'')"
proof -
  let ?w = "(int (length rows), head_hash rows)"
  let ?counts = "foldl (count_type type_of) [] (committed_rows ps rows)"
  define d0 where "d0 = \<lparr>pj_format = projection_format, pj_id = pid, pj_watermark = ?w,
                          pj_counts = sort_key fst ?counts, pj_hash = None\<rparr>"
  define d where "d = d0\<lparr>pj_hash := Some (sha d0)\<rparr>"
  have head: "ledger_head cd raw = Inr ?w" by (rule ledger_head_valid [OF v])
  have res: "res = Inr d" "map_of files' pid = Some (ViewFile d)"
    using built id by (auto simp: rebuild_type_projection_def head read_view_valid(2) [OF v]
        Let_def d_def d0_def map_of_update_cases)
  have [simp]: "pj_format d = projection_format" "pj_hash d = Some (sha d0)"
     "d\<lparr>pj_hash := None\<rparr> = d0" "pj_watermark d = ?w"
    by (simp_all add: d_def d0_def)
  have "map_of (pj_counts d) t =
           (let n = length (filter (\<lambda>r. type_of (r_payload r) = Some t) (committed_rows ps rows))
            in if n = 0 then None else Some n)" for t
    by (simp add: d_def d0_def map_of_sort_key foldl_count_type_distinct foldl_count_type Let_def)
  moreover have "read_fresh_type_projection cd sha raw files' pid = Inr d"
    by (simp add: read_fresh_type_projection_def res head)
  moreover obtain n' h' where "ledger_head cd raw' = Inr (n', h')" "int (length rows) < n'"
    using ledger.head_moves [OF grown head] by auto
  moreover have "ledger_head cd raw' \<noteq> Inr ?w"
    by (rule ledger.watermark_expires [OF grown head])
  ultimately show ?thesis
    using res by (auto simp: read_fresh_type_projection_def)
qed

theorem projection_fresh_then_stale_witness:
  "\<exists>d files'. rebuild_type_projection unary_codec pj_format (\<lambda>n. Some ''a'') [] [] ''v'' = (Inr d, files')
     \<and> read_fresh_type_projection unary_codec pj_format [] files' ''v'' = Inr d
     \<and> read_fresh_type_projection unary_codec pj_format (stream live_store) files' ''v''
         = Inl (LedgerError ''projection is stale; rebuild required'')"
proof -
  have v: "valid_stream unary_codec [] [] []"
    using empty_store_valid [of unary_codec] by (simp add: empty_store_def)
  have g: "stream_grows unary_codec [] (stream live_store)"
    unfolding stream_grows_def using v live_valid
    by (intro exI [of _ "[]"] exI [of _ "[live1, live2, live3]"] exI [of _ "[]"]
        exI [of _ "[(''p'', live_proposal)]"]) auto
  obtain res files' where r:
    "rebuild_type_projection unary_codec pj_format (\<lambda>n. Some ''a'') [] [] ''v'' = (res, files')"
    by fastforce
  have "\<not> unsafe_projection_id ''v''"
    by (auto simp: unsafe_projection_id_def sublist_def Cons_eq_append_conv)
  from projection_fresh_then_stale [OF v this g r] r show ?thesis by blast
qed

text \<open>A review verdict tells the truth about visibility.  A verdict is built exactly
  for the proposals that are decided; it says \<open>accepted_committed\<close> exactly when the
  outcome of the decision is \<open>accepted\<close>, it lists the hashes of the proposal's records in
  order, and in that case those records are in the committed view, in the other case none.\<close>

theorem review_verdict_matches_view:
  assumes "read_view cd raw ''audit'' = Inr rows"
    and "build_review_verdict cd sha raw pid = Inr doc"
  shows "\<exists>d \<in> set rows. r_kind d = Some ''decision'' \<and> r_proposal_id d = Some pid
      \<and> r_outcome d = v_decision doc \<and> r_hash d = v_decision_hash doc
      \<and> v_record_hashes doc = map r_hash
           (filter (\<lambda>r. r_kind r = Some ''proposed_record'' \<and> r_proposal_id r = Some pid) rows)
      \<and> (\<exists>vis. read_view cd raw ''committed'' = Inr vis
          \<and> filter (\<lambda>r. r_proposal_id r = Some pid) vis =
              (if v_verdict doc = ''accepted_committed''
               then filter (\<lambda>r. r_kind r = Some ''proposed_record'' \<and> r_proposal_id r = Some pid) rows
               else []))"
proof -
  obtain ps where v: "valid_stream cd raw rows ps"
    using assms(1) by (auto simp: read_view_def py_simps load_index_iff_valid)
  then have i: "index rows = Inr ps" by (simp add: valid_stream_def)
  then have inv: "index_inv rows ps" by (rule index_index_inv)
  obtain p d where p: "map_of ps pid = Some p" "p_decision p = Some d"
    and doc: "v_decision doc = r_outcome d" "v_decision_hash doc = r_hash d"
      "v_record_hashes doc = map r_hash (p_records p)"
      "v_verdict doc = ''accepted_committed'' \<longleftrightarrow> r_outcome d = Some ''accepted''"
    using assms(2) by (auto simp: build_review_verdict_def load_index_iff_valid [THEN iffD2, OF v]
        Let_def split: option.splits)
  have recs: "p_records p = filter (\<lambda>r. r_kind r = Some ''proposed_record'' \<and> r_proposal_id r = Some pid) rows"
    and decs: "filter (\<lambda>r. r_kind r = Some ''decision'' \<and> r_proposal_id r = Some pid) rows = [d]"
    using inv p unfolding index_inv_def by fastforce+
  have d: "d \<in> set rows" "r_kind d = Some ''decision''" "r_proposal_id d = Some pid"
    using decs by (auto dest: filter_eq_ConsD simp: filter_eq_Cons_iff)
  have "pid \<in> set (accepted_ids ps) \<longleftrightarrow> r_outcome d = Some ''accepted''"
    using p by (simp add: accepted_ids_iff index_distinct [OF i] del: map_of_eq_Some_iff)
  then have "filter (\<lambda>r. r_proposal_id r = Some pid) (committed_rows ps rows) =
      (if v_verdict doc = ''accepted_committed'' then p_records p else [])"
    by (auto simp: doc committed_rows_def recs filter_empty_conv intro!: filter_cong)
  with doc recs d read_view_valid(2) [OF v] show ?thesis
    by (intro bexI [of _ d]) simp_all
qed

theorem review_verdict_matches_view_witness:
  "\<exists>doc. build_review_verdict demo_codec v_format demo_stream ''p'' = Inr doc \<and>
    (\<exists>d \<in> set demo_rows. r_kind d = Some ''decision'' \<and> r_outcome d = v_decision doc)"
proof -
  obtain doc where b: "build_review_verdict demo_codec v_format demo_stream ''p'' = Inr doc"
    by (simp add: build_review_verdict_def load_index_iff_valid [THEN iffD2, OF demo_valid]
        demo_proposal_def Let_def)
  from review_verdict_matches_view [OF read_view_valid(1) [OF demo_valid] b] b
  show ?thesis by blast
qed

end
