(* ===== verification/Event_Record.thy ===== *)
theory Event_Record
  imports Text_Lines
begin

text \<open>
  Event records of the harness (\<open>harness/src/towow/schemas\<close>): the intent a producer
  submits, the record the writer stamps, the transaction batch, and what their validators
  accept.  The values of the string enumerations (event types, categories, roles) are the
  strings themselves; \<open>BaseClassification\<close> is a datatype because the reader branches on
  it.  A validator returns the exception it raises or the validated value.
\<close>

section \<open>Data\<close>

datatype verr =
    ValueError string
  | MissingFields string "string list"
  | ForbiddenFields string "string list"
  | SchemaEvolution string
  | TypeError string
  | AttributeError string
  | ImmutabilityError string

datatype base_class = IMMUTABLE_TRUTH | ABSTRACTABLE_PROCESS | DISCARDABLE_NOISE

fun base_class_value :: "base_class \<Rightarrow> string" where
  "base_class_value IMMUTABLE_TRUTH = ''immutable_truth''"
| "base_class_value ABSTRACTABLE_PROCESS = ''abstractable_process''"
| "base_class_value DISCARDABLE_NOISE = ''discardable_noise''"

text \<open>\<open>BaseClassification(s)\<close>: \<open>None\<close> where the enumeration raises.\<close>

definition base_class_of :: "string \<Rightarrow> base_class option" where
  "base_class_of s =
     (if s = ''immutable_truth'' then Some IMMUTABLE_TRUTH
      else if s = ''abstractable_process'' then Some ABSTRACTABLE_PROCESS
      else if s = ''discardable_noise'' then Some DISCARDABLE_NOISE else None)"

record prov =
  actor_type :: string
  actor_id :: string
  session_id :: "string option"
  task_id :: "string option"
  run_id :: "string option"
  causation_event_id :: "string option"
  correlation_id :: "string option"
  daemon_name :: "string option"
  skill_id :: "string option"
  parent_session_id :: "string option"
  fork_name :: "string option"
  writer_id :: "string option"

record superseding =
  is_supersede :: bool
  superseded_event_id :: "string option"
  novelty :: "string option"
  novelty_type :: "string option"

record subject =
  entity_type :: string
  entity_id :: string
  role :: string

record event_record =
  event_id :: string
  sequence_number :: int
  timestamp :: string
  transaction_id :: "string option"
  batch_id :: "string option"
  batch_position :: "int option"
  record_hash :: string
  local_intent_id :: string
  event_type :: string
  event_category :: string
  payload :: dict
  provenance :: prov
  base_classification :: base_class
  supersede :: superseding
  subjects :: "subject list"
  schema_version :: string

record event_intent =
  i_local_intent_id :: string
  i_event_type :: string
  i_event_category :: string
  i_payload :: dict
  i_provenance_hint :: prov
  i_base_classification :: base_class
  i_supersede :: superseding
  i_subjects :: "subject list"
  i_schema_version :: string

datatype batch_status = COMMITTED | REJECTED

record batch =
  b_batch_id :: string
  b_transaction_id :: string
  b_status :: batch_status
  b_events :: "event_record list"

section \<open>Validators of the parts\<close>

text \<open>The names whose value is \<open>None\<close>, and those whose value is not.\<close>

definition missing_names :: "(string \<times> bool) list \<Rightarrow> string list" where
  "missing_names named = [name. (name, given) \<leftarrow> named, \<not> given]"

definition enforce_actor_type_boundary :: "prov \<Rightarrow> verr + prov" where
  "enforce_actor_type_boundary p =
     (if actor_type p = ''daemon'' \<and> daemon_name p = None
      then Inl (ValueError ''actor_type=daemon requires daemon_name'')
      else if actor_type p = ''agent_session'' \<and>
              missing_names [(''session_id'', session_id p \<noteq> None), (''skill_id'', skill_id p \<noteq> None)] \<noteq> []
      then Inl (MissingFields ''actor_type=agent_session''
              (missing_names [(''session_id'', session_id p \<noteq> None), (''skill_id'', skill_id p \<noteq> None)]))
      else if actor_type p = ''agent_fork'' \<and>
              missing_names [(''parent_session_id'', parent_session_id p \<noteq> None),
                             (''fork_name'', fork_name p \<noteq> None)] \<noteq> []
      then Inl (MissingFields ''actor_type=agent_fork''
              (missing_names [(''parent_session_id'', parent_session_id p \<noteq> None),
                              (''fork_name'', fork_name p \<noteq> None)]))
      else Inr p)"

definition supersede_fields :: "superseding \<Rightarrow> (string \<times> bool) list" where
  "supersede_fields s =
     [(''superseded_event_id'', superseded_event_id s \<noteq> None), (''novelty'', novelty s \<noteq> None),
      (''novelty_type'', novelty_type s \<noteq> None)]"

definition enforce_supersede_consistency :: "superseding \<Rightarrow> verr + superseding" where
  "enforce_supersede_consistency s =
     (if is_supersede s
      then (if missing_names (supersede_fields s) \<noteq> []
            then Inl (MissingFields ''supersede.is_supersede=true'' (missing_names (supersede_fields s)))
            else Inr s)
      else (if missing_names [(n, \<not> g). (n, g) \<leftarrow> supersede_fields s] \<noteq> []
            then Inl (ForbiddenFields ''supersede.is_supersede=false''
                        (missing_names [(n, \<not> g). (n, g) \<leftarrow> supersede_fields s]))
            else Inr s))"

definition enforce_path_consistency :: "event_record \<Rightarrow> verr + event_record" where
  "enforce_path_consistency r =
     (let has_tx = transaction_id r \<noteq> None; has_batch = batch_id r \<noteq> None;
          has_pos = batch_position r \<noteq> None;
          all_set = has_tx \<and> has_batch \<and> has_pos;
          none_set = \<not> (has_tx \<or> has_batch \<or> has_pos)
      in if \<not> (all_set \<or> none_set)
         then Inl (ValueError ''transaction_id / batch_id / batch_position must all be set or all None'')
         else Inr r)"

section \<open>Field constraints\<close>

definition is_digit :: "char \<Rightarrow> bool" where
  "is_digit c \<longleftrightarrow> c \<in> set ''0123456789''"

definition id_char :: "char \<Rightarrow> bool" where
  "id_char c \<longleftrightarrow> c \<in> set ''ABCDEFGHIJKLMNOPQRSTUVWXYZabcdefghijklmnopqrstuvwxyz0123456789_-''"

text \<open>The pattern \<open>^evt-[A-Za-z0-9_-]+$\<close>.\<close>

definition event_id_pattern :: "string \<Rightarrow> bool" where
  "event_id_pattern s \<longleftrightarrow> prefix ''evt-'' s \<and> drop 4 s \<noteq> [] \<and> list_all id_char (drop 4 s)"

text \<open>The pattern \<open>^[0-9]+.[0-9]+.[0-9]+$\<close> of a schema version, cut at the dots.\<close>

fun dot_parts :: "string \<Rightarrow> string list" where
  "dot_parts [] = [[]]"
| "dot_parts (c # cs) =
     (if c = CHR ''.'' then [] # dot_parts cs
      else (case dot_parts cs of [] \<Rightarrow> [[c]] | p # ps \<Rightarrow> (c # p) # ps))"

definition schema_version_pattern :: "string \<Rightarrow> bool" where
  "schema_version_pattern s \<longleftrightarrow>
     length (dot_parts s) = 3 \<and> list_all (\<lambda>p. p \<noteq> [] \<and> list_all is_digit p) (dot_parts s)"

definition prov_ok :: "prov \<Rightarrow> bool" where
  "prov_ok p \<longleftrightarrow> actor_type p \<noteq> [] \<and> actor_id p \<noteq> [] \<and> is_ok (enforce_actor_type_boundary p)"

definition subject_ok :: "subject \<Rightarrow> bool" where
  "subject_ok s \<longleftrightarrow> entity_id s \<noteq> []"

definition intent_ok :: "event_intent \<Rightarrow> bool" where
  "intent_ok i \<longleftrightarrow>
     i_local_intent_id i \<noteq> [] \<and> prov_ok (i_provenance_hint i)
     \<and> is_ok (enforce_supersede_consistency (i_supersede i))
     \<and> i_subjects i \<noteq> [] \<and> list_all subject_ok (i_subjects i)
     \<and> schema_version_pattern (i_schema_version i)"

definition record_ok :: "event_record \<Rightarrow> bool" where
  "record_ok r \<longleftrightarrow>
     event_id_pattern (event_id r) \<and> sequence_number r \<ge> 0
     \<and> (case batch_position r of None \<Rightarrow> True | Some p \<Rightarrow> p \<ge> 0) \<and> record_hash r \<noteq> [] \<and> local_intent_id r \<noteq> []
     \<and> prov_ok (provenance r) \<and> is_ok (enforce_supersede_consistency (supersede r))
     \<and> subjects r \<noteq> [] \<and> list_all subject_ok (subjects r)
     \<and> schema_version_pattern (schema_version r) \<and> is_ok (enforce_path_consistency r)"

section \<open>Transaction batches\<close>

definition is_sentinel :: "event_record \<Rightarrow> bool" where
  "is_sentinel r \<longleftrightarrow> event_type r = ''CommitAccepted'' \<or> event_type r = ''CommitRejected''"

fun strictly_increasing :: "int list \<Rightarrow> bool" where
  "strictly_increasing (x # y # xs) \<longleftrightarrow> x < y \<and> strictly_increasing (y # xs)"
| "strictly_increasing _ \<longleftrightarrow> True"

definition enforce_batch_invariants :: "batch \<Rightarrow> verr + batch" where
  "enforce_batch_invariants b =
     (if b_events b = [] then Inl (ValueError ''events must not be empty'')
      else if list_ex (\<lambda>ev. event_type ev = ''TransactionEnvelopeSubmitted'') (b_events b)
      then Inl (ValueError ''TransactionEnvelopeSubmitted must not appear in path-A batch'')
      else if \<not> strictly_increasing (map sequence_number (b_events b))
      then Inl (ValueError ''sequence_number must be strictly increasing within batch'')
      else if list_ex (\<lambda>ev. transaction_id ev \<noteq> Some (b_transaction_id b)
                            \<or> batch_id ev \<noteq> Some (b_batch_id b)) (b_events b)
      then Inl (ValueError ''event differs from batch'')
      else if event_type (last (b_events b)) \<noteq>
              (case b_status b of COMMITTED \<Rightarrow> ''CommitAccepted'' | REJECTED \<Rightarrow> ''CommitRejected'')
      then Inl (ValueError ''batch status requires a matching sentinel'')
      else Inr b)"

definition build_accepted_batch :: "string \<Rightarrow> string \<Rightarrow> event_record list \<Rightarrow> event_record \<Rightarrow> verr + batch" where
  "build_accepted_batch bid tid domain_records sentinel_record =
     enforce_batch_invariants
       \<lparr>b_batch_id = bid, b_transaction_id = tid, b_status = COMMITTED,
        b_events = domain_records @ [sentinel_record]\<rparr>"

definition build_rejected_batch :: "string \<Rightarrow> string \<Rightarrow> event_record list \<Rightarrow> event_record \<Rightarrow> verr + batch" where
  "build_rejected_batch bid tid gate_records sentinel_record =
     enforce_batch_invariants
       \<lparr>b_batch_id = bid, b_transaction_id = tid, b_status = REJECTED,
        b_events = gate_records @ [sentinel_record]\<rparr>"

lemma strictly_increasing_iff: "strictly_increasing xs \<longleftrightarrow> sorted_wrt (<) xs"
  by (induction xs rule: strictly_increasing.induct) (auto dest: order.strict_trans bspec)

lemma enforce_batch_ok_iff:
  "enforce_batch_invariants b = Inr b' \<longleftrightarrow>
     b' = b \<and> b_events b \<noteq> [] \<and> sorted_wrt (<) (map sequence_number (b_events b))
     \<and> (\<forall>ev \<in> set (b_events b). event_type ev \<noteq> ''TransactionEnvelopeSubmitted''
          \<and> transaction_id ev = Some (b_transaction_id b) \<and> batch_id ev = Some (b_batch_id b))
     \<and> event_type (last (b_events b)) =
          (case b_status b of COMMITTED \<Rightarrow> ''CommitAccepted'' | REJECTED \<Rightarrow> ''CommitRejected'')"
  by (auto simp: enforce_batch_invariants_def strictly_increasing_iff list_ex_iff
      split: if_splits)

lemma record_path:
  "record_ok r \<Longrightarrow> batch_id r = None \<longleftrightarrow> transaction_id r = None"
  by (auto simp: record_ok_def enforce_path_consistency_def Let_def split: if_splits)

lemma supersede_ok_iff:
  "is_ok (enforce_supersede_consistency s) \<longleftrightarrow>
     (superseded_event_id s \<noteq> None) = is_supersede s \<and> (novelty s \<noteq> None) = is_supersede s
     \<and> (novelty_type s \<noteq> None) = is_supersede s"
  by (cases "is_supersede s")
     (auto simp: enforce_supersede_consistency_def supersede_fields_def missing_names_def)

section \<open>Schema versions\<close>

definition is_known_schema_version :: "string \<Rightarrow> bool" where
  "is_known_schema_version v \<longleftrightarrow> v \<in> {''1.0.0''}"

datatype reader_action = Fail_Replay | Warn_And_Skip | Skip

fun unknown_version_reader_action :: "base_class \<Rightarrow> reader_action" where
  "unknown_version_reader_action IMMUTABLE_TRUTH = Fail_Replay"
| "unknown_version_reader_action ABSTRACTABLE_PROCESS = Warn_And_Skip"
| "unknown_version_reader_action DISCARDABLE_NOISE = Skip"

end
