(* ===== verification/Event_Visibility.thy ===== *)
theory Event_Visibility
  imports Event_Record
begin

text \<open>
  What a reader of the event log sees (\<open>l0/event_log/event_log.py\<close>): path-B records
  are visible at once, path-A records when the sentinel of their batch has been read.  The
  pydantic parser is the argument \<open>parse\<close>.  A generator is modelled by the list of what
  it yields together with the exception it ends with, if any.
\<close>

section \<open>The committed-visible stream\<close>

type_synonym buffer = "(string \<times> event_record list) list"
type_synonym 'a generated = "'a list \<times> verr option"

definition refusal :: "event_record \<Rightarrow> verr" where
  "refusal r = SchemaEvolution (event_id r)"

fun iter_committed :: "(string \<Rightarrow> event_record option) \<Rightarrow> buffer \<Rightarrow> string list
    \<Rightarrow> event_record generated" where
  "iter_committed parse buf [] = ([], None)"
| "iter_committed parse buf (line # lines) =
     (case parse line of
        None \<Rightarrow> iter_committed parse buf lines
      | Some r \<Rightarrow>
          (if \<not> is_known_schema_version (schema_version r)
           then (if unknown_version_reader_action (base_classification r) = Fail_Replay
                 then ([], Some (refusal r))
                 else iter_committed parse buf lines)
           else (case batch_id r of
                   None \<Rightarrow> (let (out, e) = iter_committed parse buf lines in (r # out, e))
                 | Some b \<Rightarrow>
                     (let buf' = bucket_add b r buf
                      in if is_sentinel r
                         then (let (out, e) = iter_committed parse (AList.delete b buf') lines
                               in (bucket buf' b @ out, e))
                         else iter_committed parse buf' lines))))"

definition committed_records :: "(string \<Rightarrow> event_record option) \<Rightarrow> string list
    \<Rightarrow> event_record generated" where
  "committed_records parse lines = iter_committed parse [] lines"

text \<open>One step of the same loop: what a record yields and the buffer it leaves.\<close>

definition vis_step :: "buffer \<Rightarrow> event_record \<Rightarrow> event_record list \<times> buffer" where
  "vis_step buf r =
     (case batch_id r of
        None \<Rightarrow> ([r], buf)
      | Some b \<Rightarrow>
          if is_sentinel r then (bucket (bucket_add b r buf) b, AList.delete b (bucket_add b r buf))
          else ([], bucket_add b r buf))"

fun vis_run :: "buffer \<Rightarrow> event_record list \<Rightarrow> event_record list \<times> buffer" where
  "vis_run buf [] = ([], buf)"
| "vis_run buf (r # rs) =
     (let (out, buf') = vis_step buf r; (out', buf'') = vis_run buf' rs in (out @ out', buf''))"

text \<open>The records of a raw line stream that the reader looks at.\<close>

definition readable :: "(string \<Rightarrow> event_record option) \<Rightarrow> string list \<Rightarrow> event_record list" where
  "readable parse lines =
     filter (\<lambda>r. is_known_schema_version (schema_version r)) (List.map_filter parse lines)"

definition no_unknown_truth :: "(string \<Rightarrow> event_record option) \<Rightarrow> string list \<Rightarrow> bool" where
  "no_unknown_truth parse lines \<longleftrightarrow>
     (\<forall>line \<in> set lines. \<forall>r. parse line = Some r \<longrightarrow> is_known_schema_version (schema_version r)
        \<or> base_classification r \<noteq> IMMUTABLE_TRUTH)"

lemma reader_action_fail: "unknown_version_reader_action c = Fail_Replay \<longleftrightarrow> c = IMMUTABLE_TRUTH"
  by (cases c) simp_all

lemma readable_simps [simp]:
  "readable parse [] = []"
  "readable parse (l # ls) =
     (case parse l of None \<Rightarrow> readable parse ls
      | Some r \<Rightarrow> if is_known_schema_version (schema_version r) then r # readable parse ls
                   else readable parse ls)"
  by (simp_all add: readable_def split: option.splits)

lemma readable_append: "readable parse (xs @ ys) = readable parse xs @ readable parse ys"
  by (simp add: readable_def map_filter_def)

lemma iter_committed_ok:
  "no_unknown_truth parse lines \<Longrightarrow>
   iter_committed parse buf lines = (fst (vis_run buf (readable parse lines)), None)"
proof (induction lines arbitrary: buf)
  case (Cons l ls)
  from Cons.prems have n: "no_unknown_truth parse ls"
    by (simp add: no_unknown_truth_def)
  show ?case
  proof (cases "parse l")
    case None
    with Cons.IH [OF n] show ?thesis by simp
  next
    case (Some r)
    show ?thesis
    proof (cases "is_known_schema_version (schema_version r)")
      case False
      with Some Cons.prems have "base_classification r \<noteq> IMMUTABLE_TRUTH"
        by (auto simp: no_unknown_truth_def)
      with Some False Cons.IH [OF n] show ?thesis by (simp add: reader_action_fail)
    next
      case True
      with Some Cons.IH [OF n] show ?thesis
        by (auto simp: vis_step_def Let_def split: option.splits prod.splits)
    qed
  qed
qed simp

lemma iter_committed_fails:
  assumes "\<not> no_unknown_truth parse lines"
  shows "\<exists>r. snd (iter_committed parse buf lines) = Some (refusal r)
           \<and> base_classification r = IMMUTABLE_TRUTH"
  using assms
proof (induction lines arbitrary: buf)
  case Nil
  then show ?case by (simp add: no_unknown_truth_def)
next
  case (Cons l ls)
  show ?case
  proof (cases "parse l")
    case None
    with Cons.prems have "\<not> no_unknown_truth parse ls" by (simp add: no_unknown_truth_def)
    with None Cons.IH show ?thesis by simp
  next
    case (Some r)
    show ?thesis
    proof (cases "is_known_schema_version (schema_version r) \<or> base_classification r \<noteq> IMMUTABLE_TRUTH")
      case True
      with Some Cons.prems have "\<not> no_unknown_truth parse ls" by (auto simp: no_unknown_truth_def)
      with Cons.IH Some True show ?thesis
        by (auto simp: Let_def reader_action_fail case_prod_beta split: option.splits)
    next
      case False
      with Some show ?thesis by (auto simp: reader_action_fail)
    qed
  qed
qed

section \<open>Laws of the visibility rule\<close>

lemma vis_run_append:
  "vis_run buf (xs @ ys) =
     (let (out, buf') = vis_run buf xs; (out', buf'') = vis_run buf' ys in (out @ out', buf''))"
  by (induction xs arbitrary: buf) (auto simp: Let_def case_prod_beta)

lemma bucket_delete [simp]: "bucket (AList.delete k al) k' = (if k' = k then [] else bucket al k')"
  by (simp add: bucket_def delete_conv')

text \<open>The visible records never run ahead of what has been read: visibility is monotone.\<close>

lemma vis_run_prefix: "prefix (fst (vis_run buf xs)) (fst (vis_run buf (xs @ ys)))"
  by (simp add: vis_run_append Let_def case_prod_beta)

text \<open>What is still buffered for a batch: its records since its last sentinel.\<close>

definition in_batch :: "string \<Rightarrow> event_record \<Rightarrow> bool" where
  "in_batch b r \<longleftrightarrow> batch_id r = Some b"

text \<open>Only the buckets of a buffer matter.\<close>

lemma vis_run_bucket_cong:
  "(\<And>b. bucket buf b = bucket buf' b) \<Longrightarrow>
     fst (vis_run buf xs) = fst (vis_run buf' xs)
     \<and> (\<forall>b. bucket (snd (vis_run buf xs)) b = bucket (snd (vis_run buf' xs)) b)"
proof (induction xs arbitrary: buf buf')
  case (Cons r rs)
  have "fst (vis_step buf r) = fst (vis_step buf' r)"
    using Cons.prems by (simp add: vis_step_def split: option.splits)
  moreover have "bucket (snd (vis_step buf r)) b = bucket (snd (vis_step buf' r)) b" for b
    using Cons.prems by (auto simp: vis_step_def split: option.splits)
  note Cons.IH [OF this]
  ultimately show ?case by (simp add: Let_def case_prod_beta)
qed simp

lemma vis_step_batch:
  "filter (in_batch b) (fst (vis_step buf r)) @ filter (in_batch b) (bucket (snd (vis_step buf r)) b)
     = filter (in_batch b) (bucket buf b) @ (if in_batch b r then [r] else [])"
  if "\<And>b' x. x \<in> set (bucket buf b') \<Longrightarrow> in_batch b' x"
proof -
  have "\<not> in_batch b x" if "x \<in> set (bucket buf b')" "b' \<noteq> b" for b' x
    using that \<open>\<And>b' x. x \<in> set (bucket buf b') \<Longrightarrow> in_batch b' x\<close> [of x b'] by (auto simp: in_batch_def)
  then show ?thesis
    by (auto simp: vis_step_def in_batch_def filter_empty_conv split: option.splits)
qed

definition buffer_ok :: "buffer \<Rightarrow> bool" where
  "buffer_ok buf \<longleftrightarrow> (\<forall>b. \<forall>x \<in> set (bucket buf b). in_batch b x)"

lemma buffer_ok_Nil [simp]: "buffer_ok []"
  by (simp add: buffer_ok_def)

lemma buffer_ok_step: "buffer_ok buf \<Longrightarrow> buffer_ok (snd (vis_step buf r))"
  by (auto simp: buffer_ok_def vis_step_def in_batch_def split: option.splits)

lemma buffer_ok_run: "buffer_ok buf \<Longrightarrow> buffer_ok (snd (vis_run buf rs))"
proof (induction rs arbitrary: buf)
  case (Cons r rs)
  from Cons.IH [OF buffer_ok_step [OF Cons.prems, of r]] show ?case
    by (simp add: Let_def case_prod_beta)
qed simp

text \<open>Per batch nothing is lost and nothing is reordered: what was yielded and what is
  still buffered together are the records of the batch in the order they were read.\<close>

lemma vis_run_batch:
  assumes "buffer_ok buf"
  shows "filter (in_batch b) (fst (vis_run buf rs)) @ bucket (snd (vis_run buf rs)) b
           = bucket buf b @ filter (in_batch b) rs"
  using assms
proof (induction rs arbitrary: buf)
  case Nil
  then show ?case by simp
next
  case (Cons r rs)
  have all: "filter (in_batch b) (bucket buf b) = bucket buf b" if "buffer_ok buf" for buf
    using that by (auto simp: buffer_ok_def filter_id_conv)
  have ok: "buffer_ok (snd (vis_step buf r))" using Cons.prems by (rule buffer_ok_step)
  have "filter (in_batch b) (fst (vis_step buf r)) @ bucket (snd (vis_step buf r)) b
          = bucket buf b @ (if in_batch b r then [r] else [])"
    using vis_step_batch [of buf b r] all [OF Cons.prems] all [OF ok] Cons.prems
    by (auto simp: buffer_ok_def)
  with Cons.IH [OF ok] show ?case
    by (auto simp: Let_def case_prod_beta)
qed

lemma vis_run_path_b:
  "filter (\<lambda>r. batch_id r = None) (fst (vis_run buf rs)) = filter (\<lambda>r. batch_id r = None) rs"
  if "buffer_ok buf"
  using that
proof (induction rs arbitrary: buf)
  case (Cons r rs)
  have "filter (\<lambda>r. batch_id r = None) (fst (vis_step buf r)) = (if batch_id r = None then [r] else [])"
    using Cons.prems by (auto simp: vis_step_def buffer_ok_def in_batch_def filter_empty_conv split: option.splits)
  with Cons.IH [OF buffer_ok_step [OF Cons.prems, of r]] show ?case
    by (auto simp: Let_def case_prod_beta)
qed simp

text \<open>The records of a list up to and with the last one that satisfies a test.\<close>

definition upto_last :: "('a \<Rightarrow> bool) \<Rightarrow> 'a list \<Rightarrow> 'a list" where
  "upto_last P xs = rev (dropWhile (\<lambda>x. \<not> P x) (rev xs))"

lemma upto_lastI:
  assumes "\<forall>y \<in> set ys. \<not> P y" and "xs \<noteq> [] \<Longrightarrow> P (last xs)"
  shows "upto_last P (xs @ ys) = xs"
proof -
  have "dropWhile (\<lambda>x. \<not> P x) (rev ys @ rev xs) = dropWhile (\<lambda>x. \<not> P x) (rev xs)"
    using assms(1) by (intro dropWhile_append2) auto
  also have "\<dots> = rev xs"
    using assms(2) by (cases xs rule: rev_cases) auto
  finally show ?thesis by (simp add: upto_last_def)
qed

definition no_sentinels :: "buffer \<Rightarrow> bool" where
  "no_sentinels buf \<longleftrightarrow> (\<forall>b. \<forall>x \<in> set (bucket buf b). \<not> is_sentinel x)"

lemma no_sentinels_step: "no_sentinels buf \<Longrightarrow> no_sentinels (snd (vis_step buf r))"
  by (auto simp: no_sentinels_def vis_step_def split: option.splits)

lemma no_sentinels_run: "no_sentinels buf \<Longrightarrow> no_sentinels (snd (vis_run buf rs))"
proof (induction rs arbitrary: buf)
  case (Cons r rs)
  from Cons.IH [OF no_sentinels_step [OF Cons.prems, of r]] show ?case
    by (simp add: Let_def case_prod_beta)
qed simp

lemma vis_step_yield:
  assumes "buffer_ok buf" and "filter (in_batch b) (fst (vis_step buf r)) \<noteq> []"
  shows "is_sentinel (last (filter (in_batch b) (fst (vis_step buf r))))"
proof -
  from assms(2) obtain x where x: "x \<in> set (fst (vis_step buf r))" "in_batch b x"
    by (auto simp: filter_empty_conv)
  then obtain b' where b': "batch_id r = Some b'" "is_sentinel r"
    by (auto simp: vis_step_def in_batch_def split: option.splits if_splits)
  then have out: "fst (vis_step buf r) = bucket buf b' @ [r]"
    by (simp add: vis_step_def)
  have "b' = b"
    using x assms(1) b'(1) by (auto simp: out buffer_ok_def in_batch_def)
  with b' show ?thesis by (simp add: out in_batch_def)
qed

lemma vis_run_yield:
  assumes "buffer_ok buf" and "filter (in_batch b) (fst (vis_run buf rs)) \<noteq> []"
  shows "is_sentinel (last (filter (in_batch b) (fst (vis_run buf rs))))"
  using assms
proof (induction rs arbitrary: buf)
  case (Cons r rs)
  let ?out = "filter (in_batch b) (fst (vis_run (snd (vis_step buf r)) rs))"
  have eq: "filter (in_batch b) (fst (vis_run buf (r # rs))) = filter (in_batch b) (fst (vis_step buf r)) @ ?out"
    by (simp add: Let_def case_prod_beta)
  show ?case
  proof (cases "?out = []")
    case True
    with Cons.prems show ?thesis
      unfolding eq True append_Nil2 by (intro vis_step_yield) auto
  next
    case False
    with Cons.IH [OF buffer_ok_step [OF Cons.prems(1)]] show ?thesis unfolding eq by simp
  qed
qed simp

text \<open>The rule in closed form: of a batch, the records up to its last sentinel are visible.\<close>

lemma visible_batch:
  "filter (in_batch b) (fst (vis_run [] rs)) = upto_last is_sentinel (filter (in_batch b) rs)"
proof -
  have "no_sentinels (snd (vis_run [] rs))"
    by (rule no_sentinels_run) (simp add: no_sentinels_def)
  then have "\<forall>x \<in> set (bucket (snd (vis_run [] rs)) b). \<not> is_sentinel x"
    by (simp add: no_sentinels_def)
  from upto_lastI [OF this, of "filter (in_batch b) (fst (vis_run [] rs))"]
    vis_run_batch [OF buffer_ok_Nil, of b rs] vis_run_yield [OF buffer_ok_Nil, of b rs]
  show ?thesis by simp
qed

section \<open>The narrowed scan for one event type\<close>

abbreviation QUOTE :: char where "QUOTE \<equiv> CHR 0x22"

definition quoted :: "string \<Rightarrow> string" where
  "quoted s = QUOTE # s @ [QUOTE]"

text \<open>A match of \<open>_BATCH_ID_RE\<close> at the start of a text, with its group: the name in
  quotes, a colon between white space, and a string without quotes or \<open>null\<close>.\<close>

definition batch_id_here :: "string \<Rightarrow> string option option" where
  "batch_id_here s =
     (if \<not> prefix (quoted ''batch_id'') s then None
      else (let t = dropWhile is_space (drop (length (quoted ''batch_id'')) s)
            in if t = [] \<or> hd t \<noteq> CHR '':'' then None
               else (let u = dropWhile is_space (tl t)
                     in if prefix ''null'' u then Some None
                        else if u \<noteq> [] \<and> hd u = QUOTE \<and> QUOTE \<in> set (tl u)
                        then Some (Some (takeWhile (\<lambda>c. c \<noteq> QUOTE) (tl u)))
                        else None)))"

fun batch_id_search :: "string \<Rightarrow> string option" where
  "batch_id_search [] = None"
| "batch_id_search (c # cs) =
     (case batch_id_here (c # cs) of Some g \<Rightarrow> g | None \<Rightarrow> batch_id_search cs)"

definition mentions :: "string \<Rightarrow> string \<Rightarrow> bool" where
  "mentions word line \<longleftrightarrow> sublist (quoted word) line"

definition maybe_sentinel :: "string \<Rightarrow> bool" where
  "maybe_sentinel line \<longleftrightarrow> mentions ''CommitAccepted'' line \<or> mentions ''CommitRejected'' line"

fun lines_possibly_of_type :: "string \<Rightarrow> (string \<times> string list) list \<Rightarrow> string list \<Rightarrow> string list" where
  "lines_possibly_of_type type pending [] = []"
| "lines_possibly_of_type type pending (line # lines) =
     (if \<not> mentions type line \<and> \<not> (pending \<noteq> [] \<and> maybe_sentinel line)
      then lines_possibly_of_type type pending lines
      else (case batch_id_search line of
              None \<Rightarrow> (if mentions type line then [line] else [])
                       @ lines_possibly_of_type type pending lines
            | Some b \<Rightarrow>
                (let pending' = (if mentions type line then bucket_add b line pending else pending)
                 in if maybe_sentinel line \<and> map_of pending' b \<noteq> None
                    then bucket pending' b @ (if mentions type line then [] else [line])
                         @ lines_possibly_of_type type (AList.delete b pending') lines
                    else lines_possibly_of_type type pending' lines)))"

text \<open>Lines whose text says what the record says: a record of the type mentions it, the
  first batch identifier in the text is the record's, and only sentinels mention a
  sentinel type.  The last point is not guaranteed by the format: a payload may hold any text.\<close>

definition honest_line :: "(string \<Rightarrow> event_record option) \<Rightarrow> string \<Rightarrow> string \<Rightarrow> bool" where
  "honest_line parse type line \<longleftrightarrow>
     (case parse line of
        None \<Rightarrow> \<not> maybe_sentinel line
      | Some r \<Rightarrow> (event_type r = type \<longrightarrow> mentions type line)
           \<and> batch_id_search line = batch_id r
           \<and> (maybe_sentinel line \<longleftrightarrow> is_sentinel r)
           \<and> is_known_schema_version (schema_version r))"

definition empty_buckets :: "buffer \<Rightarrow> bool" where
  "empty_buckets buf \<longleftrightarrow> (\<forall>b. bucket buf b = [])"

lemma vis_run_empty_buckets: "empty_buckets buf \<Longrightarrow> fst (vis_run buf rs) = fst (vis_run [] rs)"
  using vis_run_bucket_cong [of buf "[]" rs] by (simp add: empty_buckets_def)

lemma vis_run_domain:
  "\<forall>r \<in> set rs. batch_id r = Some b \<and> \<not> is_sentinel r \<Longrightarrow>
   fst (vis_run buf rs) = []
   \<and> (\<forall>b'. bucket (snd (vis_run buf rs)) b' = (if b' = b then bucket buf b @ rs else bucket buf b'))"
proof (induction rs arbitrary: buf)
  case (Cons r rs)
  then have step: "vis_step buf r = ([], bucket_add b r buf)" by (simp add: vis_step_def)
  from Cons.prems have "\<forall>r \<in> set rs. batch_id r = Some b \<and> \<not> is_sentinel r" by simp
  from Cons.IH [OF this, of "bucket_add b r buf"] step show ?case
    by (simp add: Let_def case_prod_beta)
qed simp

lemma vis_run_flush:
  assumes "empty_buckets buf" and "\<forall>r \<in> set rs. batch_id r = Some b \<and> \<not> is_sentinel r"
    and "batch_id s = Some b" and "is_sentinel s"
  shows "fst (vis_run buf (rs @ s # rest)) = rs @ s # fst (vis_run [] rest)"
proof -
  let ?buf = "snd (vis_run buf rs)"
  have d: "fst (vis_run buf rs) = []" "bucket ?buf b' = (if b' = b then rs else [])" for b'
    using vis_run_domain [OF assms(2), of buf] assms(1) by (auto simp: empty_buckets_def)
  have step: "vis_step ?buf s = (rs @ [s], AList.delete b (bucket_add b s ?buf))"
    using assms(3,4) d(2) [of b] by (simp add: vis_step_def)
  have "empty_buckets (AList.delete b (bucket_add b s ?buf))"
    using d(2) by (simp add: empty_buckets_def)
  from vis_run_empty_buckets [OF this, of rest] step d(1) show ?thesis
    by (simp add: vis_run_append Let_def case_prod_beta)
qed

text \<open>How the lines held back by the narrowed scan relate to the buffer of the full one.\<close>

definition scan_rel :: "(string \<Rightarrow> event_record option) \<Rightarrow> string
    \<Rightarrow> (string \<times> string list) list \<Rightarrow> buffer \<Rightarrow> bool" where
  "scan_rel parse type pending buf \<longleftrightarrow>
     (\<forall>b. filter (\<lambda>r. event_type r = type) (bucket buf b)
            = filter (\<lambda>r. event_type r = type) (readable parse (bucket pending b))
        \<and> (\<forall>r \<in> set (readable parse (bucket pending b)). batch_id r = Some b \<and> \<not> is_sentinel r))"

lemma scan_rel_delete:
  "scan_rel parse type pending buf \<Longrightarrow>
   scan_rel parse type (AList.delete b (if m then bucket_add b l pending else pending))
     (AList.delete b (bucket_add b r buf))"
  by (simp add: scan_rel_def)

lemma scan_rel_miss:
  "scan_rel parse type pending buf \<Longrightarrow> bucket pending b = [] \<Longrightarrow>
   scan_rel parse type pending (AList.delete b (bucket_add b r buf))"
  by (simp add: scan_rel_def)

lemma scan_agrees:
  assumes "\<forall>line \<in> set lines. honest_line parse type line" and "scan_rel parse type pending buf"
  shows "filter (\<lambda>r. event_type r = type) (fst (vis_run buf (readable parse lines)))
    = filter (\<lambda>r. event_type r = type)
        (fst (vis_run [] (readable parse (lines_possibly_of_type type pending lines))))"
  using assms
proof (induction lines arbitrary: pending buf)
  case Nil
  then show ?case by simp
next
  case (Cons l ls)
  let ?T = "\<lambda>r. event_type r = type"
  from Cons.prems have h: "honest_line parse type l" and hs: "\<forall>line \<in> set ls. honest_line parse type line"
    by simp_all
  note IH = Cons.IH [OF hs]
  note rel = Cons.prems(2)
  show ?case
  proof (cases "parse l")
    case None
    with h have nm: "\<not> maybe_sentinel l" by (simp add: honest_line_def)
    show ?thesis
    proof (cases "mentions type l \<and> batch_id_search l \<noteq> None")
      case True
      then obtain b where "batch_id_search l = Some b" by auto
      moreover have "scan_rel parse type (bucket_add b l pending) buf"
        using rel None by (simp add: scan_rel_def readable_append)
      ultimately show ?thesis using True None nm IH by simp
    next
      case False
      with None nm IH [OF rel] show ?thesis by (cases "batch_id_search l") auto
    qed
  next
    case (Some r)
    with h have r: "?T r \<Longrightarrow> mentions type l" "batch_id_search l = batch_id r"
      "maybe_sentinel l \<longleftrightarrow> is_sentinel r" "is_known_schema_version (schema_version r)"
      by (simp_all add: honest_line_def)
    show ?thesis
    proof (cases "batch_id r")
      case None
      have step: "vis_step buf' r = ([r], buf')" for buf'
        using None by (simp add: vis_step_def)
      from IH [OF rel] r Some None step show ?thesis by (auto simp: Let_def case_prod_beta)
    next
      case b: (Some b)
      show ?thesis
      proof (cases "is_sentinel r")
        case False
        then have step: "vis_step buf r = ([], bucket_add b r buf)"
          using b by (simp add: vis_step_def)
        have "scan_rel parse type (if mentions type l then bucket_add b l pending else pending)
                (bucket_add b r buf)"
          using rel Some r b False by (auto simp: scan_rel_def readable_append)
        from IH [OF this] r Some b False step show ?thesis
          by (auto simp: Let_def case_prod_beta)
      next
        case True
        let ?pending = "if mentions type l then bucket_add b l pending else pending"
        have step: "vis_step buf r = (bucket buf b @ [r], AList.delete b (bucket_add b r buf))"
          using b True by (simp add: vis_step_def)
        have T: "filter ?T (bucket buf b) = filter ?T (readable parse (bucket pending b))"
          using rel by (simp add: scan_rel_def)
        have dom: "\<forall>r \<in> set (readable parse (bucket pending b)). batch_id r = Some b \<and> \<not> is_sentinel r"
          using rel by (simp add: scan_rel_def)
        show ?thesis
        proof (cases "map_of ?pending b = None")
          case m: True
          then have nm: "\<not> mentions type l" and e: "bucket pending b = []"
            by (auto simp: bucket_def bucket_add_def map_of_update_cases split: if_splits)
          from IH [OF scan_rel_miss [OF rel e]] r Some b True step nm e T m show ?thesis
            by (auto simp: Let_def case_prod_beta)
        next
          case False
          have out: "lines_possibly_of_type type pending (l # ls) =
              bucket pending b @ l # lines_possibly_of_type type (AList.delete b ?pending) ls"
            using False True b r Some by (auto simp: Let_def)
          have rd: "readable parse (bucket pending b @ l # rest)
              = readable parse (bucket pending b) @ r # readable parse rest" for rest
            using Some r by (simp add: readable_append)
          have "fst (vis_run [] (readable parse (lines_possibly_of_type type pending (l # ls)))) =
              readable parse (bucket pending b)
              @ r # fst (vis_run [] (readable parse (lines_possibly_of_type type (AList.delete b ?pending) ls)))"
            unfolding out rd by (rule vis_run_flush [OF _ dom b True]) (simp add: empty_buckets_def)
          moreover note IH [OF scan_rel_delete [OF rel, of b "mentions type l" l r]]
          moreover have "fst (vis_run buf (readable parse (l # ls))) =
              bucket buf b @ r # fst (vis_run (AList.delete b (bucket_add b r buf)) (readable parse ls))"
            using step r Some by (simp add: Let_def case_prod_beta)
          ultimately show ?thesis using T by simp
        qed
      qed
    qed
  qed
qed

section \<open>The cheap scan for the write guards\<close>

text \<open>The start-up scan works on \<open>json.loads\<close> of a line, the argument \<open>loads\<close>, and yields
  sequence numbers and identifiers only.\<close>

type_synonym pairs = "(int \<times> string) list"

fun lifecycle_fields :: "(string \<Rightarrow> json option) \<Rightarrow> (string \<times> pairs) list \<Rightarrow> string list
    \<Rightarrow> (int \<times> string) generated" where
  "lifecycle_fields loads buf [] = ([], None)"
| "lifecycle_fields loads buf (line # lines) =
     (let continue = lifecycle_fields loads buf lines in
      case loads line of
        Some (JObj obj) \<Rightarrow>
          (case (as_int (dget obj ''sequence_number''), as_str (dget obj ''event_id'')) of
             (Some n, Some eid) \<Rightarrow>
               (if \<exists>v \<in> set_option (as_str (dget obj ''schema_version'')). \<not> is_known_schema_version v
                then (case as_str (dget obj ''base_classification'') of
                        None \<Rightarrow> continue
                      | Some c \<Rightarrow>
                          (case base_class_of c of
                             None \<Rightarrow> continue
                           | Some bc \<Rightarrow>
                               if unknown_version_reader_action bc = Fail_Replay
                               then ([], Some (SchemaEvolution eid)) else continue))
                else (case dget obj ''batch_id'' of
                        JNull \<Rightarrow> (let (out, e) = continue in ((n, eid) # out, e))
                      | JStr b \<Rightarrow>
                          (let buf' = bucket_add b (n, eid) buf in
                           case dget obj ''event_type'' of
                             JStr t \<Rightarrow>
                               (if t = ''CommitAccepted'' \<or> t = ''CommitRejected''
                                then (let (out, e) = lifecycle_fields loads (AList.delete b buf') lines
                                      in (bucket buf' b @ out, e))
                                else lifecycle_fields loads buf' lines)
                           | JArr _ \<Rightarrow> ([], Some (TypeError ''unhashable type''))
                           | JObj _ \<Rightarrow> ([], Some (TypeError ''unhashable type''))
                           | _ \<Rightarrow> lifecycle_fields loads buf' lines)
                      | _ \<Rightarrow> continue))
           | _ \<Rightarrow> continue)
      | _ \<Rightarrow> continue)"

text \<open>The fields of a parsed record as \<open>json.loads\<close> of its line shows them.\<close>

definition shows_record :: "json option \<Rightarrow> event_record \<Rightarrow> bool" where
  "shows_record v r \<longleftrightarrow>
     (\<exists>d. v = Some (JObj d)
        \<and> dget d ''sequence_number'' = JInt (sequence_number r)
        \<and> dget d ''event_id'' = JStr (event_id r)
        \<and> dget d ''schema_version'' = JStr (schema_version r)
        \<and> dget d ''base_classification'' = JStr (base_class_value (base_classification r))
        \<and> dget d ''batch_id'' = (case batch_id r of None \<Rightarrow> JNull | Some b \<Rightarrow> JStr b)
        \<and> dget d ''event_type'' = JStr (event_type r))"

definition seq_and_id :: "event_record \<Rightarrow> int \<times> string" where
  "seq_and_id r = (sequence_number r, event_id r)"

lemma base_class_of_value [simp]: "base_class_of (base_class_value c) = Some c"
  by (cases c) (simp_all add: base_class_of_def)

lemma lifecycle_fields_record:
  assumes "shows_record (loads line) r"
  shows "lifecycle_fields loads buf (line # lines) =
    (if \<not> is_known_schema_version (schema_version r)
     then (if unknown_version_reader_action (base_classification r) = Fail_Replay
           then ([], Some (refusal r)) else lifecycle_fields loads buf lines)
     else (case batch_id r of
             None \<Rightarrow> (let (out, e) = lifecycle_fields loads buf lines in (seq_and_id r # out, e))
           | Some b \<Rightarrow>
               (let buf' = bucket_add b (seq_and_id r) buf
                in if is_sentinel r
                   then (let (out, e) = lifecycle_fields loads (AList.delete b buf') lines
                         in (bucket buf' b @ out, e))
                   else lifecycle_fields loads buf' lines)))"
  using assms
  by (auto simp: shows_record_def refusal_def seq_and_id_def is_sentinel_def Let_def split: option.splits)

text \<open>A line of unknown meaning only adds: what was buffered is yielded or stays buffered.\<close>

definition covers :: "(int \<times> string) set \<Rightarrow> (string \<times> pairs) list \<Rightarrow> buffer \<Rightarrow> bool" where
  "covers seen lbuf buf \<longleftrightarrow> (\<forall>b. seq_and_id ` set (bucket buf b) \<subseteq> seen \<union> set (bucket lbuf b))"

definition only_adds :: "(string \<Rightarrow> json option) \<Rightarrow> (string \<times> pairs) list \<Rightarrow> string list
    \<Rightarrow> (int \<times> string) generated \<Rightarrow> bool" where
  "only_adds loads lbuf lines res \<longleftrightarrow>
     (snd res = None \<longrightarrow>
        (\<exists>lbuf' new. fst res = new @ fst (lifecycle_fields loads lbuf' lines)
           \<and> snd (lifecycle_fields loads lbuf' lines) = None
           \<and> (\<forall>b. set (bucket lbuf b) \<subseteq> set new \<union> set (bucket lbuf' b))))"

lemma only_addsI:
  "(\<And>b. set (bucket lbuf b) \<subseteq> set new \<union> set (bucket lbuf' b)) \<Longrightarrow>
   only_adds loads lbuf lines
     (new @ fst (lifecycle_fields loads lbuf' lines), snd (lifecycle_fields loads lbuf' lines))"
  unfolding only_adds_def by auto

lemma only_adds_cases:
  "only_adds loads lbuf lines (lifecycle_fields loads lbuf lines)"
  "only_adds loads lbuf lines (x # fst (lifecycle_fields loads lbuf lines), snd (lifecycle_fields loads lbuf lines))"
  "only_adds loads lbuf lines (lifecycle_fields loads (bucket_add b x lbuf) lines)"
  "only_adds loads lbuf lines
     (bucket (bucket_add b x lbuf) b @ fst (lifecycle_fields loads (AList.delete b (bucket_add b x lbuf)) lines),
      snd (lifecycle_fields loads (AList.delete b (bucket_add b x lbuf)) lines))"
  "only_adds loads lbuf lines ([], Some e)"
proof -
  have sub: "set (bucket lbuf b') \<subseteq> set (bucket (bucket_add b x lbuf) b')"
    "set (bucket lbuf b') \<subseteq> set (bucket (bucket_add b x lbuf) b)
       \<union> set (bucket (AList.delete b (bucket_add b x lbuf)) b')" for b'
    by auto
  show "only_adds loads lbuf lines (lifecycle_fields loads lbuf lines)"
    using only_addsI [of lbuf "[]" lbuf] by simp
  show "only_adds loads lbuf lines
      (x # fst (lifecycle_fields loads lbuf lines), snd (lifecycle_fields loads lbuf lines))"
    using only_addsI [of lbuf "[x]" lbuf loads lines] by auto
  show "only_adds loads lbuf lines (lifecycle_fields loads (bucket_add b x lbuf) lines)"
    using only_addsI [of lbuf "[]" "bucket_add b x lbuf"] sub(1) by simp
  show "only_adds loads lbuf lines
     (bucket (bucket_add b x lbuf) b @ fst (lifecycle_fields loads (AList.delete b (bucket_add b x lbuf)) lines),
      snd (lifecycle_fields loads (AList.delete b (bucket_add b x lbuf)) lines))"
    by (rule only_addsI) (rule sub(2))
  show "only_adds loads lbuf lines ([], Some e)"
    by (simp add: only_adds_def)
qed

lemma lifecycle_fields_step:
  "only_adds loads lbuf lines (lifecycle_fields loads lbuf (line # lines))"
  using only_adds_cases (4) [of loads lbuf lines] only_adds_cases(1-3,5) [of loads lbuf lines]
  by (simp add: Let_def case_prod_beta split: option.split json.split del: bucket_bucket_add)

lemma covers_mono:
  "covers seen lbuf buf \<Longrightarrow> (\<And>b. set (bucket lbuf b) \<subseteq> set new \<union> set (bucket lbuf' b)) \<Longrightarrow>
   covers (seen \<union> set new) lbuf' buf"
  unfolding covers_def by blast

lemma lifecycle_covers:
  assumes "\<forall>line \<in> set lines. \<forall>r. parse line = Some r \<longrightarrow> shows_record (loads line) r"
    and "snd (lifecycle_fields loads lbuf lines) = None" and "covers seen lbuf buf"
  shows "seq_and_id ` set (fst (iter_committed parse buf lines))
      \<subseteq> seen \<union> set (fst (lifecycle_fields loads lbuf lines))"
  using assms
proof (induction lines arbitrary: lbuf buf seen)
  case Nil
  then show ?case by simp
next
  case (Cons l ls)
  from Cons.prems(1) have rest: "\<forall>line \<in> set ls. \<forall>r. parse line = Some r \<longrightarrow> shows_record (loads line) r"
    by simp
  note IH = Cons.IH [OF rest]
  have skip: "seq_and_id ` set (fst (iter_committed parse buf ls))
      \<subseteq> seen \<union> set (fst (lifecycle_fields loads lbuf (l # ls)))"
  proof -
    obtain lbuf' new where step: "fst (lifecycle_fields loads lbuf (l # ls)) = new @ fst (lifecycle_fields loads lbuf' ls)"
      "snd (lifecycle_fields loads lbuf' ls) = None" "\<And>b. set (bucket lbuf b) \<subseteq> set new \<union> set (bucket lbuf' b)"
      using lifecycle_fields_step [of loads lbuf ls l] Cons.prems(2) unfolding only_adds_def by blast
    from IH [OF step(2) covers_mono [OF Cons.prems(3) step(3)]] step(1) show ?thesis by auto
  qed
  show ?case
  proof (cases "parse l")
    case None
    then show ?thesis using skip by simp
  next
    case (Some r)
    with Cons.prems(1) have sr: "shows_record (loads l) r" by simp
    show ?thesis
    proof (cases "is_known_schema_version (schema_version r)")
      case False
      then show ?thesis using Some skip by simp
    next
      case known: True
      note eq = lifecycle_fields_record [of loads l r lbuf ls, OF sr]
      show ?thesis
      proof (cases "batch_id r")
        case None
        from IH [of lbuf seen buf] Cons.prems(2,3) eq known None Some show ?thesis
          by (auto simp: Let_def case_prod_beta simp del: lifecycle_fields.simps)
      next
        case b: (Some b)
        show ?thesis
        proof (cases "is_sentinel r")
          case False
          have "covers seen (bucket_add b (seq_and_id r) lbuf) (bucket_add b r buf)"
            using Cons.prems(3) by (auto simp: covers_def)
          from IH [OF _ this] Cons.prems(2) eq known b Some False show ?thesis
            by (simp add: Let_def del: lifecycle_fields.simps)
        next
          case True
          let ?lbuf = "AList.delete b (bucket_add b (seq_and_id r) lbuf)"
          have "covers seen ?lbuf (AList.delete b (bucket_add b r buf))"
            using Cons.prems(3) by (auto simp: covers_def)
          from IH [OF _ this] Cons.prems(2) eq known b Some True
          have "seq_and_id ` set (fst (iter_committed parse (AList.delete b (bucket_add b r buf)) ls))
              \<subseteq> seen \<union> set (fst (lifecycle_fields loads ?lbuf ls))"
            by (simp add: Let_def case_prod_beta del: lifecycle_fields.simps)
          moreover have "seq_and_id ` set (bucket buf b) \<subseteq> seen \<union> set (bucket lbuf b)"
            using Cons.prems(3) by (simp add: covers_def)
          ultimately show ?thesis
            using eq known b Some True
            by (auto simp: Let_def case_prod_beta simp del: lifecycle_fields.simps)
        qed
      qed
    qed
  qed
qed

end
