(* ===== verification/Event_Index.thy ===== *)
theory Event_Index
  imports Event_Visibility
begin

text \<open>
  The derived index over the committed stream (\<open>l0/event_log/index.py\<close>): the eager
  \<open>EventIndex\<close> with its fifteen postings, the lazy index that a cold start adopts from the
  persisted files, and the store that writes and reads those files.  A \<open>defaultdict(list)\<close>
  is an association list of buckets; \<open>bucket\<close> reads it.
\<close>

section \<open>The eager index\<close>

type_synonym postings = "(string \<times> event_record list) list"

record event_index =
  x_records :: "event_record list"
  x_event_id :: "(string \<times> event_record) list"
  x_sequence :: "(int \<times> event_record) list"
  x_transaction :: postings
  x_batch :: postings
  x_type :: postings
  x_category :: postings
  x_actor :: postings
  x_task :: postings
  x_run :: postings
  x_correlation :: postings
  x_causation :: postings
  x_supersede :: postings
  x_entity :: "((string \<times> string) \<times> event_record list) list"
  x_obligation :: postings
  x_input_hash :: "((string \<times> string) \<times> event_record) list"

definition empty_index :: event_index where
  "empty_index = \<lparr>x_records = [], x_event_id = [], x_sequence = [], x_transaction = [], x_batch = [],
     x_type = [], x_category = [], x_actor = [], x_task = [], x_run = [], x_correlation = [],
     x_causation = [], x_supersede = [], x_entity = [], x_obligation = [], x_input_hash = []\<rparr>"

definition add_opt :: "string option \<Rightarrow> event_record \<Rightarrow> postings \<Rightarrow> postings" where
  "add_opt k r p = (case k of None \<Rightarrow> p | Some k' \<Rightarrow> bucket_add k' r p)"

definition obligation_ids :: "event_record \<Rightarrow> string list" where
  "obligation_ids r = [entity_id s. s \<leftarrow> subjects r, entity_type s = ''obligation'']"

definition entity_keys :: "event_record \<Rightarrow> (string \<times> string) list" where
  "entity_keys r = [(entity_type s, entity_id s). s \<leftarrow> subjects r]"

text \<open>The key of the resolver cache, for \<open>ResolverDecisionMade\<close> records that carry one.\<close>

definition input_hash_key :: "event_record \<Rightarrow> (string \<times> string) option" where
  "input_hash_key r =
     (if event_type r = ''ResolverDecisionMade''
      then (case as_obj (dget (payload r) ''after_state'') of
              None \<Rightarrow> None
            | Some after \<Rightarrow>
                (case (as_str (dget after ''resolver_id''), as_str (dget after ''input_hash'')) of
                   (Some rid, Some h) \<Rightarrow> Some (rid, h)
                 | _ \<Rightarrow> None))
      else None)"

definition index_one :: "event_record \<Rightarrow> event_index \<Rightarrow> event_index" where
  "index_one r x = x\<lparr>
     x_event_id := AList.update (event_id r) r (x_event_id x),
     x_sequence := AList.update (sequence_number r) r (x_sequence x),
     x_transaction := add_opt (transaction_id r) r (x_transaction x),
     x_batch := add_opt (batch_id r) r (x_batch x),
     x_type := bucket_add (event_type r) r (x_type x),
     x_category := bucket_add (event_category r) r (x_category x),
     x_actor := bucket_add (actor_id (provenance r)) r (x_actor x),
     x_task := add_opt (task_id (provenance r)) r (x_task x),
     x_run := add_opt (run_id (provenance r)) r (x_run x),
     x_correlation := add_opt (correlation_id (provenance r)) r (x_correlation x),
     x_causation := add_opt (causation_event_id (provenance r)) r (x_causation x),
     x_supersede := add_opt (superseded_event_id (supersede r)) r (x_supersede x),
     x_entity := fold (\<lambda>k. bucket_add k r) (entity_keys r) (x_entity x),
     x_obligation := fold (\<lambda>k. bucket_add k r) (obligation_ids r) (x_obligation x),
     x_input_hash := (case input_hash_key r of None \<Rightarrow> x_input_hash x
                      | Some k \<Rightarrow> AList.update k r (x_input_hash x))\<rparr>"

definition index_add :: "event_record \<Rightarrow> event_index \<Rightarrow> event_index" where
  "index_add r x = index_one r (x\<lparr>x_records := x_records x @ [r]\<rparr>)"

definition index_add_records :: "event_record list \<Rightarrow> event_index \<Rightarrow> event_index" where
  "index_add_records rs x = fold index_add rs x"

definition event_index_of :: "event_record list \<Rightarrow> event_index" where
  "event_index_of rs = fold index_one rs (empty_index\<lparr>x_records := rs\<rparr>)"

definition max_sequence :: "event_index \<Rightarrow> int" where
  "max_sequence x = foldr max (map fst (x_sequence x)) (-1)"

definition event_id_set :: "event_index \<Rightarrow> string set" where
  "event_id_set x = set (map fst (x_event_id x))"

definition sequence_set :: "event_index \<Rightarrow> int set" where
  "sequence_set x = set (map fst (x_sequence x))"

definition lookup_event_id :: "event_index \<Rightarrow> string \<Rightarrow> event_record option" where
  "lookup_event_id x i = map_of (x_event_id x) i"

definition lookup_entity :: "event_index \<Rightarrow> string \<Rightarrow> string \<Rightarrow> event_record list" where
  "lookup_entity x et eid = bucket (x_entity x) (et, eid)"

definition lookup_obligation :: "event_index \<Rightarrow> string \<Rightarrow> event_record list" where
  "lookup_obligation x i = bucket (x_obligation x) i"

definition lookup_supersede :: "event_index \<Rightarrow> string \<Rightarrow> event_record list" where
  "lookup_supersede x i = bucket (x_supersede x) i"

definition lookup_causation :: "event_index \<Rightarrow> string \<Rightarrow> event_record list" where
  "lookup_causation x i = bucket (x_causation x) i"

definition lookup_input_hash :: "event_index \<Rightarrow> string \<Rightarrow> string \<Rightarrow> event_record option" where
  "lookup_input_hash x rid h = map_of (x_input_hash x) (rid, h)"

definition lookup_type :: "event_index \<Rightarrow> string \<Rightarrow> event_record list" where
  "lookup_type x t = bucket (x_type x) t"

definition lookup_category :: "event_index \<Rightarrow> string \<Rightarrow> event_record list" where
  "lookup_category x c = bucket (x_category x) c"

definition lookup_actor :: "event_index \<Rightarrow> string \<Rightarrow> event_record list" where
  "lookup_actor x a = bucket (x_actor x) a"

definition lookup_task :: "event_index \<Rightarrow> string \<Rightarrow> event_record list" where
  "lookup_task x t = bucket (x_task x) t"

definition lookup_run :: "event_index \<Rightarrow> string \<Rightarrow> event_record list" where
  "lookup_run x r = bucket (x_run x) r"

definition lookup_correlation :: "event_index \<Rightarrow> string \<Rightarrow> event_record list" where
  "lookup_correlation x c = bucket (x_correlation x) c"

definition lookup_sequence_range :: "event_index \<Rightarrow> int \<Rightarrow> int \<Rightarrow> event_record list" where
  "lookup_sequence_range x a b = [r. (n, r) \<leftarrow> x_sequence x, a \<le> n \<and> n \<le> b]"

definition records_in_range :: "event_index \<Rightarrow> int \<Rightarrow> int \<Rightarrow> event_record list" where
  "records_in_range x a b = filter (\<lambda>r. a \<le> sequence_number r \<and> sequence_number r \<le> b) (x_records x)"

text \<open>The records of the given types, plain or wrapped in a \<open>NodeTouched\<close> stub.  The set
  of types is iterated in some order, the list \<open>types\<close>; testing an unhashable kind raises.\<close>

definition kind_in :: "string list \<Rightarrow> event_record \<Rightarrow> verr + bool" where
  "kind_in types r =
     (case dget (payload r) ''kind'' of
        JStr k \<Rightarrow> Inr (k \<in> set types)
      | JArr _ \<Rightarrow> Inl (TypeError ''unhashable type'')
      | JObj _ \<Rightarrow> Inl (TypeError ''unhashable type'')
      | _ \<Rightarrow> Inr False)"

fun filter_kinds :: "string list \<Rightarrow> event_record list \<Rightarrow> verr + event_record list" where
  "filter_kinds types [] = Inr []"
| "filter_kinds types (r # rs) =
     rbind (kind_in types r) (\<lambda>hit. rbind (filter_kinds types rs) (\<lambda>out.
       Inr (if hit then r # out else out)))"

definition lookup_types_or_stub_kinds :: "event_index \<Rightarrow> string list \<Rightarrow> verr + event_record list" where
  "lookup_types_or_stub_kinds x types =
     rbind (filter_kinds types (bucket (x_type x) ''NodeTouched'')) (\<lambda>stubs.
       Inr (concat (map (bucket (x_type x)) types) @ stubs))"

section \<open>What the postings hold\<close>

lemma bucket_add_opt [simp]:
  "bucket (add_opt k r p) k' = (if k = Some k' then bucket p k' @ [r] else bucket p k')"
  by (simp add: add_opt_def split: option.split)

lemma bucket_fold_add:
  "bucket (fold (\<lambda>k. bucket_add k r) ks p) k' = bucket p k' @ replicate (count_list ks k') r"
  by (induction ks arbitrary: p) (auto simp: replicate_append_same)

lemma fold_index_one_records [simp]: "x_records (fold index_one rs x) = x_records x"
  by (induction rs arbitrary: x) (simp_all add: index_one_def)

text \<open>One lemma per shape of posting, over a fold from any index.\<close>

lemma fold_index_one_simps:
  "bucket (x_transaction (fold index_one rs x)) k = bucket (x_transaction x) k @ filter (\<lambda>r. transaction_id r = Some k) rs"
  "bucket (x_batch (fold index_one rs x)) k = bucket (x_batch x) k @ filter (\<lambda>r. batch_id r = Some k) rs"
  "bucket (x_type (fold index_one rs x)) k = bucket (x_type x) k @ filter (\<lambda>r. event_type r = k) rs"
  "bucket (x_category (fold index_one rs x)) k = bucket (x_category x) k @ filter (\<lambda>r. event_category r = k) rs"
  "bucket (x_actor (fold index_one rs x)) k = bucket (x_actor x) k @ filter (\<lambda>r. actor_id (provenance r) = k) rs"
  "bucket (x_task (fold index_one rs x)) k = bucket (x_task x) k @ filter (\<lambda>r. task_id (provenance r) = Some k) rs"
  "bucket (x_run (fold index_one rs x)) k = bucket (x_run x) k @ filter (\<lambda>r. run_id (provenance r) = Some k) rs"
  "bucket (x_correlation (fold index_one rs x)) k =
     bucket (x_correlation x) k @ filter (\<lambda>r. correlation_id (provenance r) = Some k) rs"
  "bucket (x_causation (fold index_one rs x)) k =
     bucket (x_causation x) k @ filter (\<lambda>r. causation_event_id (provenance r) = Some k) rs"
  "bucket (x_supersede (fold index_one rs x)) k =
     bucket (x_supersede x) k @ filter (\<lambda>r. superseded_event_id (supersede r) = Some k) rs"
  by (induction rs arbitrary: x; simp add: index_one_def)+

lemma fold_index_one_subjects:
  "bucket (x_entity (fold index_one rs x)) k =
     bucket (x_entity x) k @ concat (map (\<lambda>r. replicate (count_list (entity_keys r) k) r) rs)"
  "bucket (x_obligation (fold index_one rs x)) j =
     bucket (x_obligation x) j @ concat (map (\<lambda>r. replicate (count_list (obligation_ids r) j) r) rs)"
  by (induction rs arbitrary: x; simp add: index_one_def bucket_fold_add)+

text \<open>A dictionary of single values keeps the last record of a key.\<close>

definition last_with :: "('a \<Rightarrow> 'k option) \<Rightarrow> 'k \<Rightarrow> 'a list \<Rightarrow> 'a option" where
  "last_with key k rs = find (\<lambda>r. key r = Some k) (rev rs)"

lemma last_with_snoc:
  "last_with key k (rs @ [r]) = (if key r = Some k then Some r else last_with key k rs)"
  by (simp add: last_with_def)

lemma fold_index_one_single:
  "map_of (x_event_id (fold index_one rs x)) i =
     (case last_with (Some \<circ> event_id) i rs of Some r \<Rightarrow> Some r | None \<Rightarrow> map_of (x_event_id x) i)"
  "map_of (x_sequence (fold index_one rs x)) n =
     (case last_with (Some \<circ> sequence_number) n rs of Some r \<Rightarrow> Some r | None \<Rightarrow> map_of (x_sequence x) n)"
  "map_of (x_input_hash (fold index_one rs x)) k =
     (case last_with input_hash_key k rs of Some r \<Rightarrow> Some r | None \<Rightarrow> map_of (x_input_hash x) k)"
  by (induction rs rule: rev_induct;
      auto simp: index_one_def last_with_def map_of_update_cases split: option.splits)+

lemma fold_index_one_keys:
  "fst ` set (x_event_id (fold index_one rs x)) = fst ` set (x_event_id x) \<union> event_id ` set rs"
  "fst ` set (x_sequence (fold index_one rs x)) = fst ` set (x_sequence x) \<union> sequence_number ` set rs"
  by (induction rs arbitrary: x; simp add: index_one_def set_map_fst_update)+

text \<open>The lookups of an index built over a record list.\<close>

lemma index_lookups:
  "x_records (event_index_of rs) = rs"
  "lookup_event_id (event_index_of rs) i = last_with (Some \<circ> event_id) i rs"
  "lookup_input_hash (event_index_of rs) a b = last_with input_hash_key (a, b) rs"
  "lookup_type (event_index_of rs) k = filter (\<lambda>r. event_type r = k) rs"
  "lookup_category (event_index_of rs) k = filter (\<lambda>r. event_category r = k) rs"
  "lookup_actor (event_index_of rs) k = filter (\<lambda>r. actor_id (provenance r) = k) rs"
  "lookup_task (event_index_of rs) k = filter (\<lambda>r. task_id (provenance r) = Some k) rs"
  "lookup_run (event_index_of rs) k = filter (\<lambda>r. run_id (provenance r) = Some k) rs"
  "lookup_correlation (event_index_of rs) k = filter (\<lambda>r. correlation_id (provenance r) = Some k) rs"
  "lookup_causation (event_index_of rs) k = filter (\<lambda>r. causation_event_id (provenance r) = Some k) rs"
  "lookup_supersede (event_index_of rs) k = filter (\<lambda>r. superseded_event_id (supersede r) = Some k) rs"
  "lookup_entity (event_index_of rs) et eid =
     concat (map (\<lambda>r. replicate (count_list (entity_keys r) (et, eid)) r) rs)"
  "lookup_obligation (event_index_of rs) k =
     concat (map (\<lambda>r. replicate (count_list (obligation_ids r) k) r) rs)"
  by (simp_all add: event_index_of_def lookup_event_id_def lookup_input_hash_def lookup_type_def
      lookup_category_def lookup_actor_def lookup_task_def lookup_run_def lookup_correlation_def
      lookup_causation_def lookup_supersede_def lookup_entity_def lookup_obligation_def
      fold_index_one_simps fold_index_one_subjects fold_index_one_single empty_index_def
      split: option.split)

lemma index_sets:
  "event_id_set (event_index_of rs) = event_id ` set rs"
  "sequence_set (event_index_of rs) = sequence_number ` set rs"
  by (simp_all add: event_id_set_def sequence_set_def event_index_of_def fold_index_one_keys empty_index_def)

lemma foldr_max_ge: "x \<in> insert a (set xs) \<Longrightarrow> x \<le> foldr max xs (a :: int)"
  by (induction xs) (auto simp: le_max_iff_disj)

lemma foldr_max_in: "foldr max xs (a :: int) = a \<or> foldr max xs a \<in> set xs"
  by (induction xs) (auto simp: max_def)

lemma max_sequence_eq:
  "max_sequence (event_index_of rs) = Max (insert (-1) (sequence_number ` set rs))"
proof (rule Max_eqI [symmetric])
  have keys: "set (map fst (x_sequence (event_index_of rs))) = sequence_number ` set rs"
    using index_sets(2) [of rs] by (simp add: sequence_set_def)
  show "max_sequence (event_index_of rs) \<in> insert (-1) (sequence_number ` set rs)"
    using foldr_max_in [of "map fst (x_sequence (event_index_of rs))" "-1"] keys
    by (auto simp: max_sequence_def)
  show "y \<le> max_sequence (event_index_of rs)" if "y \<in> insert (-1) (sequence_number ` set rs)" for y
    using that foldr_max_ge [of y "-1" "map fst (x_sequence (event_index_of rs))"] keys
    by (simp add: max_sequence_def)
qed simp

section \<open>Growing an index equals rebuilding it\<close>

lemma index_one_records: "index_one r (x\<lparr>x_records := rs\<rparr>) = (index_one r x)\<lparr>x_records := rs\<rparr>"
  by (cases x) (simp add: index_one_def split: option.split)

lemma fold_index_one_set_records:
  "fold index_one rs (x\<lparr>x_records := ys\<rparr>) = (fold index_one rs x)\<lparr>x_records := ys\<rparr>"
  by (induction rs arbitrary: x) (simp_all add: index_one_records)

lemma index_add_records_eq:
  "index_add_records rs x = (fold index_one rs x)\<lparr>x_records := x_records x @ rs\<rparr>"
proof (induction rs arbitrary: x)
  case Nil
  then show ?case by (simp add: index_add_records_def)
next
  case (Cons r rs)
  have "x_records (index_one r x) = x_records x" by (simp add: index_one_def)
  with Cons [of "index_add r x"] show ?case
    by (simp add: index_add_records_def index_add_def index_one_records fold_index_one_set_records)
qed

lemma index_add_records_rebuild:
  "index_add_records rs' (event_index_of rs) = event_index_of (rs @ rs')"
  by (simp add: index_add_records_eq event_index_of_def fold_index_one_set_records)

end
