(* ===== verification/Event_Log.thy ===== *)
theory Event_Log
  imports Event_Index "HOL-Library.List_Lexorder" "HOL-Library.Char_ord"
begin

text \<open>
  The event log (\<open>l0/event_log/event_log.py\<close>, \<open>segments.py\<close>): segment files on disk, the
  per-process handle, the write paths and recovery.  The disk is shared by all processes; a
  write holds the file lock, so it is one step.  The record codec and the digest are the
  argument \<open>ecodec\<close>, the payload schema registry is the argument \<open>schema_error\<close>, new
  identifiers and timestamps are arguments of the operations that draw them.
\<close>

section \<open>Segments\<close>

datatype segment = Base | Hot nat

record disk =
  base_log :: "string option"
  hot_dir :: "(nat \<times> string) list"

text \<open>A file name \<open>events-NNNNNN.jsonl\<close> matches with exactly six digits.\<close>

definition ordered_hot_segments :: "disk \<Rightarrow> (nat \<times> string) list" where
  "ordered_hot_segments d = sort_key fst (filter (\<lambda>(n, _). n \<le> 999999) (hot_dir d))"

definition ordered_segments :: "disk \<Rightarrow> (segment \<times> string) list" where
  "ordered_segments d =
     (case base_log d of None \<Rightarrow> [] | Some t \<Rightarrow> [(Base, t)])
     @ map (\<lambda>(n, t). (Hot n, t)) (ordered_hot_segments d)"

definition next_segment :: "disk \<Rightarrow> segment" where
  "next_segment d =
     (let hot = ordered_hot_segments d in if hot = [] then Hot 1 else Hot (fst (last hot) + 1))"

definition active_segment :: "disk \<Rightarrow> segment" where
  "active_segment d =
     (let hot = ordered_hot_segments d in if hot = [] then Base else Hot (fst (last hot)))"

fun segment_text :: "disk \<Rightarrow> segment \<Rightarrow> string option" where
  "segment_text d Base = base_log d"
| "segment_text d (Hot n) = map_of (hot_dir d) n"

fun write_segment :: "segment \<Rightarrow> string \<Rightarrow> disk \<Rightarrow> disk" where
  "write_segment Base t d = d\<lparr>base_log := Some t\<rparr>"
| "write_segment (Hot n) t d = d\<lparr>hot_dir := AList.update n t (hot_dir d)\<rparr>"

text \<open>Opening with mode \<open>"a"\<close> creates a missing file.\<close>

definition append_text :: "segment \<Rightarrow> string \<Rightarrow> disk \<Rightarrow> disk" where
  "append_text seg t d =
     write_segment seg ((case segment_text d seg of None \<Rightarrow> [] | Some s \<Rightarrow> s) @ t) d"

definition raw_event_lines :: "disk \<Rightarrow> string list" where
  "raw_event_lines d = concat (map (raw_lines \<circ> snd) (ordered_segments d))"

definition append_raw_event_line :: "string \<Rightarrow> disk \<Rightarrow> disk" where
  "append_raw_event_line line d =
     append_text (active_segment d) (if line \<noteq> [] \<and> last line = LF then line else line @ [LF]) d"

section \<open>The handle and the codec\<close>

record ecodec =
  parse_event :: "string \<Rightarrow> event_record option"
  dump_event :: "event_record \<Rightarrow> string"
  loads_json :: "string \<Rightarrow> json option"
  sha_json :: "dict \<Rightarrow> string"

record config =
  segment_max_events :: nat
  segment_max_bytes :: nat

record handle =
  h_event_ids :: "string set"
  h_sequences :: "int set"
  h_next :: int
  h_index :: "event_index option"
  h_index_seg :: "segment option"
  h_index_size :: int

type_synonym 'a effect = "(verr + 'a) \<times> handle \<times> disk"

definition line_seq :: "ecodec \<Rightarrow> string \<Rightarrow> int option" where
  "line_seq cd line =
     (case loads_json cd line of
        Some (JObj obj) \<Rightarrow> as_int (dget obj ''sequence_number'')
      | _ \<Rightarrow> None)"

definition segment_max_seq :: "ecodec \<Rightarrow> string \<Rightarrow> int" where
  "segment_max_seq cd text =
     foldl (\<lambda>m line. case line_seq cd line of None \<Rightarrow> m | Some n \<Rightarrow> if n > m then n else m)
       (-1) (raw_lines text)"

fun first_max_seq :: "int list \<Rightarrow> int" where
  "first_max_seq [] = -1"
| "first_max_seq (m # ms) = (if m \<ge> 0 then m else first_max_seq ms)"

definition read_max_seq_on_disk :: "ecodec \<Rightarrow> disk \<Rightarrow> int" where
  "read_max_seq_on_disk cd d =
     first_max_seq (map (segment_max_seq cd \<circ> snd) (rev (ordered_segments d)))"

definition active_segment_event_count :: "disk \<Rightarrow> nat" where
  "active_segment_event_count d =
     (case segment_text d (active_segment d) of None \<Rightarrow> 0 | Some t \<Rightarrow> length (raw_lines t))"

definition write_target :: "config \<Rightarrow> disk \<Rightarrow> nat \<Rightarrow> segment" where
  "write_target cfg d incoming =
     (let current_events = active_segment_event_count d;
          current_bytes = (case segment_text d (active_segment d) of None \<Rightarrow> 0 | Some t \<Rightarrow> length t);
          would_exceed_events = current_events + incoming > segment_max_events cfg;
          would_exceed_bytes = current_bytes \<ge> segment_max_bytes cfg
      in if current_events = 0 then active_segment d
         else if would_exceed_events \<or> would_exceed_bytes then next_segment d
         else active_segment d)"

definition committed :: "ecodec \<Rightarrow> disk \<Rightarrow> event_record generated" where
  "committed cd d = committed_records (parse_event cd) (raw_event_lines d)"

definition derive_lifecycle_state :: "ecodec \<Rightarrow> disk \<Rightarrow> verr + (int \<times> string set \<times> int set)" where
  "derive_lifecycle_state cd d =
     (case lifecycle_fields (loads_json cd) [] (raw_event_lines d) of
        (_, Some e) \<Rightarrow> Inl e
      | (ps, None) \<Rightarrow> Inr (foldl max (-1) (map fst ps) + 1, set (map snd ps), set (map fst ps)))"

section \<open>Guards of the write boundary\<close>

definition birthgate_nonsmuggable_kinds :: "string list" where
  "birthgate_nonsmuggable_kinds = [''FindingCreated'', ''InterviewBriefPublished'']"

definition audit_producer_only_types :: "string list" where
  "audit_producer_only_types = [''AuditTriggered'', ''AuditVerdictReceived'']"

definition reject_birthgate_smuggle :: "string \<Rightarrow> dict \<Rightarrow> verr + unit" where
  "reject_birthgate_smuggle type pl =
     (if type = ''NodeTouched''
         \<and> (\<exists>k \<in> set_option (as_str (dget pl ''kind'')). k \<in> set birthgate_nonsmuggable_kinds)
         \<and> as_obj (dget pl ''stub_original_payload'') \<noteq> None
      then Inl (ValueError ''NodeTouched stub-rewrap smuggling a birth-gated kind'') else Inr ())"

definition reject_audit_event_in_batch :: "string \<Rightarrow> verr + unit" where
  "reject_audit_event_in_batch type =
     (if type \<in> set audit_producer_only_types
      then Inl (ValueError ''audit event is producer-only'') else Inr ())"

definition validate_payload_typed :: "(string \<Rightarrow> dict \<Rightarrow> verr option) \<Rightarrow> string \<Rightarrow> dict \<Rightarrow> verr + unit" where
  "validate_payload_typed schema_error type pl =
     rbind (reject_birthgate_smuggle type pl) (\<lambda>_.
       case schema_error type pl of None \<Rightarrow> Inr () | Some e \<Rightarrow> Inl e)"

definition validate_uniqueness :: "handle \<Rightarrow> string \<Rightarrow> verr + unit" where
  "validate_uniqueness h eid =
     (if eid \<in> h_event_ids h then Inl (ValueError ''duplicate event_id'') else Inr ())"

definition validate_sequence_unique :: "handle \<Rightarrow> int \<Rightarrow> verr + unit" where
  "validate_sequence_unique h n =
     (if n \<in> h_sequences h then Inl (ValueError ''duplicate sequence_number'') else Inr ())"

definition is_path_b_allowed :: "string \<Rightarrow> bool" where
  "is_path_b_allowed type \<longleftrightarrow> type \<in> set
     [''SnapshotCreated'', ''SnapshotSuperseded'', ''CrossRunConsolidationCommitted'',
      ''ArchiveSegmentMoved'', ''DigestSuperseded'', ''RetentionPolicyChanged'',
      ''CapsuleCompiled'', ''ResolverDecisionMade'', ''CapsuleInjectionFailed'',
      ''CapsuleAssemblyFailed'', ''ObligationScopeJudged'', ''ObligationActivated'',
      ''SemanticConflictDetected'', ''EscalationAnswerApplied'', ''DriftDetected'',
      ''OwnerGuardViolation'', ''IrreversibleActionBlocked'', ''GuardAdminBypassGranted'',
      ''GuardAdminBypassRevoked'', ''OwnerConfirmationGranted'', ''DebtRegistered'',
      ''JudgmentCaseEnriched'', ''JudgmentRegressionEvaluated'', ''CapabilityBaselineIngested'',
      ''CapabilityStatusAdvanced'', ''OrchestratorDispatchFailed'', ''ExecClaimReaped'',
      ''ReconcileCyclePublished'', ''SentinelPassCompleted'', ''SentinelPassFailed'',
      ''RunStarted'', ''RunDigestPublished'', ''RunFailed'',
      ''ProjectInitialized'', ''ValidationScenarioRun'', ''MigrationRunStarted'',
      ''MigrationBatchSubmitted'', ''MigrationRunCompleted'', ''SubSkillInvocationSkipped'',
      ''SessionSpawned'', ''LockAcquired'', ''DaemonRunCompleted'',
      ''TransactionEnvelopeSubmitted'', ''NodeTouched'', ''FindingAccepted'']"

section \<open>Stamping\<close>

definition jopt :: "string option \<Rightarrow> json" where
  "jopt x = (case x of None \<Rightarrow> JNull | Some s \<Rightarrow> JStr s)"

definition prov_dump :: "prov \<Rightarrow> dict" where
  "prov_dump p =
     [(''actor_type'', JStr (actor_type p)), (''actor_id'', JStr (actor_id p)),
      (''session_id'', jopt (session_id p)), (''task_id'', jopt (task_id p)),
      (''run_id'', jopt (run_id p)), (''causation_event_id'', jopt (causation_event_id p)),
      (''correlation_id'', jopt (correlation_id p)), (''daemon_name'', jopt (daemon_name p)),
      (''skill_id'', jopt (skill_id p)), (''parent_session_id'', jopt (parent_session_id p)),
      (''fork_name'', jopt (fork_name p)), (''writer_id'', jopt (writer_id p))]"

definition supersede_dump :: "superseding \<Rightarrow> dict" where
  "supersede_dump s =
     [(''is_supersede'', JBool (is_supersede s)),
      (''superseded_event_id'', jopt (superseded_event_id s)), (''novelty'', jopt (novelty s)),
      (''novelty_type'', jopt (novelty_type s))]"

definition subject_dump :: "subject \<Rightarrow> dict" where
  "subject_dump s =
     [(''entity_type'', JStr (entity_type s)), (''entity_id'', JStr (entity_id s)),
      (''role'', JStr (role s))]"

definition hash_input_for :: "event_record \<Rightarrow> dict" where
  "hash_input_for r =
     [(''event_id'', JStr (event_id r)), (''sequence_number'', JInt (sequence_number r)),
      (''timestamp'', JStr (timestamp r)), (''transaction_id'', jopt (transaction_id r)),
      (''batch_id'', jopt (batch_id r)),
      (''batch_position'', case batch_position r of None \<Rightarrow> JNull | Some n \<Rightarrow> JInt n),
      (''local_intent_id'', JStr (local_intent_id r)), (''event_type'', JStr (event_type r)),
      (''event_category'', JStr (event_category r)), (''payload'', JObj (payload r)),
      (''provenance'', JObj (prov_dump (provenance r))),
      (''base_classification'', JStr (base_class_value (base_classification r))),
      (''supersede'', JObj (supersede_dump (supersede r))),
      (''subjects'', JArr (map (JObj \<circ> subject_dump) (subjects r))),
      (''schema_version'', JStr (schema_version r))]"

definition compute_record_hash :: "ecodec \<Rightarrow> dict \<Rightarrow> string" where
  "compute_record_hash cd d = sha_json cd (filter (\<lambda>(k, _). k \<noteq> ''record_hash'') d)"

definition rehash :: "ecodec \<Rightarrow> event_record \<Rightarrow> event_record" where
  "rehash cd r = r\<lparr>record_hash := compute_record_hash cd (hash_input_for r)\<rparr>"

definition verify_record_integrity :: "ecodec \<Rightarrow> event_record \<Rightarrow> bool" where
  "verify_record_integrity cd r \<longleftrightarrow> compute_record_hash cd (hash_input_for r) = record_hash r"

definition stamp :: "ecodec \<Rightarrow> event_intent \<Rightarrow> string \<Rightarrow> string \<Rightarrow> int \<Rightarrow> (string \<times> string \<times> int) option
    \<Rightarrow> verr + event_record" where
  "stamp cd i hex now n path =
     (let draft =
        \<lparr>event_id = ''evt-'' @ hex, sequence_number = n, timestamp = now,
         transaction_id = map_option fst path, batch_id = map_option (fst \<circ> snd) path,
         batch_position = map_option (snd \<circ> snd) path, record_hash = ''0'',
         local_intent_id = i_local_intent_id i, event_type = i_event_type i,
         event_category = i_event_category i, payload = i_payload i,
         provenance = (i_provenance_hint i)\<lparr>writer_id := Some ''m01-writer''\<rparr>,
         base_classification = i_base_classification i, supersede = i_supersede i,
         subjects = i_subjects i, schema_version = i_schema_version i\<rparr>
      in if record_ok draft then Inr (rehash cd draft)
         else Inl (ValueError ''EventRecord validation failed''))"

definition reseq :: "ecodec \<Rightarrow> event_record \<Rightarrow> int \<Rightarrow> event_record" where
  "reseq cd r n = (if sequence_number r = n then r else rehash cd (r\<lparr>sequence_number := n\<rparr>))"

section \<open>Writers\<close>

definition lines_text :: "ecodec \<Rightarrow> event_record list \<Rightarrow> string" where
  "lines_text cd rs = concat (map (\<lambda>r. dump_event cd r @ [LF]) rs)"

fun reseq_batch :: "ecodec \<Rightarrow> (string \<Rightarrow> dict \<Rightarrow> verr option) \<Rightarrow> handle \<Rightarrow> int \<Rightarrow> event_record list
    \<Rightarrow> verr + event_record list" where
  "reseq_batch cd se h n [] = Inr []"
| "reseq_batch cd se h n (ev # evs) =
     rbind (reject_audit_event_in_batch (event_type ev)) (\<lambda>_.
     rbind (validate_uniqueness h (event_id ev)) (\<lambda>_.
     rbind (validate_sequence_unique h n) (\<lambda>_.
     rbind (validate_payload_typed se (event_type ev) (payload ev)) (\<lambda>_.
     rbind (reseq_batch cd se h (n + 1) evs) (\<lambda>out. Inr (reseq cd ev n # out))))))"

definition append_transaction_batch :: "ecodec \<Rightarrow> config \<Rightarrow> (string \<Rightarrow> dict \<Rightarrow> verr option) \<Rightarrow> batch
    \<Rightarrow> handle \<Rightarrow> disk \<Rightarrow> event_record list effect" where
  "append_transaction_batch cd cfg se b h d =
     (let base = read_max_seq_on_disk cd d + 1
      in case reseq_batch cd se h base (b_events b) of
           Inl e \<Rightarrow> (Inl e, h, d)
         | Inr written \<Rightarrow>
             (Inr written,
              h\<lparr>h_event_ids := h_event_ids h \<union> set (map event_id written),
                h_sequences := h_sequences h \<union> set (map sequence_number written),
                h_next := base + int (length written)\<rparr>,
              append_text (write_target cfg d (length written)) (lines_text cd written) d))"

definition index_own_write :: "ecodec \<Rightarrow> event_record \<Rightarrow> event_index option \<Rightarrow> event_index option" where
  "index_own_write cd r ix =
     (case ix of
        None \<Rightarrow> None
      | Some x \<Rightarrow>
          if max_sequence x = sequence_number r - 1
          then Some (index_add_records (fst (committed_records (parse_event cd) [dump_event cd r])) x)
          else Some x)"

definition prepare_direct :: "ecodec \<Rightarrow> (string \<Rightarrow> dict \<Rightarrow> verr option) \<Rightarrow> event_intent
    \<Rightarrow> string \<Rightarrow> string \<Rightarrow> handle \<Rightarrow> int \<Rightarrow> verr + event_record" where
  "prepare_direct cd se i hex now h n =
     rbind (validate_payload_typed se (i_event_type i) (i_payload i)) (\<lambda>_.
     rbind (stamp cd i hex now n None) (\<lambda>r.
     rbind (validate_uniqueness h (event_id r)) (\<lambda>_.
     rbind (validate_sequence_unique h n) (\<lambda>_. Inr r))))"

definition append_direct_record :: "ecodec \<Rightarrow> config \<Rightarrow> (string \<Rightarrow> dict \<Rightarrow> verr option) \<Rightarrow> event_intent
    \<Rightarrow> string \<Rightarrow> string \<Rightarrow> handle \<Rightarrow> disk \<Rightarrow> event_record effect" where
  "append_direct_record cd cfg se i hex now h d =
     (case prepare_direct cd se i hex now h (read_max_seq_on_disk cd d + 1) of
        Inl e \<Rightarrow> (Inl e, h, d)
      | Inr r \<Rightarrow>
          (Inr r,
           h\<lparr>h_event_ids := insert (event_id r) (h_event_ids h),
             h_sequences := insert (sequence_number r) (h_sequences h),
             h_next := sequence_number r + 1,
             h_index := index_own_write cd r (h_index h)\<rparr>,
           append_text (write_target cfg d 1) (lines_text cd [r]) d))"

definition write_direct :: "ecodec \<Rightarrow> config \<Rightarrow> (string \<Rightarrow> dict \<Rightarrow> verr option) \<Rightarrow> event_intent
    \<Rightarrow> string \<Rightarrow> string \<Rightarrow> handle \<Rightarrow> disk \<Rightarrow> event_record effect" where
  "write_direct cd cfg se i hex now h d =
     (if \<not> is_path_b_allowed (i_event_type i)
      then (Inl (ValueError ''event_type not allowed on path B''), h, d)
      else append_direct_record cd cfg se i hex now h d)"

definition write_audit_event :: "ecodec \<Rightarrow> config \<Rightarrow> (string \<Rightarrow> dict \<Rightarrow> verr option) \<Rightarrow> event_intent
    \<Rightarrow> string \<Rightarrow> string \<Rightarrow> handle \<Rightarrow> disk \<Rightarrow> event_record effect" where
  "write_audit_event cd cfg se i hex now h d =
     (if i_event_type i \<notin> set audit_producer_only_types
      then (Inl (ValueError ''_write_audit_event only for audit events''), h, d)
      else if actor_type (i_provenance_hint i) \<noteq> ''commit_gate''
           \<or> actor_id (i_provenance_hint i)
               \<notin> set [''m05_audit_fork'', ''m05_commit_gate'', ''m05_audit_trigger'']
      then (Inl (ValueError ''_write_audit_event requires sanctioned audit producer''), h, d)
      else append_direct_record cd cfg se i hex now h d)"

definition stamp_for_batch :: "ecodec \<Rightarrow> event_intent \<Rightarrow> string \<Rightarrow> string \<Rightarrow> string \<Rightarrow> string \<Rightarrow> int
    \<Rightarrow> handle \<Rightarrow> (verr + event_record) \<times> handle" where
  "stamp_for_batch cd i hex now tid bid pos h =
     (stamp cd i hex now (h_next h) (Some (tid, bid, pos)), h\<lparr>h_next := h_next h + 1\<rparr>)"

fun reseq_from :: "ecodec \<Rightarrow> int \<Rightarrow> event_record list \<Rightarrow> event_record list" where
  "reseq_from cd n [] = []"
| "reseq_from cd n (r # rs) = reseq cd r n # reseq_from cd (n + 1) rs"

definition normalize_batch_seqs :: "ecodec \<Rightarrow> event_record list \<Rightarrow> handle \<Rightarrow> event_record list \<times> handle" where
  "normalize_batch_seqs cd rs h =
     (reseq_from cd (h_next h) rs, h\<lparr>h_next := h_next h + int (length rs)\<rparr>)"

record merge_result =
  merged_event_ids :: "string list"
  skipped_duplicate_event_ids :: "string list"
  base_sequence :: int
  appended_count :: nat

fun merge_split :: "string set \<Rightarrow> event_record list \<Rightarrow> event_record list \<times> string list" where
  "merge_split seen [] = ([], [])"
| "merge_split seen (r # rs) =
     (if event_id r \<in> seen
      then (let (app, sk) = merge_split seen rs in (app, event_id r # sk))
      else (let (app, sk) = merge_split (insert (event_id r) seen) rs in (r # app, sk)))"

definition merge_foreign_events :: "ecodec \<Rightarrow> config \<Rightarrow> event_record list \<Rightarrow> handle \<Rightarrow> disk
    \<Rightarrow> merge_result \<times> handle \<times> disk" where
  "merge_foreign_events cd cfg foreign h d =
     (let base = read_max_seq_on_disk cd d + 1;
          (to_append, skipped) = merge_split (h_event_ids h) foreign;
          reseqed = reseq_from cd base to_append
      in (\<lparr>merged_event_ids = map event_id reseqed, skipped_duplicate_event_ids = skipped,
           base_sequence = (if reseqed = [] then -1 else base), appended_count = length reseqed\<rparr>,
          (if reseqed = [] then h
           else h\<lparr>h_event_ids := h_event_ids h \<union> set (map event_id reseqed),
                  h_next := base + int (length reseqed)\<rparr>),
          (if reseqed = [] then d
           else append_text (write_target cfg d (length reseqed)) (lines_text cd reseqed) d)))"

section \<open>Audits\<close>

definition audit_integrity :: "ecodec \<Rightarrow> disk \<Rightarrow> string list" where
  "audit_integrity cd d =
     [event_id r. r \<leftarrow> fst (committed cd d), \<not> verify_record_integrity cd r]"

definition audit_sequence_uniqueness :: "ecodec \<Rightarrow> disk \<Rightarrow> (int \<times> string list) list" where
  "audit_sequence_uniqueness cd d =
     (let by_seq = fold (\<lambda>r. bucket_add (sequence_number r) (event_id r)) (fst (committed cd d)) []
      in [(n, sort (remdups ids)). (n, ids) \<leftarrow> by_seq, card (set ids) > 1])"

section \<open>Recovery\<close>

fun split_lf :: "string \<Rightarrow> string list" where
  "split_lf [] = [[]]"
| "split_lf (c # cs) =
     (if c = LF then [] # split_lf cs
      else (case split_lf cs of [] \<Rightarrow> [[c]] | l # ls \<Rightarrow> (c # l) # ls))"

text \<open>The loop of \<open>recover\<close>: the last safe end and the cursor, over the pieces of the file.\<close>

fun safe_end :: "ecodec \<Rightarrow> nat \<Rightarrow> nat \<Rightarrow> string list \<Rightarrow> nat" where
  "safe_end cd safe cursor [] = safe"
| "safe_end cd safe cursor (line # lines) =
     (let end' = cursor + length line + 1
      in if line = [] then safe_end cd safe end' lines
         else (case parse_event cd line of
                 None \<Rightarrow> safe
               | Some r \<Rightarrow>
                   (if batch_id r = None \<or> is_sentinel r then safe_end cd end' end' lines
                    else safe_end cd safe end' lines)))"

definition recover :: "ecodec \<Rightarrow> handle \<Rightarrow> disk \<Rightarrow> int effect" where
  "recover cd h d =
     (case segment_text d (active_segment d) of
        None \<Rightarrow> (Inr 0, h, d)
      | Some content \<Rightarrow>
          (if content = [] then (Inr 0, h, d)
           else (let safe = safe_end cd 0 0 (split_lf content)
                 in if safe = length content then (Inr 0, h, d)
                    else (let d' = write_segment (active_segment d) (take safe content) d
                          in case derive_lifecycle_state cd d' of
                               Inl e \<Rightarrow> (Inl e, h, d')
                             | Inr (next, ids, seqs) \<Rightarrow>
                                 (Inr (int (length content) - int safe),
                                  h\<lparr>h_next := next, h_event_ids := ids, h_sequences := seqs,
                                    h_index := None, h_index_seg := None, h_index_size := -1\<rparr>,
                                  d')))))"

end
