(* ===== verification/Event_Log_Safety.thy ===== *)
theory Event_Log_Safety
  imports Event_Log
begin

text \<open>
  What the event log promises: sequence numbers on disk are strictly increasing whichever
  processes write, every write appends whole lines behind what is there, a batch becomes
  visible as a whole, and a stamped or renumbered record carries the digest of its content.
\<close>

section \<open>Sorted directories\<close>

lemma sort_key_alist:
  assumes "distinct (map fst al)"
  shows "sort_key fst al = map (\<lambda>k. (k, the (map_of al k))) (sorted_list_of_set (fst ` set al))"
proof -
  have keys: "map fst (sort_key fst al) = sorted_list_of_set (fst ` set al)"
    using assms by (intro sorted_distinct_set_unique) (simp_all add: distinct_map)
  have "map (\<lambda>k. (k, the (map_of al k))) (map fst (sort_key fst al)) = sort_key fst al"
    unfolding map_map using assms by (intro map_idI) auto
  then show ?thesis by (simp add: keys)
qed

definition hot_keys :: "disk \<Rightarrow> nat set" where
  "hot_keys d = fst ` set (hot_dir d)"

text \<open>Directory entries have distinct names, and the numbering has room for one more.\<close>

definition seg_ok :: "disk \<Rightarrow> bool" where
  "seg_ok d \<longleftrightarrow> distinct (map fst (hot_dir d)) \<and> (\<forall>n \<in> hot_keys d. n \<le> 999999)"

definition has_room :: "disk \<Rightarrow> bool" where
  "has_room d \<longleftrightarrow> (\<forall>n \<in> hot_keys d. n < 999999)"

lemma ordered_hot_eq:
  assumes "seg_ok d"
  shows "ordered_hot_segments d = map (\<lambda>n. (n, the (map_of (hot_dir d) n))) (sorted_list_of_set (hot_keys d))"
proof -
  have "filter (\<lambda>(n, _). n \<le> 999999) (hot_dir d) = hot_dir d"
    using assms by (auto simp: seg_ok_def hot_keys_def filter_id_conv)
  then show ?thesis
    using assms by (simp add: ordered_hot_segments_def seg_ok_def sort_key_alist hot_keys_def)
qed

lemma sorted_list_of_set_greater:
  assumes "finite A" and "\<forall>x \<in> A. x < (n :: nat)"
  shows "sorted_list_of_set (insert n A) = sorted_list_of_set A @ [n]"
proof -
  have "n \<notin> A" using assms(2) by auto
  then show ?thesis
    using assms sorted_insort_is_snoc [of "sorted_list_of_set A" n] by (simp add: less_imp_le)
qed

lemma finite_hot_keys [simp]: "finite (hot_keys d)"
  by (simp add: hot_keys_def)

lemma last_sorted_key:
  assumes "hot_keys d \<noteq> {}"
  shows "last (sorted_list_of_set (hot_keys d)) = Max (hot_keys d)"
proof -
  let ?A = "hot_keys d - {Max (hot_keys d)}"
  have "\<forall>x \<in> ?A. x < Max (hot_keys d)"
    using Max_ge [OF finite_hot_keys] by (metis DiffE insertCI le_neq_implies_less)
  moreover have "insert (Max (hot_keys d)) ?A = hot_keys d"
    using Max_in [OF finite_hot_keys assms] by auto
  ultimately show ?thesis
    using sorted_list_of_set_greater [of ?A "Max (hot_keys d)"] by simp
qed

lemma ordered_hot_empty: "seg_ok d \<Longrightarrow> ordered_hot_segments d = [] \<longleftrightarrow> hot_keys d = {}"
  by (simp add: ordered_hot_eq)

lemma active_segment_eq:
  "seg_ok d \<Longrightarrow> active_segment d = (if hot_keys d = {} then Base else Hot (Max (hot_keys d)))"
  by (simp add: active_segment_def Let_def ordered_hot_empty)
     (simp add: ordered_hot_eq last_map last_sorted_key)

lemma next_segment_eq:
  "seg_ok d \<Longrightarrow> next_segment d = Hot (if hot_keys d = {} then 1 else Max (hot_keys d) + 1)"
  by (simp add: next_segment_def Let_def ordered_hot_empty)
     (simp add: ordered_hot_eq last_map last_sorted_key)

section \<open>Appending to the last segment\<close>

lemma hot_keys_write [simp]:
  "hot_keys (write_segment (Hot n) t d) = insert n (hot_keys d)"
  "hot_keys (write_segment Base t d) = hot_keys d"
  by (simp_all add: hot_keys_def set_map_fst_update)

lemma seg_ok_write:
  "seg_ok d \<Longrightarrow> (\<forall>n. seg = Hot n \<longrightarrow> n \<le> 999999) \<Longrightarrow> seg_ok (write_segment seg t d)"
  by (cases seg) (auto simp: seg_ok_def distinct_update simp del: hot_keys_write,
      auto simp: hot_keys_def set_map_fst_update)

lemma segments_append_hot:
  assumes "seg_ok d" and "n \<le> 999999" and n: "\<forall>m \<in> hot_keys d - {n}. m < n"
  shows "\<exists>pre old. ordered_segments (append_text (Hot n) t d) = pre @ [(Hot n, old @ t)]
    \<and> ordered_segments d = pre @ (if n \<in> hot_keys d then [(Hot n, old)] else [])
    \<and> (n \<notin> hot_keys d \<longrightarrow> old = [])"
proof -
  let ?A = "hot_keys d - {n}"
  let ?f = "\<lambda>m. (m, the (map_of (hot_dir d) m))"
  define old where "old = (case map_of (hot_dir d) n of None \<Rightarrow> [] | Some s \<Rightarrow> s)"
  define base where "base = (case base_log d of None \<Rightarrow> [] | Some t \<Rightarrow> [(Base, t)])"
  have srt: "sorted_list_of_set (insert n ?A) = sorted_list_of_set ?A @ [n]"
    using n by (intro sorted_list_of_set_greater) auto
  have ok': "seg_ok (append_text (Hot n) t d)"
    unfolding append_text_def using assms by (intro seg_ok_write) auto
  have d': "append_text (Hot n) t d = d\<lparr>hot_dir := AList.update n (old @ t) (hot_dir d)\<rparr>"
    by (simp add: append_text_def old_def)
  have "ordered_hot_segments (append_text (Hot n) t d) = map ?f (sorted_list_of_set ?A) @ [(n, old @ t)]"
  proof -
    have "hot_keys (append_text (Hot n) t d) = insert n ?A"
      unfolding append_text_def hot_keys_write by auto
    then show ?thesis
      unfolding ordered_hot_eq [OF ok'] srt [symmetric]
      by (simp only: srt) (simp add: d' map_of_update_cases)
  qed
  moreover have "ordered_hot_segments d = map ?f (sorted_list_of_set ?A) @ (if n \<in> hot_keys d then [(n, old)] else [])"
  proof (cases "n \<in> hot_keys d")
    case True
    then have "hot_keys d = insert n ?A" by auto
    then have "sorted_list_of_set (hot_keys d) = sorted_list_of_set ?A @ [n]"
      using srt by simp
    moreover have "the (map_of (hot_dir d) n) = old"
      using True by (auto simp: hot_keys_def old_def map_of_eq_None_iff split: option.splits)
    ultimately show ?thesis using True by (simp add: ordered_hot_eq [OF assms(1)])
  next
    case False
    then have "?A = hot_keys d" by auto
    with False show ?thesis by (simp add: ordered_hot_eq [OF assms(1)])
  qed
  moreover have "base_log (append_text (Hot n) t d) = base_log d"
    by (simp add: d')
  moreover have "n \<notin> hot_keys d \<Longrightarrow> old = []"
    by (auto simp: old_def hot_keys_def map_of_eq_None_iff [symmetric] split: option.splits)
  ultimately show ?thesis
    by (intro exI [of _ "base @ map (\<lambda>(n, t). (Hot n, t)) (map ?f (sorted_list_of_set ?A))"] exI [of _ old])
       (auto simp: ordered_segments_def base_def split: option.splits)
qed

text \<open>Appending to the active or the next segment appends to the end of the log.\<close>

lemma segments_append_base:
  assumes "seg_ok d" and "hot_keys d = {}"
  shows "ordered_segments (append_text Base t d)
      = [(Base, (case base_log d of None \<Rightarrow> [] | Some s \<Rightarrow> s) @ t)]"
proof -
  have "hot_dir d = []" using assms(2) by (simp add: hot_keys_def)
  then show ?thesis by (simp add: ordered_segments_def append_text_def ordered_hot_segments_def)
qed

definition all_whole :: "disk \<Rightarrow> bool" where
  "all_whole d \<longleftrightarrow> (\<forall>(seg, t) \<in> set (ordered_segments d). whole_lines t)"

lemma append_end:
  assumes ok: "seg_ok d" and room: "has_room d" and w: "all_whole d"
    and seg: "seg = active_segment d \<or> seg = next_segment d"
  shows "raw_event_lines (append_text seg t d) = raw_event_lines d @ raw_lines t"
    and "whole_lines t \<Longrightarrow> all_whole (append_text seg t d)" and "seg_ok (append_text seg t d)"
proof -
  have "raw_event_lines (append_text seg t d) = raw_event_lines d @ raw_lines t
    \<and> (whole_lines t \<longrightarrow> all_whole (append_text seg t d)) \<and> seg_ok (append_text seg t d)"
  proof (cases "hot_keys d = {} \<and> seg = Base")
    case True
    then have e: "hot_dir d = []" by (simp add: hot_keys_def)
    have so: "ordered_segments d = (case base_log d of None \<Rightarrow> [] | Some s \<Rightarrow> [(Base, s)])"
      by (simp add: ordered_segments_def ordered_hot_segments_def e split: option.split)
    have "seg_ok (append_text seg t d)"
      unfolding append_text_def using ok True by (intro seg_ok_write) auto
    with True w show ?thesis
      using segments_append_base [OF ok, of t]
      by (cases "base_log d")
         (auto simp: raw_event_lines_def all_whole_def so raw_lines_append whole_lines_append)
  next
    case False
    then obtain n where n: "seg = Hot n" "n \<le> 999999" "\<forall>m \<in> hot_keys d - {n}. m < n"
    proof (cases "hot_keys d = {}")
      case True
      with False seg have "seg = Hot 1"
        by (auto simp: active_segment_eq [OF ok] next_segment_eq [OF ok])
      with that [of 1] True show ?thesis by simp
    next
      case ne: False
      have ge: "m \<le> Max (hot_keys d)" if "m \<in> hot_keys d" for m using that by simp
      have "Max (hot_keys d) < 999999"
        using room Max_in [OF finite_hot_keys ne] by (simp add: has_room_def)
      moreover have "\<forall>m \<in> hot_keys d - {Max (hot_keys d)}. m < Max (hot_keys d)"
        "\<forall>m \<in> hot_keys d - {Max (hot_keys d) + 1}. m < Max (hot_keys d) + 1"
        using ge by (auto simp: less_Suc_eq_le not_less intro: antisym)
      ultimately have le: "Max (hot_keys d) \<le> 999999" "Max (hot_keys d) + 1 \<le> 999999"
        and lt: "\<forall>m \<in> hot_keys d - {Max (hot_keys d)}. m < Max (hot_keys d)"
          "\<forall>m \<in> hot_keys d - {Max (hot_keys d) + 1}. m < Max (hot_keys d) + 1" by linarith+
      from seg have "seg = Hot (Max (hot_keys d)) \<or> seg = Hot (Max (hot_keys d) + 1)"
        using ne by (simp add: active_segment_eq [OF ok] next_segment_eq [OF ok])
      then show ?thesis
        using that [OF _ le(1) lt(1)] that [OF _ le(2) lt(2)] by blast
    qed
    obtain pre old where po:
      "ordered_segments (append_text (Hot n) t d) = pre @ [(Hot n, old @ t)]"
      "ordered_segments d = pre @ (if n \<in> hot_keys d then [(Hot n, old)] else [])"
      "n \<notin> hot_keys d \<longrightarrow> old = []"
      using segments_append_hot [OF ok n(2,3)] by blast
    have wo: "whole_lines old"
      using w po(2,3) by (cases "n \<in> hot_keys d") (auto simp: all_whole_def)
    have "seg_ok (append_text (Hot n) t d)"
      unfolding append_text_def using ok n(2) by (intro seg_ok_write) auto
    with n(1) po wo w show ?thesis
      by (cases "n \<in> hot_keys d")
         (auto simp: raw_event_lines_def all_whole_def raw_lines_append whole_lines_append)
  qed
  then show "raw_event_lines (append_text seg t d) = raw_event_lines d @ raw_lines t"
    "whole_lines t \<Longrightarrow> all_whole (append_text seg t d)" "seg_ok (append_text seg t d)" by simp_all
qed

section \<open>The highest sequence number on disk\<close>

definition log_seqs :: "ecodec \<Rightarrow> disk \<Rightarrow> int list" where
  "log_seqs cd d = List.map_filter (line_seq cd) (raw_event_lines d)"

definition text_seqs :: "ecodec \<Rightarrow> string \<Rightarrow> int list" where
  "text_seqs cd t = List.map_filter (line_seq cd) (raw_lines t)"

lemma segment_max_seq_eq: "segment_max_seq cd t = foldl max (-1) (text_seqs cd t)"
proof -
  have "foldl (\<lambda>m line. case line_seq cd line of None \<Rightarrow> m | Some n \<Rightarrow> if n > m then n else m) m ls
      = foldl max m (List.map_filter (line_seq cd) ls)" for m ls
    by (induction ls arbitrary: m) (auto simp: max_def split: option.split)
  then show ?thesis by (simp add: segment_max_seq_def text_seqs_def)
qed

lemma foldl_max_Max: "foldl max m xs = Max (insert m (set (xs :: int list)))"
proof -
  have "foldl max m xs = fold max xs m" for m :: int
    by (induction xs arbitrary: m) (simp_all add: max.commute)
  then show ?thesis using Max.set_eq_fold [of m xs] by simp
qed

lemma foldl_max_ge: "x \<in> insert m (set xs) \<Longrightarrow> x \<le> foldl max m (xs :: int list)"
  unfolding foldl_max_Max by (rule Max_ge) simp_all

lemma foldl_max_in: "foldl max m (xs :: int list) \<in> insert m (set xs)"
  unfolding foldl_max_Max by (rule Max_in) simp_all

lemma log_seqs_segments: "log_seqs cd d = concat (map (text_seqs cd \<circ> snd) (ordered_segments d))"
  by (simp add: log_seqs_def raw_event_lines_def text_seqs_def map_filter_def filter_concat map_concat o_def)

lemma first_max_seq_bound:
  assumes "sorted_wrt (<) (concat (map f segs))"
  shows "\<forall>n \<in> set (concat (map f segs)). n \<le> first_max_seq (map (\<lambda>s. foldl max (-1) (f s)) (rev segs))"
    and "-1 \<le> first_max_seq (map (\<lambda>s. foldl max (-1) (f s)) (rev segs))"
    and "first_max_seq (map (\<lambda>s. foldl max (-1) (f s)) (rev segs)) \<in> insert (-1) (set (concat (map f segs)))"
proof -
  have "(\<forall>n \<in> set (concat (map f segs)). n \<le> first_max_seq (map (\<lambda>s. foldl max (-1) (f s)) (rev segs)))
    \<and> -1 \<le> first_max_seq (map (\<lambda>s. foldl max (-1) (f s)) (rev segs))
    \<and> first_max_seq (map (\<lambda>s. foldl max (-1) (f s)) (rev segs)) \<in> insert (-1) (set (concat (map f segs)))"
    using assms
  proof (induction segs rule: rev_induct)
    case (snoc s segs)
    let ?m = "foldl max (-1) (f s)"
    have m: "?m \<in> insert (-1) (set (f s))" by (rule foldl_max_in)
    have le: "n \<le> ?m" if "n \<in> set (f s)" for n using foldl_max_ge [of n "-1" "f s"] that by simp
    show ?case
    proof (cases "?m \<ge> 0")
      case True
      with m have "?m \<in> set (f s)" by auto
      with snoc.prems have "\<forall>n \<in> set (concat (map f segs)). n < ?m"
        by (auto simp: sorted_wrt_append)
      with True le m show ?thesis by (auto intro: less_imp_le)
    next
      case False
      with m have "?m = -1" using foldl_max_ge [of "-1" "-1" "f s"] by auto
      with le have "n \<le> -1" if "n \<in> set (f s)" for n using that by auto
      with False snoc show ?thesis by (fastforce simp: sorted_wrt_append)
    qed
  qed simp
  then show "\<forall>n \<in> set (concat (map f segs)). n \<le> first_max_seq (map (\<lambda>s. foldl max (-1) (f s)) (rev segs))"
    "-1 \<le> first_max_seq (map (\<lambda>s. foldl max (-1) (f s)) (rev segs))"
    "first_max_seq (map (\<lambda>s. foldl max (-1) (f s)) (rev segs)) \<in> insert (-1) (set (concat (map f segs)))"
    by blast+
qed

lemma read_max_seq:
  assumes "sorted_wrt (<) (log_seqs cd d)"
  shows "\<forall>n \<in> set (log_seqs cd d). n \<le> read_max_seq_on_disk cd d"
    and "-1 \<le> read_max_seq_on_disk cd d"
    and "read_max_seq_on_disk cd d \<in> insert (-1) (set (log_seqs cd d))"
  using first_max_seq_bound [of "text_seqs cd \<circ> snd" "ordered_segments d"] assms
  by (simp_all add: read_max_seq_on_disk_def log_seqs_segments rev_map segment_max_seq_eq o_def)

section \<open>Sound codecs and good logs\<close>

text \<open>Serialising a valid record gives one line, without white space at its ends, that both
  parsers read back.\<close>

definition ecodec_sound :: "ecodec \<Rightarrow> bool" where
  "ecodec_sound cd \<longleftrightarrow>
     (\<forall>r. record_ok r \<longrightarrow> parse_event cd (dump_event cd r) = Some r
        \<and> one_line (dump_event cd r) \<and> stripped (dump_event cd r)
        \<and> shows_record (loads_json cd (dump_event cd r)) r)
     \<and> (\<forall>d. sha_json cd d \<noteq> [])"

definition line_ok :: "ecodec \<Rightarrow> string \<Rightarrow> bool" where
  "line_ok cd line \<longleftrightarrow> (\<forall>r. parse_event cd line = Some r \<longrightarrow> record_ok r \<and> shows_record (loads_json cd line) r)"

definition log_ok :: "ecodec \<Rightarrow> disk \<Rightarrow> bool" where
  "log_ok cd d \<longleftrightarrow> seg_ok d \<and> all_whole d
     \<and> (\<forall>line \<in> set (raw_event_lines d). line_ok cd line)
     \<and> sorted_wrt (<) (log_seqs cd d)"

lemma whole_lines_text [simp]: "whole_lines (lines_text cd rs)"
proof (induction rs)
  case (Cons r rs)
  then have "whole_lines ((dump_event cd r @ [LF]) @ lines_text cd rs)"
    by (rule whole_lines_append [OF _ whole_lines_snoc])
  then show ?case by (simp add: lines_text_def)
qed (simp add: lines_text_def)

lemma raw_lines_text:
  assumes "ecodec_sound cd" and "\<forall>r \<in> set rs. record_ok r"
  shows "raw_lines (lines_text cd rs) = map (dump_event cd) rs"
  using assms(2)
proof (induction rs)
  case Nil
  then show ?case by (simp add: lines_text_def)
next
  case (Cons r rs)
  then have "raw_lines (dump_event cd r @ [LF]) = [dump_event cd r]"
    using assms(1) by (intro raw_lines_line) (auto simp: ecodec_sound_def)
  moreover have "raw_lines ((dump_event cd r @ [LF]) @ lines_text cd rs)
      = raw_lines (dump_event cd r @ [LF]) @ raw_lines (lines_text cd rs)"
    by (intro raw_lines_append) simp
  ultimately show ?case using Cons by (simp add: lines_text_def)
qed

lemma shows_record_seq: "shows_record v r \<Longrightarrow>
    (case v of Some (JObj obj) \<Rightarrow> as_int (dget obj ''sequence_number'') | _ \<Rightarrow> None) = Some (sequence_number r)"
  by (auto simp: shows_record_def)

lemma line_seq_dump:
  "ecodec_sound cd \<Longrightarrow> record_ok r \<Longrightarrow> line_seq cd (dump_event cd r) = Some (sequence_number r)"
  by (simp add: line_seq_def ecodec_sound_def shows_record_seq)

lemma map_filter_line_seq:
  "ecodec_sound cd \<Longrightarrow> \<forall>r \<in> set rs. record_ok r \<Longrightarrow>
   List.map_filter (line_seq cd) (map (dump_event cd) rs) = map sequence_number rs"
  by (induction rs) (simp_all add: line_seq_dump)

text \<open>The core of every write: records numbered on from the highest number are appended.\<close>

fun numbered_from :: "int \<Rightarrow> event_record list \<Rightarrow> bool" where
  "numbered_from n [] = True"
| "numbered_from n (r # rs) \<longleftrightarrow> sequence_number r = n \<and> numbered_from (n + 1) rs"

lemma numbered_from_sorted:
  "numbered_from n rs \<Longrightarrow> sorted_wrt (<) (map sequence_number rs) \<and> (\<forall>r \<in> set rs. n \<le> sequence_number r)"
  by (induction rs arbitrary: n) fastforce+

lemma write_target_cases: "write_target cfg d k = active_segment d \<or> write_target cfg d k = next_segment d"
  by (simp add: write_target_def Let_def)

lemma append_records:
  assumes ok: "log_ok cd d" and room: "has_room d" and c: "ecodec_sound cd"
    and rs: "\<forall>r \<in> set rs. record_ok r" and n: "numbered_from (read_max_seq_on_disk cd d + 1) rs"
  shows "log_ok cd (append_text (write_target cfg d k) (lines_text cd rs) d)"
    and "raw_event_lines (append_text (write_target cfg d k) (lines_text cd rs) d)
           = raw_event_lines d @ map (dump_event cd) rs"
proof -
  let ?d = "append_text (write_target cfg d k) (lines_text cd rs) d"
  have so: "seg_ok d" "all_whole d" using ok by (simp_all add: log_ok_def)
  note app = append_end [OF so(1) room so(2) write_target_cases [of cfg d k], of "lines_text cd rs"]
  show lines: "raw_event_lines ?d = raw_event_lines d @ map (dump_event cd) rs"
    using app(1) raw_lines_text [OF c rs] by simp
  have "line_ok cd (dump_event cd r)" if "r \<in> set rs" for r
    using c rs that by (simp add: line_ok_def ecodec_sound_def)
  moreover have "log_seqs cd ?d = log_seqs cd d @ map sequence_number rs"
    unfolding log_seqs_def lines map_filter_append map_filter_line_seq [OF c rs] ..
  moreover have "sorted_wrt (<) (log_seqs cd d)" using ok by (simp add: log_ok_def)
  moreover have "\<forall>m \<in> set (log_seqs cd d). \<forall>r \<in> set rs. m < sequence_number r"
    using read_max_seq(1) [of cd d] ok numbered_from_sorted [OF n] by (fastforce simp: log_ok_def)
  ultimately show "log_ok cd ?d"
    using ok app(2,3) lines numbered_from_sorted [OF n]
    by (auto simp: log_ok_def sorted_wrt_append)
qed

section \<open>Stamping and renumbering\<close>

lemma hash_input_hash [simp]: "hash_input_for (r\<lparr>record_hash := x\<rparr>) = hash_input_for r"
  by (simp add: hash_input_for_def)

lemma rehash_simps [simp]:
  "event_id (rehash cd r) = event_id r" "sequence_number (rehash cd r) = sequence_number r"
  "batch_id (rehash cd r) = batch_id r" "event_type (rehash cd r) = event_type r"
  "schema_version (rehash cd r) = schema_version r" "payload (rehash cd r) = payload r"
  "verify_record_integrity cd (rehash cd r)"
  by (simp_all add: rehash_def verify_record_integrity_def)

lemma record_ok_rehash:
  "ecodec_sound cd \<Longrightarrow> record_ok r \<Longrightarrow> record_ok (rehash cd r)"
  by (simp add: record_ok_def rehash_def compute_record_hash_def ecodec_sound_def
      enforce_path_consistency_def Let_def split: if_splits)

lemma record_ok_seq:
  "record_ok r \<Longrightarrow> 0 \<le> n \<Longrightarrow> record_ok (r\<lparr>sequence_number := n\<rparr>)"
  by (simp add: record_ok_def enforce_path_consistency_def Let_def split: if_splits)

lemma stamp_ok:
  assumes "ecodec_sound cd" and "stamp cd i hex now n path = Inr r"
  shows "record_ok r \<and> sequence_number r = n \<and> event_id r = ''evt-'' @ hex
    \<and> event_type r = i_event_type i \<and> payload r = i_payload i \<and> schema_version r = i_schema_version i
    \<and> batch_id r = map_option (fst \<circ> snd) path \<and> verify_record_integrity cd r"
  using assms by (auto simp: stamp_def Let_def intro: record_ok_rehash split: if_splits)

lemma reseq_simps [simp]:
  "sequence_number (reseq cd r n) = n" "event_id (reseq cd r n) = event_id r"
  "batch_id (reseq cd r n) = batch_id r" "event_type (reseq cd r n) = event_type r"
  "schema_version (reseq cd r n) = schema_version r"
  by (simp_all add: reseq_def)

lemma reseq_ok: "ecodec_sound cd \<Longrightarrow> record_ok r \<Longrightarrow> 0 \<le> n \<Longrightarrow> record_ok (reseq cd r n)"
  by (simp add: reseq_def record_ok_rehash record_ok_seq)

lemma reseq_integrity:
  "verify_record_integrity cd r \<Longrightarrow> verify_record_integrity cd (reseq cd r n)"
  by (simp add: reseq_def)

lemma reseq_from_props:
  "ecodec_sound cd \<Longrightarrow> \<forall>r \<in> set rs. record_ok r \<Longrightarrow> 0 \<le> n \<Longrightarrow>
   numbered_from n (reseq_from cd n rs) \<and> (\<forall>r \<in> set (reseq_from cd n rs). record_ok r)"
proof (induction rs arbitrary: n)
  case (Cons r rs)
  from Cons.IH [of "n + 1"] Cons.prems show ?case by (simp add: reseq_ok)
qed simp

lemma reseq_from_map:
  "map event_id (reseq_from cd n rs) = map event_id rs"
  "map batch_id (reseq_from cd n rs) = map batch_id rs"
  "map event_type (reseq_from cd n rs) = map event_type rs"
  "map schema_version (reseq_from cd n rs) = map schema_version rs"
  "length (reseq_from cd n rs) = length rs"
  by (induction rs arbitrary: n; simp)+

lemma reseq_batch_from:
  "reseq_batch cd se h n evs = Inr out \<Longrightarrow> out = reseq_from cd n evs
     \<and> (\<forall>ev \<in> set evs. event_id ev \<notin> h_event_ids h \<and> event_type ev \<notin> set audit_producer_only_types
          \<and> is_ok (validate_payload_typed se (event_type ev) (payload ev)))"
proof (induction evs arbitrary: n out)
  case (Cons ev evs)
  then show ?case
    by (auto simp: py_simps reject_audit_event_in_batch_def validate_uniqueness_def split: if_splits)
qed simp

section \<open>Any process, any order\<close>

text \<open>A write by some process: its handle is whatever that process remembers.\<close>

datatype log_op =
    Direct event_intent string string
  | Audit event_intent string string
  | Batch batch
  | Merge "event_record list"
  | RawLine string

fun apply_op :: "ecodec \<Rightarrow> config \<Rightarrow> (string \<Rightarrow> dict \<Rightarrow> verr option) \<Rightarrow> handle \<Rightarrow> log_op \<Rightarrow> disk \<Rightarrow> disk" where
  "apply_op cd cfg se h (Direct i hex now) d = snd (snd (write_direct cd cfg se i hex now h d))"
| "apply_op cd cfg se h (Audit i hex now) d = snd (snd (write_audit_event cd cfg se i hex now h d))"
| "apply_op cd cfg se h (Batch b) d = snd (snd (append_transaction_batch cd cfg se b h d))"
| "apply_op cd cfg se h (Merge rs) d = snd (snd (merge_foreign_events cd cfg rs h d))"
| "apply_op cd cfg se h (RawLine l) d = append_raw_event_line l d"

text \<open>Batches and merged records hold validated records; a raw line is one line without a
  sequence number that is not a record.\<close>

fun op_ok :: "ecodec \<Rightarrow> log_op \<Rightarrow> bool" where
  "op_ok cd (Batch b) \<longleftrightarrow> list_all record_ok (b_events b)"
| "op_ok cd (Merge rs) \<longleftrightarrow> list_all record_ok rs"
| "op_ok cd (RawLine l) \<longleftrightarrow> one_line l \<and> stripped l \<and> parse_event cd l = None \<and> line_seq cd l = None"
| "op_ok cd _ \<longleftrightarrow> True"

fun run_ops :: "ecodec \<Rightarrow> config \<Rightarrow> (string \<Rightarrow> dict \<Rightarrow> verr option) \<Rightarrow> (handle \<times> log_op) list \<Rightarrow> disk \<Rightarrow> disk" where
  "run_ops cd cfg se [] d = d"
| "run_ops cd cfg se ((h, op) # ops) d = run_ops cd cfg se ops (apply_op cd cfg se h op d)"

definition log_extends :: "ecodec \<Rightarrow> disk \<Rightarrow> disk \<Rightarrow> bool" where
  "log_extends cd d d' \<longleftrightarrow> log_ok cd d' \<and> prefix (raw_event_lines d) (raw_event_lines d')"

lemma hot_keys_append_text:
  assumes "seg_ok d" and "seg = active_segment d \<or> seg = next_segment d"
    and "m \<in> hot_keys (append_text seg t d)"
  shows "\<exists>n \<in> insert 0 (hot_keys d). m \<le> n + 1"
proof (cases "hot_keys d = {}")
  case True
  with assms have "m = 1"
    by (auto simp: append_text_def active_segment_eq [OF assms(1)] next_segment_eq [OF assms(1)]
        simp del: write_segment.simps)
  then show ?thesis by auto
next
  case False
  then have m: "Max (hot_keys d) \<in> hot_keys d" by simp
  from assms(2) False have "seg = Hot (Max (hot_keys d)) \<or> seg = Hot (Max (hot_keys d) + 1)"
    by (simp add: active_segment_eq [OF assms(1)] next_segment_eq [OF assms(1)])
  then have "hot_keys (append_text seg t d) \<subseteq> insert (Max (hot_keys d) + 1) (hot_keys d)"
    unfolding append_text_def by (elim disjE) (simp_all only: hot_keys_write insert_absorb [OF m] subset_insertI subset_refl)
  with assms(3) have "m = Max (hot_keys d) + 1 \<or> m \<in> hot_keys d" by auto
  with m show ?thesis by force
qed

text \<open>Room in the numbering for as many rotations.\<close>

definition room_for :: "nat \<Rightarrow> disk \<Rightarrow> bool" where
  "room_for k d \<longleftrightarrow> (\<forall>n \<in> insert 0 (hot_keys d). n + k < 999999)"

lemma room_for_has_room: "room_for k d \<Longrightarrow> has_room d"
  by (force simp: room_for_def has_room_def)

lemma append_direct_disk:
  "append_direct_record cd cfg se i hex now h d = (res, h', d') \<Longrightarrow> ecodec_sound cd \<Longrightarrow>
   (d' = d \<and> (\<exists>e. res = Inl e)) \<or>
   (\<exists>r. res = Inr r \<and> record_ok r \<and> sequence_number r = read_max_seq_on_disk cd d + 1
      \<and> d' = append_text (write_target cfg d 1) (lines_text cd [r]) d
      \<and> event_id r = ''evt-'' @ hex \<and> event_type r = i_event_type i \<and> batch_id r = None
      \<and> schema_version r = i_schema_version i \<and> verify_record_integrity cd r)"
proof -
  assume a: "append_direct_record cd cfg se i hex now h d = (res, h', d')" and c: "ecodec_sound cd"
  show ?thesis
  proof (cases "prepare_direct cd se i hex now h (read_max_seq_on_disk cd d + 1)")
    case (Inl e)
    with a have "res = Inl e" "d' = d" by (simp_all add: append_direct_record_def)
    then show ?thesis by blast
  next
    case (Inr r)
    then have "stamp cd i hex now (read_max_seq_on_disk cd d + 1) None = Inr r"
      by (auto simp: prepare_direct_def py_simps)
    from stamp_ok [OF c this] Inr a show ?thesis
      by (intro disjI2 exI [of _ r]) (auto simp: append_direct_record_def)
  qed
qed

lemma op_disk:
  assumes "ecodec_sound cd" and "op_ok cd op" and "log_ok cd d"
  shows "apply_op cd cfg se h op d = d
    \<or> (\<exists>rs k. (\<forall>r \<in> set rs. record_ok r) \<and> numbered_from (read_max_seq_on_disk cd d + 1) rs
         \<and> apply_op cd cfg se h op d = append_text (write_target cfg d k) (lines_text cd rs) d)
    \<or> (\<exists>l. op = RawLine l)"
proof -
  have base: "0 \<le> read_max_seq_on_disk cd d + 1"
    using read_max_seq(2) [of cd d] assms(3) by (simp add: log_ok_def)
  have direct: "snd (snd (append_direct_record cd cfg se i hex now h d)) = d
    \<or> (\<exists>rs k. (\<forall>r \<in> set rs. record_ok r) \<and> numbered_from (read_max_seq_on_disk cd d + 1) rs
         \<and> snd (snd (append_direct_record cd cfg se i hex now h d))
           = append_text (write_target cfg d k) (lines_text cd rs) d)" for i hex now
  proof -
    obtain res h' d' where a: "append_direct_record cd cfg se i hex now h d = (res, h', d')"
      by (cases "append_direct_record cd cfg se i hex now h d") auto
    from append_direct_disk [OF a assms(1)] show ?thesis
    proof (elim disjE exE conjE)
      fix r assume "record_ok r" "sequence_number r = read_max_seq_on_disk cd d + 1"
        "d' = append_text (write_target cfg d 1) (lines_text cd [r]) d"
      then show ?thesis using a by (intro disjI2 exI [of _ "[r]"] exI [of _ 1]) simp
    qed (simp add: a)
  qed
  show ?thesis
  proof (cases op)
    case (Direct i hex now)
    with direct [of i hex now] show ?thesis by (auto simp: write_direct_def)
  next
    case (Audit i hex now)
    with direct [of i hex now] show ?thesis by (auto simp: write_audit_event_def)
  next
    case (Batch b)
    show ?thesis
    proof (cases "reseq_batch cd se h (read_max_seq_on_disk cd d + 1) (b_events b)")
      case (Inl e)
      with Batch show ?thesis by (simp add: append_transaction_batch_def)
    next
      case (Inr out)
      with reseq_batch_from [OF Inr] reseq_from_props [OF assms(1) _ base, of "b_events b"] Batch assms(2)
      show ?thesis
        by (intro disjI2 disjI1 exI [of _ out] exI [of _ "length out"])
           (simp add: append_transaction_batch_def Let_def list_all_iff)
    qed
  next
    case (Merge rs)
    define app where "app = fst (merge_split (h_event_ids h) rs)"
    have sub: "set (fst (merge_split seen xs)) \<subseteq> set xs" for seen and xs :: "event_record list"
      by (induction xs arbitrary: seen) (auto simp: Let_def case_prod_beta split: if_splits dest: subsetD)
    then have "\<forall>r \<in> set app. record_ok r"
      using assms(2) Merge by (auto simp: app_def list_all_iff)
    from reseq_from_props [OF assms(1) this base] Merge show ?thesis
      by (cases "reseq_from cd (read_max_seq_on_disk cd d + 1) app = []")
         (auto simp: merge_foreign_events_def Let_def case_prod_beta app_def)
  qed simp
qed

lemma raw_op_disk:
  assumes l: "op_ok cd (RawLine l)"
  shows "append_raw_event_line l d = append_text (active_segment d) (l @ [LF]) d" "raw_lines (l @ [LF]) = [l]"
proof -
  have "l \<noteq> []" and "last l \<noteq> LF"
    using l by (simp_all add: stripped_def one_line_def) (metis last_in_set)
  then show "append_raw_event_line l d = append_text (active_segment d) (l @ [LF]) d"
    by (simp add: append_raw_event_line_def)
  show "raw_lines (l @ [LF]) = [l]" using l by (simp add: raw_lines_line)
qed

lemma raw_op:
  assumes ok: "log_ok cd d" and room: "has_room d" and l: "op_ok cd (RawLine l)"
  shows "log_extends cd d (append_raw_event_line l d)"
    and "raw_event_lines (append_raw_event_line l d) = raw_event_lines d @ [l]"
proof -
  have so: "seg_ok d" "all_whole d" using ok by (simp_all add: log_ok_def)
  note r = raw_op_disk [OF l]
  note app = append_end [OF so(1) room so(2) disjI1 [OF refl], of "l @ [LF]"]
  show lines: "raw_event_lines (append_raw_event_line l d) = raw_event_lines d @ [l]"
    using app(1) r by simp
  have "log_seqs cd (append_raw_event_line l d) = log_seqs cd d"
    using l by (simp add: log_seqs_def lines map_filter_append)
  then show "log_extends cd d (append_raw_event_line l d)"
    using ok app(2,3) l lines r(1) by (auto simp: log_extends_def log_ok_def line_ok_def)
qed

lemma op_extends:
  assumes "ecodec_sound cd" and "op_ok cd op" and "log_ok cd d" and "has_room d"
  shows "log_extends cd d (apply_op cd cfg se h op d)"
  using op_disk [OF assms(1-3), of cfg se h]
proof (elim disjE exE conjE)
  fix rs k
  assume rs: "\<forall>r \<in> set rs. record_ok r" "numbered_from (read_max_seq_on_disk cd d + 1) rs"
    and d': "apply_op cd cfg se h op d = append_text (write_target cfg d k) (lines_text cd rs) d"
  show ?thesis
    using append_records [OF assms(3,4,1) rs] by (simp add: log_extends_def d')
next
  fix l assume "op = RawLine l"
  then show ?thesis using raw_op(1) assms(2-4) by simp
qed (use assms(3) in \<open>simp add: log_extends_def\<close>)

lemma op_room:
  assumes "ecodec_sound cd" and "op_ok cd op" and "log_ok cd d" and "room_for (Suc k) d"
  shows "room_for k (apply_op cd cfg se h op d)"
proof -
  have so: "seg_ok d" using assms(3) by (simp add: log_ok_def)
  have step: "room_for k (append_text seg t d)" if "seg = active_segment d \<or> seg = next_segment d" for seg t
    using hot_keys_append_text [OF so that, of _ t] assms(4) by (fastforce simp: room_for_def)
  have same: "room_for k d" using assms(4) by (force simp: room_for_def)
  show ?thesis
    using op_disk [OF assms(1-3), of cfg se h]
  proof (elim disjE exE conjE)
    fix rs k'
    assume "apply_op cd cfg se h op d = append_text (write_target cfg d k') (lines_text cd rs) d"
    then show ?thesis using step [OF write_target_cases] by simp
  next
    fix l assume "op = RawLine l"
    then show ?thesis using step [OF disjI1 [OF refl]] by (simp add: append_raw_event_line_def)
  qed (simp add: same)
qed

lemma run_ops_extends:
  "ecodec_sound cd \<Longrightarrow> list_all (op_ok cd \<circ> snd) ops \<Longrightarrow> log_ok cd d \<Longrightarrow> room_for (length ops) d \<Longrightarrow>
   log_extends cd d (run_ops cd cfg se ops d)"
proof (induction ops arbitrary: d)
  case Nil
  then show ?case by (simp add: log_extends_def)
next
  case (Cons ho ops)
  obtain h op where ho: "ho = (h, op)" by (cases ho)
  have o: "op_ok cd op" using Cons.prems(2) ho by simp
  have r: "room_for (Suc (length ops)) d" using Cons.prems(4) by simp
  have e: "log_extends cd d (apply_op cd cfg se h op d)"
    using Cons.prems(1,3) o r by (intro op_extends) (auto intro: room_for_has_room)
  have "log_extends cd (apply_op cd cfg se h op d) (run_ops cd cfg se ops (apply_op cd cfg se h op d))"
    using Cons.prems e op_room [OF Cons.prems(1) o Cons.prems(3) r] by (intro Cons.IH) (auto simp: log_extends_def)
  with e ho show ?case by (auto simp: log_extends_def intro: prefix_order.trans)
qed

section \<open>Batches are atomic\<close>

definition known_versions :: "ecodec \<Rightarrow> disk \<Rightarrow> bool" where
  "known_versions cd d \<longleftrightarrow> no_unknown_truth (parse_event cd) (raw_event_lines d)"

definition log_readable :: "ecodec \<Rightarrow> disk \<Rightarrow> event_record list" where
  "log_readable cd d = readable (parse_event cd) (raw_event_lines d)"

lemma committed_eq:
  "known_versions cd d \<Longrightarrow> committed cd d = (fst (vis_run [] (log_readable cd d)), None)"
  by (simp add: committed_def committed_records_def known_versions_def log_readable_def iter_committed_ok)

text \<open>No unfinished records of a batch are on disk.\<close>

definition batch_fresh :: "ecodec \<Rightarrow> disk \<Rightarrow> string \<Rightarrow> bool" where
  "batch_fresh cd d b \<longleftrightarrow> (\<forall>r \<in> set (log_readable cd d). batch_id r \<noteq> Some b)"

lemma batch_fresh_bucket:
  assumes "batch_fresh cd d b"
  shows "bucket (snd (vis_run [] (log_readable cd d))) b = []"
proof -
  have "filter (in_batch b) (log_readable cd d) = []"
    using assms by (auto simp: batch_fresh_def in_batch_def filter_empty_conv)
  with vis_run_batch [OF buffer_ok_Nil, of b "log_readable cd d"] show ?thesis by simp
qed

lemma vis_run_whole_batch:
  assumes "rs \<noteq> []" and "\<forall>r \<in> set rs. batch_id r = Some b" and "is_sentinel (last rs)"
  shows "fst (vis_run buf rs) = bucket buf b @ rs"
  using assms
proof (induction rs arbitrary: buf)
  case (Cons r rs)
  have r: "batch_id r = Some b" using Cons.prems by simp
  show ?case
  proof (cases "rs = []")
    case True
    with Cons.prems r show ?thesis by (simp add: vis_step_def)
  next
    case False
    with Cons.prems have "fst (vis_run buf' rs) = bucket buf' b @ rs" for buf'
      by (intro Cons.IH) auto
    with r show ?thesis by (simp add: vis_step_def Let_def case_prod_beta)
  qed
qed simp

lemma readable_dump:
  assumes "ecodec_sound cd"
  shows "\<forall>r \<in> set rs. record_ok r \<and> is_known_schema_version (schema_version r) \<Longrightarrow>
     readable (parse_event cd) (map (dump_event cd) rs) = rs"
  using assms by (induction rs) (simp_all add: ecodec_sound_def)

lemma no_unknown_append:
  "no_unknown_truth p (xs @ ys) \<longleftrightarrow> no_unknown_truth p xs \<and> no_unknown_truth p ys"
  by (auto simp: no_unknown_truth_def)

lemma no_unknown_dump:
  assumes "ecodec_sound cd"
  shows "\<forall>r \<in> set rs. record_ok r \<and> is_known_schema_version (schema_version r) \<Longrightarrow>
     no_unknown_truth (parse_event cd) (map (dump_event cd) rs)"
  using assms by (auto simp: no_unknown_truth_def ecodec_sound_def)

lemma committed_append:
  assumes "known_versions cd d" and "raw_event_lines d' = raw_event_lines d @ ls"
    and "no_unknown_truth (parse_event cd) ls"
  shows "committed cd d' = (fst (committed cd d)
      @ fst (vis_run (snd (vis_run [] (log_readable cd d))) (readable (parse_event cd) ls)), None)"
proof -
  have "known_versions cd d'"
    using assms by (simp add: known_versions_def no_unknown_append)
  moreover have "log_readable cd d' = log_readable cd d @ readable (parse_event cd) ls"
    by (simp add: log_readable_def assms(2) readable_append)
  ultimately show ?thesis
    using assms(1) by (simp add: committed_eq vis_run_append Let_def case_prod_beta)
qed

end
