(* ===== verification/Event_Log_Crash.thy ===== *)
theory Event_Log_Crash
  imports Event_Log_Safety
begin

text \<open>
  Crashes in the middle of a write, and recovery.  A crash leaves a prefix of the bytes of
  the write.  Whole or not at all is what readers see; recovery restores the file, except
  when only the final newline is missing; without recovery the next record is lost.
\<close>

section \<open>Prefixes of a write\<close>

text \<open>A proper prefix of a serialised record is no record, and neither is a serialised record
  behind a non-empty prefix of another: JSON texts of objects have these properties.\<close>

definition torn_unreadable :: "ecodec \<Rightarrow> bool" where
  "torn_unreadable cd \<longleftrightarrow>
     (\<forall>r p. record_ok r \<longrightarrow> strict_prefix p (dump_event cd r) \<longrightarrow>
        parse_event cd p = None \<and> parse_event cd (py_strip p) = None)
     \<and> (\<forall>r r' p. record_ok r \<longrightarrow> record_ok r' \<longrightarrow> p \<noteq> [] \<longrightarrow> prefix p (dump_event cd r) \<longrightarrow>
        parse_event cd (py_strip (p @ dump_event cd r')) = None)"

text \<open>Records as the writers produce them.\<close>

definition writable :: "event_record list \<Rightarrow> bool" where
  "writable rs \<longleftrightarrow> (\<forall>r \<in> set rs. record_ok r \<and> is_known_schema_version (schema_version r))"

lemma lines_text_simps [simp]:
  "lines_text cd [] = []"
  "lines_text cd (r # rs) = dump_event cd r @ LF # lines_text cd rs"
  by (simp_all add: lines_text_def)

lemma lines_text_append: "lines_text cd (rs @ rs') = lines_text cd rs @ lines_text cd rs'"
  by (simp add: lines_text_def)

lemma dump_props:
  assumes "ecodec_sound cd" and "record_ok r"
  shows "one_line (dump_event cd r)" "stripped (dump_event cd r)"
    "parse_event cd (dump_event cd r) = Some r" "py_strip (dump_event cd r) = dump_event cd r"
    "dump_event cd r \<noteq> []" "LF \<notin> set (dump_event cd r)"
  using assms by (auto simp: ecodec_sound_def one_line_def stripped_def intro: py_strip_stripped)

text \<open>What is on disk after a crash: whole records and a torn one, which may be complete
  except for its newline.\<close>

lemma prefix_lines_text:
  "prefix P (lines_text cd rs) \<Longrightarrow> P = lines_text cd rs \<or>
   (\<exists>rs1 r rs2 t. rs = rs1 @ r # rs2 \<and> P = lines_text cd rs1 @ t \<and> prefix t (dump_event cd r))"
proof (induction rs arbitrary: P)
  case Nil
  then show ?case by simp
next
  case (Cons r rs)
  from Cons.prems have pre: "prefix P ((dump_event cd r @ [LF]) @ lines_text cd rs)" by simp
  then consider (here) "prefix P (dump_event cd r)" | (later) P' where
    "P = (dump_event cd r @ [LF]) @ P'" "prefix P' (lines_text cd rs)"
  proof -
    from pre consider "prefix P (dump_event cd r @ [LF])"
      | P' where "P = (dump_event cd r @ [LF]) @ P'" "prefix P' (lines_text cd rs)"
      unfolding prefix_append by blast
    then show thesis
    proof cases
      case 1
      then show thesis using that(1) that(2) [of "[]"] by auto
    next
      case 2
      then show thesis by (rule that(2))
    qed
  qed
  then show ?case
  proof cases
    case here
    then show ?thesis
      by (intro disjI2 exI [of _ "[]"] exI [of _ r] exI [of _ rs] exI [of _ P]) simp
  next
    case later
    from Cons.IH [OF later(2)] show ?thesis
    proof (elim disjE exE conjE)
      fix rs1 r' rs2 t
      assume "rs = rs1 @ r' # rs2" "P' = lines_text cd rs1 @ t" "prefix t (dump_event cd r')"
      with later(1) show ?thesis
        by (intro disjI2 exI [of _ "r # rs1"] exI [of _ r'] exI [of _ rs2] exI [of _ t]) simp
    qed (simp add: later(1))
  qed
qed

lemma ulines_one: "one_line t \<Longrightarrow> t \<noteq> [] \<Longrightarrow> ulines t = [t]"
proof (induction t)
  case (Cons c t)
  then show ?case by (cases "t = []") (auto simp: one_line_def)
qed simp

lemma one_line_prefix: "prefix t s \<Longrightarrow> one_line s \<Longrightarrow> one_line t"
  by (auto simp: one_line_def prefix_def)

lemma raw_lines_torn:
  assumes "ecodec_sound cd" and "record_ok r" and "prefix t (dump_event cd r)"
  shows "raw_lines t = (if py_strip t = [] then [] else [py_strip t])"
proof (cases "t = []")
  case False
  then show ?thesis
    using ulines_one [OF one_line_prefix [OF assms(3) dump_props(1) [OF assms(1,2)]]]
    by (simp add: raw_lines_def)
qed (simp add: py_strip_def)

lemma raw_lines_prefix:
  assumes "ecodec_sound cd" and "\<forall>r \<in> set rs. record_ok r"
  shows "raw_lines (lines_text cd rs @ t) = map (dump_event cd) rs @ raw_lines t"
  by (simp add: raw_lines_append raw_lines_text [OF assms])

lemma torn_strip:
  assumes "torn_unreadable cd" and "ecodec_sound cd" and "record_ok r"
    and "prefix t (dump_event cd r)" and "t \<noteq> dump_event cd r"
  shows "parse_event cd (py_strip t) = None"
  using assms by (auto simp: torn_unreadable_def strict_prefix_def)

text \<open>What a reader finds in the bytes a crash left: every record, or a proper initial part.\<close>

lemma readable_prefix:
  assumes t: "torn_unreadable cd" and c: "ecodec_sound cd" and w: "writable rs"
    and P: "prefix P (lines_text cd rs)"
  shows "no_unknown_truth (parse_event cd) (raw_lines P)
     \<and> (if P = lines_text cd rs \<or> P @ [LF] = lines_text cd rs
        then readable (parse_event cd) (raw_lines P) = rs
        else \<exists>rs1 rs2. rs = rs1 @ rs2 \<and> rs2 \<noteq> [] \<and> readable (parse_event cd) (raw_lines P) = rs1)"
  using prefix_lines_text [OF P]
proof (elim disjE exE conjE)
  assume e: "P = lines_text cd rs"
  have "\<forall>r \<in> set rs. record_ok r" using w by (simp add: writable_def)
  from raw_lines_text [OF c this] show ?thesis
    using readable_dump [OF c, of rs] no_unknown_dump [OF c, of rs] w
    by (simp add: e writable_def)
next
  fix rs1 r rs2 u
  assume rs: "rs = rs1 @ r # rs2" and Pu: "P = lines_text cd rs1 @ u" and u: "prefix u (dump_event cd r)"
  have r: "record_ok r" "is_known_schema_version (schema_version r)"
    and w1: "\<forall>r \<in> set rs1. record_ok r \<and> is_known_schema_version (schema_version r)"
    and w1': "\<forall>r \<in> set rs1. record_ok r"
    using w by (auto simp: writable_def rs)
  note ls = raw_lines_prefix [OF c w1', of u] raw_lines_torn [OF c r(1) u]
  note d = dump_props [OF c r(1)]
  show ?thesis
  proof (cases "u = dump_event cd r")
    case True
    have lines: "raw_lines P = map (dump_event cd) rs1 @ [dump_event cd r]"
      using d by (simp add: Pu True raw_lines_prefix [OF c w1'] raw_lines_torn [OF c r(1)])
    have nu: "no_unknown_truth (parse_event cd) (raw_lines P)"
      unfolding lines no_unknown_append using no_unknown_dump [OF c w1] d r
      by (simp add: no_unknown_truth_def [of _ "[dump_event cd r]"])
    have rd: "readable (parse_event cd) (raw_lines P) = rs1 @ [r]"
      using readable_dump [OF c w1] d r by (simp add: lines readable_append)
    have "P \<noteq> lines_text cd rs" by (simp add: Pu rs True lines_text_append)
    moreover have "P @ [LF] = lines_text cd rs \<longleftrightarrow> lines_text cd rs2 = []"
      by (auto simp: Pu rs True lines_text_append)
    moreover have "lines_text cd rs2 = [] \<longleftrightarrow> rs2 = []" by (cases rs2) simp_all
    ultimately show ?thesis
      using nu rd by (auto simp: rs intro!: exI [of _ "rs1 @ [r]"] exI [of _ rs2])
  next
    case False
    have none: "parse_event cd (py_strip u) = None" by (rule torn_strip [OF t c r(1) u False])
    have lines: "raw_lines P = map (dump_event cd) rs1 @ (if py_strip u = [] then [] else [py_strip u])"
      by (simp only: Pu ls)
    have "no_unknown_truth (parse_event cd) (raw_lines P)"
      unfolding lines no_unknown_append using no_unknown_dump [OF c w1] none
      by (simp add: no_unknown_truth_def [of _ "[]"] no_unknown_truth_def [of _ "[py_strip u]"])
    moreover have "readable (parse_event cd) (raw_lines P) = rs1"
      using readable_dump [OF c w1] none by (simp add: lines readable_append)
    moreover have "length u < length (dump_event cd r)"
      using u False by (auto simp: prefix_def)
    then have "P \<noteq> lines_text cd rs" "P @ [LF] \<noteq> lines_text cd rs"
      by (auto simp: Pu rs lines_text_append dest: arg_cong [of _ _ length])
    ultimately show ?thesis by (auto simp: rs)
  qed
qed

section \<open>Whole or not at all\<close>

lemma crash_atomic:
  assumes ok: "log_ok cd d" "has_room d" "known_versions cd d"
    and t: "torn_unreadable cd" and c: "ecodec_sound cd" and w: "writable rs" "rs \<noteq> []"
    and b: "\<forall>r \<in> set rs. batch_id r = Some b" "is_sentinel (last rs)" "\<forall>r \<in> set (butlast rs). \<not> is_sentinel r"
    and fresh: "batch_fresh cd d b"
    and P: "prefix P (lines_text cd rs)"
    and seg: "seg = active_segment d \<or> seg = next_segment d"
  shows "committed cd (append_text seg P d) =
     (fst (committed cd d) @ (if P = lines_text cd rs \<or> P @ [LF] = lines_text cd rs then rs else []), None)"
proof -
  let ?B = "snd (vis_run [] (log_readable cd d))"
  have lines: "raw_event_lines (append_text seg P d) = raw_event_lines d @ raw_lines P"
    using ok(1) by (intro append_end(1) [OF _ ok(2) _ seg]) (auto simp: log_ok_def)
  have rp: "no_unknown_truth (parse_event cd) (raw_lines P)"
    "if P = lines_text cd rs \<or> P @ [LF] = lines_text cd rs
        then readable (parse_event cd) (raw_lines P) = rs
        else \<exists>rs1 rs2. rs = rs1 @ rs2 \<and> rs2 \<noteq> [] \<and> readable (parse_event cd) (raw_lines P) = rs1"
    using readable_prefix [OF t c w(1) P] by simp_all
  have eB: "bucket ?B b = []" using fresh by (rule batch_fresh_bucket)
  have whole: "fst (vis_run ?B rs) = rs"
    using vis_run_whole_batch [OF w(2) b(1,2), of ?B] eB by simp
  have part: "fst (vis_run ?B rs1) = []" if "rs = rs1 @ rs2" "rs2 \<noteq> []" for rs1 rs2
  proof -
    have "butlast rs = rs1 @ butlast rs2" using that by (simp add: butlast_append)
    with b(1,3) that(1) have "\<forall>r \<in> set rs1. batch_id r = Some b \<and> \<not> is_sentinel r" by auto
    from vis_run_domain [OF this, of ?B] show ?thesis by simp
  qed
  show ?thesis
    unfolding committed_append [OF ok(3) lines rp(1)] using rp(2) whole part
    by (auto split: if_splits)
qed

section \<open>Recovery\<close>

lemma split_lf_line: "LF \<notin> set l \<Longrightarrow> split_lf (l @ LF # s) = l # split_lf s"
  by (induction l) auto

lemma safe_end_step:
  assumes "l \<noteq> []" and "parse_event cd l = Some r"
  shows "safe_end cd s k (l # ls) =
    safe_end cd (if batch_id r = None \<or> is_sentinel r then k + length l + 1 else s) (k + length l + 1) ls"
  using assms by (simp add: Let_def)

lemma split_lf_torn: "LF \<notin> set t \<Longrightarrow> split_lf t = [t]"
  by (induction t) auto

lemma split_lf_lines:
  assumes "ecodec_sound cd" and "\<forall>r \<in> set rs. record_ok r"
  shows "split_lf (lines_text cd rs @ s) = map (dump_event cd) rs @ split_lf s"
  using assms(2)
proof (induction rs)
  case (Cons r rs)
  then show ?case
    using split_lf_line [of "dump_event cd r" "lines_text cd rs @ s"] dump_props(6) [OF assms(1), of r]
    by simp
qed simp

definition safe_record :: "event_record \<Rightarrow> bool" where
  "safe_record r \<longleftrightarrow> batch_id r = None \<or> is_sentinel r"

lemma upto_last_Cons:
  "upto_last P (x # xs) = (if list_ex P xs then x # upto_last P xs else if P x then [x] else [])"
proof (cases "list_ex P xs")
  case True
  then obtain y where "y \<in> set (rev xs)" "\<not> \<not> P y" by (auto simp: list_ex_iff)
  then have "dropWhile (\<lambda>x. \<not> P x) (rev xs @ [x]) = dropWhile (\<lambda>x. \<not> P x) (rev xs) @ [x]"
    by (rule dropWhile_append1)
  with True show ?thesis by (simp add: upto_last_def)
next
  case False
  then have "dropWhile (\<lambda>x. \<not> P x) (rev xs @ [x]) = dropWhile (\<lambda>x. \<not> P x) [x]"
    by (intro dropWhile_append2) (auto simp: list_ex_iff)
  with False show ?thesis by (simp add: upto_last_def)
qed

lemma safe_end_lines:
  assumes c: "ecodec_sound cd" and "\<forall>r \<in> set rs. record_ok r"
  shows "safe_end cd s k (map (dump_event cd) rs @ rest) =
     safe_end cd (if list_ex safe_record rs
                  then k + length (lines_text cd (upto_last safe_record rs)) else s)
       (k + length (lines_text cd rs)) rest"
  using assms(2)
proof (induction rs arbitrary: s k)
  case (Cons r rs)
  then have r: "record_ok r" by simp
  have step: "safe_end cd s k (dump_event cd r # ls) =
      safe_end cd (if safe_record r then k + length (dump_event cd r) + 1 else s)
        (k + length (dump_event cd r) + 1) ls" for ls
    using dump_props [OF c r] by (simp add: safe_record_def Let_def)
  show ?case
    using Cons by (cases "safe_record r"; cases "list_ex safe_record rs")
      (simp_all add: step upto_last_Cons add.assoc del: safe_end.simps)
qed simp

text \<open>A segment as the writers leave it: complete batches and path-B records.\<close>

definition safe_text :: "ecodec \<Rightarrow> string \<Rightarrow> bool" where
  "safe_text cd old \<longleftrightarrow>
     (\<exists>olds. old = lines_text cd olds \<and> (\<forall>r \<in> set olds. record_ok r)
        \<and> (olds \<noteq> [] \<longrightarrow> safe_record (last olds)))"

lemma upto_last_last: "xs \<noteq> [] \<Longrightarrow> P (last xs) \<Longrightarrow> upto_last P xs = xs"
  using upto_lastI [of "[]" P xs] by simp

lemma upto_last_none: "\<forall>x \<in> set xs. \<not> P x \<Longrightarrow> upto_last P xs = []"
  using upto_lastI [of xs P "[]"] by simp

lemma safe_end_old:
  assumes c: "ecodec_sound cd" and "\<forall>r \<in> set olds. record_ok r" and "olds \<noteq> [] \<longrightarrow> safe_record (last olds)"
  shows "safe_end cd 0 0 (split_lf (lines_text cd olds @ s)) =
    safe_end cd (length (lines_text cd olds)) (length (lines_text cd olds)) (split_lf s)"
proof (cases "olds = []")
  case False
  with assms(3) have "safe_record (last olds)" "list_ex safe_record olds"
    by (auto simp: list_ex_iff)
  with False show ?thesis
    by (simp add: split_lf_lines [OF c assms(2)] safe_end_lines [OF c assms(2)] upto_last_last)
qed simp


lemma segment_text_write [simp]: "segment_text (write_segment seg t d) seg = Some t"
  by (cases seg) (simp_all add: update_conv)

lemma write_segment_twice: "write_segment seg t (write_segment seg u d) = write_segment seg t d"
  by (cases seg) simp_all

lemma max_hot_room: "has_room d \<Longrightarrow> hot_keys d \<noteq> {} \<Longrightarrow> Max (hot_keys d) < 999999"
  using Max_in [OF finite_hot_keys] by (auto simp: has_room_def)

lemma active_after_append:
  assumes "seg_ok d" and room: "has_room d" and "seg = active_segment d \<or> seg = next_segment d"
  shows "active_segment (append_text seg t d) = seg"
proof -
  have "\<forall>n. seg = Hot n \<longrightarrow> n \<le> 999999"
  proof (cases "hot_keys d = {}")
    case False
    from max_hot_room [OF room this] False assms(3) show ?thesis
      by (auto simp: active_segment_eq [OF assms(1)] next_segment_eq [OF assms(1)]
          simp del: Max_less_iff)
  qed (use assms(3) in \<open>auto simp: active_segment_eq [OF assms(1)] next_segment_eq [OF assms(1)]\<close>)
  then have ok: "seg_ok (append_text seg t d)"
    unfolding append_text_def by (intro seg_ok_write assms(1))
  from assms(3) show ?thesis
  proof
    assume seg: "seg = active_segment d"
    show ?thesis
    proof (cases "hot_keys d = {}")
      case True
      then show ?thesis unfolding active_segment_eq [OF ok]
        by (simp add: seg append_text_def active_segment_eq [OF assms(1)] del: write_segment.simps)
    next
      case False
      then show ?thesis unfolding active_segment_eq [OF ok]
        by (simp add: seg append_text_def active_segment_eq [OF assms(1)] insert_absorb
            del: write_segment.simps)
    qed
  next
    assume seg: "seg = next_segment d"
    show ?thesis
    proof (cases "hot_keys d = {}")
      case True
      then show ?thesis unfolding active_segment_eq [OF ok]
        by (simp add: seg append_text_def next_segment_eq [OF assms(1)] del: write_segment.simps)
    next
      case False
      then show ?thesis unfolding active_segment_eq [OF ok]
        by (simp add: seg append_text_def next_segment_eq [OF assms(1)] max_def
            del: write_segment.simps)
    qed
  qed
qed

text \<open>What the segment held before the write.\<close>

definition text_before :: "disk \<Rightarrow> segment \<Rightarrow> string" where
  "text_before d seg = (case segment_text d seg of None \<Rightarrow> [] | Some s \<Rightarrow> s)"

lemma append_text_before: "append_text seg t d = write_segment seg (text_before d seg @ t) d"
  by (simp add: append_text_def text_before_def)

lemma safe_end_crash:
  assumes t: "torn_unreadable cd" and c: "ecodec_sound cd" and w: "\<forall>r \<in> set rs. record_ok r"
    and b: "\<forall>r \<in> set (butlast rs). \<not> safe_record r"
    and P: "prefix P (lines_text cd rs)" "P \<noteq> lines_text cd rs" "P @ [LF] \<noteq> lines_text cd rs"
  shows "safe_end cd s k (split_lf P) = s"
  using prefix_lines_text [OF P(1)]
proof (elim disjE exE conjE)
  fix rs1 r rs2 u
  assume rs: "rs = rs1 @ r # rs2" and Pu: "P = lines_text cd rs1 @ u" and u: "prefix u (dump_event cd r)"
  have r: "record_ok r" and w1: "\<forall>r \<in> set rs1. record_ok r" using w by (auto simp: rs)
  have "set rs1 \<subseteq> set (butlast rs)" by (auto simp: rs butlast_append)
  with b have "\<not> list_ex safe_record rs1" by (auto simp: list_ex_iff)
  then have first: "safe_end cd s k (split_lf P) = safe_end cd s (k + length (lines_text cd rs1)) (split_lf u)"
    by (simp add: Pu split_lf_lines [OF c w1] safe_end_lines [OF c w1])
  note LF_r = dump_props(6) [OF c r]
  have "LF \<notin> set u" using u LF_r by (auto simp: prefix_def)
  note split = split_lf_torn [OF this]
  show ?thesis
  proof (cases "u = dump_event cd r")
    case True
    have "rs2 \<noteq> []" using P(3) by (auto simp: Pu rs True lines_text_append)
    then have "r \<in> set (butlast rs)" by (simp add: rs butlast_append)
    with b have "\<not> safe_record r" by simp
    then show ?thesis
      using safe_end_step [OF dump_props(5) [OF c r] dump_props(3) [OF c r]] LF_r
      by (auto simp: first split_lf_torn True safe_record_def simp del: safe_end.simps(2))
  next
    case False
    then have "parse_event cd u = None"
      using t r u by (simp add: torn_unreadable_def strict_prefix_def)
    then show ?thesis by (simp add: first split Let_def)
  qed
qed (use P(2) in simp)

text \<open>Recovery puts the segment back to what it was before the write.\<close>

lemma recover_restores:
  assumes ok: "seg_ok d" "has_room d" and seg: "seg = active_segment d \<or> seg = next_segment d"
    and old: "safe_text cd (text_before d seg)"
    and t: "torn_unreadable cd" and c: "ecodec_sound cd" and w: "\<forall>r \<in> set rs. record_ok r"
    and b: "\<forall>r \<in> set (butlast rs). \<not> safe_record r"
    and P: "prefix P (lines_text cd rs)" "P \<noteq> lines_text cd rs" "P @ [LF] \<noteq> lines_text cd rs"
  shows "snd (snd (recover cd h (append_text seg P d))) = append_text seg [] d"
proof -
  let ?old = "text_before d seg"
  obtain olds where o: "?old = lines_text cd olds" "\<forall>r \<in> set olds. record_ok r"
    "olds \<noteq> [] \<longrightarrow> safe_record (last olds)"
    using old by (auto simp: safe_text_def)
  have content: "segment_text (append_text seg P d) seg = Some (?old @ P)"
    by (simp add: append_text_before)
  have safe: "safe_end cd 0 0 (split_lf (?old @ P)) = length ?old"
    by (simp only: o(1) safe_end_old [OF c o(2,3)] safe_end_crash [OF t c w b P])
  have undo: "write_segment seg ?old (append_text seg P d) = append_text seg [] d"
    by (simp add: append_text_before write_segment_twice)
  show ?thesis
  proof (cases "P = []")
    case True
    then show ?thesis using safe content by (simp add: recover_def active_after_append [OF ok seg])
  next
    case False
    then show ?thesis
      using safe undo
      by (simp add: recover_def content active_after_append [OF ok seg] Let_def
          split: sum.split prod.split)
  qed
qed

text \<open>A write that lost only its final newline is taken for complete.\<close>

lemma safe_end_no_newline:
  assumes c: "ecodec_sound cd" and w: "\<forall>r \<in> set rs. record_ok r" "rs \<noteq> []" "safe_record (last rs)"
    and P: "P @ [LF] = lines_text cd rs"
  shows "safe_end cd s k (split_lf P) = k + length P + 1"
proof -
  obtain rs1 r where rs: "rs = rs1 @ [r]" using w(2) by (metis append_butlast_last_id)
  have r: "record_ok r" "safe_record r" and w1: "\<forall>r \<in> set rs1. record_ok r"
    using w by (auto simp: rs)
  have Pu: "P = lines_text cd rs1 @ dump_event cd r"
    using P by (simp add: rs lines_text_append)
  note step = safe_end_step [OF dump_props(5) [OF c r(1)] dump_props(3) [OF c r(1)]]
  show ?thesis
    using r(2) dump_props(6) [OF c r(1)]
    by (simp add: Pu split_lf_lines [OF c w1] safe_end_lines [OF c w1] split_lf_torn safe_record_def
        step del: safe_end.simps(2))
qed

lemma recover_misses_newline:
  assumes ok: "seg_ok d" "has_room d" and seg: "seg = active_segment d \<or> seg = next_segment d"
    and old: "safe_text cd (text_before d seg)"
    and c: "ecodec_sound cd" and w: "\<forall>r \<in> set rs. record_ok r" "rs \<noteq> []" "safe_record (last rs)"
    and P: "P @ [LF] = lines_text cd rs"
  shows "snd (snd (recover cd h (append_text seg P d))) = append_text seg P d"
    and "fst (recover cd h (append_text seg P d)) = Inr n \<Longrightarrow> n = -1"
proof -
  let ?old = "text_before d seg" and ?d = "append_text seg P d"
  obtain olds where o: "?old = lines_text cd olds" "\<forall>r \<in> set olds. record_ok r"
    "olds \<noteq> [] \<longrightarrow> safe_record (last olds)"
    using old by (auto simp: safe_text_def)
  have content: "segment_text ?d seg = Some (?old @ P)"
    by (simp add: append_text_before)
  have safe: "safe_end cd 0 0 (split_lf (?old @ P)) = length (?old @ P) + 1"
    unfolding o(1) safe_end_old [OF c o(2,3)] safe_end_no_newline [OF c w P] by simp
  have same: "write_segment seg (?old @ P) ?d = ?d"
    by (simp add: append_text_before write_segment_twice)
  have "?old @ P \<noteq> []"
    using P w(2) dump_props(5) [OF c, of "hd rs"] w(1) by (cases rs) (auto simp: append_eq_Cons_conv Cons_eq_append_conv)
  then show "snd (snd (recover cd h ?d)) = ?d"
    and "fst (recover cd h ?d) = Inr n \<Longrightarrow> n = -1"
    using safe same
    by (auto simp: recover_def content active_after_append [OF ok seg] Let_def
        split: sum.splits prod.splits if_splits)
qed

section \<open>A torn tail that nobody repaired\<close>

text \<open>The next line written behind a torn one becomes part of it, and is lost.\<close>

lemma torn_tail_swallows:
  assumes t: "torn_unreadable cd" and c: "ecodec_sound cd" and r: "record_ok r" "record_ok r'"
    and P: "prefix P (dump_event cd r)" "P \<noteq> []"
  shows "readable (parse_event cd) (raw_lines (P @ lines_text cd [r'])) = []"
proof -
  have one: "one_line (P @ dump_event cd r')"
    using one_line_prefix [OF P(1) dump_props(1) [OF c r(1)]] dump_props(1) [OF c r(2)]
    by (auto simp: one_line_def)
  have "parse_event cd (py_strip (P @ dump_event cd r')) = None"
    using t r P by (simp add: torn_unreadable_def)
  moreover have "raw_lines (P @ lines_text cd [r'])
      = (let s = py_strip (P @ dump_event cd r') in if s = [] then [] else [s])"
    using ulines_line [OF one] by (simp add: raw_lines_def Let_def)
  ultimately show ?thesis by (simp add: Let_def readable_def)
qed

end
