(* ===== verification/Sample_Codec.thy ===== *)
theory Sample_Codec
  imports Event_Log_Crash "HOL-Library.Countable"
begin

text \<open>
  One codec that satisfies every law the development assumes of a record codec, so that the
  theorems about the log can be applied to concrete logs.  A record is numbered (records are
  countable) and written as that many \<open>x\<close> between braces; like a JSON object, such a text
  cannot be cut short or start inside another one and still be read.
\<close>

instance json :: countable
  by countable_datatype

instance base_class :: countable
  by countable_datatype

section \<open>Numbering records\<close>

definition prov_key :: "prov \<Rightarrow> string option list" where
  "prov_key p = [Some (actor_type p), Some (actor_id p), session_id p, task_id p, run_id p,
     causation_event_id p, correlation_id p, daemon_name p, skill_id p, parent_session_id p,
     fork_name p, writer_id p]"

definition superseding_key :: "superseding \<Rightarrow> bool \<times> string option list" where
  "superseding_key s = (is_supersede s, [superseded_event_id s, novelty s, novelty_type s])"

definition subject_key :: "subject \<Rightarrow> string list" where
  "subject_key s = [entity_type s, entity_id s, role s]"

definition record_number :: "event_record \<Rightarrow> nat" where
  "record_number r = to_nat
     ((event_id r, sequence_number r, timestamp r, transaction_id r, batch_id r),
      (batch_position r, record_hash r, local_intent_id r, event_type r, event_category r),
      (payload r, prov_key (provenance r), base_classification r, superseding_key (supersede r),
       map subject_key (subjects r), schema_version r))"

lemma inj_prov_key: "prov_key p = prov_key q \<longleftrightarrow> p = q"
  by (cases p; cases q) (simp add: prov_key_def)

lemma inj_superseding_key: "superseding_key p = superseding_key q \<longleftrightarrow> p = q"
  by (cases p; cases q) (simp add: superseding_key_def)

lemma inj_subject_key: "subject_key p = subject_key q \<longleftrightarrow> p = q"
  by (cases p; cases q) (simp add: subject_key_def)

lemma inj_record_number: "record_number r = record_number r' \<longleftrightarrow> r = r'"
proof -
  have "map subject_key ss = map subject_key ss' \<longleftrightarrow> ss = ss'" for ss ss'
    using inj_map_eq_map [of subject_key] by (simp add: inj_def inj_subject_key)
  then show ?thesis
    by (cases r; cases r') (auto simp: record_number_def inj_prov_key inj_superseding_key)
qed

section \<open>The codec\<close>

definition bars :: "nat \<Rightarrow> string" where
  "bars n = CHR ''{'' # replicate n (CHR ''x'') @ [CHR ''}'']"

definition numbered :: "string \<Rightarrow> event_record option" where
  "numbered s = (if \<exists>r. s = bars (record_number r) then Some (THE r. s = bars (record_number r)) else None)"

lemma bars_inject [simp]: "bars m = bars n \<longleftrightarrow> m = n"
  by (simp add: bars_def)

lemma numbered_bars [simp]: "numbered (bars (record_number r)) = Some r"
  by (auto simp: numbered_def inj_record_number)

lemma numberedD: "numbered s = Some r \<Longrightarrow> s = bars (record_number r)"
  by (auto simp: numbered_def inj_record_number split: if_splits)

definition lifecycle_json :: "event_record \<Rightarrow> json" where
  "lifecycle_json r = JObj
     [(''sequence_number'', JInt (sequence_number r)), (''event_id'', JStr (event_id r)),
      (''schema_version'', JStr (schema_version r)),
      (''base_classification'', JStr (base_class_value (base_classification r))),
      (''batch_id'', case batch_id r of None \<Rightarrow> JNull | Some b \<Rightarrow> JStr b),
      (''event_type'', JStr (event_type r))]"

definition sample_codec :: ecodec where
  "sample_codec = \<lparr>parse_event = numbered, dump_event = bars \<circ> record_number,
     loads_json = map_option lifecycle_json \<circ> numbered, sha_json = (\<lambda>d. ''sha256:'')\<rparr>"

lemma sample_simps [simp]:
  "parse_event sample_codec = numbered"
  "dump_event sample_codec r = bars (record_number r)"
  "loads_json sample_codec s = map_option lifecycle_json (numbered s)"
  "sha_json sample_codec d = ''sha256:''"
  by (simp_all add: sample_codec_def)

lemma bars_char: "c \<in> set (bars n) \<Longrightarrow> c \<in> {CHR ''{'', CHR ''x'', CHR ''}''}"
  by (auto simp: bars_def)

lemma bars_line: "one_line (bars n)" "stripped (bars n)"
  using bars_char by (fastforce simp: one_line_def, simp add: stripped_def bars_def is_space_def)

lemma shows_lifecycle_json: "shows_record (Some (lifecycle_json r)) r"
  by (simp add: shows_record_def lifecycle_json_def dget_def)

lemma sample_sound: "ecodec_sound sample_codec"
  using bars_line by (simp add: ecodec_sound_def shows_lifecycle_json)

text \<open>Every text the codec reads has its only closing brace at the end.\<close>

lemma bars_prefix: "strict_prefix p (bars n) \<Longrightarrow> CHR ''}'' \<notin> set p"
proof -
  assume p: "strict_prefix p (bars n)"
  then obtain w where w: "bars n = p @ w" "w \<noteq> []"
    by (auto simp: strict_prefix_def prefix_def)
  then have "butlast (bars n) = p @ butlast w" by (simp add: butlast_append)
  moreover have "CHR ''}'' \<notin> set (butlast (bars n))"
    by (simp add: bars_def butlast_append)
  ultimately show ?thesis by simp
qed

lemma set_py_strip: "set (py_strip s) \<subseteq> set s"
  by (auto simp: py_strip_def dest!: set_dropWhileD)

lemma numbered_open: "CHR ''}'' \<notin> set p \<Longrightarrow> numbered p = None"
  by (cases "numbered p") (auto simp: bars_def dest!: numberedD)

lemma numbered_glued:
  assumes "p \<noteq> []" and "prefix p (bars n)"
  shows "numbered (py_strip (p @ bars m)) = None"
proof -
  obtain q where q: "p = CHR ''{'' # q" using assms by (cases p) (auto simp: bars_def)
  have "stripped (p @ bars m)"
    by (simp add: stripped_def q) (simp add: bars_def is_space_def)
  then have strip: "py_strip (p @ bars m) = p @ bars m" by (rule py_strip_stripped)
  have "p @ bars m \<noteq> bars k" for k
  proof
    assume "p @ bars m = bars k"
    then have "tl (p @ bars m) = tl (bars k)" by simp
    then have "set (q @ bars m) = set (replicate k (CHR ''x'') @ [CHR ''}''])"
      by (simp add: q bars_def [of k] del: set_append)
    moreover have "CHR ''{'' \<in> set (q @ bars m)" by (simp add: bars_def)
    moreover have "CHR ''{'' \<notin> set (replicate k (CHR ''x'') @ [CHR ''}''])" by simp
    ultimately show False by (simp only: )
  qed
  then show ?thesis by (cases "numbered (p @ bars m)") (auto simp: strip dest!: numberedD)
qed

lemma sample_torn: "torn_unreadable sample_codec"
proof -
  have "numbered p = None \<and> numbered (py_strip p) = None" if "strict_prefix p (bars n)" for p n
    using bars_prefix [OF that] set_py_strip [of p] by (auto intro: numbered_open)
  then show ?thesis by (simp add: torn_unreadable_def numbered_glued)
qed

section \<open>Sample records\<close>

definition sample_prov :: prov where
  "sample_prov = \<lparr>actor_type = ''owner'', actor_id = ''o'', session_id = None, task_id = None,
     run_id = None, causation_event_id = None, correlation_id = None, daemon_name = None,
     skill_id = None, parent_session_id = None, fork_name = None, writer_id = None\<rparr>"

definition hex_id :: "string \<Rightarrow> string" where
  "hex_id s = ''evt-'' @ replicate (32 - length s) (CHR ''0'') @ s"

definition sample_record :: "string \<Rightarrow> int \<Rightarrow> string \<Rightarrow> (string \<times> int) option \<Rightarrow> event_record" where
  "sample_record i n type path =
     \<lparr>event_id = hex_id i, sequence_number = n, timestamp = ''t'',
      transaction_id = map_option (\<lambda>_. ''tx'') path, batch_id = map_option fst path,
      batch_position = map_option snd path, record_hash = ''0'', local_intent_id = ''l'',
      event_type = type, event_category = ''c'', payload = [], provenance = sample_prov,
      base_classification = IMMUTABLE_TRUTH,
      supersede = \<lparr>is_supersede = False, superseded_event_id = None, novelty = None, novelty_type = None\<rparr>,
      subjects = [\<lparr>entity_type = ''task'', entity_id = ''T1'', role = ''primary''\<rparr>],
      schema_version = ''1.0.0''\<rparr>"

definition sample_batch :: "event_record list" where
  "sample_batch =
     [sample_record ''a'' 0 ''FindingCreated'' (Some (''b1'', 0)),
      sample_record ''b'' 1 ''CommitAccepted'' (Some (''b1'', 1))]"

definition empty_disk :: disk where
  "empty_disk = \<lparr>base_log = None, hot_dir = []\<rparr>"

lemma sample_batch_ok: "list_all record_ok sample_batch"
  by code_simp

lemma empty_disk_ok [simp]:
  "log_ok cd empty_disk" "room_for 3 empty_disk" "has_room empty_disk" "known_versions cd empty_disk"
  "batch_fresh cd empty_disk b" "seg_ok empty_disk" "raw_event_lines empty_disk = []"
  "fst (committed cd empty_disk) = []"
  by (simp_all add: log_ok_def room_for_def has_room_def known_versions_def batch_fresh_def seg_ok_def
      all_whole_def empty_disk_def raw_event_lines_def ordered_segments_def ordered_hot_segments_def
      hot_keys_def log_seqs_def log_readable_def no_unknown_truth_def readable_def
      committed_def committed_records_def)

end
