(* ===== verification/Event_Log_Writes.thy ===== *)
theory Event_Log_Writes
  imports Event_Log_Safety
begin

text \<open>
  What one write adds to the committed stream: a direct record is the next visible record, a
  batch is visible as a whole.  The properties of the log and the commit gate build on these.
\<close>

lemma payload_reseq [simp]: "payload (reseq cd r n) = payload r"
  by (simp add: reseq_def)

lemma payload_reseq_from: "map payload (reseq_from cd n rs) = map payload rs"
  by (induction rs arbitrary: n) simp_all

lemma numbered_next: "numbered_from n (reseq_from cd n rs)"
  by (induction rs arbitrary: n) simp_all

lemma batch_written:
  assumes "reseq_batch cd se h n (b_events b) = Inr out" and "enforce_batch_invariants b = Inr b"
  shows "out \<noteq> []" "\<forall>r \<in> set out. batch_id r = Some (b_batch_id b)" "is_sentinel (last out)"
    "map event_id out = map event_id (b_events b)"
proof -
  have out: "out = reseq_from cd n (b_events b)" using reseq_batch_from [OF assms(1)] by simp
  have b: "b_events b \<noteq> []" "\<forall>r \<in> set (b_events b). batch_id r = Some (b_batch_id b)"
    "is_sentinel (last (b_events b))"
    using assms(2) by (auto simp: enforce_batch_ok_iff is_sentinel_def split: batch_status.splits)
  note m = reseq_from_map [of cd n "b_events b", folded out]
  show "map event_id out = map event_id (b_events b)" by (rule m(1))
  show ne: "out \<noteq> []" using m(5) b(1) by auto
  have "set (map batch_id out) = {Some (b_batch_id b)}"
    unfolding m(2) using b(1,2) by (auto simp: image_iff) (metis last_in_set)
  then show "\<forall>r \<in> set out. batch_id r = Some (b_batch_id b)" by auto
  have "event_type (last out) = event_type (last (b_events b))"
    using m(3) ne b(1) by (metis last_map)
  with b(3) show "is_sentinel (last out)" by (simp add: is_sentinel_def)
qed

lemma direct_record_committed:
  assumes "ecodec_sound cd" and "log_ok cd d" and "has_room d" and "known_versions cd d"
    and "is_known_schema_version (i_schema_version i)"
    and "append_direct_record cd cfg se i hex now h d = (Inr r, h', d')"
  shows "committed cd d' = (fst (committed cd d) @ [r], None)
    \<and> event_id r = ''evt-'' @ hex \<and> event_type r = i_event_type i \<and> payload r = i_payload i
    \<and> (\<forall>n \<in> set (log_seqs cd d). n < sequence_number r) \<and> verify_record_integrity cd r
    \<and> log_ok cd d' \<and> known_versions cd d' \<and> log_readable cd d' = log_readable cd d @ [r] \<and> batch_id r = None
    \<and> 0 \<le> sequence_number r"
proof -
  have r: "record_ok r" "sequence_number r = read_max_seq_on_disk cd d + 1"
    "d' = append_text (write_target cfg d 1) (lines_text cd [r]) d"
    "event_id r = ''evt-'' @ hex" "event_type r = i_event_type i" "batch_id r = None"
    "schema_version r = i_schema_version i" "verify_record_integrity cd r"
    using append_direct_disk [OF assms(6,1)] by auto
  obtain n where "stamp cd i hex now n None = Inr r"
    using assms(6) by (auto simp: append_direct_record_def prepare_direct_def py_simps split: sum.splits)
  then have p: "payload r = i_payload i" using stamp_ok [OF assms(1)] by blast
  have n: "numbered_from (read_max_seq_on_disk cd d + 1) [r]" using r(2) by simp
  have one: "\<forall>x \<in> set [r]. record_ok x \<and> is_known_schema_version (schema_version x)"
    using r assms(5) by simp
  note app = append_records [OF assms(2,3,1) _ n, of cfg 1]
  note unk = no_unknown_dump [OF assms(1) one]
  have lines: "raw_event_lines d' = raw_event_lines d @ [dump_event cd r]" using app(2) r by simp
  have "committed cd d' = (fst (committed cd d) @ [r], None)"
    using committed_append [OF assms(4) lines] unk readable_dump [OF assms(1) one] r
    by (simp add: vis_step_def)
  moreover have "\<forall>n \<in> set (log_seqs cd d). n < sequence_number r"
    using read_max_seq(1) [of cd d] assms(2) r(2) by (fastforce simp: log_ok_def)
  moreover have "known_versions cd d'"
    using assms(4) unk by (simp add: known_versions_def lines no_unknown_append)
  moreover have "log_readable cd d' = log_readable cd d @ [r]"
    using readable_dump [OF assms(1) one] by (simp add: log_readable_def lines readable_append)
  ultimately show ?thesis using r p app(1) by (simp add: record_ok_def)
qed

lemma batch_committed:
  assumes "ecodec_sound cd" and "log_ok cd d" and "has_room d" and "known_versions cd d"
    and "enforce_batch_invariants b = Inr b"
    and "\<forall>r \<in> set (b_events b). record_ok r \<and> is_known_schema_version (schema_version r)"
    and "batch_fresh cd d (b_batch_id b)"
    and "append_transaction_batch cd cfg se b h d = (res, h', d')"
  shows "case res of
      Inl e \<Rightarrow> h' = h \<and> d' = d
    | Inr out \<Rightarrow> committed cd d' = (fst (committed cd d) @ out, None)
        \<and> map event_id out = map event_id (b_events b)
        \<and> (\<forall>r \<in> set out. batch_id r = Some (b_batch_id b)) \<and> is_sentinel (last out)
        \<and> out = reseq_from cd (read_max_seq_on_disk cd d + 1) (b_events b)
        \<and> log_ok cd d' \<and> known_versions cd d' \<and> log_readable cd d' = log_readable cd d @ out
        \<and> 0 \<le> h_next h'"
proof (cases "reseq_batch cd se h (read_max_seq_on_disk cd d + 1) (b_events b)")
  case (Inl e)
  then have "res = Inl e" "h' = h" "d' = d"
    using assms(8) by (simp_all add: append_transaction_batch_def)
  then show ?thesis by simp
next
  case (Inr out)
  let ?n = "read_max_seq_on_disk cd d + 1"
  have out: "out = reseq_from cd ?n (b_events b)" using reseq_batch_from [OF Inr] by simp
  have res: "res = Inr out" "d' = append_text (write_target cfg d (length out)) (lines_text cd out) d"
    "h_next h' = ?n + int (length out)"
    using assms(8) Inr by (auto simp: append_transaction_batch_def Let_def)
  have base: "0 \<le> ?n" using read_max_seq(2) [of cd d] assms(2) by (simp add: log_ok_def)
  have ok: "\<forall>r \<in> set out. record_ok r"
    using reseq_from_props [OF assms(1) _ base, of "b_events b"] assms(6) out by simp
  have "schema_version r \<in> schema_version ` set (b_events b)" if "r \<in> set out" for r
    using reseq_from_map(4) [of cd ?n "b_events b", folded out, THEN arg_cong [of _ _ set]] that
    by (auto simp: set_eq_iff)
  with assms(6) have "\<forall>r \<in> set out. is_known_schema_version (schema_version r)" by fastforce
  with ok have known: "\<forall>r \<in> set out. record_ok r \<and> is_known_schema_version (schema_version r)" by simp
  note b = batch_written [OF Inr assms(5)]
  have n: "numbered_from ?n out" unfolding out by (rule numbered_next)
  note app = append_records [OF assms(2,3,1) ok n]
  note unk = no_unknown_dump [OF assms(1) known]
  have lines: "raw_event_lines d' = raw_event_lines d @ map (dump_event cd) out" using app(2) res(2) by simp
  have "fst (vis_run (snd (vis_run [] (log_readable cd d))) out) = out"
    using vis_run_whole_batch [OF b(1-3)] batch_fresh_bucket [OF assms(7)] by simp
  then have "committed cd d' = (fst (committed cd d) @ out, None)"
    using committed_append [OF assms(4) lines unk] readable_dump [OF assms(1) known] by simp
  moreover have "known_versions cd d'" using assms(4) unk by (simp add: known_versions_def lines no_unknown_append)
  moreover have "log_readable cd d' = log_readable cd d @ out"
    using readable_dump [OF assms(1) known] by (simp add: log_readable_def lines readable_append)
  ultimately show ?thesis using b(2-4) res out base app(1) by simp
qed

end
