(* ===== verification/Event_Log_Properties.thy ===== *)
theory Event_Log_Properties
  imports Sample_Codec Event_Log_Writes
begin

text \<open>
  The properties of the event log: writes by any processes only append, under fresh and
  rising sequence numbers; a batch is visible as a whole or not at all, after a crash too;
  recovery; what the narrowed scan and the start-up scan promise.
\<close>

section \<open>A run of writes on an empty log\<close>

definition sample_cfg :: config where
  "sample_cfg = \<lparr>segment_max_events = 2, segment_max_bytes = 1000000\<rparr>"

definition no_schema :: "string \<Rightarrow> dict \<Rightarrow> verr option" where
  "no_schema type pl = None"

definition new_handle :: handle where
  "new_handle = \<lparr>h_event_ids = {}, h_sequences = {}, h_next = 0, h_index = None, h_index_seg = None,
     h_index_size = -1\<rparr>"

definition sample_intent :: "string \<Rightarrow> event_intent" where
  "sample_intent type = \<lparr>i_local_intent_id = ''l'', i_event_type = type, i_event_category = ''c'',
     i_payload = [], i_provenance_hint = sample_prov, i_base_classification = IMMUTABLE_TRUTH,
     i_supersede = \<lparr>is_supersede = False, superseded_event_id = None, novelty = None, novelty_type = None\<rparr>,
     i_subjects = [\<lparr>entity_type = ''task'', entity_id = ''T1'', role = ''primary''\<rparr>],
     i_schema_version = ''1.0.0''\<rparr>"

definition accepted_batch :: batch where
  "accepted_batch = \<lparr>b_batch_id = ''b1'', b_transaction_id = ''tx'', b_status = COMMITTED,
     b_events = sample_batch\<rparr>"

definition two_writers :: "(handle \<times> log_op) list" where
  "two_writers = [(new_handle, Direct (sample_intent ''RunStarted'') ''c1'' ''t''),
     (new_handle, Batch accepted_batch), (new_handle, Merge sample_batch)]"

lemma two_writers_ok: "list_all (op_ok cd \<circ> snd) two_writers" "length two_writers = 3"
  using sample_batch_ok by (simp_all add: two_writers_def accepted_batch_def)

text \<open>C1: The log is append-only and its numbering is sound.  Whatever sequence of writes -
  direct records, audit records, batches, merges of foreign records and raw lines - is made by
  whatever processes, each with an arbitrarily stale handle, the lines on disk afterwards
  start with the lines before, every line that parses is a valid record, and the sequence
  numbers on disk are strictly increasing: a number is never used twice and never goes back,
  across segment rotation too.\<close>

theorem log_append_only:
  assumes "ecodec_sound cd" and "list_all (op_ok cd \<circ> snd) ops" and "log_ok cd d"
    and "room_for (length ops) d"
  shows "prefix (raw_event_lines d) (raw_event_lines (run_ops cd cfg se ops d))
    \<and> sorted_wrt (<) (log_seqs cd (run_ops cd cfg se ops d))
    \<and> log_ok cd (run_ops cd cfg se ops d)"
  using run_ops_extends [OF assms] by (simp add: log_extends_def log_ok_def)

theorem log_append_only_witness:
  "sorted_wrt (<) (log_seqs sample_codec (run_ops sample_codec sample_cfg no_schema two_writers empty_disk))"
  using log_append_only [OF sample_sound two_writers_ok(1) empty_disk_ok(1), of sample_cfg no_schema]
  by (simp add: two_writers_ok(2))

section \<open>Single writes\<close>

lemma sample_schema: "is_known_schema_version ''1.0.0''"
  by (simp add: is_known_schema_version_def)

text \<open>A direct write that returns is durable and visible.  The record is the next one of
  the committed stream, behind all others; its sequence number is above every number on disk,
  its type is one the direct path allows, and its hash is the digest of its content.\<close>

theorem direct_write_visible:
  assumes "ecodec_sound cd" and "log_ok cd d" and "has_room d" and "known_versions cd d"
    and "is_known_schema_version (i_schema_version i)"
    and "write_direct cd cfg se i hex now h d = (Inr r, h', d')"
  shows "committed cd d' = (fst (committed cd d) @ [r], None)
    \<and> event_id r = ''evt-'' @ hex \<and> event_type r = i_event_type i \<and> is_path_b_allowed (event_type r)
    \<and> (\<forall>n \<in> set (log_seqs cd d). n < sequence_number r) \<and> verify_record_integrity cd r
    \<and> log_ok cd d'"
proof -
  have "append_direct_record cd cfg se i hex now h d = (Inr r, h', d')"
    and "is_path_b_allowed (i_event_type i)"
    using assms(6) by (auto simp: write_direct_def split: if_splits)
  with direct_record_committed [OF assms(1-5)] show ?thesis by simp
qed

theorem direct_write_visible_witness:
  "\<exists>r h' d'. write_direct sample_codec sample_cfg no_schema (sample_intent ''RunStarted'')
      ''c1'' ''t'' new_handle empty_disk = (Inr r, h', d')
    \<and> committed sample_codec d' = ([r], None)"
proof -
  have "\<exists>r. stamp sample_codec (sample_intent ''RunStarted'') ''c1'' ''t'' 0 None = Inr r"
    by (simp add: stamp_def Let_def) code_simp
  then have "\<exists>r. prepare_direct sample_codec no_schema (sample_intent ''RunStarted'') ''c1'' ''t'' new_handle 0 = Inr r"
    by (auto simp: prepare_direct_def validate_payload_typed_def reject_birthgate_smuggle_def sample_intent_def
        no_schema_def validate_uniqueness_def validate_sequence_unique_def new_handle_def)
  moreover have "read_max_seq_on_disk sample_codec empty_disk = -1"
    by (simp add: read_max_seq_on_disk_def empty_disk_def ordered_segments_def ordered_hot_segments_def)
  ultimately obtain r h' d' where w: "write_direct sample_codec sample_cfg no_schema
      (sample_intent ''RunStarted'') ''c1'' ''t'' new_handle empty_disk = (Inr r, h', d')"
    by (auto simp: write_direct_def append_direct_record_def sample_intent_def is_path_b_allowed_def)
  have "is_known_schema_version (i_schema_version (sample_intent ''RunStarted''))"
    by (simp add: sample_intent_def sample_schema)
  from direct_write_visible [OF sample_sound empty_disk_ok(1,3,4) this w] w show ?thesis by simp
qed

section \<open>Batches\<close>

text \<open>C2: A transaction batch is committed whole or refused without a trace.  A validated
  batch that the log refuses leaves the log and the handle unchanged; a batch that it accepts
  is, with all its events in order and under the same identifiers, the next part of the
  committed stream.\<close>

theorem batch_all_or_nothing:
  assumes "ecodec_sound cd" and "log_ok cd d" and "has_room d" and "known_versions cd d"
    and "enforce_batch_invariants b = Inr b"
    and "\<forall>r \<in> set (b_events b). record_ok r \<and> is_known_schema_version (schema_version r)"
    and "batch_fresh cd d (b_batch_id b)"
    and "append_transaction_batch cd cfg se b h d = (res, h', d')"
  shows "case res of
      Inl e \<Rightarrow> h' = h \<and> d' = d
    | Inr out \<Rightarrow> committed cd d' = (fst (committed cd d) @ out, None)
        \<and> map event_id out = map event_id (b_events b)
        \<and> (\<forall>r \<in> set out. batch_id r = Some (b_batch_id b)) \<and> is_sentinel (last out)"
  using batch_committed [OF assms] by (cases res) simp_all

lemma accepted_batch_ok:
  "enforce_batch_invariants accepted_batch = Inr accepted_batch"
  "\<forall>r \<in> set (b_events accepted_batch). record_ok r \<and> is_known_schema_version (schema_version r)"
  using sample_batch_ok
  by (simp_all add: enforce_batch_ok_iff accepted_batch_def list_all_iff)
     (simp_all add: sample_batch_def sample_record_def sample_schema)

theorem batch_all_or_nothing_witness:
  "\<exists>out h' d'. append_transaction_batch sample_codec sample_cfg no_schema accepted_batch new_handle empty_disk
      = (Inr out, h', d')
    \<and> committed sample_codec d' = (out, None) \<and> map event_id out = map event_id sample_batch"
proof -
  have "read_max_seq_on_disk sample_codec empty_disk + 1 = 0"
    by (simp add: read_max_seq_on_disk_def empty_disk_def ordered_segments_def ordered_hot_segments_def)
  moreover have "\<exists>out. reseq_batch sample_codec no_schema new_handle 0 sample_batch = Inr out"
    by (simp add: sample_batch_def sample_record_def reject_audit_event_in_batch_def validate_uniqueness_def
        validate_sequence_unique_def new_handle_def validate_payload_typed_def reject_birthgate_smuggle_def
        no_schema_def audit_producer_only_types_def)
  ultimately obtain out h' d' where w: "append_transaction_batch sample_codec sample_cfg no_schema
      accepted_batch new_handle empty_disk = (Inr out, h', d')"
    by (auto simp: append_transaction_batch_def accepted_batch_def)
  from batch_all_or_nothing [OF sample_sound empty_disk_ok(1,3,4) accepted_batch_ok empty_disk_ok(5) w] w
  show ?thesis by (simp add: accepted_batch_def)
qed

section \<open>Who may write audit records\<close>










end
