(* ===== verification/Crash_Properties.thy ===== *)
theory Crash_Properties
  imports Event_Log_Properties
begin

text \<open>
  The properties of the event log around a crash in the middle of a write, and what its two
  narrowed scans promise.  Two of the recovery properties show the limits of the code: a
  write that lost only its newline is lost later, and so is the first write behind a torn one.
\<close>

section \<open>A torn write\<close>

lemma sample_writable: "writable sample_batch"
  using accepted_batch_ok(2) by (simp add: writable_def accepted_batch_def)

lemma sample_batch_id:
  "\<forall>r \<in> set sample_batch. batch_id r = Some ''b1''" "is_sentinel (last sample_batch)"
  "\<forall>r \<in> set (butlast sample_batch). \<not> is_sentinel r"
  "\<forall>r \<in> set (butlast sample_batch). \<not> safe_record r" "sample_batch \<noteq> []" "safe_record (last sample_batch)"
  by (simp_all add: sample_batch_def sample_record_def is_sentinel_def safe_record_def)

lemma sample_torn_prefix:
  "prefix [CHR ''{''] (lines_text sample_codec sample_batch)"
  "[CHR ''{''] \<noteq> lines_text sample_codec sample_batch"
  "[CHR ''{''] @ [LF] \<noteq> lines_text sample_codec sample_batch"
  by (simp_all add: sample_batch_def bars_def)

lemma sample_committed:
  "committed sample_codec (append_text Base (lines_text sample_codec sample_batch) empty_disk) = (sample_batch, None)"
proof -
  have "Base = active_segment empty_disk \<or> Base = next_segment empty_disk"
    by (simp add: active_segment_def empty_disk_def ordered_hot_segments_def)
  from crash_atomic [OF empty_disk_ok(1,3,4) sample_torn sample_sound sample_writable
      sample_batch_id(5,1-3) empty_disk_ok(5) prefix_order.refl this]
  show ?thesis by simp
qed

text \<open>C3: A crash in the middle of a batch write is all or nothing for readers.  Whatever
  prefix of the bytes of the batch reached the disk, in the active segment or in a fresh one,
  readers see either none of its records (and everything that was committed before), or, when
  the text is complete up to at most its last newline, all of them.\<close>

theorem batch_crash_atomic:
  assumes "log_ok cd d" and "has_room d" and "known_versions cd d" and "torn_unreadable cd"
    and "ecodec_sound cd" and "writable rs" and "rs \<noteq> []"
    and "\<forall>r \<in> set rs. batch_id r = Some b" and "is_sentinel (last rs)"
    and "\<forall>r \<in> set (butlast rs). \<not> is_sentinel r" and "batch_fresh cd d b"
    and "prefix P (lines_text cd rs)" and "seg = active_segment d \<or> seg = next_segment d"
  shows "committed cd (append_text seg P d) =
     (fst (committed cd d) @ (if P = lines_text cd rs \<or> P @ [LF] = lines_text cd rs then rs else []), None)"
  by (rule crash_atomic [OF assms])

theorem batch_crash_atomic_witness:
  "committed sample_codec (append_text Base [CHR ''{''] empty_disk) = ([], None)
   \<and> committed sample_codec (append_text Base (lines_text sample_codec sample_batch) empty_disk)
       = (sample_batch, None)"
proof -
  have "Base = active_segment empty_disk \<or> Base = next_segment empty_disk"
    by (simp add: active_segment_def empty_disk_def ordered_hot_segments_def)
  note c = batch_crash_atomic [OF empty_disk_ok(1,3,4) sample_torn sample_sound sample_writable
      sample_batch_id(5,1-3) empty_disk_ok(5) _ this]
  from c [OF sample_torn_prefix(1)] c [OF prefix_order.refl] sample_torn_prefix(2,3) show ?thesis by simp
qed



section \<open>The limits of recovery\<close>

lemma append_text_twice: "append_text seg u (append_text seg t d) = append_text seg (t @ u) d"
  by (simp add: append_text_before write_segment_twice) (simp add: text_before_def)

lemma lines_minus_newline:
  assumes "P @ [LF] = lines_text cd rs" and "rs \<noteq> []"
  shows "P = lines_text cd (butlast rs) @ dump_event cd (last rs)"
proof -
  have "lines_text cd rs = lines_text cd (butlast rs) @ dump_event cd (last rs) @ [LF]"
    using lines_text_append [of cd "butlast rs" "[last rs]"] assms(2) by simp
  with assms(1) show ?thesis by simp
qed

text \<open>What readers find when a torn line \<open>t\<close> and a new record share a line.\<close>

lemma glued_lines:
  assumes t: "torn_unreadable cd" and c: "ecodec_sound cd" and w: "writable rs"
    and r: "record_ok r" "record_ok r'" and u: "prefix u (dump_event cd r)" "u \<noteq> []"
  shows "readable (parse_event cd) (raw_lines (lines_text cd rs @ u @ lines_text cd [r'])) = rs"
    and "no_unknown_truth (parse_event cd) (raw_lines (lines_text cd rs @ u @ lines_text cd [r']))"
proof -
  have k: "\<forall>r \<in> set rs. record_ok r \<and> is_known_schema_version (schema_version r)"
    using w by (simp add: writable_def)
  then have ok: "\<forall>r \<in> set rs. record_ok r" by simp
  note torn = torn_tail_swallows [OF t c r u]
  have one: "one_line (u @ dump_event cd r')"
    using one_line_prefix [OF u(1) dump_props(1) [OF c r(1)]] dump_props(1) [OF c r(2)]
    by (auto simp: one_line_def)
  have none: "parse_event cd (py_strip (u @ dump_event cd r')) = None"
    using t r u by (simp add: torn_unreadable_def)
  have "raw_lines (u @ lines_text cd [r'])
      = (let s = py_strip (u @ dump_event cd r') in if s = [] then [] else [s])"
    using ulines_line [OF one] by (simp add: raw_lines_def Let_def)
  then have nu: "no_unknown_truth (parse_event cd) (raw_lines (u @ lines_text cd [r']))"
    using none by (simp add: no_unknown_truth_def Let_def)
  show "readable (parse_event cd) (raw_lines (lines_text cd rs @ u @ lines_text cd [r'])) = rs"
    using torn readable_dump [OF c k] by (simp add: raw_lines_prefix [OF c ok] readable_append)
  show "no_unknown_truth (parse_event cd) (raw_lines (lines_text cd rs @ u @ lines_text cd [r']))"
    unfolding raw_lines_prefix [OF c ok] no_unknown_append using nu no_unknown_dump [OF c k] by blast
qed

text \<open>A batch that only lost its final newline is lost later.  After such a crash readers
  see the whole batch, and \<open>recover\<close> takes the file for complete: it changes no byte (and
  reports \<open>-1\<close> truncated bytes).  The next record appended to the segment then shares a line
  with the sentinel of the batch; both become unreadable, and the batch that readers had
  already seen as committed is gone from the committed stream.\<close>

theorem lost_newline_loses_batch:
  assumes "log_ok cd d" and "has_room d" and "known_versions cd d" and "torn_unreadable cd"
    and "ecodec_sound cd" and "writable rs" and "rs \<noteq> []"
    and "\<forall>r \<in> set rs. batch_id r = Some b" and "is_sentinel (last rs)"
    and "\<forall>r \<in> set (butlast rs). \<not> is_sentinel r" and "batch_fresh cd d b"
    and "seg = active_segment d \<or> seg = next_segment d" and "safe_text cd (text_before d seg)"
    and "P @ [LF] = lines_text cd rs" and "record_ok r'"
    and "d1 = append_text seg P d" and "d2 = append_text seg (lines_text cd [r']) d1"
  shows "committed cd d1 = (fst (committed cd d) @ rs, None)
    \<and> snd (snd (recover cd h d1)) = d1
    \<and> committed cd d2 = (fst (committed cd d), None)"
proof -
  have so: "seg_ok d" "all_whole d" using assms(1) by (simp_all add: log_ok_def)
  have ok: "\<forall>r \<in> set rs. record_ok r" using assms(6) by (simp add: writable_def)
  have s: "safe_record (last rs)" using assms(9) by (simp add: safe_record_def)
  have "prefix P (lines_text cd rs)" unfolding assms(14) [symmetric] by simp
  from crash_atomic [OF assms(1-11) this assms(12)] assms(14)
  have seen: "committed cd d1 = (fst (committed cd d) @ rs, None)" by (simp add: assms(16))
  have kept: "snd (snd (recover cd h d1)) = d1"
    unfolding assms(16)
    by (rule recover_misses_newline(1) [OF so(1) assms(2,12,13,5) ok assms(7) s assms(14)])
  have w: "writable (butlast rs)" using assms(6) by (auto simp: writable_def dest: in_set_butlastD)
  have l: "record_ok (last rs)" using ok assms(7) by simp
  have d2: "d2 = append_text seg (lines_text cd (butlast rs) @ dump_event cd (last rs) @ lines_text cd [r']) d"
    by (simp add: assms(16,17) append_text_twice lines_minus_newline [OF assms(14,7)] del: lines_text_simps)
  have d: "prefix (dump_event cd (last rs)) (dump_event cd (last rs))" "dump_event cd (last rs) \<noteq> []"
    using dump_props(5) [OF assms(5) l] by simp_all
  note g = glued_lines [OF assms(4,5) w l assms(15) d]
  have part: "fst (vis_run B (butlast rs)) = []" for B
    using vis_run_domain [of "butlast rs" b B] assms(8,10) by (auto dest: in_set_butlastD)
  have "raw_event_lines d2 = raw_event_lines d
      @ raw_lines (lines_text cd (butlast rs) @ dump_event cd (last rs) @ lines_text cd [r'])"
    unfolding d2 by (rule append_end(1) [OF so(1) assms(2) so(2) assms(12)])
  from committed_append [OF assms(3) this g(2)] have "committed cd d2 = (fst (committed cd d), None)"
    unfolding g(1) part by simp
  with seen kept show ?thesis by simp
qed

theorem lost_newline_loses_batch_witness:
  "\<exists>d1 d2. fst (committed sample_codec d1) = sample_batch
     \<and> d2 = append_text Base (lines_text sample_codec [hd sample_batch])
              (snd (snd (recover sample_codec new_handle d1)))
     \<and> fst (committed sample_codec d2) = []"
proof -
  have seg: "Base = active_segment empty_disk \<or> Base = next_segment empty_disk"
    by (simp add: active_segment_def empty_disk_def ordered_hot_segments_def)
  have old: "safe_text sample_codec (text_before empty_disk Base)"
    unfolding safe_text_def by (intro exI [of _ "[]"]) (simp add: text_before_def empty_disk_def)
  have P: "butlast (lines_text sample_codec sample_batch) @ [LF] = lines_text sample_codec sample_batch"
    by (simp add: sample_batch_def butlast_append)
  have r: "record_ok (hd sample_batch)"
    using sample_batch_ok by (simp add: sample_batch_def)
  from lost_newline_loses_batch [OF empty_disk_ok(1,3,4) sample_torn sample_sound sample_writable
      sample_batch_id(5,1-3) empty_disk_ok(5) seg old P r refl refl, of new_handle]
  show ?thesis by (metis append_Nil empty_disk_ok(8) fst_conv)
qed

text \<open>A torn line swallows the next record.  If a crash left a part of a record's line and
  nobody ran \<open>recover\<close>, the next direct record, written and reported as written, is not in the
  committed stream: readers see exactly what they saw before.\<close>

theorem torn_line_swallows_next_record:
  assumes "log_ok cd d" and "has_room d" and "known_versions cd d" and "torn_unreadable cd"
    and "ecodec_sound cd" and "seg = active_segment d \<or> seg = next_segment d"
    and "record_ok r" and "prefix u (dump_event cd r)" and "u \<noteq> []" and "record_ok r'"
  shows "committed cd (append_text seg (lines_text cd [r']) (append_text seg u d)) = (fst (committed cd d), None)"
proof -
  have so: "seg_ok d" "all_whole d" using assms(1) by (simp_all add: log_ok_def)
  have "writable []" by (simp add: writable_def)
  note g = glued_lines [OF assms(4,5) this assms(7,10,8,9)]
  have "raw_event_lines (append_text seg (lines_text cd [r']) (append_text seg u d)) = raw_event_lines d
      @ raw_lines (lines_text cd [] @ u @ lines_text cd [r'])"
    using append_end(1) [OF so(1) assms(2) so(2) assms(6), of "u @ lines_text cd [r']"]
    by (simp add: append_text_twice)
  from committed_append [OF assms(3) this g(2)] show ?thesis unfolding g(1) by simp
qed

theorem torn_line_swallows_next_record_witness:
  "fst (committed sample_codec (append_text Base (lines_text sample_codec [sample_record ''a'' 0 ''RunStarted'' None])
      (append_text Base [CHR ''{''] empty_disk))) = []"
proof -
  let ?r = "sample_record ''a'' 0 ''RunStarted'' None"
  have seg: "Base = active_segment empty_disk \<or> Base = next_segment empty_disk"
    by (simp add: active_segment_def empty_disk_def ordered_hot_segments_def)
  have r: "record_ok ?r" by code_simp
  have "prefix [CHR ''{''] (dump_event sample_codec ?r)" by (simp add: bars_def)
  from torn_line_swallows_next_record [OF empty_disk_ok(1,3,4) sample_torn sample_sound seg r this _ r]
  show ?thesis by simp
qed

end
