(* ===== verification/Event_Index_Store.thy ===== *)
theory Event_Index_Store
  imports Event_Index
begin

text \<open>
  The persisted index (\<open>l0/event_log/index.py\<close>): the key-to-postings view of an index,
  the lazy index that answers from it, and the store that writes the fifteen files and
  adopts them again.  Each file is replaced atomically, so its content is what one writer
  wrote; the files of a set may come from different writers.  \<open>event_id.idx\<close> is the list
  of records it holds, one per line.  The digest over the identifier list is the argument
  \<open>token\<close>.
\<close>

section \<open>The serialized view\<close>

type_synonym id_buckets = "(string \<times> string list) list"
type_synonym id_postings = "(string \<times> id_buckets) list"

abbreviation NUL :: char where "NUL \<equiv> CHR 0x00"

definition pair_key :: "string \<times> string \<Rightarrow> string" where
  "pair_key k = fst k @ [NUL] @ snd k"

definition ids_of :: "('k \<Rightarrow> string) \<Rightarrow> ('k \<times> event_record list) list \<Rightarrow> id_buckets" where
  "ids_of enc p = map (\<lambda>(k, rs). (enc k, map event_id rs)) p"

definition id_of :: "('k \<Rightarrow> string) \<Rightarrow> ('k \<times> event_record) list \<Rightarrow> id_buckets" where
  "id_of enc p = map (\<lambda>(k, r). (enc k, [event_id r])) p"

definition serializable_key_indexes :: "event_index \<Rightarrow> id_postings" where
  "serializable_key_indexes x =
     [(''sequence'', id_of int_str (x_sequence x)),
      (''transaction'', ids_of id (x_transaction x)),
      (''batch'', ids_of id (x_batch x)),
      (''type'', ids_of id (x_type x)),
      (''category'', ids_of id (x_category x)),
      (''actor'', ids_of id (x_actor x)),
      (''task'', ids_of id (x_task x)),
      (''run'', ids_of id (x_run x)),
      (''correlation'', ids_of id (x_correlation x)),
      (''causation'', ids_of id (x_causation x)),
      (''supersede'', ids_of id (x_supersede x)),
      (''obligation'', ids_of id (x_obligation x)),
      (''entity'', ids_of pair_key (x_entity x)),
      (''input_hash'', id_of pair_key (x_input_hash x))]"

definition key_index_names :: "string list" where
  "key_index_names = [''sequence'', ''transaction'', ''batch'', ''type'', ''category'', ''actor'',
     ''task'', ''run'', ''correlation'', ''causation'', ''supersede'', ''obligation'', ''entity'',
     ''input_hash'']"

definition single_value_indexes :: "string list" where
  "single_value_indexes = [''sequence'', ''input_hash'']"

section \<open>The lazy index\<close>

text \<open>\<open>lz_lines\<close> is what the offsets into \<open>event_id.idx\<close> lead to, \<open>lz_cache\<close> the records
  folded in since; caching a record read from the file changes no answer and is left out.\<close>

record lazy_index =
  lz_lines :: "(string \<times> event_record) list"
  lz_postings :: id_postings
  lz_order :: "string list"
  lz_seqs :: "int list"
  lz_seq_set :: "int set"
  lz_max_seq :: int
  lz_cache :: "(string \<times> event_record) list"

definition materialize :: "lazy_index \<Rightarrow> string \<Rightarrow> event_record option" where
  "materialize lz i = (case map_of (lz_cache lz) i of Some r \<Rightarrow> Some r | None \<Rightarrow> map_of (lz_lines lz) i)"

definition materialize_all :: "lazy_index \<Rightarrow> string list \<Rightarrow> event_record list" where
  "materialize_all lz ids = List.map_filter (materialize lz) ids"

definition posting :: "lazy_index \<Rightarrow> string \<Rightarrow> id_buckets" where
  "posting lz name = (case map_of (lz_postings lz) name of None \<Rightarrow> [] | Some b \<Rightarrow> b)"

definition lazy_bucket :: "lazy_index \<Rightarrow> string \<Rightarrow> string \<Rightarrow> event_record list" where
  "lazy_bucket lz name key = materialize_all lz (bucket (posting lz name) key)"

definition lazy_records :: "lazy_index \<Rightarrow> event_record list" where
  "lazy_records lz = materialize_all lz (lz_order lz)"

definition lazy_records_in_range :: "lazy_index \<Rightarrow> int \<Rightarrow> int \<Rightarrow> event_record list" where
  "lazy_records_in_range lz a b =
     materialize_all lz [i. (i, n) \<leftarrow> zip (lz_order lz) (lz_seqs lz), a \<le> n \<and> n \<le> b]"

definition lazy_entity :: "lazy_index \<Rightarrow> string \<Rightarrow> string \<Rightarrow> event_record list" where
  "lazy_entity lz et eid = lazy_bucket lz ''entity'' (pair_key (et, eid))"

definition lazy_input_hash :: "lazy_index \<Rightarrow> string \<Rightarrow> string \<Rightarrow> event_record option" where
  "lazy_input_hash lz rid h =
     (case bucket (posting lz ''input_hash'') (pair_key (rid, h)) of
        [] \<Rightarrow> None | i # _ \<Rightarrow> materialize lz i)"

definition lazy_sequence_range :: "lazy_index \<Rightarrow> int \<Rightarrow> int \<Rightarrow> event_record list" where
  "lazy_sequence_range lz a b =
     materialize_all lz (concat [ids. (k, ids) \<leftarrow> posting lz ''sequence'', a \<le> str_int k \<and> str_int k \<le> b])"

definition extend_bucket :: "string \<times> string list \<Rightarrow> id_buckets \<Rightarrow> id_buckets" where
  "extend_bucket kv target = AList.update (fst kv) (bucket target (fst kv) @ snd kv) target"

definition merge_buckets :: "string \<Rightarrow> id_buckets \<Rightarrow> id_buckets \<Rightarrow> id_buckets" where
  "merge_buckets name folded target =
     (if name \<in> set single_value_indexes then fold (\<lambda>kv. AList.update (fst kv) (snd kv)) folded target
      else fold extend_bucket folded target)"

definition merge_postings :: "id_postings \<Rightarrow> id_postings \<Rightarrow> id_postings" where
  "merge_postings folded ps =
     fold (\<lambda>(name, buckets) ps. AList.update name
             (merge_buckets name buckets (case map_of ps name of None \<Rightarrow> [] | Some b \<Rightarrow> b)) ps)
       folded ps"

definition lazy_add_one :: "event_record \<Rightarrow> lazy_index \<Rightarrow> lazy_index" where
  "lazy_add_one r lz = lz\<lparr>
     lz_cache := AList.update (event_id r) r (lz_cache lz),
     lz_order := lz_order lz @ [event_id r],
     lz_seqs := lz_seqs lz @ [sequence_number r],
     lz_seq_set := insert (sequence_number r) (lz_seq_set lz),
     lz_max_seq := (if sequence_number r > lz_max_seq lz then sequence_number r else lz_max_seq lz)\<rparr>"

definition lazy_add_records :: "event_record list \<Rightarrow> lazy_index \<Rightarrow> lazy_index" where
  "lazy_add_records rs lz =
     (if rs = [] then lz
      else fold lazy_add_one rs
             (lz\<lparr>lz_postings := merge_postings (serializable_key_indexes (event_index_of rs)) (lz_postings lz)\<rparr>))"

section \<open>The store\<close>

datatype posting_file = CorruptPosting | Posting "string option" "id_buckets option"

record idx_files =
  eid_file :: "event_record list option"
  posting_files :: "(string \<times> posting_file) list"

definition write_eid :: "event_record list \<Rightarrow> idx_files \<Rightarrow> idx_files" where
  "write_eid rs fs = fs\<lparr>eid_file := Some rs\<rparr>"

definition write_posting :: "(string list \<Rightarrow> string) \<Rightarrow> event_record list \<Rightarrow> string \<times> id_buckets
    \<Rightarrow> idx_files \<Rightarrow> idx_files" where
  "write_posting token rs nb fs =
     fs\<lparr>posting_files := AList.update (fst nb)
          (Posting (Some (token (map event_id rs))) (Some (snd nb))) (posting_files fs)\<rparr>"

definition persist :: "(string list \<Rightarrow> string) \<Rightarrow> event_record list \<Rightarrow> idx_files \<Rightarrow> event_index \<times> idx_files" where
  "persist token rs fs =
     (let x = event_index_of rs
      in (x, fold (write_posting token rs) (serializable_key_indexes x) (write_eid rs fs)))"

fun read_postings :: "string \<Rightarrow> (string \<times> posting_file) list \<Rightarrow> string list \<Rightarrow> id_postings option" where
  "read_postings gen files [] = Some []"
| "read_postings gen files (name # names) =
     (case map_of files name of
        Some (Posting g (Some b)) \<Rightarrow>
          if g \<noteq> Some gen then None
          else map_option (\<lambda>ps. (name, b) # ps) (read_postings gen files names)
      | _ \<Rightarrow> None)"

definition tail_consistent :: "event_record \<Rightarrow> id_postings \<Rightarrow> bool" where
  "tail_consistent r ps \<longleftrightarrow>
     (\<forall>(name, buckets) \<in> set (serializable_key_indexes (event_index_of [r])).
        \<forall>(key, _) \<in> set buckets.
          event_id r \<in> set (bucket (case map_of ps name of None \<Rightarrow> [] | Some b \<Rightarrow> b) key))"

definition offsets :: "event_record list \<Rightarrow> (string \<times> event_record) list" where
  "offsets rs = fold (\<lambda>r. AList.update (event_id r) r) rs []"

definition load_index_store :: "(string list \<Rightarrow> string) \<Rightarrow> idx_files \<Rightarrow> lazy_index option" where
  "load_index_store token fs =
     (case eid_file fs of
        None \<Rightarrow> None
      | Some rs \<Rightarrow>
          (case read_postings (token (map event_id rs)) (posting_files fs) key_index_names of
             None \<Rightarrow> None
           | Some ps \<Rightarrow>
               (let seqs = map (str_int \<circ> fst) (case map_of ps ''sequence'' of None \<Rightarrow> [] | Some b \<Rightarrow> b);
                    lz = \<lparr>lz_lines = offsets rs, lz_postings = ps, lz_order = map event_id rs,
                          lz_seqs = map sequence_number rs, lz_seq_set = set seqs,
                          lz_max_seq = (if seqs = [] then -1 else Max (set seqs)), lz_cache = []\<rparr>
                in if rs = [] then Some (lz\<lparr>lz_seq_set := {}, lz_max_seq := -1\<rparr>)
                   else if tail_consistent (last rs) ps then Some lz else None)))"

definition prune_event_ids :: "(string list \<Rightarrow> string) \<Rightarrow> string set \<Rightarrow> idx_files \<Rightarrow> nat \<times> idx_files" where
  "prune_event_ids token removed fs =
     (case eid_file fs of
        None \<Rightarrow> (0, fs)
      | Some rs \<Rightarrow>
          (let survivors = filter (\<lambda>r. event_id r \<notin> removed) rs;
               n = length rs - length survivors
           in if n = 0 then (0, fs) else (n, snd (persist token survivors fs))))"

section \<open>Merging buckets\<close>

lemma update_commute_in:
  "k \<in> fst ` set t \<Longrightarrow> k \<noteq> k' \<Longrightarrow>
   AList.update k a (AList.update k' b t) = AList.update k' b (AList.update k a t)"
  by (induction t) auto

lemma update_update_same [simp]: "AList.update k a (AList.update k b t) = AList.update k a t"
  by (induction t) auto

lemma map_key_update:
  "inj_on enc (insert k (fst ` set al)) \<Longrightarrow>
   map (\<lambda>(k, v). (enc k, g v)) (AList.update k v al)
     = AList.update (enc k) (g v) (map (\<lambda>(k, v). (enc k, g v)) al)"
proof (induction al)
  case (Cons p al)
  obtain k' v' where p: "p = (k', v')" by (cases p)
  have "inj_on enc (insert k (fst ` set al))"
    using Cons.prems by (rule inj_on_subset) auto
  moreover have "enc k' = enc k \<longleftrightarrow> k' = k"
    using inj_onD [OF Cons.prems, of k' k] p by auto
  ultimately show ?case using Cons.IH p by simp
qed simp

lemma map_of_key_map:
  "inj_on enc (insert k (fst ` set al)) \<Longrightarrow>
   map_of (map (\<lambda>(k, v). (enc k, g v)) al) (enc k) = map_option g (map_of al k)"
proof (induction al)
  case (Cons p al)
  obtain k' v' where p: "p = (k', v')" by (cases p)
  have "inj_on enc (insert k (fst ` set al))"
    using Cons.prems by (rule inj_on_subset) auto
  moreover have "enc k = enc k' \<longleftrightarrow> k = k'"
    using inj_onD [OF Cons.prems, of k k'] p by auto
  ultimately show ?case using Cons.IH p by auto
qed simp

lemma extend_bucket_add: "extend_bucket (k, vs @ [v]) t = bucket_add k v (extend_bucket (k, vs) t)"
  by (simp add: extend_bucket_def bucket_add_def bucket_def map_of_update_cases)

lemma bucket_add_extend_commute:
  "k \<in> fst ` set t \<Longrightarrow> k \<noteq> k' \<Longrightarrow>
   bucket_add k v (extend_bucket (k', vs) t) = extend_bucket (k', vs) (bucket_add k v t)"
  by (simp add: extend_bucket_def bucket_add_def bucket_def map_of_update_cases; rule update_commute_in)

lemma keys_extend: "fst ` set (extend_bucket kv t) = insert (fst kv) (fst ` set t)"
  by (simp add: extend_bucket_def set_map_fst_update)

lemma fold_extend_commute:
  "k \<in> fst ` set t \<Longrightarrow> k \<notin> fst ` set f \<Longrightarrow>
   fold extend_bucket f (bucket_add k v t) = bucket_add k v (fold extend_bucket f t)"
proof (induction f arbitrary: t)
  case (Cons p f)
  obtain k' vs where p: "p = (k', vs)" by (cases p)
  with Cons show ?case
    by (simp add: bucket_add_extend_commute [symmetric] keys_extend)
qed simp

lemma fold_extend_bucket_add:
  "distinct (map fst f) \<Longrightarrow>
   fold extend_bucket (bucket_add k v f) t = bucket_add k v (fold extend_bucket f t)"
proof (induction f arbitrary: t)
  case Nil
  show ?case by (simp add: bucket_add_def extend_bucket_def bucket_def)
next
  case (Cons p f)
  obtain k' vs where p: "p = (k', vs)" by (cases p)
  show ?case
  proof (cases "k' = k")
    case True
    then have "bucket_add k v (p # f) = (k, vs @ [v]) # f"
      using p by (simp add: bucket_add_def)
    moreover have "k \<notin> fst ` set f" using Cons.prems p True by auto
    ultimately show ?thesis
      using p True by (simp add: extend_bucket_add fold_extend_commute keys_extend)
  next
    case False
    then have "bucket_add k v (p # f) = p # bucket_add k v f"
      using p by (simp add: bucket_add_def)
    then show ?thesis using Cons by simp
  qed
qed

abbreviation overwrite :: "string \<times> 'v \<Rightarrow> (string \<times> 'v) list \<Rightarrow> (string \<times> 'v) list" where
  "overwrite kv t \<equiv> AList.update (fst kv) (snd kv) t"

lemma fold_overwrite_commute:
  "k \<in> fst ` set t \<Longrightarrow> k \<notin> fst ` set f \<Longrightarrow>
   fold overwrite f (AList.update k v t) = AList.update k v (fold overwrite f t)"
proof (induction f arbitrary: t)
  case (Cons p f)
  then have "fold overwrite f (overwrite p (AList.update k v t))
      = fold overwrite f (AList.update k v (overwrite p t))"
    by (cases p) (simp add: update_commute_in)
  with Cons show ?case by (cases p) (simp add: set_map_fst_update)
qed simp

lemma fold_overwrite_update:
  "distinct (map fst f) \<Longrightarrow>
   fold overwrite (AList.update k v f) t = AList.update k v (fold overwrite f t)"
proof (induction f arbitrary: t)
  case (Cons p f)
  obtain k' w where p: "p = (k', w)" by (cases p)
  show ?case
  proof (cases "k' = k")
    case True
    moreover have "k \<notin> fst ` set f" using Cons.prems p True by auto
    then have "fold overwrite f (AList.update k v (AList.update k w t))
        = AList.update k v (fold overwrite f (AList.update k w t))"
      by (intro fold_overwrite_commute) (simp_all add: set_map_fst_update)
    ultimately show ?thesis using p by simp
  next
    case False
    then show ?thesis using Cons p by simp
  qed
qed simp

section \<open>Postings as folds\<close>

definition post :: "(event_record \<Rightarrow> 'k list) \<Rightarrow> event_record list \<Rightarrow> ('k \<times> event_record list) list" where
  "post keys rs = fold (\<lambda>r. fold (\<lambda>k. bucket_add k r) (keys r)) rs []"

definition idpost :: "(event_record \<Rightarrow> string list) \<Rightarrow> event_record list \<Rightarrow> id_buckets \<Rightarrow> id_buckets" where
  "idpost keys rs t = fold (\<lambda>r. fold (\<lambda>k. bucket_add k (event_id r)) (keys r)) rs t"

definition opt_list :: "'a option \<Rightarrow> 'a list" where
  "opt_list x = (case x of None \<Rightarrow> [] | Some a \<Rightarrow> [a])"

lemma distinct_bucket_add: "distinct (map fst p) \<Longrightarrow> distinct (map fst (bucket_add k v p))"
  by (simp add: bucket_add_def distinct_update)

lemma distinct_fold_bucket_add:
  "distinct (map fst p) \<Longrightarrow> distinct (map fst (fold (\<lambda>k. bucket_add k v) ks p))"
  by (induction ks arbitrary: p) (simp_all add: distinct_bucket_add)

lemma distinct_idpost: "distinct (map fst t) \<Longrightarrow> distinct (map fst (idpost keys rs t))"
  by (induction rs arbitrary: t) (simp_all add: idpost_def distinct_fold_bucket_add)

lemma fold_extend_fold_add:
  "distinct (map fst f) \<Longrightarrow>
   fold extend_bucket (fold (\<lambda>k. bucket_add k v) ks f) t = fold (\<lambda>k. bucket_add k v) ks (fold extend_bucket f t)"
  by (induction ks arbitrary: f) (simp_all add: fold_extend_bucket_add distinct_bucket_add)

lemma merge_idpost: "fold extend_bucket (idpost keys rs []) t = idpost keys rs t"
proof (induction rs rule: rev_induct)
  case (snoc r rs)
  then show ?case
    using distinct_idpost [of "[]" keys rs] by (simp add: idpost_def fold_extend_fold_add)
qed (simp add: idpost_def)

lemma keys_fold_bucket_add:
  "fst ` set (fold (\<lambda>k. bucket_add k v) ks p) = fst ` set p \<union> set ks"
  by (induction ks arbitrary: p) (auto simp: bucket_add_def set_map_fst_update)

lemma ids_of_bucket_add:
  assumes "inj_on enc (insert k (fst ` set p))"
  shows "ids_of enc (bucket_add k r p) = bucket_add (enc k) (event_id r) (ids_of enc p)"
  using map_key_update [OF assms, of "map event_id"] map_of_key_map [OF assms, of "map event_id"]
  by (simp add: ids_of_def bucket_add_def split: option.split)

lemma ids_of_fold_add:
  "inj_on enc (set ks \<union> fst ` set p) \<Longrightarrow>
   ids_of enc (fold (\<lambda>k. bucket_add k r) ks p)
     = fold (\<lambda>k. bucket_add (enc k) (event_id r)) ks (ids_of enc p)"
proof (induction ks arbitrary: p)
  case (Cons k ks)
  have "inj_on enc (insert k (fst ` set p))"
    using Cons.prems by (rule inj_on_subset) auto
  moreover have "inj_on enc (set ks \<union> fst ` set (bucket_add k r p))"
    using Cons.prems by (rule inj_on_subset) (auto simp: bucket_add_def set_map_fst_update)
  note Cons.IH [OF this]
  ultimately show ?case by (simp add: ids_of_bucket_add)
qed simp

lemma ids_of_post_fold:
  "inj_on enc (\<Union> (set ` keys ` set rs) \<union> fst ` set p) \<Longrightarrow>
   ids_of enc (fold (\<lambda>r. fold (\<lambda>k. bucket_add k r) (keys r)) rs p)
     = idpost (map enc \<circ> keys) rs (ids_of enc p)"
proof (induction rs arbitrary: p)
  case Nil
  then show ?case by (simp add: idpost_def)
next
  case (Cons r rs)
  have "inj_on enc (set (keys r) \<union> fst ` set p)"
    using Cons.prems by (rule inj_on_subset) auto
  moreover have "inj_on enc (\<Union> (set ` keys ` set rs) \<union> fst ` set (fold (\<lambda>k. bucket_add k r) (keys r) p))"
    using Cons.prems by (rule inj_on_subset) (auto simp: keys_fold_bucket_add)
  ultimately show ?case
    using Cons.IH by (simp add: ids_of_fold_add idpost_def fold_map o_def)
qed

lemma ids_of_post:
  "inj_on enc (\<Union> (set ` keys ` set rs)) \<Longrightarrow> ids_of enc (post keys rs) = idpost (map enc \<circ> keys) rs []"
  using ids_of_post_fold [of enc keys rs "[]"] by (simp add: post_def ids_of_def)

lemma add_opt_fold: "add_opt k r = fold (\<lambda>k. bucket_add k r) (opt_list k)"
  by (auto simp: add_opt_def opt_list_def fun_eq_iff split: option.split)

lemma fold_index_one_posts:
  "x_transaction (fold index_one rs x) = fold (\<lambda>r. fold (\<lambda>k. bucket_add k r) ((opt_list \<circ> transaction_id) r)) rs (x_transaction x)"
  "x_batch (fold index_one rs x) = fold (\<lambda>r. fold (\<lambda>k. bucket_add k r) ((opt_list \<circ> batch_id) r)) rs (x_batch x)"
  "x_type (fold index_one rs x) = fold (\<lambda>r. fold (\<lambda>k. bucket_add k r) ((\<lambda>r. [event_type r]) r)) rs (x_type x)"
  "x_category (fold index_one rs x) = fold (\<lambda>r. fold (\<lambda>k. bucket_add k r) ((\<lambda>r. [event_category r]) r)) rs (x_category x)"
  "x_actor (fold index_one rs x) = fold (\<lambda>r. fold (\<lambda>k. bucket_add k r) ((\<lambda>r. [actor_id (provenance r)]) r)) rs (x_actor x)"
  "x_task (fold index_one rs x) = fold (\<lambda>r. fold (\<lambda>k. bucket_add k r) ((\<lambda>r. opt_list (task_id (provenance r))) r)) rs (x_task x)"
  "x_run (fold index_one rs x) = fold (\<lambda>r. fold (\<lambda>k. bucket_add k r) ((\<lambda>r. opt_list (run_id (provenance r))) r)) rs (x_run x)"
  "x_correlation (fold index_one rs x) = fold (\<lambda>r. fold (\<lambda>k. bucket_add k r) ((\<lambda>r. opt_list (correlation_id (provenance r))) r)) rs (x_correlation x)"
  "x_causation (fold index_one rs x) = fold (\<lambda>r. fold (\<lambda>k. bucket_add k r) ((\<lambda>r. opt_list (causation_event_id (provenance r))) r)) rs (x_causation x)"
  "x_supersede (fold index_one rs x) = fold (\<lambda>r. fold (\<lambda>k. bucket_add k r) ((\<lambda>r. opt_list (superseded_event_id (supersede r))) r)) rs (x_supersede x)"
  "x_obligation (fold index_one rs x) = fold (\<lambda>r. fold (\<lambda>k. bucket_add k r) (obligation_ids r)) rs (x_obligation x)"
  "x_entity (fold index_one rs x) = fold (\<lambda>r. fold (\<lambda>k. bucket_add k r) (entity_keys r)) rs (x_entity x)"
  by (induction rs arbitrary: x; simp add: index_one_def add_opt_fold opt_list_def)+

lemma event_index_posts:
  "x_transaction (event_index_of rs) = post (opt_list \<circ> transaction_id) rs"
  "x_batch (event_index_of rs) = post (opt_list \<circ> batch_id) rs"
  "x_type (event_index_of rs) = post (\<lambda>r. [event_type r]) rs"
  "x_category (event_index_of rs) = post (\<lambda>r. [event_category r]) rs"
  "x_actor (event_index_of rs) = post (\<lambda>r. [actor_id (provenance r)]) rs"
  "x_task (event_index_of rs) = post (\<lambda>r. opt_list (task_id (provenance r))) rs"
  "x_run (event_index_of rs) = post (\<lambda>r. opt_list (run_id (provenance r))) rs"
  "x_correlation (event_index_of rs) = post (\<lambda>r. opt_list (correlation_id (provenance r))) rs"
  "x_causation (event_index_of rs) = post (\<lambda>r. opt_list (causation_event_id (provenance r))) rs"
  "x_supersede (event_index_of rs) = post (\<lambda>r. opt_list (superseded_event_id (supersede r))) rs"
  "x_obligation (event_index_of rs) = post obligation_ids rs"
  "x_entity (event_index_of rs) = post entity_keys rs"
  by (simp_all add: event_index_of_def post_def fold_index_one_posts empty_index_def)

definition idsingle :: "(event_record \<Rightarrow> string option) \<Rightarrow> event_record list \<Rightarrow> id_buckets \<Rightarrow> id_buckets" where
  "idsingle key rs t =
     fold (\<lambda>r t. case key r of None \<Rightarrow> t | Some k \<Rightarrow> AList.update k [event_id r] t) rs t"

lemma distinct_idsingle: "distinct (map fst t) \<Longrightarrow> distinct (map fst (idsingle key rs t))"
  by (induction rs arbitrary: t) (simp_all add: idsingle_def distinct_update split: option.split)

lemma merge_idsingle: "fold overwrite (idsingle key rs []) t = idsingle key rs t"
proof (induction rs rule: rev_induct)
  case (snoc r rs)
  then show ?case
    using distinct_idsingle [of "[]" key rs]
    by (simp add: idsingle_def fold_overwrite_update split: option.split)
qed (simp add: idsingle_def)

lemma id_of_single_fold:
  "inj_on enc (\<Union> (set_option ` key ` set rs) \<union> fst ` set p) \<Longrightarrow>
   id_of enc (fold (\<lambda>r p. case key r of None \<Rightarrow> p | Some k \<Rightarrow> AList.update k r p) rs p)
     = idsingle (map_option enc \<circ> key) rs (id_of enc p)"
proof (induction rs arbitrary: p)
  case Nil
  then show ?case by (simp add: idsingle_def)
next
  case (Cons r rs)
  show ?case
  proof (cases "key r")
    case None
    with Cons show ?thesis by (simp add: idsingle_def)
  next
    case (Some k)
    have "inj_on enc (insert k (fst ` set p))"
      using Cons.prems by (rule inj_on_subset) (auto simp: Some)
    then have step: "id_of enc (AList.update k r p) = AList.update (enc k) [event_id r] (id_of enc p)"
      by (simp add: id_of_def map_key_update)
    have "inj_on enc (\<Union> (set_option ` key ` set rs) \<union> fst ` set (AList.update k r p))"
      using Cons.prems by (rule inj_on_subset) (auto simp: Some set_map_fst_update)
    from Cons.IH [OF this] Some step show ?thesis by (simp add: idsingle_def)
  qed
qed

lemma fold_index_one_singles:
  "x_sequence (fold index_one rs x) =
     fold (\<lambda>r p. case (Some \<circ> sequence_number) r of None \<Rightarrow> p | Some k \<Rightarrow> AList.update k r p) rs (x_sequence x)"
  "x_input_hash (fold index_one rs x) =
     fold (\<lambda>r p. case input_hash_key r of None \<Rightarrow> p | Some k \<Rightarrow> AList.update k r p) rs (x_input_hash x)"
  by (induction rs arbitrary: x; simp add: index_one_def)+

text \<open>The joined keys are unambiguous as long as no first component contains the separator.\<close>

definition nul_free :: "event_record \<Rightarrow> bool" where
  "nul_free r \<longleftrightarrow> list_all (\<lambda>k. NUL \<notin> set (fst k)) (entity_keys r @ opt_list (input_hash_key r))"

lemma pair_key_takeWhile: "NUL \<notin> set (fst k) \<Longrightarrow> takeWhile (\<lambda>c. c \<noteq> NUL) (pair_key k) = fst k"
  unfolding pair_key_def by (subst takeWhile_append2) auto

lemma inj_pair_key: "inj_on pair_key {k. NUL \<notin> set (fst k)}"
proof (rule inj_onI)
  fix k k' :: "string \<times> string"
  assume a: "k \<in> {k. NUL \<notin> set (fst k)}" "k' \<in> {k. NUL \<notin> set (fst k)}" "pair_key k = pair_key k'"
  then have "fst k = fst k'"
    using pair_key_takeWhile [of k] pair_key_takeWhile [of k'] by simp
  with a(3) show "k = k'" by (cases k; cases k') (simp add: pair_key_def)
qed

lemma inj_int_str_on: "inj_on int_str A"
  by (rule inj_onI) simp

lemma serializable_eq:
  assumes "\<forall>r \<in> set rs. nul_free r"
  shows "serializable_key_indexes (event_index_of rs) =
     [(''sequence'', idsingle (map_option int_str \<circ> (Some \<circ> sequence_number)) rs []),
      (''transaction'', idpost (opt_list \<circ> transaction_id) rs []),
      (''batch'', idpost (opt_list \<circ> batch_id) rs []),
      (''type'', idpost (\<lambda>r. [event_type r]) rs []),
      (''category'', idpost (\<lambda>r. [event_category r]) rs []),
      (''actor'', idpost (\<lambda>r. [actor_id (provenance r)]) rs []),
      (''task'', idpost (\<lambda>r. opt_list (task_id (provenance r))) rs []),
      (''run'', idpost (\<lambda>r. opt_list (run_id (provenance r))) rs []),
      (''correlation'', idpost (\<lambda>r. opt_list (correlation_id (provenance r))) rs []),
      (''causation'', idpost (\<lambda>r. opt_list (causation_event_id (provenance r))) rs []),
      (''supersede'', idpost (\<lambda>r. opt_list (superseded_event_id (supersede r))) rs []),
      (''obligation'', idpost obligation_ids rs []),
      (''entity'', idpost (map pair_key \<circ> entity_keys) rs []),
      (''input_hash'', idsingle (map_option pair_key \<circ> input_hash_key) rs [])]"
proof -
  have e: "inj_on pair_key (\<Union> (set ` entity_keys ` set rs))"
    using inj_pair_key by (rule inj_on_subset) (use assms in \<open>auto simp: nul_free_def list_all_iff\<close>)
  have h: "inj_on pair_key (\<Union> (set_option ` input_hash_key ` set rs) \<union> fst ` set [])"
    using inj_pair_key
    by (rule inj_on_subset) (use assms in \<open>auto simp: nul_free_def list_all_iff opt_list_def split: option.splits\<close>)
  have s: "id_of int_str (x_sequence (event_index_of rs))
      = idsingle (map_option int_str \<circ> (Some \<circ> sequence_number)) rs []"
    using id_of_single_fold [OF inj_int_str_on, of "Some \<circ> sequence_number" rs "[]"]
    by (simp add: event_index_of_def fold_index_one_singles empty_index_def id_of_def)
  have i: "id_of pair_key (x_input_hash (event_index_of rs))
      = idsingle (map_option pair_key \<circ> input_hash_key) rs []"
    using id_of_single_fold [OF h]
    by (simp add: event_index_of_def fold_index_one_singles empty_index_def id_of_def)
  show ?thesis
    by (simp only: serializable_key_indexes_def s i event_index_posts ids_of_post [OF e] ids_of_post [OF inj_on_id]
        list.map_id0 id_o)
qed

lemma idpost_append: "idpost keys (rs @ rs') t = idpost keys rs' (idpost keys rs t)"
  by (simp add: idpost_def)

lemma idsingle_append: "idsingle key (rs @ rs') t = idsingle key rs' (idsingle key rs t)"
  by (simp add: idsingle_def)

lemma merge_serializable:
  assumes "\<forall>r \<in> set rs. nul_free r" and "\<forall>r \<in> set rs'. nul_free r"
  shows "merge_postings (serializable_key_indexes (event_index_of rs'))
           (serializable_key_indexes (event_index_of rs))
         = serializable_key_indexes (event_index_of (rs @ rs'))"
proof -
  have a: "\<forall>r \<in> set (rs @ rs'). nul_free r" using assms by auto
  show ?thesis
    unfolding serializable_eq [OF assms(1)] serializable_eq [OF assms(2)] serializable_eq [OF a]
    by (simp add: merge_postings_def merge_buckets_def single_value_indexes_def merge_idpost
        merge_idsingle idpost_append idsingle_append)
qed

section \<open>The lazy index refines the eager one\<close>

definition lazy_of :: "event_record list \<Rightarrow> lazy_index \<Rightarrow> bool" where
  "lazy_of rs lz \<longleftrightarrow>
     lz_postings lz = serializable_key_indexes (event_index_of rs)
     \<and> lz_order lz = map event_id rs \<and> lz_seqs lz = map sequence_number rs
     \<and> lz_seq_set lz = sequence_number ` set rs
     \<and> lz_max_seq lz = max_sequence (event_index_of rs)
     \<and> (\<forall>r \<in> set rs. materialize lz (event_id r) = Some r)
     \<and> (\<forall>i. i \<notin> event_id ` set rs \<longrightarrow> materialize lz i = None)"

lemma lazy_materialize:
  "lazy_of rs lz \<Longrightarrow> set xs \<subseteq> set rs \<Longrightarrow> materialize_all lz (map event_id xs) = xs"
  by (induction xs) (auto simp: materialize_all_def lazy_of_def)

lemma last_with_SomeD: "last_with key k rs = Some r \<Longrightarrow> r \<in> set rs \<and> key r = Some k"
proof (induction rs rule: rev_induct)
  case (snoc x xs)
  then show ?case by (auto simp: last_with_snoc split: if_splits)
qed (simp add: last_with_def)

lemma last_with_Some_iff:
  assumes "inj_on key (set rs)"
  shows "last_with key k rs = Some r \<longleftrightarrow> r \<in> set rs \<and> key r = Some k"
proof
  assume "last_with key k rs = Some r"
  then show "r \<in> set rs \<and> key r = Some k" by (rule last_with_SomeD)
next
  assume r: "r \<in> set rs \<and> key r = Some k"
  then obtain r' where r': "last_with key k rs = Some r'"
    by (cases "last_with key k rs") (auto simp: last_with_def find_None_iff)
  then have "r' \<in> set rs \<and> key r' = Some k" by (rule last_with_SomeD)
  with r r' inj_onD [OF assms, of r' r] show "last_with key k rs = Some r" by simp
qed

lemma lazy_event_id:
  assumes "lazy_of rs lz" and "distinct (map event_id rs)"
  shows "materialize lz i = lookup_event_id (event_index_of rs) i"
proof -
  have inj: "inj_on (Some \<circ> event_id) (set rs)"
    using assms(2) by (auto simp: distinct_map inj_on_def)
  show ?thesis
  proof (cases "i \<in> event_id ` set rs")
    case True
    then obtain r where "r \<in> set rs" "event_id r = i" by auto
    with assms(1) last_with_Some_iff [OF inj, of i r] show ?thesis
      by (auto simp: index_lookups lazy_of_def)
  next
    case False
    then have "last_with (Some \<circ> event_id) i rs = None"
      by (auto simp: last_with_def find_None_iff)
    with assms(1) False show ?thesis by (simp add: index_lookups lazy_of_def)
  qed
qed

lemma bucket_idpost:
  "bucket (idpost keys rs t) k =
     bucket t k @ map event_id (concat (map (\<lambda>r. replicate (count_list (keys r) k) r) rs))"
proof (induction rs arbitrary: t)
  case (Cons r rs)
  have "bucket (fold (\<lambda>k. bucket_add k v) ks t) k = bucket t k @ replicate (count_list ks k) v"
    for v :: string and ks t
    by (induction ks arbitrary: t) (auto simp: replicate_append_same)
  with Cons [of "fold (\<lambda>k. bucket_add k (event_id r)) (keys r) t"] show ?case
    by (simp add: idpost_def)
qed (simp add: idpost_def)

lemma concat_replicate_filter:
  "(\<And>r. r \<in> set rs \<Longrightarrow> count_list (keys r) k = (if P r then 1 else 0)) \<Longrightarrow>
   concat (map (\<lambda>r. replicate (count_list (keys r) k) r) rs) = filter P rs"
  by (induction rs) auto

lemma count_opt_list: "count_list (opt_list x) k = (if x = Some k then 1 else 0)"
  by (auto simp: opt_list_def split: option.split)

lemma count_list_map_inj:
  "inj_on f (insert k (set ks)) \<Longrightarrow> count_list (map f ks) (f k) = count_list ks k"
proof (induction ks)
  case (Cons a ks)
  have "inj_on f (insert k (set ks))"
    using Cons.prems by (rule inj_on_subset) auto
  moreover have "f a = f k \<longleftrightarrow> a = k"
    using inj_onD [OF Cons.prems, of a k] by auto
  ultimately show ?case using Cons.IH by simp
qed simp

lemma set_concat_replicate_subset:
  "set (concat (map (\<lambda>r. replicate (n r) r) rs)) \<subseteq> set rs"
  by (induction rs) auto

lemma lazy_bucket_idpost:
  assumes "lazy_of rs lz" and "map_of (serializable_key_indexes (event_index_of rs)) name = Some (idpost keys rs [])"
  shows "lazy_bucket lz name k = concat (map (\<lambda>r. replicate (count_list (keys r) k) r) rs)"
proof -
  have "posting lz name = idpost keys rs []"
    using assms by (simp add: posting_def lazy_of_def)
  then have "lazy_bucket lz name k =
      materialize_all lz (map event_id (concat (map (\<lambda>r. replicate (count_list (keys r) k) r) rs)))"
    by (simp add: lazy_bucket_def bucket_idpost)
  then show ?thesis
    using lazy_materialize [OF assms(1) set_concat_replicate_subset] by simp
qed

lemma serializable_at:
  assumes "\<forall>r \<in> set rs. nul_free r"
  shows "map_of (serializable_key_indexes (event_index_of rs)) ''type'' = Some (idpost (\<lambda>r. [event_type r]) rs [])"
    "map_of (serializable_key_indexes (event_index_of rs)) ''category'' = Some (idpost (\<lambda>r. [event_category r]) rs [])"
    "map_of (serializable_key_indexes (event_index_of rs)) ''actor'' = Some (idpost (\<lambda>r. [actor_id (provenance r)]) rs [])"
    "map_of (serializable_key_indexes (event_index_of rs)) ''task'' = Some (idpost (\<lambda>r. opt_list (task_id (provenance r))) rs [])"
    "map_of (serializable_key_indexes (event_index_of rs)) ''run'' = Some (idpost (\<lambda>r. opt_list (run_id (provenance r))) rs [])"
    "map_of (serializable_key_indexes (event_index_of rs)) ''correlation'' = Some (idpost (\<lambda>r. opt_list (correlation_id (provenance r))) rs [])"
    "map_of (serializable_key_indexes (event_index_of rs)) ''causation'' = Some (idpost (\<lambda>r. opt_list (causation_event_id (provenance r))) rs [])"
    "map_of (serializable_key_indexes (event_index_of rs)) ''supersede'' = Some (idpost (\<lambda>r. opt_list (superseded_event_id (supersede r))) rs [])"
    "map_of (serializable_key_indexes (event_index_of rs)) ''obligation'' = Some (idpost obligation_ids rs [])"
    "map_of (serializable_key_indexes (event_index_of rs)) ''entity'' = Some (idpost (map pair_key \<circ> entity_keys) rs [])"
  by (simp_all add: serializable_eq [OF assms])

lemma lazy_buckets:
  assumes l: "lazy_of rs lz" and n: "\<forall>r \<in> set rs. nul_free r"
  shows "lazy_bucket lz ''type'' k = lookup_type (event_index_of rs) k"
    "lazy_bucket lz ''category'' k = lookup_category (event_index_of rs) k"
    "lazy_bucket lz ''actor'' k = lookup_actor (event_index_of rs) k"
    "lazy_bucket lz ''task'' k = lookup_task (event_index_of rs) k"
    "lazy_bucket lz ''run'' k = lookup_run (event_index_of rs) k"
    "lazy_bucket lz ''correlation'' k = lookup_correlation (event_index_of rs) k"
    "lazy_bucket lz ''causation'' k = lookup_causation (event_index_of rs) k"
    "lazy_bucket lz ''supersede'' k = lookup_supersede (event_index_of rs) k"
    "lazy_bucket lz ''obligation'' k = lookup_obligation (event_index_of rs) k"
    "NUL \<notin> set et \<Longrightarrow> lazy_entity lz et eid = lookup_entity (event_index_of rs) et eid"
proof -
  note b = serializable_at [OF n, THEN lazy_bucket_idpost [OF l]]
  show "lazy_bucket lz ''type'' k = lookup_type (event_index_of rs) k"
    unfolding b(1) index_lookups by (rule concat_replicate_filter) simp
  show "lazy_bucket lz ''category'' k = lookup_category (event_index_of rs) k"
    unfolding b(2) index_lookups by (rule concat_replicate_filter) simp
  show "lazy_bucket lz ''actor'' k = lookup_actor (event_index_of rs) k"
    unfolding b(3) index_lookups by (rule concat_replicate_filter) simp
  show "lazy_bucket lz ''task'' k = lookup_task (event_index_of rs) k"
    unfolding b(4) index_lookups by (rule concat_replicate_filter) (simp add: count_opt_list)
  show "lazy_bucket lz ''run'' k = lookup_run (event_index_of rs) k"
    unfolding b(5) index_lookups by (rule concat_replicate_filter) (simp add: count_opt_list)
  show "lazy_bucket lz ''correlation'' k = lookup_correlation (event_index_of rs) k"
    unfolding b(6) index_lookups by (rule concat_replicate_filter) (simp add: count_opt_list)
  show "lazy_bucket lz ''causation'' k = lookup_causation (event_index_of rs) k"
    unfolding b(7) index_lookups by (rule concat_replicate_filter) (simp add: count_opt_list)
  show "lazy_bucket lz ''supersede'' k = lookup_supersede (event_index_of rs) k"
    unfolding b(8) index_lookups by (rule concat_replicate_filter) (simp add: count_opt_list)
  show "lazy_bucket lz ''obligation'' k = lookup_obligation (event_index_of rs) k"
    unfolding b(9) index_lookups ..
  show "lazy_entity lz et eid = lookup_entity (event_index_of rs) et eid" if "NUL \<notin> set et"
  proof -
    have "count_list (map pair_key (entity_keys r)) (pair_key (et, eid)) = count_list (entity_keys r) (et, eid)"
      if "r \<in> set rs" for r
      by (rule count_list_map_inj, rule inj_on_subset [OF inj_pair_key])
         (use n that \<open>NUL \<notin> set et\<close> in \<open>auto simp: nul_free_def list_all_iff\<close>)
    then have "concat (map (\<lambda>r. replicate (count_list ((map pair_key \<circ> entity_keys) r) (pair_key (et, eid))) r) rs)
       = concat (map (\<lambda>r. replicate (count_list (entity_keys r) (et, eid)) r) rs)"
      by (intro arg_cong [where f = concat] map_cong) auto
    then show ?thesis
      unfolding lazy_entity_def b(10) index_lookups by simp
  qed
qed

lemma lazy_range:
  assumes "lazy_of rs lz"
  shows "lazy_records lz = rs"
    and "lazy_records_in_range lz a b = records_in_range (event_index_of rs) a b"
proof -
  show "lazy_records lz = rs"
    using lazy_materialize [OF assms, of rs] assms by (simp add: lazy_records_def lazy_of_def)
  have "[i. (i, n) \<leftarrow> zip (map event_id xs) (map sequence_number xs), a \<le> n \<and> n \<le> b]
      = map event_id (filter (\<lambda>r. a \<le> sequence_number r \<and> sequence_number r \<le> b) xs)" for xs :: "event_record list"
    by (induction xs) auto
  then show "lazy_records_in_range lz a b = records_in_range (event_index_of rs) a b"
    using assms lazy_materialize [OF assms, of "filter (\<lambda>r. a \<le> sequence_number r \<and> sequence_number r \<le> b) rs"]
    by (simp add: lazy_records_in_range_def lazy_of_def records_in_range_def index_lookups(1))
qed

text \<open>Folding new records in keeps the lazy index what a rebuild would give.\<close>

lemma lazy_add_fold:
  "lz_postings (fold lazy_add_one rs lz) = lz_postings lz"
  "lz_order (fold lazy_add_one rs lz) = lz_order lz @ map event_id rs"
  "lz_seqs (fold lazy_add_one rs lz) = lz_seqs lz @ map sequence_number rs"
  "lz_seq_set (fold lazy_add_one rs lz) = lz_seq_set lz \<union> sequence_number ` set rs"
  "lz_lines (fold lazy_add_one rs lz) = lz_lines lz"
  by (induction rs arbitrary: lz; auto simp: lazy_add_one_def)+

lemma lazy_add_max:
  "lz_max_seq (fold lazy_add_one rs lz) = Max (insert (lz_max_seq lz) (sequence_number ` set rs))"
proof (induction rs arbitrary: lz)
  case (Cons r rs)
  have "lz_max_seq (lazy_add_one r lz) = max (lz_max_seq lz) (sequence_number r)"
    by (simp add: lazy_add_one_def)
  then show ?case by (cases "rs = []") (simp_all add: Cons max.assoc max.left_commute)
qed simp

lemma lazy_add_materialize:
  "materialize (fold lazy_add_one rs lz) i =
     (case last_with (Some \<circ> event_id) i rs of Some r \<Rightarrow> Some r | None \<Rightarrow> materialize lz i)"
proof (induction rs rule: rev_induct)
  case (snoc r rs)
  then show ?case
    by (auto simp: last_with_snoc materialize_def lazy_add_one_def map_of_update_cases split: option.splits)
qed (simp add: last_with_def)

lemma materialize_postings [simp]: "materialize (lz\<lparr>lz_postings := ps\<rparr>) i = materialize lz i"
  by (simp add: materialize_def split: option.split)

lemma last_with_None_iff: "last_with key k rs = None \<longleftrightarrow> (\<forall>r \<in> set rs. key r \<noteq> Some k)"
  by (auto simp: last_with_def find_None_iff)

lemma lazy_of_add:
  assumes l: "lazy_of rs lz" and n: "\<forall>r \<in> set (rs @ rs'). nul_free r"
    and d: "distinct (map event_id (rs @ rs'))"
  shows "lazy_of (rs @ rs') (lazy_add_records rs' lz)"
proof (cases "rs' = []")
  case True
  with l show ?thesis by (simp add: lazy_add_records_def)
next
  case False
  let ?lz = "lz\<lparr>lz_postings := merge_postings (serializable_key_indexes (event_index_of rs')) (lz_postings lz)\<rparr>"
  have lz: "lazy_add_records rs' lz = fold lazy_add_one rs' ?lz"
    using False by (simp add: lazy_add_records_def)
  have inj: "inj_on (Some \<circ> event_id) (set rs')"
    using d by (auto simp: distinct_map inj_on_def)
  have "lz_postings ?lz = serializable_key_indexes (event_index_of (rs @ rs'))"
    using l n by (simp add: lazy_of_def merge_serializable)
  moreover have "Max (insert (Max (insert (-1) (sequence_number ` set rs))) (sequence_number ` set rs'))
      = Max (insert (-1) (sequence_number ` set rs \<union> sequence_number ` set rs'))"
    using Max_Un [of "insert (-1) (sequence_number ` set rs)" "sequence_number ` set rs'"]
    by (cases "rs' = []") (simp_all add: Max.insert_not_elem Un_commute)
  moreover have "materialize (fold lazy_add_one rs' ?lz) (event_id r) = Some r" if "r \<in> set (rs @ rs')" for r
  proof (cases "r \<in> set rs'")
    case True
    then show ?thesis
      using last_with_Some_iff [OF inj, of "event_id r" r] by (simp add: lazy_add_materialize)
  next
    case False
    with that d have "last_with (Some \<circ> event_id) (event_id r) rs' = None"
      by (force simp: last_with_None_iff)
    with False that l show ?thesis by (auto simp: lazy_add_materialize lazy_of_def)
  qed
  moreover have "materialize (fold lazy_add_one rs' ?lz) i = None" if "i \<notin> event_id ` set (rs @ rs')" for i
  proof -
    have "last_with (Some \<circ> event_id) i rs' = None"
      using that by (auto simp: last_with_None_iff)
    with that l show ?thesis by (auto simp: lazy_add_materialize lazy_of_def)
  qed
  ultimately show ?thesis
    using l unfolding lz by (auto simp: lazy_of_def lazy_add_fold lazy_add_max max_sequence_eq image_Un)
qed

section \<open>Adopting persisted files\<close>

lemma offsets_map: "map_of (offsets rs) i = last_with (Some \<circ> event_id) i rs"
proof -
  have "map_of (fold (\<lambda>r. AList.update (event_id r) r) rs t) i =
      (case last_with (Some \<circ> event_id) i rs of Some r \<Rightarrow> Some r | None \<Rightarrow> map_of t i)" for t
  proof (induction rs rule: rev_induct)
    case (snoc r rs)
    then show ?case by (auto simp: last_with_snoc map_of_update_cases)
  qed (simp add: last_with_def)
  from this [of "[]"] show ?thesis by (simp add: offsets_def split: option.split)
qed

lemma read_postings_gen:
  assumes "read_postings gen files names = Some ps"
  shows "map fst ps = names
    \<and> (\<forall>(name, b) \<in> set ps. map_of files name = Some (Posting (Some gen) (Some b)))"
  using assms
  by (induction names arbitrary: ps)
     (auto split: option.splits posting_file.splits if_splits)

text \<open>Every posting file was written by some writer for the records that writer had.\<close>

definition written_by :: "(string list \<Rightarrow> string) \<Rightarrow> event_record list set \<Rightarrow> idx_files \<Rightarrow> bool" where
  "written_by token R fs \<longleftrightarrow>
     (\<forall>rs. eid_file fs = Some rs \<longrightarrow> rs \<in> R) \<and>
     (\<forall>name f. map_of (posting_files fs) name = Some f \<longrightarrow>
        (\<exists>rs \<in> R. \<exists>b. f = Posting (Some (token (map event_id rs))) (Some b)
           \<and> map_of (serializable_key_indexes (event_index_of rs)) name = Some b))"

lemma key_index_names_eq: "map fst (serializable_key_indexes x) = key_index_names"
  by (simp add: serializable_key_indexes_def key_index_names_def)

lemma distinct_key_names: "distinct key_index_names"
  by (simp add: key_index_names_def)

lemma alist_eqI:
  assumes "map fst xs = map fst ys" and "distinct (map fst xs)"
    and "\<And>k v. (k, v) \<in> set xs \<Longrightarrow> map_of ys k = Some v"
  shows "xs = ys"
proof (rule nth_equalityI)
  show len: "length xs = length ys" using assms(1) by (metis length_map)
  fix i assume i: "i < length xs"
  obtain k v where xi: "xs ! i = (k, v)" by fastforce
  have ki: "fst (ys ! i) = k" using assms(1) i len xi by (metis fst_conv nth_map)
  obtain v' where yi: "ys ! i = (k, v')" using ki by (cases "ys ! i") auto
  have "(k, v') \<in> set ys" using yi i len nth_mem by fastforce
  moreover have "distinct (map fst ys)" using assms(1,2) by simp
  ultimately have "map_of ys k = Some v'" by simp
  moreover have "map_of ys k = Some v" using assms(3) xi i nth_mem by fastforce
  ultimately show "xs ! i = ys ! i" using xi yi by simp
qed

lemma keys_idsingle: "fst ` set (idsingle key rs t) = fst ` set t \<union> \<Union> (set_option ` key ` set rs)"
  by (induction rs arbitrary: t) (auto simp: idsingle_def set_map_fst_update split: option.splits)

lemma sequence_posting:
  assumes "\<forall>r \<in> set rs. nul_free r"
  shows "map_of (serializable_key_indexes (event_index_of rs)) ''sequence''
       = Some (idsingle (map_option int_str \<circ> (Some \<circ> sequence_number)) rs [])"
    and "set (map (str_int \<circ> fst) (idsingle (map_option int_str \<circ> (Some \<circ> sequence_number)) rs []))
       = sequence_number ` set rs"
proof -
  show "map_of (serializable_key_indexes (event_index_of rs)) ''sequence''
       = Some (idsingle (map_option int_str \<circ> (Some \<circ> sequence_number)) rs [])"
    by (simp add: serializable_eq [OF assms])
  have "str_int ` fst ` set (idsingle (map_option int_str \<circ> (Some \<circ> sequence_number)) rs [])
      = sequence_number ` set rs"
    by (auto simp: keys_idsingle image_UN image_image)
  then show "set (map (str_int \<circ> fst) (idsingle (map_option int_str \<circ> (Some \<circ> sequence_number)) rs []))
       = sequence_number ` set rs"
    by (simp add: image_comp)
qed

text \<open>What \<open>load\<close> adopts belongs together, whoever wrote the files in whatever order.\<close>

lemma load_untorn:
  assumes ld: "load_index_store token fs = Some lz" and w: "written_by token R fs"
    and eid: "eid_file fs = Some rs"
    and tok: "inj_on token (map event_id ` R)"
    and ids: "\<And>rs1 rs2. rs1 \<in> R \<Longrightarrow> rs2 \<in> R \<Longrightarrow> map event_id rs1 = map event_id rs2 \<Longrightarrow> rs1 = rs2"
    and d: "distinct (map event_id rs)" and n: "\<forall>r \<in> set rs. nul_free r"
    and pos: "\<forall>r \<in> set rs. 0 \<le> sequence_number r"
  shows "lazy_of rs lz"
proof -
  obtain ps where ps: "read_postings (token (map event_id rs)) (posting_files fs) key_index_names = Some ps"
    using ld eid by (auto simp: load_index_store_def split: option.splits)
  have "ps = serializable_key_indexes (event_index_of rs)"
  proof (rule alist_eqI)
    show "map fst ps = map fst (serializable_key_indexes (event_index_of rs))"
      using read_postings_gen [OF ps] by (simp add: key_index_names_eq)
    show "distinct (map fst ps)"
      using read_postings_gen [OF ps] distinct_key_names by simp
    show "map_of (serializable_key_indexes (event_index_of rs)) k = Some v" if "(k, v) \<in> set ps" for k v
    proof -
      have "map_of (posting_files fs) k = Some (Posting (Some (token (map event_id rs))) (Some v))"
        using read_postings_gen [OF ps] that by blast
      then obtain rs' where rs': "rs' \<in> R" "token (map event_id rs') = token (map event_id rs)"
        "map_of (serializable_key_indexes (event_index_of rs')) k = Some v"
        using w by (fastforce simp: written_by_def)
      have "rs \<in> R" using w eid by (simp add: written_by_def)
      with rs' tok have "map event_id rs' = map event_id rs" by (auto dest: inj_onD)
      with rs' \<open>rs \<in> R\<close> ids show ?thesis by blast
    qed
  qed
  then have ps: "read_postings (token (map event_id rs)) (posting_files fs) key_index_names
      = Some (serializable_key_indexes (event_index_of rs))"
    using ps by simp
  define seqs where "seqs = map (str_int \<circ> fst)
      (idsingle (map_option int_str \<circ> (Some \<circ> sequence_number)) rs [])"
  have seqs: "set seqs = sequence_number ` set rs" "seqs = [] \<longleftrightarrow> rs = []"
    using sequence_posting(2) [OF n] unfolding seqs_def [symmetric] by auto
  have "load_index_store token fs =
     (let lz = \<lparr>lz_lines = offsets rs, lz_postings = serializable_key_indexes (event_index_of rs),
                lz_order = map event_id rs, lz_seqs = map sequence_number rs, lz_seq_set = set seqs,
                lz_max_seq = (if seqs = [] then -1 else Max (set seqs)), lz_cache = []\<rparr>
      in if rs = [] then Some (lz\<lparr>lz_seq_set := {}, lz_max_seq := -1\<rparr>)
         else if tail_consistent (last rs) (serializable_key_indexes (event_index_of rs)) then Some lz else None)"
    by (simp add: load_index_store_def eid ps sequence_posting(1) [OF n] seqs_def Let_def)
  then have lz: "lz_lines lz = offsets rs" "lz_cache lz = []"
    "lz_postings lz = serializable_key_indexes (event_index_of rs)"
    "lz_order lz = map event_id rs" "lz_seqs lz = map sequence_number rs"
    "lz_seq_set lz = sequence_number ` set rs"
    "lz_max_seq lz = (if rs = [] then -1 else Max (sequence_number ` set rs))"
    using ld seqs by (auto simp: Let_def split: if_splits)
  have "max_sequence (event_index_of rs) = (if rs = [] then -1 else Max (sequence_number ` set rs))"
  proof (cases "rs = []")
    case False
    then obtain r where "r \<in> set rs" by (cases rs) auto
    then have "- 1 \<le> Max (sequence_number ` set rs)"
      using pos by (intro order.trans [OF _ Max_ge [of _ "sequence_number r"]]) force+
    with False show ?thesis by (simp add: max_sequence_eq max_def)
  qed (simp add: max_sequence_eq)
  moreover have "inj_on (Some \<circ> event_id) (set rs)"
    using d by (auto simp: distinct_map inj_on_def)
  then have "materialize lz (event_id r) = Some r" if "r \<in> set rs" for r
    using that last_with_Some_iff [of "Some \<circ> event_id" rs "event_id r" r] lz
    by (simp add: materialize_def offsets_map)
  moreover have "materialize lz i = None" if "i \<notin> event_id ` set rs" for i
    using that lz by (auto simp: materialize_def offsets_map last_with_None_iff)
  ultimately show ?thesis using lz by (simp add: lazy_of_def)
qed

lemma posting_files_fold_write:
  "distinct (map fst nbs) \<Longrightarrow>
   map_of (posting_files (fold (write_posting token rs) nbs fs)) name =
     (case map_of nbs name of
        Some b \<Rightarrow> Some (Posting (Some (token (map event_id rs))) (Some b))
      | None \<Rightarrow> map_of (posting_files fs) name)"
proof (induction nbs arbitrary: fs)
  case (Cons nb nbs)
  have "map_of nbs (fst nb) = None"
    using Cons.prems by (simp add: map_of_eq_None_iff)
  moreover have "map_of (posting_files (write_posting token rs nb fs)) name =
      (if name = fst nb then Some (Posting (Some (token (map event_id rs))) (Some (snd nb)))
       else map_of (posting_files fs) name)"
    by (simp add: write_posting_def map_of_update_cases)
  ultimately show ?case
    using Cons by (cases nb) (auto split: option.split simp del: map_of_eq_Some_iff)
qed simp

lemma eid_file_fold_write: "eid_file (fold (write_posting token rs) nbs fs) = eid_file fs"
  by (induction nbs arbitrary: fs) (simp_all add: write_posting_def)

lemma read_postings_all:
  "(\<And>name. name \<in> set names \<Longrightarrow> \<exists>b. map_of src name = Some b
      \<and> map_of files name = Some (Posting (Some gen) (Some b))) \<Longrightarrow>
   read_postings gen files names = Some (map (\<lambda>name. (name, the (map_of src name))) names)"
  by (induction names) fastforce+

lemma tail_post:
  "(k, ids) \<in> set (idpost keys [r] []) \<Longrightarrow> event_id r \<in> set (bucket (idpost keys (rs @ [r]) []) k)"
proof -
  assume "(k, ids) \<in> set (idpost keys [r] [])"
  then have "k \<in> set (keys r)"
    using keys_fold_bucket_add [of "event_id r" "keys r" "[]"] by (force simp: idpost_def)
  then show ?thesis by (simp add: bucket_idpost count_list_0_iff)
qed

lemma tail_single:
  "(k, ids) \<in> set (idsingle key [r] []) \<Longrightarrow> event_id r \<in> set (bucket (idsingle key (rs @ [r]) []) k)"
  by (auto simp: idsingle_def bucket_def map_of_update_cases split: option.splits)

lemma tail_consistent_own:
  assumes "\<forall>r' \<in> set (rs @ [r]). nul_free r'"
  shows "tail_consistent r (serializable_key_indexes (event_index_of (rs @ [r])))"
proof -
  have "\<forall>r' \<in> set [r]. nul_free r'" using assms by simp
  then show ?thesis
    unfolding tail_consistent_def serializable_eq [OF assms] serializable_eq [of "[r]", OF \<open>\<forall>r' \<in> set [r]. nul_free r'\<close>]
    using tail_post [where rs = rs and r = r] tail_single [where rs = rs and r = r]
    by simp blast
qed

lemma load_persist:
  assumes n: "\<forall>r \<in> set rs. nul_free r"
  shows "\<exists>lz. load_index_store token (snd (persist token rs fs)) = Some lz"
proof -
  let ?s = "serializable_key_indexes (event_index_of rs)"
  let ?fs = "snd (persist token rs fs)"
  have k: "map fst ?s = key_index_names" by (rule key_index_names_eq)
  then have d: "distinct (map fst ?s)" using distinct_key_names by simp
  have files: "map_of (posting_files ?fs) name = Some (Posting (Some (token (map event_id rs))) (Some b))"
    if "map_of ?s name = Some b" for name b
    using that d by (simp add: persist_def Let_def posting_files_fold_write del: map_of_eq_Some_iff)
  have "read_postings (token (map event_id rs)) (posting_files ?fs) key_index_names
      = Some (map (\<lambda>name. (name, the (map_of ?s name))) key_index_names)"
  proof (rule read_postings_all)
    fix name assume "name \<in> set key_index_names"
    then have "name \<in> fst ` set ?s" using k by (metis set_map)
    then obtain b where "map_of ?s name = Some b" by (metis map_of_eq_None_iff not_Some_eq)
    with files show "\<exists>b. map_of ?s name = Some b
        \<and> map_of (posting_files ?fs) name = Some (Posting (Some (token (map event_id rs))) (Some b))"
      by blast
  qed
  also have "map (\<lambda>name. (name, the (map_of ?s name))) key_index_names = ?s"
    unfolding k [symmetric] map_map using d by (intro map_idI) auto
  finally have ps: "read_postings (token (map event_id rs)) (posting_files ?fs) key_index_names = Some ?s" .
  have e: "eid_file ?fs = Some rs"
    by (simp add: persist_def Let_def eid_file_fold_write write_eid_def)
  show ?thesis
  proof (cases rs rule: rev_cases)
    case Nil
    with e ps show ?thesis by (simp add: load_index_store_def Let_def)
  next
    case (snoc rs' r)
    then have "tail_consistent (last rs) ?s"
      using tail_consistent_own [of rs' r] n by simp
    with e ps snoc show ?thesis by (simp add: load_index_store_def Let_def)
  qed
qed

end
