(* ===== verification/Reading_Properties.thy ===== *)
theory Reading_Properties
  imports Crash_Properties Event_Index_Store
begin

text \<open>
  The properties of the readers of the event log: the visibility rule in closed form, the
  start-up scan that feeds the write guards, the narrowed scan for one type and its limit,
  merging of foreign logs, and the point-lookup index with its lazy and persisted forms.
\<close>

section \<open>Visibility\<close>

text \<open>The visibility rule.  In a log without truth records of an unknown version, a reader
  sees every direct record, in order; and of each batch exactly the records up to the last
  sentinel of the batch, in order - nothing of a batch whose sentinel is missing.\<close>

theorem committed_visibility_rule:
  assumes "known_versions cd d"
  shows "snd (committed cd d) = None
    \<and> filter (\<lambda>r. batch_id r = None) (fst (committed cd d)) = filter (\<lambda>r. batch_id r = None) (log_readable cd d)
    \<and> (\<forall>b. filter (in_batch b) (fst (committed cd d))
            = upto_last is_sentinel (filter (in_batch b) (log_readable cd d)))"
  using assms visible_batch vis_run_path_b [OF buffer_ok_Nil] by (simp add: committed_eq)

theorem committed_visibility_rule_witness:
  "filter (in_batch ''b1'') (fst (committed sample_codec
      (append_text Base (lines_text sample_codec sample_batch) empty_disk))) = sample_batch"
proof -
  let ?d = "append_text Base (lines_text sample_codec sample_batch) empty_disk"
  have seg: "Base = active_segment empty_disk \<or> Base = next_segment empty_disk"
    by (simp add: active_segment_def empty_disk_def ordered_hot_segments_def)
  have w: "\<forall>r \<in> set sample_batch. record_ok r \<and> is_known_schema_version (schema_version r)"
    using sample_writable by (simp add: writable_def)
  have "raw_event_lines ?d = raw_lines (lines_text sample_codec sample_batch)"
    using append_end(1) [OF empty_disk_ok(6,3) _ seg] empty_disk_ok(1) [of sample_codec]
    by (simp add: log_ok_def)
  then have lines: "raw_event_lines ?d = map (dump_event sample_codec) sample_batch"
    using w raw_lines_text [OF sample_sound] by simp
  have k: "known_versions sample_codec ?d"
    unfolding known_versions_def lines by (rule no_unknown_dump [OF sample_sound w])
  have "log_readable sample_codec ?d = sample_batch"
    unfolding log_readable_def lines by (rule readable_dump [OF sample_sound w])
  with committed_visibility_rule [OF k] have
    "filter (in_batch ''b1'') (fst (committed sample_codec ?d))
      = upto_last is_sentinel (filter (in_batch ''b1'') sample_batch)" by simp
  also have "\<dots> = sample_batch"
    by (simp add: sample_batch_def sample_record_def in_batch_def upto_last_def is_sentinel_def)
  finally show ?thesis .
qed

text \<open>The guards against duplicates know everything a reader is served.  When the start-up
  scan of a log succeeds, every record of the committed stream has its identifier and its
  sequence number in the guard sets, and the next sequence number lies above it.\<close>

theorem startup_guards_cover_committed:
  assumes "log_ok cd d" and "derive_lifecycle_state cd d = Inr (next, ids, seqs)"
  shows "\<forall>r \<in> set (fst (committed cd d)).
      event_id r \<in> ids \<and> sequence_number r \<in> seqs \<and> sequence_number r < next"
proof
  fix r assume r: "r \<in> set (fst (committed cd d))"
  let ?l = "lifecycle_fields (loads_json cd) [] (raw_event_lines d)"
  have ok: "snd ?l = None" and f: "next = foldl max (-1) (map fst (fst ?l)) + 1"
    "ids = set (map snd (fst ?l))" "seqs = set (map fst (fst ?l))"
    using assms(2) by (auto simp: derive_lifecycle_state_def split: option.splits prod.splits)
  have "\<forall>line \<in> set (raw_event_lines d). \<forall>r. parse_event cd line = Some r \<longrightarrow> shows_record (loads_json cd line) r"
    using assms(1) by (simp add: log_ok_def line_ok_def)
  from lifecycle_covers [OF this ok, of "{}" "[]"]
  have "seq_and_id ` set (fst (committed cd d)) \<subseteq> set (fst ?l)"
    by (simp add: committed_def committed_records_def covers_def)
  with r have "(sequence_number r, event_id r) \<in> set (fst ?l)" by (force simp: seq_and_id_def)
  then have s: "event_id r \<in> set (map snd (fst ?l))" "sequence_number r \<in> set (map fst (fst ?l))"
    by force+
  with foldl_max_ge [of "sequence_number r" "-1" "map fst (fst ?l)"] f
  show "event_id r \<in> ids \<and> sequence_number r \<in> seqs \<and> sequence_number r < next" by simp
qed

theorem startup_guards_cover_committed_witness:
  "\<exists>next ids seqs. derive_lifecycle_state sample_codec
      (append_text Base (lines_text sample_codec sample_batch) empty_disk) = Inr (next, ids, seqs)
    \<and> event_id (hd sample_batch) \<in> ids"
proof -
  let ?d = "append_text Base (lines_text sample_codec sample_batch) empty_disk"
  have seg: "Base = active_segment empty_disk \<or> Base = next_segment empty_disk"
    by (simp add: active_segment_def empty_disk_def ordered_hot_segments_def)
  have w: "\<forall>r \<in> set sample_batch. record_ok r" using sample_writable by (simp add: writable_def)
  have n: "numbered_from (read_max_seq_on_disk sample_codec empty_disk + 1) sample_batch"
    by (simp add: sample_batch_def sample_record_def read_max_seq_on_disk_def empty_disk_def
        ordered_segments_def ordered_hot_segments_def)
  have t: "write_target sample_cfg empty_disk 1 = Base"
    by (simp add: write_target_def Let_def active_segment_event_count_def empty_disk_def
        active_segment_def ordered_hot_segments_def)
  note app = append_records [OF empty_disk_ok(1,3) sample_sound w n, of sample_cfg 1, unfolded t]
  have "snd (lifecycle_fields (loads_json sample_codec) [] (map (dump_event sample_codec) sample_batch)) = None"
    unfolding sample_batch_def list.map
    by (subst lifecycle_fields_record [OF shows_lifecycle_json [THEN back_subst [of "\<lambda>v. shows_record v _"]]],
        simp, simp add: sample_record_def sample_schema is_sentinel_def Let_def del: lifecycle_fields.simps(2))+
  then obtain nxt ids seqs where g: "derive_lifecycle_state sample_codec ?d = Inr (nxt, ids, seqs)"
    using app(2)
    by (cases "lifecycle_fields (loads_json sample_codec) [] (map (dump_event sample_codec) sample_batch)")
       (simp add: derive_lifecycle_state_def)
  have "hd sample_batch \<in> set (fst (committed sample_codec ?d))"
    using sample_committed sample_batch_id(5) by simp
  with startup_guards_cover_committed [OF app(1) g] g show ?thesis by blast
qed

section \<open>The narrowed scan\<close>

lemma scan_lines_subset:
  "(\<And>b. set (bucket pending b) \<subseteq> S) \<Longrightarrow> set (lines_possibly_of_type type pending lines) \<subseteq> set lines \<union> S"
proof (induction lines arbitrary: pending S)
  case (Cons l ls)
  have sub: "set (bucket (if m then bucket_add b l pending else pending) b') \<subseteq> insert l S" for m b b'
    using Cons.prems [of b'] by auto
  have add: "set (lines_possibly_of_type type (if mentions type l then bucket_add b l pending else pending) ls)
      \<subseteq> set ls \<union> insert l S" for b
    by (rule Cons.IH, rule sub)
  have del: "set (lines_possibly_of_type type
      (AList.delete b (if mentions type l then bucket_add b l pending else pending)) ls) \<subseteq> set ls \<union> insert l S" for b
    by (rule Cons.IH) (use sub in auto)
  show ?case
  proof (cases "batch_id_search l")
    case None
    then show ?thesis using Cons.IH [OF Cons.prems] by auto
  next
    case (Some b)
    let ?p = "if mentions type l then bucket_add b l pending else pending"
    have "set (lines_possibly_of_type type ?p ls) \<subseteq> insert l (set ls \<union> S)"
      "set (lines_possibly_of_type type (AList.delete b ?p) ls) \<subseteq> insert l (set ls \<union> S)"
      "set (bucket ?p b) \<subseteq> insert l S"
      using add [of b] del [of b] sub [of "mentions type l" b b] by auto
    with Some show ?thesis
      using Cons.IH [OF Cons.prems] by (simp only: lines_possibly_of_type.simps Let_def option.case) (auto split: if_split_asm)
  qed
qed simp

lemma honest_no_unknown:
  "\<forall>line \<in> set lines. honest_line parse type line \<Longrightarrow> set ls \<subseteq> set lines \<Longrightarrow> no_unknown_truth parse ls"
  by (fastforce simp: no_unknown_truth_def honest_line_def)

text \<open>The narrowed scan is exact on honest lines.  If every line that parses mentions its
  own type, shows its own batch identifier first, and mentions a sentinel type only when it is a
  sentinel, then reading only the lines the scan lets through gives, for records of the type,
  exactly what reading all lines gives.\<close>

theorem narrowed_scan_exact:
  assumes "\<forall>line \<in> set lines. honest_line parse type line"
  shows "filter (\<lambda>r. event_type r = type)
        (fst (committed_records parse (lines_possibly_of_type type [] lines)))
    = filter (\<lambda>r. event_type r = type) (fst (committed_records parse lines))"
proof -
  have "set (lines_possibly_of_type type [] lines) \<subseteq> set lines"
    using scan_lines_subset [of "[]" "{}" type lines] by simp
  note nu = honest_no_unknown [OF assms this] honest_no_unknown [OF assms subset_refl]
  have "scan_rel parse type [] []" by (simp add: scan_rel_def readable_def)
  from scan_agrees [OF assms this] show ?thesis
    by (simp add: committed_records_def iter_committed_ok nu)
qed

text \<open>Three lines of a batch; in the second, a payload may mention a sentinel type.\<close>

definition line_of :: "string \<Rightarrow> string \<Rightarrow> string" where
  "line_of type note = quoted ''batch_id'' @ '':'' @ quoted ''b1'' @ '','' @ quoted ''event_type'' @ '':''
     @ quoted type @ '','' @ quoted ''kind'' @ '':'' @ quoted note"

definition scan_batch :: "string \<Rightarrow> (string \<times> event_record) list" where
  "scan_batch note =
     [(line_of ''FindingCreated'' ''k'', sample_record ''a'' 0 ''FindingCreated'' (Some (''b1'', 0))),
      (line_of ''NodeTouched'' note, sample_record ''b'' 1 ''NodeTouched'' (Some (''b1'', 1))),
      (line_of ''CommitAccepted'' ''k'', sample_record ''c'' 2 ''CommitAccepted'' (Some (''b1'', 2)))]"

theorem narrowed_scan_exact_witness:
  "map event_type (filter (\<lambda>r. event_type r = ''FindingCreated'')
     (fst (committed_records (map_of (scan_batch ''k''))
        (lines_possibly_of_type ''FindingCreated'' [] (map fst (scan_batch ''k'')))))) = [''FindingCreated'']"
proof -
  have "list_all (honest_line (map_of (scan_batch ''k'')) ''FindingCreated'') (map fst (scan_batch ''k''))"
    by code_simp
  then have "\<forall>line \<in> set (map fst (scan_batch ''k'')). honest_line (map_of (scan_batch ''k'')) ''FindingCreated'' line"
    by (simp add: list_all_iff)
  note n = narrowed_scan_exact [OF this]
  show ?thesis unfolding n by code_simp
qed

text \<open>The narrowed scan can lose a committed record.  In a batch of three records the full
  reader serves the first one; but when the payload of the second, an ordinary record, contains
  the text of a sentinel type, the scan for the type of the first takes that line for the
  sentinel of the batch, forgets the batch, and serves nothing.\<close>

theorem narrowed_scan_loses_record:
  "filter (\<lambda>r. event_type r = ''FindingCreated'')
       (fst (committed_records (map_of (scan_batch ''CommitAccepted'')) (map fst (scan_batch ''CommitAccepted''))))
     = [sample_record ''a'' 0 ''FindingCreated'' (Some (''b1'', 0))]
   \<and> filter (\<lambda>r. event_type r = ''FindingCreated'')
       (fst (committed_records (map_of (scan_batch ''CommitAccepted''))
          (lines_possibly_of_type ''FindingCreated'' [] (map fst (scan_batch ''CommitAccepted'')))))
     = []"
  by code_simp

end
