(* ===== verification/Event_Log_Reads.thy ===== *)
theory Event_Log_Reads
  imports Event_Log Event_Index_Store
begin

text \<open>
  The reading side of the event log (\<open>l0/event_log/event_log.py\<close>): the warm index that is
  caught up with the tail of the log, its adoption at start-up, and the nine read operations.
  The read operations use the index through its lookups only; \<open>index_api\<close> is that interface,
  which the eager and the lazy index provide.  The cold archive is an argument.
\<close>

section \<open>The warm index\<close>

definition segment_committed :: "ecodec \<Rightarrow> disk \<Rightarrow> segment \<Rightarrow> event_record generated" where
  "segment_committed cd d seg =
     committed_records (parse_event cd) (case segment_text d seg of None \<Rightarrow> [] | Some t \<Rightarrow> raw_lines t)"

text \<open>\<open>seqs == list(range(seqs[0], ...))\<close>\<close>

fun consecutive :: "int list \<Rightarrow> bool" where
  "consecutive (m # n # ns) \<longleftrightarrow> n = m + 1 \<and> consecutive (n # ns)"
| "consecutive _ \<longleftrightarrow> True"

text \<open>The index is changed in place: the second component is the index afterwards.\<close>

definition fold_segment_tail :: "ecodec \<Rightarrow> disk \<Rightarrow> segment \<Rightarrow> event_index \<Rightarrow> (verr + bool) \<times> event_index" where
  "fold_segment_tail cd d seg x =
     (case segment_committed cd d seg of
        (_, Some e) \<Rightarrow> (Inl e, x)
      | (rs, None) \<Rightarrow>
          (let cur_max = max_sequence x;
               new_recs = filter (\<lambda>r. sequence_number r > cur_max) rs;
               seqs = map sequence_number new_recs
           in if new_recs = [] then (Inr True, x)
              else if hd seqs \<noteq> cur_max + 1 \<or> \<not> consecutive seqs then (Inr False, x)
              else (Inr True, index_add_records new_recs x)))"

definition rotation_fold :: "ecodec \<Rightarrow> disk \<Rightarrow> segment option \<Rightarrow> segment \<Rightarrow> event_index
    \<Rightarrow> (verr + bool) \<times> event_index" where
  "rotation_fold cd d old_active new_active x =
     (case old_active of
        None \<Rightarrow> (Inr False, x)
      | Some old \<Rightarrow>
          (if segment_text d old = None then (Inr False, x)
           else (case fold_segment_tail cd d old x of
                   (Inr True, x') \<Rightarrow> fold_segment_tail cd d new_active x'
                 | res \<Rightarrow> res)))"

definition set_index_baseline :: "disk \<Rightarrow> handle \<Rightarrow> handle" where
  "set_index_baseline d h =
     h\<lparr>h_index_seg := Some (active_segment d),
       h_index_size := (case segment_text d (active_segment d) of None \<Rightarrow> 0 | Some t \<Rightarrow> int (length t))\<rparr>"

definition rebuild_index :: "ecodec \<Rightarrow> disk \<Rightarrow> handle \<Rightarrow> (verr + unit) \<times> handle" where
  "rebuild_index cd d h =
     (case committed cd d of
        (_, Some e) \<Rightarrow> (Inl e, h)
      | (rs, None) \<Rightarrow> (Inr (), set_index_baseline d (h\<lparr>h_index := Some (event_index_of rs)\<rparr>)))"

definition catch_up_index :: "ecodec \<Rightarrow> disk \<Rightarrow> event_index \<Rightarrow> handle \<Rightarrow> (verr + unit) \<times> handle" where
  "catch_up_index cd d x h =
     (let active = active_segment d;
          size = (case segment_text d active of None \<Rightarrow> 0 | Some t \<Rightarrow> int (length t))
      in if h_index_seg h = None then rebuild_index cd d h
         else if Some active \<noteq> h_index_seg h
         then (case rotation_fold cd d (h_index_seg h) active x of
                 (Inl e, x') \<Rightarrow> (Inl e, h\<lparr>h_index := Some x'\<rparr>)
               | (Inr True, x') \<Rightarrow> (Inr (), set_index_baseline d (h\<lparr>h_index := Some x'\<rparr>))
               | (Inr False, x') \<Rightarrow> rebuild_index cd d (h\<lparr>h_index := Some x'\<rparr>))
         else if size = h_index_size h then (Inr (), h)
         else (case fold_segment_tail cd d active x of
                 (Inl e, x') \<Rightarrow> (Inl e, h\<lparr>h_index := Some x'\<rparr>)
               | (Inr True, x') \<Rightarrow> (Inr (), h\<lparr>h_index := Some x', h_index_size := size\<rparr>)
               | (Inr False, x') \<Rightarrow> rebuild_index cd d (h\<lparr>h_index := Some x'\<rparr>)))"

definition committed_index :: "ecodec \<Rightarrow> disk \<Rightarrow> handle \<Rightarrow> (verr + event_index) \<times> handle" where
  "committed_index cd d h =
     (let (res, h') = (case h_index h of
                         None \<Rightarrow> rebuild_index cd d h
                       | Some x \<Rightarrow> catch_up_index cd d x h)
      in (rbind res (\<lambda>_. case h_index h' of None \<Rightarrow> Inl (ValueError ''no index'') | Some x \<Rightarrow> Inr x), h'))"

text \<open>The identifier on disk at a sequence number, from the newest segment backwards.\<close>

definition line_event_id :: "ecodec \<Rightarrow> string \<Rightarrow> string option" where
  "line_event_id cd line =
     (case loads_json cd line of Some (JObj obj) \<Rightarrow> as_str (dget obj ''event_id'') | _ \<Rightarrow> None)"

definition event_id_at_seq_on_disk :: "ecodec \<Rightarrow> disk \<Rightarrow> int \<Rightarrow> string option" where
  "event_id_at_seq_on_disk cd d n =
     (case find (\<lambda>line. line_seq cd line = Some n)
             (concat (map (raw_lines \<circ> snd) (rev (ordered_segments d)))) of
        None \<Rightarrow> None
      | Some line \<Rightarrow> line_event_id cd line)"

text \<open>\<open>loaded\<close> is what the store's \<open>load\<close> returned.\<close>

definition adopt_persisted_index_if_safe :: "ecodec \<Rightarrow> disk \<Rightarrow> int \<Rightarrow> event_index option
    \<Rightarrow> verr + event_index option" where
  "adopt_persisted_index_if_safe cd d next_sequence loaded =
     (case loaded of
        None \<Rightarrow> Inr None
      | Some x \<Rightarrow>
          (if max_sequence x > next_sequence - 1 then Inr None
           else if max_sequence x \<ge> 0 \<and>
                   (case lookup_sequence_range x (max_sequence x) (max_sequence x) of
                      [] \<Rightarrow> True
                    | r # _ \<Rightarrow> event_id_at_seq_on_disk cd d (max_sequence x) \<noteq> Some (event_id r))
           then Inr None
           else (case fold_segment_tail cd d (active_segment d) x of
                   (Inl e, _) \<Rightarrow> Inl e
                 | (Inr True, x') \<Rightarrow> Inr (Some x')
                 | (Inr False, _) \<Rightarrow> Inr None)))"

text \<open>Opening the log: the guards come from the adopted index or from a scan of the log.\<close>

definition open_event_log :: "ecodec \<Rightarrow> disk \<Rightarrow> event_index option \<Rightarrow> (verr + handle) \<times> disk" where
  "open_event_log cd d loaded =
     (let d' = (case base_log d of None \<Rightarrow> d\<lparr>base_log := Some []\<rparr> | Some _ \<Rightarrow> d);
          next_sequence = read_max_seq_on_disk cd d' + 1;
          cold_start = \<lparr>h_event_ids = {}, h_sequences = {}, h_next = next_sequence, h_index = None,
                        h_index_seg = None, h_index_size = -1\<rparr>
      in (rbind (adopt_persisted_index_if_safe cd d' next_sequence loaded) (\<lambda>adopted.
            case adopted of
              Some x \<Rightarrow>
                Inr ((set_index_baseline d' (cold_start\<lparr>h_index := Some x\<rparr>))
                  \<lparr>h_event_ids := event_id_set x, h_sequences := sequence_set x, h_next := max_sequence x + 1\<rparr>)
            | None \<Rightarrow>
                rbind (derive_lifecycle_state cd d') (\<lambda>(n, ids, seqs).
                  Inr (cold_start\<lparr>h_next := n, h_event_ids := ids, h_sequences := seqs\<rparr>))), d'))"

section \<open>The lookups of an index\<close>

record index_api =
  api_event_id :: "string \<Rightarrow> event_record option"
  api_input_hash :: "string \<Rightarrow> string \<Rightarrow> event_record option"
  api_entity :: "string \<Rightarrow> string \<Rightarrow> event_record list"
  api_type :: "string \<Rightarrow> event_record list"
  api_category :: "string \<Rightarrow> event_record list"
  api_actor :: "string \<Rightarrow> event_record list"
  api_task :: "string \<Rightarrow> event_record list"
  api_run :: "string \<Rightarrow> event_record list"
  api_correlation :: "string \<Rightarrow> event_record list"
  api_causation :: "string \<Rightarrow> event_record list"
  api_supersede :: "string \<Rightarrow> event_record list"
  api_obligation :: "string \<Rightarrow> event_record list"
  api_records :: "event_record list"
  api_range :: "int \<Rightarrow> int \<Rightarrow> event_record list"

definition eager_api :: "event_index \<Rightarrow> index_api" where
  "eager_api x =
     \<lparr>api_event_id = lookup_event_id x, api_input_hash = lookup_input_hash x,
      api_entity = lookup_entity x, api_type = lookup_type x, api_category = lookup_category x,
      api_actor = lookup_actor x, api_task = lookup_task x, api_run = lookup_run x,
      api_correlation = lookup_correlation x, api_causation = lookup_causation x,
      api_supersede = lookup_supersede x, api_obligation = lookup_obligation x,
      api_records = x_records x, api_range = records_in_range x\<rparr>"

definition lazy_api :: "lazy_index \<Rightarrow> index_api" where
  "lazy_api lz =
     \<lparr>api_event_id = materialize lz, api_input_hash = lazy_input_hash lz,
      api_entity = lazy_entity lz, api_type = lazy_bucket lz ''type'',
      api_category = lazy_bucket lz ''category'', api_actor = lazy_bucket lz ''actor'',
      api_task = lazy_bucket lz ''task'', api_run = lazy_bucket lz ''run'',
      api_correlation = lazy_bucket lz ''correlation'', api_causation = lazy_bucket lz ''causation'',
      api_supersede = lazy_bucket lz ''supersede'', api_obligation = lazy_bucket lz ''obligation'',
      api_records = lazy_records lz, api_range = lazy_records_in_range lz\<rparr>"

section \<open>The read operations\<close>

definition get_event :: "index_api \<Rightarrow> (string \<Rightarrow> event_record option) \<Rightarrow> string \<Rightarrow> event_record option" where
  "get_event api cold i = (case api_event_id api i of Some r \<Rightarrow> Some r | None \<Rightarrow> cold i)"

definition get_events_by_entity :: "index_api \<Rightarrow> string \<Rightarrow> string \<Rightarrow> event_record list" where
  "get_events_by_entity api et eid = api_entity api et eid"

text \<open>\<open>cold\<close> is \<open>None\<close> when there are no cold events at all.\<close>

definition get_events_in_range :: "index_api \<Rightarrow> (int \<Rightarrow> int \<Rightarrow> event_record list) option \<Rightarrow> int \<Rightarrow> int
    \<Rightarrow> event_record list" where
  "get_events_in_range api cold a b =
     (case cold of
        None \<Rightarrow> api_range api a b
      | Some c \<Rightarrow>
          sort_key sequence_number
            (map snd (fold (\<lambda>r. AList.update (event_id r) r) (api_range api a b)
               (fold (\<lambda>r. AList.update (event_id r) r) (c a b) []))))"

text \<open>The loop breaks after it has appended a record.\<close>

fun take_events :: "int option \<Rightarrow> nat option \<Rightarrow> event_record list \<Rightarrow> event_record list \<Rightarrow> event_record list" where
  "take_events since lim results [] = results"
| "take_events since lim results (r # rs) =
     (if (case since of None \<Rightarrow> False | Some n \<Rightarrow> sequence_number r \<le> n) then take_events since lim results rs
      else if (case lim of None \<Rightarrow> False | Some k \<Rightarrow> k \<le> length (results @ [r])) then results @ [r]
      else take_events since lim (results @ [r]) rs)"

definition get_events_by_category :: "index_api \<Rightarrow> string \<Rightarrow> int option \<Rightarrow> nat option \<Rightarrow> event_record list" where
  "get_events_by_category api c since lim = take_events since lim [] (api_category api c)"

definition get_events_by_type :: "index_api \<Rightarrow> string \<Rightarrow> int option \<Rightarrow> nat option \<Rightarrow> event_record list" where
  "get_events_by_type api t since lim = take_events since lim [] (api_type api t)"

definition get_events_by_actor :: "index_api \<Rightarrow> string \<Rightarrow> int option \<Rightarrow> event_record list" where
  "get_events_by_actor api a since =
     filter (\<lambda>r. case since of None \<Rightarrow> True | Some n \<Rightarrow> sequence_number r > n) (api_actor api a)"

definition get_events_by_task :: "index_api \<Rightarrow> string \<Rightarrow> event_record list" where
  "get_events_by_task api t = api_task api t"

definition get_events_by_run :: "index_api \<Rightarrow> string \<Rightarrow> event_record list" where
  "get_events_by_run api r = api_run api r"

definition get_correlated_events :: "index_api \<Rightarrow> string \<Rightarrow> event_record list" where
  "get_correlated_events api c = api_correlation api c"

definition get_event_by_input_hash :: "index_api \<Rightarrow> string \<Rightarrow> string \<Rightarrow> event_record option" where
  "get_event_by_input_hash api rid h = api_input_hash api rid h"

text \<open>The loop over a chain of events; it has no bound of its own.\<close>

partial_function (option) follow :: "(string \<Rightarrow> event_record option) \<Rightarrow> (event_record \<Rightarrow> string option)
    \<Rightarrow> nat option \<Rightarrow> event_record list \<Rightarrow> string option \<Rightarrow> event_record list option" where
  "follow get up depth chain current_id =
     (case current_id of
        None \<Rightarrow> Some chain
      | Some i \<Rightarrow>
          (case get i of
             None \<Rightarrow> Some chain
           | Some r \<Rightarrow>
               (if (case depth of None \<Rightarrow> False | Some k \<Rightarrow> k \<le> length (chain @ [r])) then Some (chain @ [r])
                else follow get up depth (chain @ [r]) (up r))))"

definition get_causation_chain :: "index_api \<Rightarrow> (string \<Rightarrow> event_record option) \<Rightarrow> string \<Rightarrow> nat option
    \<Rightarrow> event_record list option" where
  "get_causation_chain api cold i depth =
     follow (get_event api cold) (causation_event_id \<circ> provenance) depth [] (Some i)"

definition get_supersede_chain :: "index_api \<Rightarrow> (string \<Rightarrow> event_record option) \<Rightarrow> string
    \<Rightarrow> event_record list option" where
  "get_supersede_chain api cold i =
     follow (get_event api cold) (superseded_event_id \<circ> supersede) None [] (Some i)"

text \<open>The query that reads the files and not the index; \<open>cold\<close> is \<open>None\<close> without cold events.\<close>

definition scan_committed_records_of_type :: "ecodec \<Rightarrow> disk \<Rightarrow> (string \<Rightarrow> event_record list) option \<Rightarrow> string
    \<Rightarrow> verr + event_record list" where
  "scan_committed_records_of_type cd d cold t =
     (case committed_records (parse_event cd) (lines_possibly_of_type t [] (raw_event_lines d)) of
        (_, Some e) \<Rightarrow> Inl e
      | (rs, None) \<Rightarrow>
          (let by_id = fold (\<lambda>r. AList.update (event_id r) r) (filter (\<lambda>r. event_type r = t) rs) [];
               by_id' = (case cold of
                           None \<Rightarrow> by_id
                         | Some c \<Rightarrow> fold (\<lambda>r m. case map_of m (event_id r) of
                                              None \<Rightarrow> AList.update (event_id r) r m | Some _ \<Rightarrow> m) (c t) by_id)
           in Inr (sort_key sequence_number (map snd by_id'))))"

end
