(* ===== verification/Lookup_Contract.thy ===== *)
theory Lookup_Contract
  imports Event_Log_Reads
begin

text \<open>
  The contract between the read operations of the event log and an index over a record list:
  the locale \<open>lookup_contract\<close> has the lookups as its parameter and says what each returns;
  the read operations are analysed inside it.  The eager index provides it, and so does the
  lazy index that a process adopts from the files another process persisted.
\<close>

section \<open>The persisted index\<close>

text \<open>Nothing but the files of the index in its directory.\<close>

definition own_files :: "idx_files \<Rightarrow> bool" where
  "own_files fs \<longleftrightarrow> fst ` set (posting_files fs) \<subseteq> set key_index_names"

definition indexable :: "event_record list \<Rightarrow> bool" where
  "indexable rs \<longleftrightarrow> (\<forall>r \<in> set rs. nul_free r \<and> 0 \<le> sequence_number r) \<and> distinct (map event_id rs)"

lemma fst_posting_files_fold:
  "fst ` set (posting_files (fold (write_posting token rs) nbs fs)) = fst ` set (posting_files fs) \<union> fst ` set nbs"
  by (induction nbs arbitrary: fs) (auto simp: write_posting_def set_map_fst_update)

lemma persist_written:
  assumes "own_files fs"
  shows "written_by token {rs} (snd (persist token rs fs))"
proof -
  let ?s = "serializable_key_indexes (event_index_of rs)"
  have d: "distinct (map fst ?s)" using distinct_key_names by (simp add: key_index_names_eq)
  have e: "eid_file (snd (persist token rs fs)) = Some rs"
    by (simp add: persist_def Let_def eid_file_fold_write write_eid_def)
  have "\<exists>b. f = Posting (Some (token (map event_id rs))) (Some b) \<and> map_of ?s name = Some b"
    if "map_of (posting_files (snd (persist token rs fs))) name = Some f" for name f
  proof -
    have "name \<in> fst ` set (posting_files (snd (persist token rs fs)))"
      using map_of_SomeD [OF that] by force
    moreover have "fst ` set ?s = set key_index_names"
      by (simp only: set_map [symmetric] key_index_names_eq)
    ultimately have "name \<in> set key_index_names"
      using assms by (auto simp: persist_def Let_def fst_posting_files_fold write_eid_def own_files_def)
    then obtain b where b: "map_of ?s name = Some b"
      by (metis key_index_names_eq map_of_eq_None_iff not_Some_eq set_map)
    with that d show ?thesis by (simp add: persist_def Let_def posting_files_fold_write del: map_of_eq_Some_iff)
  qed
  with e show ?thesis by (simp add: written_by_def)
qed

lemma adopt_persisted:
  assumes "indexable rs" and "own_files fs"
  obtains lz where "load_index_store token (snd (persist token rs fs)) = Some lz" "lazy_of rs lz"
proof -
  have n: "\<forall>r \<in> set rs. nul_free r" "\<forall>r \<in> set rs. 0 \<le> sequence_number r" "distinct (map event_id rs)"
    using assms(1) by (auto simp: indexable_def)
  obtain lz where lz: "load_index_store token (snd (persist token rs fs)) = Some lz"
    using load_persist [OF n(1)] by blast
  have e: "eid_file (snd (persist token rs fs)) = Some rs"
    by (simp add: persist_def Let_def eid_file_fold_write write_eid_def)
  have "lazy_of rs lz"
    by (rule load_untorn [OF lz persist_written [OF assms(2)] e _ _ n(3,1,2)]) auto
  with lz that show thesis by blast
qed


lemma bucket_idsingle:
  "bucket (idsingle key rs []) k = (case last_with key k rs of None \<Rightarrow> [] | Some r \<Rightarrow> [event_id r])"
proof (induction rs rule: rev_induct)
  case (snoc r rs)
  then show ?case
    by (cases "key r") (auto simp: idsingle_def last_with_snoc bucket_def map_of_update_cases)
qed (simp add: idsingle_def last_with_def bucket_def)

lemma last_with_inj:
  assumes "\<forall>r \<in> set rs. \<forall>k'. key r = Some k' \<longrightarrow> enc k' = enc k \<longrightarrow> k' = k"
  shows "last_with (map_option enc \<circ> key) (enc k) rs = last_with key k rs"
  using assms
proof (induction rs rule: rev_induct)
  case (snoc r rs)
  then show ?case by (cases "key r") (auto simp: last_with_snoc)
qed (simp add: last_with_def)

lemma lazy_input_hash_eq:
  assumes "lazy_of rs lz" and n: "\<forall>r \<in> set rs. nul_free r" and "NUL \<notin> set rid"
  shows "lazy_input_hash lz rid h = last_with input_hash_key (rid, h) rs"
proof -
  have p: "posting lz ''input_hash'' = idsingle (map_option pair_key \<circ> input_hash_key) rs []"
    using assms(1) by (simp add: posting_def lazy_of_def serializable_eq [OF n])
  have "last_with (map_option pair_key \<circ> input_hash_key) (pair_key (rid, h)) rs
      = last_with input_hash_key (rid, h) rs"
  proof (intro last_with_inj ballI allI impI)
    fix r k assume r: "r \<in> set rs" "input_hash_key r = Some k" "pair_key k = pair_key (rid, h)"
    with n have "nul_free r" by blast
    with r(2) have "NUL \<notin> set (fst k)" by (simp add: nul_free_def opt_list_def)
    with r(3) assms(3) show "k = (rid, h)" by (intro inj_onD [OF inj_pair_key r(3)]) simp_all
  qed
  moreover have "materialize lz (event_id r) = Some r" if "last_with input_hash_key (rid, h) rs = Some r" for r
    using assms(1) last_with_SomeD [OF that] by (simp add: lazy_of_def)
  ultimately show ?thesis
    by (simp add: lazy_input_hash_def p bucket_idsingle split: option.split)
qed

section \<open>The contract\<close>

locale lookup_contract =
  fixes api :: "event_record list \<Rightarrow> index_api"
    and ok :: "event_record list \<Rightarrow> bool"
  assumes id_law: "ok rs \<Longrightarrow> api_event_id (api rs) i = last_with (Some \<circ> event_id) i rs"
    and hash_law: "ok rs \<Longrightarrow> NUL \<notin> set a \<Longrightarrow> api_input_hash (api rs) a b = last_with input_hash_key (a, b) rs"
    and entity_law: "ok rs \<Longrightarrow> NUL \<notin> set a \<Longrightarrow> api_entity (api rs) a b
      = concat (map (\<lambda>r. replicate (count_list (entity_keys r) (a, b)) r) rs)"
    and type_law: "ok rs \<Longrightarrow> api_type (api rs) k = filter (\<lambda>r. event_type r = k) rs"
    and category_law: "ok rs \<Longrightarrow> api_category (api rs) k = filter (\<lambda>r. event_category r = k) rs"
    and actor_law: "ok rs \<Longrightarrow> api_actor (api rs) k = filter (\<lambda>r. actor_id (provenance r) = k) rs"
    and task_law: "ok rs \<Longrightarrow> api_task (api rs) k = filter (\<lambda>r. task_id (provenance r) = Some k) rs"
    and run_law: "ok rs \<Longrightarrow> api_run (api rs) k = filter (\<lambda>r. run_id (provenance r) = Some k) rs"
    and correlation_law: "ok rs \<Longrightarrow> api_correlation (api rs) k
      = filter (\<lambda>r. correlation_id (provenance r) = Some k) rs"
    and range_law: "ok rs \<Longrightarrow> api_range (api rs) m n
      = filter (\<lambda>r. m \<le> sequence_number r \<and> sequence_number r \<le> n) rs"
begin

lemma get_event_eq:
  "ok rs \<Longrightarrow> get_event (api rs) cold i
     = (case last_with (Some \<circ> event_id) i rs of Some r \<Rightarrow> Some r | None \<Rightarrow> cold i)"
  by (simp add: get_event_def id_law)

lemma get_event_committed:
  "ok rs \<Longrightarrow> get_event (api rs) (\<lambda>_. None) i = Some r \<Longrightarrow> r \<in> set rs \<and> event_id r = i"
  by (auto simp: get_event_eq dest: last_with_SomeD split: option.splits)

lemma get_event_found:
  assumes "ok rs" and "distinct (map event_id rs)" and "r \<in> set rs"
  shows "get_event (api rs) cold (event_id r) = Some r"
proof -
  have "inj_on (Some \<circ> event_id) (set rs)" using assms(2) by (auto simp: distinct_map inj_on_def)
  with assms(3) have "last_with (Some \<circ> event_id) (event_id r) rs = Some r"
    by (simp add: last_with_Some_iff)
  with assms(1) show ?thesis by (simp add: get_event_eq)
qed

lemma get_event_fun:
  "ok rs \<Longrightarrow> get_event (api rs) cold
     = (\<lambda>i. case last_with (Some \<circ> event_id) i rs of Some r \<Rightarrow> Some r | None \<Rightarrow> cold i)"
  by (rule ext) (rule get_event_eq)

lemma causation_chain_eq:
  "ok rs \<Longrightarrow> get_causation_chain (api rs) cold i depth
     = follow (\<lambda>i. case last_with (Some \<circ> event_id) i rs of Some r \<Rightarrow> Some r | None \<Rightarrow> cold i)
         (causation_event_id \<circ> provenance) depth [] (Some i)"
  by (simp add: get_causation_chain_def get_event_fun)

lemma supersede_chain_eq:
  "ok rs \<Longrightarrow> get_supersede_chain (api rs) cold i
     = follow (\<lambda>i. case last_with (Some \<circ> event_id) i rs of Some r \<Rightarrow> Some r | None \<Rightarrow> cold i)
         (superseded_event_id \<circ> supersede) None [] (Some i)"
  by (simp add: get_supersede_chain_def get_event_fun)

end

interpretation eager: lookup_contract "\<lambda>rs. eager_api (event_index_of rs)" "\<lambda>rs. True"
  by unfold_locales (simp_all add: eager_api_def index_lookups records_in_range_def)

text \<open>The index a process loads after another one persisted it.\<close>

definition adopted_api :: "(string list \<Rightarrow> string) \<Rightarrow> idx_files \<Rightarrow> event_record list \<Rightarrow> index_api" where
  "adopted_api token fs rs =
     (case load_index_store token (snd (persist token rs fs)) of
        None \<Rightarrow> eager_api empty_index
      | Some lz \<Rightarrow> lazy_api lz)"

lemma adopted_api_eq:
  assumes "indexable rs" and "own_files fs"
  obtains lz where "adopted_api token fs rs = lazy_api lz" "lazy_of rs lz" "\<forall>r \<in> set rs. nul_free r"
proof -
  obtain lz where "load_index_store token (snd (persist token rs fs)) = Some lz" "lazy_of rs lz"
    using adopt_persisted [OF assms] .
  with assms(1) that show thesis by (simp add: adopted_api_def indexable_def)
qed

lemma lazy_provides:
  assumes l: "lazy_of rs lz" and n: "\<forall>r \<in> set rs. nul_free r" and d: "distinct (map event_id rs)"
  shows "api_event_id (lazy_api lz) i = last_with (Some \<circ> event_id) i rs"
    "api_type (lazy_api lz) k = filter (\<lambda>r. event_type r = k) rs"
    "api_category (lazy_api lz) k = filter (\<lambda>r. event_category r = k) rs"
    "api_actor (lazy_api lz) k = filter (\<lambda>r. actor_id (provenance r) = k) rs"
    "api_task (lazy_api lz) k = filter (\<lambda>r. task_id (provenance r) = Some k) rs"
    "api_run (lazy_api lz) k = filter (\<lambda>r. run_id (provenance r) = Some k) rs"
    "api_correlation (lazy_api lz) k = filter (\<lambda>r. correlation_id (provenance r) = Some k) rs"
    "api_range (lazy_api lz) m m' = filter (\<lambda>r. m \<le> sequence_number r \<and> sequence_number r \<le> m') rs"
    "NUL \<notin> set a \<Longrightarrow> api_input_hash (lazy_api lz) a b = last_with input_hash_key (a, b) rs"
    "NUL \<notin> set a \<Longrightarrow> api_entity (lazy_api lz) a b
       = concat (map (\<lambda>r. replicate (count_list (entity_keys r) (a, b)) r) rs)"
  by (simp_all add: lazy_api_def lazy_event_id [OF l d] lazy_buckets [OF l n] lazy_range(2) [OF l]
      lazy_input_hash_eq [OF l n] index_lookups records_in_range_def)

interpretation adopted: lookup_contract "adopted_api token fs" "\<lambda>rs. indexable rs \<and> own_files fs"
  for token fs
proof unfold_locales
  fix rs :: "event_record list" and i k a b m n
  assume o: "indexable rs \<and> own_files fs"
  obtain lz where lz: "adopted_api token fs rs = lazy_api lz" "lazy_of rs lz" "\<forall>r \<in> set rs. nul_free r"
    using o adopted_api_eq by blast
  have d: "distinct (map event_id rs)" using o by (simp add: indexable_def)
  note p = lazy_provides [OF lz(2,3) d]
  show "api_event_id (adopted_api token fs rs) i = last_with (Some \<circ> event_id) i rs"
    "api_type (adopted_api token fs rs) k = filter (\<lambda>r. event_type r = k) rs"
    "api_category (adopted_api token fs rs) k = filter (\<lambda>r. event_category r = k) rs"
    "api_actor (adopted_api token fs rs) k = filter (\<lambda>r. actor_id (provenance r) = k) rs"
    "api_task (adopted_api token fs rs) k = filter (\<lambda>r. task_id (provenance r) = Some k) rs"
    "api_run (adopted_api token fs rs) k = filter (\<lambda>r. run_id (provenance r) = Some k) rs"
    "api_correlation (adopted_api token fs rs) k = filter (\<lambda>r. correlation_id (provenance r) = Some k) rs"
    "api_range (adopted_api token fs rs) m n = filter (\<lambda>r. m \<le> sequence_number r \<and> sequence_number r \<le> n) rs"
    by (simp_all only: lz(1) p)
  show "api_input_hash (adopted_api token fs rs) a b = last_with input_hash_key (a, b) rs" if "NUL \<notin> set a"
    using p that by (simp only: lz(1))
  show "api_entity (adopted_api token fs rs) a b
       = concat (map (\<lambda>r. replicate (count_list (entity_keys r) (a, b)) r) rs)" if "NUL \<notin> set a"
    using p that by (simp only: lz(1))
qed

section \<open>Bounded selection\<close>

lemma take_events_eq:
  "take_events since lim acc rs = acc @ (let sel = filter (\<lambda>r. case since of None \<Rightarrow> True | Some n \<Rightarrow> sequence_number r > n) rs
     in case lim of None \<Rightarrow> sel | Some k \<Rightarrow> take (max 1 (k - length acc)) sel)"
proof (induction rs arbitrary: acc)
  case (Cons r rs)
  show ?case
  proof (cases lim)
    case None
    then show ?thesis using Cons by (auto simp: Let_def not_less split: option.split)
  next
    case (Some k)
    have "take (max (Suc 0) (k - length acc)) (r # xs) = r # take (k - Suc (length acc)) xs" for xs
      using diff_Suc [of k "length acc"] by (cases "k - length acc") auto
    moreover have "max (Suc 0) (k - Suc (length acc)) = k - Suc (length acc)" if "\<not> k \<le> Suc (length acc)"
      using that by auto
    ultimately show ?thesis
      using Cons Some by (auto simp: Let_def not_less split: option.split)
  qed
qed (simp split: option.split)

section \<open>Chains\<close>

text \<open>Each event of a chain is the one its predecessor points to.\<close>

fun linked :: "(string \<Rightarrow> event_record option) \<Rightarrow> (event_record \<Rightarrow> string option) \<Rightarrow> string option
    \<Rightarrow> event_record list \<Rightarrow> bool" where
  "linked get up cur [] \<longleftrightarrow> (case cur of None \<Rightarrow> True | Some i \<Rightarrow> get i = None)"
| "linked get up cur (r # rs) \<longleftrightarrow> (\<exists>i. cur = Some i \<and> get i = Some r) \<and> linked get up (up r) rs"

lemma follow_linked:
  assumes "\<And>i r j r'. get i = Some r \<Longrightarrow> up r = Some j \<Longrightarrow> get j = Some r' \<Longrightarrow> rank r' < (rank r :: nat)"
  shows "\<exists>chain. follow get up None acc cur = Some (acc @ chain) \<and> linked get up cur chain"
proof -
  define m where "m c = (case c of None \<Rightarrow> 0 | Some i \<Rightarrow> (case get i of None \<Rightarrow> 0 | Some r \<Rightarrow> Suc (rank r)))" for c
  show ?thesis
  proof (induction "m cur" arbitrary: acc cur rule: less_induct)
    case less
    show ?case
    proof (cases "\<exists>i r. cur = Some i \<and> get i = Some r")
      case False
      then show ?thesis
        by (intro exI [of _ "[]"]) (auto simp: follow.simps [of get up None acc cur] split: option.splits)
    next
      case True
      then obtain i r where ir: "cur = Some i" "get i = Some r" by blast
      have "m (up r) < m cur"
        using ir assms [OF ir(2)] by (auto simp: m_def split: option.splits)
      from less [OF this, of "acc @ [r]"] obtain chain where
        "follow get up None (acc @ [r]) (up r) = Some ((acc @ [r]) @ chain)" "linked get up (up r) chain" by blast
      with ir show ?thesis
        by (intro exI [of _ "r # chain"]) (subst follow.simps, simp)
    qed
  qed
qed

lemma follow_cycle:
  assumes "get i = Some r" and "up r = Some i"
  shows "follow get up None acc (Some i) = None"
proof (cases "follow get up None acc (Some i)")
  case (Some chain)
  have "(None :: nat option) = None \<longrightarrow> (\<forall>j r. Some i = Some j \<longrightarrow> get j = Some r \<longrightarrow> up r \<noteq> Some j)"
  proof (rule follow.raw_induct [where P = "\<lambda>get up depth _ cur _. depth = None \<longrightarrow>
      (\<forall>j r. cur = Some j \<longrightarrow> get j = Some r \<longrightarrow> up r \<noteq> Some j)", OF _ Some], intro impI allI notI)
    fix follow :: "(string \<Rightarrow> event_record option) \<Rightarrow> (event_record \<Rightarrow> string option) \<Rightarrow> nat option
        \<Rightarrow> event_record list \<Rightarrow> string option \<Rightarrow> event_record list option"
      and get :: "string \<Rightarrow> event_record option" and up depth chain cur y j r
    assume IH: "\<And>get up depth chain cur y. follow get up depth chain cur = Some y \<Longrightarrow>
        depth = None \<longrightarrow> (\<forall>j r. cur = Some j \<longrightarrow> get j = Some r \<longrightarrow> up r \<noteq> Some j)"
      and eq: "(case cur of None \<Rightarrow> Some chain
          | Some i \<Rightarrow> (case get i of None \<Rightarrow> Some chain
              | Some r \<Rightarrow> if case depth of None \<Rightarrow> False | Some k \<Rightarrow> k \<le> length (chain @ [r])
                  then Some (chain @ [r]) else follow get up depth (chain @ [r]) (up r))) = Some y"
      and "depth = None" "cur = Some j" "get j = Some r" "up r = Some j"
    then show False using IH [of get up None "chain @ [r]" "Some j" y] by simp
  qed
  with assms show ?thesis by blast
qed

end
