(* ===== verification/Index_Catch_Up.thy ===== *)
theory Index_Catch_Up
  imports Event_Log_Reads Event_Log_Safety
begin

text \<open>
  When the warm index, caught up from the tails of one or two segments only, is the index of
  the whole committed stream.  The committed stream is a list with rising sequence numbers, the
  index covers its first \<open>n\<close> records, and a fold of a segment extends it or finds a gap.
\<close>

section \<open>Segments of complete batches\<close>

definition seg_records :: "ecodec \<Rightarrow> string \<Rightarrow> event_record list" where
  "seg_records cd t = readable (parse_event cd) (raw_lines t)"

text \<open>Every segment is readable on its own and contains its batches completely, in order.\<close>

definition closed_segments :: "ecodec \<Rightarrow> disk \<Rightarrow> bool" where
  "closed_segments cd d \<longleftrightarrow>
     (\<forall>(seg, t) \<in> set (ordered_segments d).
        no_unknown_truth (parse_event cd) (raw_lines t)
        \<and> fst (vis_run [] (seg_records cd t)) = seg_records cd t)"

lemma log_readable_segments:
  "log_readable cd d = concat (map (seg_records cd \<circ> snd) (ordered_segments d))"
proof -
  have "readable p (concat (map (raw_lines \<circ> snd) segs)) = concat (map (\<lambda>s. readable p (raw_lines (snd s))) segs)"
    for p and segs :: "(segment \<times> string) list"
    by (induction segs) (simp_all add: readable_append)
  then show ?thesis by (simp add: log_readable_def raw_event_lines_def seg_records_def o_def)
qed

lemma vis_run_closed:
  assumes "fst (vis_run [] rs) = rs"
  shows "vis_run [] (rs @ rs') = (rs @ fst (vis_run [] rs'), snd (vis_run (snd (vis_run [] rs)) rs'))"
proof -
  have "bucket (snd (vis_run [] rs)) b = []" for b
    using vis_run_batch [OF buffer_ok_Nil, of b rs] assms by simp
  then have "fst (vis_run (snd (vis_run [] rs)) rs') = fst (vis_run [] rs')"
    by (intro vis_run_empty_buckets) (simp add: empty_buckets_def)
  with assms show ?thesis by (simp add: vis_run_append Let_def case_prod_beta)
qed

lemma committed_closed:
  assumes "closed_segments cd d"
  shows "committed cd d = (log_readable cd d, None)"
proof -
  have "fst (vis_run [] (concat (map (seg_records cd \<circ> snd) segs))) = concat (map (seg_records cd \<circ> snd) segs)"
    if "\<forall>(seg, t) \<in> set segs. fst (vis_run [] (seg_records cd t)) = seg_records cd t" for segs
    using that by (induction segs) (auto simp: vis_run_closed)
  then have v: "fst (vis_run [] (log_readable cd d)) = log_readable cd d"
    using assms by (fastforce simp: log_readable_segments closed_segments_def)
  have "known_versions cd d"
    using assms by (fastforce simp: known_versions_def raw_event_lines_def closed_segments_def no_unknown_truth_def)
  with v show ?thesis by (simp add: committed_eq)
qed

lemma segment_committed_closed:
  assumes "closed_segments cd d" and "(seg, t) \<in> set (ordered_segments d)" and "segment_text d seg = Some t"
  shows "segment_committed cd d seg = (seg_records cd t, None)"
  using assms
  by (auto simp: segment_committed_def committed_records_def closed_segments_def iter_committed_ok seg_records_def)

lemma ordered_segment_text:
  assumes "seg_ok d" and "(seg, t) \<in> set (ordered_segments d)"
  shows "segment_text d seg = Some t"
  using assms(2)
  by (auto simp: ordered_segments_def ordered_hot_eq [OF assms(1)] hot_keys_def split: option.splits)
     (use assms(1) in \<open>auto simp: seg_ok_def\<close>)

section \<open>Sorted streams\<close>

lemma sorted_readable:
  assumes "log_ok cd d"
  shows "sorted_wrt (<) (map sequence_number (log_readable cd d))"
    and "\<forall>r \<in> set (log_readable cd d). 0 \<le> sequence_number r"
proof -
  have "sorted_wrt (<) (List.map_filter (line_seq cd) ls) \<Longrightarrow> \<forall>l \<in> set ls. line_ok cd l \<Longrightarrow>
      sorted_wrt (<) (map sequence_number (readable (parse_event cd) ls))
      \<and> set (map sequence_number (readable (parse_event cd) ls)) \<subseteq> set (List.map_filter (line_seq cd) ls)" for ls
  proof (induction ls)
    case Nil
    then show ?case by (simp add: readable_def)
  next
    case (Cons l ls)
    have s: "line_seq cd l = Some (sequence_number r)" if "parse_event cd l = Some r" for r
      using Cons.prems(2) that by (simp add: line_ok_def line_seq_def shows_record_seq)
    show ?case
      using Cons s by (cases "parse_event cd l"; cases "line_seq cd l") auto
  qed
  then show "sorted_wrt (<) (map sequence_number (log_readable cd d))"
    using assms by (simp add: log_ok_def log_seqs_def log_readable_def)
  show "\<forall>r \<in> set (log_readable cd d). 0 \<le> sequence_number r"
    using assms by (fastforce simp: log_readable_def readable_def log_ok_def line_ok_def record_ok_def map_filter_def)
qed

definition high :: "event_record list \<Rightarrow> int" where
  "high rs = Max (insert (-1) (sequence_number ` set rs))"

lemma high_ge: "r \<in> set rs \<Longrightarrow> sequence_number r \<le> high rs"
  by (simp add: high_def)

lemma high_less: "high rs < n \<longleftrightarrow> -1 < n \<and> (\<forall>r \<in> set rs. sequence_number r < n)"
  by (auto simp: high_def)

lemma beyond_take:
  assumes s: "sorted_wrt (<) (map sequence_number log)" and p: "\<forall>r \<in> set log. 0 \<le> sequence_number r"
    and b: "b \<in> set (drop n log)"
  shows "high (take n log) < sequence_number b"
proof -
  have "sorted_wrt (\<lambda>a b. sequence_number a < sequence_number b) (take n log @ drop n log)"
    using s by (simp add: sorted_wrt_map)
  then have "\<forall>a \<in> set (take n log). sequence_number a < sequence_number b"
    using b by (simp only: sorted_wrt_append) blast
  moreover have "-1 < sequence_number b" using p b by (force dest: in_set_dropD)
  ultimately show ?thesis by (simp add: high_less)
qed

lemma filter_beyond:
  assumes s: "sorted_wrt (<) (map sequence_number log)" and p: "\<forall>r \<in> set log. 0 \<le> sequence_number r"
    and log: "log = X @ S @ Y"
  shows "filter (\<lambda>r. sequence_number r > high (take n log)) S = drop (n - length X) S"
proof -
  let ?k = "n - length X"
  have "set (take ?k S) \<subseteq> set (take n log)" "set (drop ?k S) \<subseteq> set (drop n log)"
    by (auto simp: log)
  then have "\<forall>r \<in> set (take ?k S). \<not> sequence_number r > high (take n log)"
    "\<forall>r \<in> set (drop ?k S). sequence_number r > high (take n log)"
    using high_ge beyond_take [OF s p] by (fastforce simp: not_less)+
  then have "filter (\<lambda>r. sequence_number r > high (take n log)) (take ?k S @ drop ?k S) = drop ?k S"
    unfolding filter_append by (simp add: filter_empty_conv filter_id_conv)
  then show ?thesis by simp
qed

lemma no_gap:
  assumes s: "sorted_wrt (<) (map sequence_number log)" and p: "\<forall>r \<in> set log. 0 \<le> sequence_number r"
    and log: "log = X @ S @ Y" and n: "n \<le> length log" and ne: "drop (n - length X) S \<noteq> []"
    and hd: "sequence_number (hd (drop (n - length X) S)) = high (take n log) + 1"
  shows "length X \<le> n"
proof (rule ccontr)
  assume "\<not> length X \<le> n"
  then have lt: "n < length X" by simp
  then have dr: "drop n log = X ! n # drop (Suc n) X @ S @ Y" by (simp add: log Cons_nth_drop_Suc)
  then have x: "high (take n log) < sequence_number (X ! n)"
    by (intro beyond_take [OF s p]) simp
  have "hd S \<in> set S" using ne by (cases S) auto
  moreover have "sorted_wrt (\<lambda>a b. sequence_number a < sequence_number b) (drop n log)"
    using s by (simp add: sorted_wrt_map sorted_wrt_drop)
  ultimately have "sequence_number (X ! n) < sequence_number (hd S)" by (simp add: dr)
  with x hd lt show False by simp
qed

section \<open>Folding one segment\<close>

lemma fold_segment_tail_spec:
  assumes ok: "log_ok cd d" "closed_segments cd d"
    and segs: "ordered_segments d = pre @ (seg, t) # rest"
    and n: "n \<le> length (log_readable cd d)"
  defines "log \<equiv> log_readable cd d" and "X \<equiv> concat (map (seg_records cd \<circ> snd) pre)" and "S \<equiv> seg_records cd t"
  shows "fold_segment_tail cd d seg (event_index_of (take n log)) = (Inr False, event_index_of (take n log))
    \<or> (\<exists>m. fold_segment_tail cd d seg (event_index_of (take n log)) = (Inr True, event_index_of (take m log))
         \<and> n \<le> m \<and> m \<le> length log \<and> (S = [] \<longrightarrow> m = n) \<and> (S \<noteq> [] \<longrightarrow> length X + length S \<le> m))"
proof -
  let ?Y = "concat (map (seg_records cd \<circ> snd) rest)"
  have log: "log = X @ S @ ?Y" by (simp add: log_def X_def S_def log_readable_segments segs)
  note sp = sorted_readable [OF ok(1), folded log_def]
  have "segment_text d seg = Some t"
    using ok(1) segs by (intro ordered_segment_text) (auto simp: log_ok_def)
  then have c: "segment_committed cd d seg = (S, None)"
    unfolding S_def using ok(2) segs by (intro segment_committed_closed) auto
  let ?new = "drop (n - length X) S"
  have mx: "max_sequence (event_index_of (take n log)) = high (take n log)"
    by (simp add: max_sequence_eq high_def)
  have new: "filter (\<lambda>r. sequence_number r > high (take n log)) S = ?new"
    by (rule filter_beyond [OF sp log])
  show ?thesis
  proof (cases "?new = []")
    case True
    have "S \<noteq> [] \<longrightarrow> length X + length S \<le> n" using True by (cases S) auto
    with True n show ?thesis
      by (intro disjI2 exI [of _ n]) (simp add: fold_segment_tail_def c mx new log_def [symmetric])
  next
    case ne: False
    show ?thesis
    proof (cases "sequence_number (hd ?new) = high (take n log) + 1 \<and> consecutive (map sequence_number ?new)")
      case True
      have "length X \<le> n"
        by (rule no_gap [OF sp log _ ne conjunct1 [OF True]]) (use n in \<open>simp add: log_def\<close>)
      then have "take n log @ ?new = take (length X + length S) log"
        using ne by (simp add: log)
      moreover have "n \<le> length X + length S" using ne by auto
      moreover have "S \<noteq> []" using ne by auto
      ultimately show ?thesis
        using True ne
        by (intro disjI2 exI [of _ "length X + length S"])
           (simp add: fold_segment_tail_def c mx new index_add_records_rebuild hd_map, simp add: log)
    next
      case False
      then show ?thesis
        using ne by (intro disjI1) (simp add: fold_segment_tail_def c mx new hd_map Let_def)
    qed
  qed
qed

section \<open>Catching up\<close>

text \<open>The index of a handle covers the first \<open>n\<close> visible records; its baseline is the segment
  before \<open>rest\<close>, at the end of whole lines \<open>t1\<close>, and nothing before the baseline is missing.\<close>

definition index_at :: "ecodec \<Rightarrow> disk \<Rightarrow> handle \<Rightarrow> nat \<Rightarrow> (segment \<times> string) list \<Rightarrow> segment
    \<Rightarrow> string \<Rightarrow> string \<Rightarrow> (segment \<times> string) list \<Rightarrow> bool" where
  "index_at cd d h n pre old t1 t2 rest \<longleftrightarrow>
     ordered_segments d = pre @ (old, t1 @ t2) # rest \<and> whole_lines t1
     \<and> h_index_seg h = Some old \<and> h_index_size h = int (length t1)
     \<and> h_index h = Some (event_index_of (take n (log_readable cd d))) \<and> n \<le> length (log_readable cd d)
     \<and> length (concat (map (seg_records cd \<circ> snd) pre)) + length (seg_records cd t1) \<le> n"

definition index_behind :: "ecodec \<Rightarrow> disk \<Rightarrow> handle \<Rightarrow> (segment \<times> string) list \<Rightarrow> bool" where
  "index_behind cd d h rest \<longleftrightarrow> (\<exists>n pre old t1 t2. index_at cd d h n pre old t1 t2 rest)"

lemma active_is_last: "ordered_segments d \<noteq> [] \<Longrightarrow> active_segment d = fst (last (ordered_segments d))"
  by (auto simp: ordered_segments_def active_segment_def Let_def last_map case_prod_beta split: option.splits)

lemma distinct_segments:
  assumes "seg_ok d"
  shows "distinct (map fst (ordered_segments d))"
  unfolding ordered_segments_def ordered_hot_eq [OF assms]
  by (auto simp: distinct_map inj_on_def o_def split: option.split)

lemma rebuild_index_closed:
  "closed_segments cd d \<Longrightarrow> rebuild_index cd d h
     = (Inr (), set_index_baseline d (h\<lparr>h_index := Some (event_index_of (log_readable cd d))\<rparr>))"
  by (simp add: rebuild_index_def committed_closed)

lemma baseline_index [simp]: "h_index (set_index_baseline d h) = h_index h"
  by (simp add: set_index_baseline_def)

definition caught_up :: "ecodec \<Rightarrow> disk \<Rightarrow> (verr + unit) \<times> handle \<Rightarrow> bool" where
  "caught_up cd d res \<longleftrightarrow> fst res = Inr () \<and> h_index (snd res) = Some (event_index_of (log_readable cd d))"

lemma rebuild_caught_up: "closed_segments cd d \<Longrightarrow> caught_up cd d (rebuild_index cd d h)"
  by (simp add: caught_up_def rebuild_index_closed)

lemma catch_up_same_segment:
  assumes ok: "log_ok cd d" "closed_segments cd d" and h: "index_at cd d h n pre old t1 t2 []"
  shows "caught_up cd d (catch_up_index cd d (event_index_of (take n (log_readable cd d))) h)"
proof -
  let ?log = "log_readable cd d"
  have so: "seg_ok d" using ok(1) by (simp add: log_ok_def)
  have segs: "ordered_segments d = pre @ [(old, t1 @ t2)]"
    and seg: "h_index_seg h = Some old" and size: "h_index_size h = int (length t1)"
    and ix: "h_index h = Some (event_index_of (take n ?log))" and n: "n \<le> length ?log"
    and pt: "length (concat (map (seg_records cd \<circ> snd) pre)) + length (seg_records cd t1) \<le> n"
    using h by (auto simp: index_at_def)
  have log: "?log = concat (map (seg_records cd \<circ> snd) pre) @ seg_records cd (t1 @ t2)"
    by (simp add: log_readable_segments segs)
  have old: "segment_text d old = Some (t1 @ t2)"
    using so segs by (intro ordered_segment_text) auto
  have act: "active_segment d = old" using active_is_last [of d] segs by simp
  show ?thesis
  proof (cases "t2 = []")
    case True
    have "n = length ?log" using n pt log True by simp
    then show ?thesis using True seg size old act ix by (simp add: caught_up_def catch_up_index_def Let_def)
  next
    case False
    from fold_segment_tail_spec [OF ok segs n] show ?thesis
    proof (elim disjE exE conjE)
      fix m assume f: "fold_segment_tail cd d old (event_index_of (take n ?log)) = (Inr True, event_index_of (take m ?log))"
        and m: "n \<le> m" "m \<le> length ?log" "seg_records cd (t1 @ t2) = [] \<longrightarrow> m = n"
          "seg_records cd (t1 @ t2) \<noteq> [] \<longrightarrow> length (concat (map (seg_records cd \<circ> snd) pre)) + length (seg_records cd (t1 @ t2)) \<le> m"
      have "m = length ?log" using m pt log by (cases "seg_records cd (t1 @ t2) = []") simp_all
      with f False seg size old act show ?thesis by (simp add: caught_up_def catch_up_index_def Let_def)
    qed (use False seg size old act ok(2) in \<open>simp add: catch_up_index_def Let_def rebuild_caught_up\<close>)
  qed
qed

lemma catch_up_rotated:
  assumes ok: "log_ok cd d" "closed_segments cd d" and h: "index_at cd d h n pre old t1 t2 (mid @ [(act, ta)])"
    and near: "mid = [] \<or> seg_records cd ta \<noteq> []"
  shows "caught_up cd d (catch_up_index cd d (event_index_of (take n (log_readable cd d))) h)"
proof -
  let ?log = "log_readable cd d"
  have so: "seg_ok d" using ok(1) by (simp add: log_ok_def)
  have segs: "ordered_segments d = pre @ (old, t1 @ t2) # mid @ [(act, ta)]"
    and seg: "h_index_seg h = Some old" and n: "n \<le> length ?log"
    and pt: "length (concat (map (seg_records cd \<circ> snd) pre)) + length (seg_records cd t1) \<le> n"
    using h by (auto simp: index_at_def)
  have log: "?log = concat (map (seg_records cd \<circ> snd) pre) @ seg_records cd (t1 @ t2)
      @ concat (map (seg_records cd \<circ> snd) mid) @ seg_records cd ta"
    by (simp add: log_readable_segments segs)
  have old: "segment_text d old = Some (t1 @ t2)"
    using so segs by (intro ordered_segment_text) auto
  have a: "active_segment d = act" using active_is_last [of d] segs by simp
  have ne: "act \<noteq> old" using distinct_segments [OF so] segs by auto
  have segs': "ordered_segments d = (pre @ (old, t1 @ t2) # mid) @ (act, ta) # []" by (simp add: segs)
  note unfold = catch_up_index_def Let_def rotation_fold_def
  note facts = seg old a ne ok(2)
  from fold_segment_tail_spec [OF ok segs n] show ?thesis
  proof (elim disjE exE conjE)
    fix m assume f: "fold_segment_tail cd d old (event_index_of (take n ?log)) = (Inr True, event_index_of (take m ?log))"
      and m: "n \<le> m" "m \<le> length ?log" "seg_records cd (t1 @ t2) = [] \<longrightarrow> m = n"
        "seg_records cd (t1 @ t2) \<noteq> [] \<longrightarrow> length (concat (map (seg_records cd \<circ> snd) pre)) + length (seg_records cd (t1 @ t2)) \<le> m"
    from fold_segment_tail_spec [OF ok segs' m(2)] show ?thesis
    proof (elim disjE exE conjE)
      fix k assume g: "fold_segment_tail cd d act (event_index_of (take m ?log)) = (Inr True, event_index_of (take k ?log))"
        and k: "m \<le> k" "k \<le> length ?log" "seg_records cd ta \<noteq> [] \<longrightarrow>
          length (concat (map (seg_records cd \<circ> snd) (pre @ (old, t1 @ t2) # mid))) + length (seg_records cd ta) \<le> k"
      have "length ?log \<le> k"
      proof (cases "seg_records cd ta = []")
        case True
        with near log m k(1) pt show ?thesis by (cases "seg_records cd (t1 @ t2) = []") simp_all
      qed (use k(3) log in simp)
      with f g k(2) facts show ?thesis by (simp add: unfold caught_up_def)
    qed (use f facts in \<open>simp add: unfold rebuild_caught_up\<close>)
  qed (use facts in \<open>simp add: unfold rebuild_caught_up\<close>)
qed

lemma catch_up_exact:
  assumes "log_ok cd d" and "closed_segments cd d" and "index_behind cd d h rest" and "h_index h = Some x"
    and "length rest \<le> 1 \<or> seg_records cd (snd (last rest)) \<noteq> []"
  shows "caught_up cd d (catch_up_index cd d x h)"
proof -
  obtain n pre old t1 t2 where h: "index_at cd d h n pre old t1 t2 rest"
    using assms(3) by (auto simp: index_behind_def)
  then have x: "x = event_index_of (take n (log_readable cd d))"
    using assms(4) by (simp add: index_at_def)
  show ?thesis
  proof (cases rest rule: rev_cases)
    case Nil
    with catch_up_same_segment [OF assms(1,2)] h x show ?thesis by simp
  next
    case (snoc mid s)
    then obtain act ta where "rest = mid @ [(act, ta)]" by (cases s) auto
    with catch_up_rotated [OF assms(1,2)] h x assms(5) show ?thesis by simp
  qed
qed

text \<open>Building the index from scratch gives a handle that is not behind.\<close>

lemma rebuilt_not_behind:
  assumes "log_ok cd d" and "closed_segments cd d" and "ordered_segments d \<noteq> []"
  shows "index_behind cd d (snd (rebuild_index cd d h)) []"
proof -
  obtain pre old t where segs: "ordered_segments d = pre @ [(old, t)]"
    using assms(3) by (metis append_butlast_last_id surj_pair)
  have a: "active_segment d = old" using active_is_last [OF assms(3)] segs by simp
  have so: "seg_ok d" "all_whole d" using assms(1) by (simp_all add: log_ok_def)
  have t: "segment_text d old = Some t" "whole_lines t"
    using so segs by (auto simp: all_whole_def intro: ordered_segment_text)
  have "length (log_readable cd d) = length (concat (map (seg_records cd \<circ> snd) pre)) + length (seg_records cd t)"
    by (simp add: log_readable_segments segs)
  then show ?thesis
    unfolding index_behind_def index_at_def
    by (intro exI [of _ "length (log_readable cd d)"] exI [of _ pre] exI [of _ old] exI [of _ t] exI [of _ "[]"])
       (simp add: rebuild_index_closed [OF assms(2)] set_index_baseline_def segs a t)
qed

text \<open>A write behind the baseline, in the active segment or in a new one, keeps it.\<close>

lemma append_segments:
  assumes ok: "seg_ok d" "has_room d" and ne: "ordered_segments d \<noteq> []"
    and seg: "seg = active_segment d \<or> seg = next_segment d"
  shows "ordered_segments (append_text seg t d) =
        (if seg = active_segment d
         then butlast (ordered_segments d) @ [(seg, snd (last (ordered_segments d)) @ t)]
         else ordered_segments d @ [(seg, t)])"
proof (cases seg)
  case Base
  with seg have e: "hot_keys d = {}" "seg = active_segment d"
    by (auto simp: active_segment_eq [OF ok(1)] next_segment_eq [OF ok(1)] split: if_splits)
  then have hd: "hot_dir d = []" by (simp add: hot_keys_def)
  with ne obtain b where b: "base_log d = Some b"
    by (auto simp: ordered_segments_def ordered_hot_segments_def split: option.splits)
  then show ?thesis
    using e(2) Base hd by (simp add: append_text_def ordered_segments_def ordered_hot_segments_def)
next
  case (Hot n)
  have "n \<le> 999999 \<and> (\<forall>m \<in> hot_keys d - {n}. m < n) \<and> (seg = active_segment d \<longleftrightarrow> n \<in> hot_keys d)"
  proof (cases "hot_keys d = {}")
    case True
    with seg Hot show ?thesis by (auto simp: active_segment_eq [OF ok(1)] next_segment_eq [OF ok(1)])
  next
    case False
    let ?m = "Max (hot_keys d)"
    have m: "?m \<in> hot_keys d" using False by simp
    with ok(2) have "?m < 999999" by (simp add: has_room_def del: Max_less_iff)
    moreover have le: "k \<le> ?m" if "k \<in> hot_keys d" for k using that by simp
    then have "\<forall>k \<in> hot_keys d - {?m}. k < ?m" "\<forall>k \<in> hot_keys d - {Suc ?m}. k < Suc ?m" "Suc ?m \<notin> hot_keys d"
      by (auto simp: le_neq_implies_less less_Suc_eq_le simp del: Max_less_iff dest: le)
    moreover have "n = ?m \<or> n = Suc ?m" "seg = active_segment d \<longleftrightarrow> n = ?m"
      using seg Hot False by (auto simp: active_segment_eq [OF ok(1)] next_segment_eq [OF ok(1)])
    ultimately show ?thesis using m by (elim disjE) (simp_all del: Max_less_iff)
  qed
  then have n: "n \<le> 999999" "\<forall>m \<in> hot_keys d - {n}. m < n" and act: "seg = active_segment d \<longleftrightarrow> n \<in> hot_keys d"
    by simp_all
  from segments_append_hot [OF ok(1) n, of t] act show ?thesis by (auto simp: Hot)
qed

lemma append_keeps_behind:
  assumes h: "index_behind cd d h rest" and ok: "seg_ok d" "has_room d" "all_whole d"
    and seg: "seg = active_segment d \<or> seg = next_segment d"
  shows "\<exists>rest'. index_behind cd (append_text seg t d) h rest'"
proof -
  obtain n pre old t1 t2 where i: "index_at cd d h n pre old t1 t2 rest"
    using h by (auto simp: index_behind_def)
  then have segs: "ordered_segments d = pre @ (old, t1 @ t2) # rest" by (simp add: index_at_def)
  note segs' = append_segments [OF ok(1,2) _ seg, of t]
  have grow: "log_readable cd (append_text seg t d) = log_readable cd d @ readable (parse_event cd) (raw_lines t)"
    using append_end(1) [OF ok seg, of t] by (simp add: log_readable_def readable_append)
  show ?thesis
  proof (cases "seg = active_segment d \<and> rest = []")
    case True
    then have "active_segment d = old" using active_is_last [of d] segs by simp
    with True segs segs' have "ordered_segments (append_text seg t d) = pre @ (old, t1 @ t2 @ t) # []" by simp
    with i grow show ?thesis
      unfolding index_behind_def index_at_def
      by (intro exI [of _ "[]"] exI [of _ n] exI [of _ pre] exI [of _ old] exI [of _ t1] exI [of _ "t2 @ t"]) simp
  next
    case False
    then obtain rest' where "ordered_segments (append_text seg t d) = pre @ (old, t1 @ t2) # rest'"
      using segs segs' by (auto simp: butlast_append split: if_splits)
    with i grow show ?thesis
      unfolding index_behind_def index_at_def
      by (intro exI [of _ rest'] exI [of _ n] exI [of _ pre] exI [of _ old] exI [of _ t1] exI [of _ t2]) simp
  qed
qed

end
