(* ===== verification/Index_Properties.thy ===== *)
theory Index_Properties
  imports Reading_Properties Lookup_Contract Index_Catch_Up
begin

text \<open>
  The properties of merging foreign logs and of the point-lookup index: growing it equals
  rebuilding it, the lazy form answers as the eager one does, the persisted form is adopted
  only if it belongs together.  The lookups are an interface that both forms provide.
\<close>

section \<open>Merging foreign logs\<close>

lemma merge_split_ids:
  "event_id ` set (fst (merge_split seen rs)) \<union> seen = event_id ` set rs \<union> seen"
proof (induction rs arbitrary: seen)
  case (Cons r rs)
  show ?case
    using Cons.IH [of seen] Cons.IH [of "insert (event_id r) seen"]
    by (cases "event_id r \<in> seen") (simp_all add: Let_def case_prod_beta insert_absorb)
qed simp

lemma merge_split_known: "event_id ` set rs \<subseteq> seen \<Longrightarrow> merge_split seen rs = ([], map event_id rs)"
  by (induction rs) (simp_all add: Let_def)

lemma merge_split_fresh:
  "distinct (map event_id rs) \<Longrightarrow> event_id ` set rs \<inter> seen = {} \<Longrightarrow> merge_split seen rs = (rs, [])"
proof (induction rs arbitrary: seen)
  case (Cons r rs)
  then have "merge_split (insert (event_id r) seen) rs = (rs, [])"
    by (intro Cons.IH) auto
  with Cons.prems show ?case by (simp add: Let_def)
qed simp

text \<open>Merging is idempotent for one handle.  Merging the same foreign records again through
  the handle that merged them writes nothing and reports every record as a skipped duplicate,
  in order.\<close>

theorem merge_idempotent:
  "let (res, h', d') = merge_foreign_events cd cfg rs h d;
       (res', h'', d'') = merge_foreign_events cd cfg rs h' d'
   in d'' = d' \<and> h'' = h' \<and> merged_event_ids res' = [] \<and> appended_count res' = 0
      \<and> skipped_duplicate_event_ids res' = map event_id rs"
proof -
  obtain res h' d' where m: "merge_foreign_events cd cfg rs h d = (res, h', d')"
    by (cases "merge_foreign_events cd cfg rs h d") auto
  let ?app = "fst (merge_split (h_event_ids h) rs)"
  let ?out = "reseq_from cd (read_max_seq_on_disk cd d + 1) ?app"
  have "event_id ` set ?out = event_id ` set ?app"
    using reseq_from_map(1) [of cd _ ?app, THEN arg_cong [of _ _ set]] by simp
  moreover have "?out = [] \<longleftrightarrow> ?app = []" by (cases ?app) simp_all
  moreover have "h_event_ids h' = (if ?out = [] then h_event_ids h else h_event_ids h \<union> event_id ` set ?out)"
    using m by (auto simp: merge_foreign_events_def Let_def case_prod_beta)
  ultimately have "event_id ` set rs \<subseteq> h_event_ids h'"
    using merge_split_ids [of "h_event_ids h" rs] by (auto split: if_splits)
  from merge_split_known [OF this] show ?thesis
    by (simp add: m) (simp add: merge_foreign_events_def Let_def)
qed

lemma merge_fresh_lines:
  assumes c: "ecodec_sound cd" and rs: "list_all record_ok rs" "distinct (map event_id rs)" "rs \<noteq> []"
    and h: "event_id ` set rs \<inter> h_event_ids h = {}" and d: "log_ok cd d" "has_room d"
  shows "\<exists>ls. raw_event_lines (apply_op cd cfg se h (Merge rs) d) = raw_event_lines d @ ls
      \<and> map (map_option event_id \<circ> parse_event cd) ls = map (Some \<circ> event_id) rs"
proof -
  let ?n = "read_max_seq_on_disk cd d + 1" let ?out = "reseq_from cd ?n rs"
  have base: "0 \<le> ?n" using read_max_seq(2) [of cd d] d(1) by (simp add: log_ok_def)
  have ok: "numbered_from ?n ?out" "\<forall>r \<in> set ?out. record_ok r"
    using reseq_from_props [OF c _ base, of rs] rs(1) by (simp_all add: list_all_iff)
  have ne: "?out \<noteq> []" using rs(3) by (cases rs) simp_all
  have "apply_op cd cfg se h (Merge rs) d = append_text (write_target cfg d (length ?out)) (lines_text cd ?out) d"
    using ne by (simp add: merge_foreign_events_def Let_def merge_split_fresh [OF rs(2) h])
  with append_records(2) [OF d c ok(2,1)]
  have "raw_event_lines (apply_op cd cfg se h (Merge rs) d) = raw_event_lines d @ map (dump_event cd) ?out"
    by simp
  moreover have "map (map_option event_id \<circ> parse_event cd) (map (dump_event cd) ?out) = map (Some \<circ> event_id) ?out"
    using ok(2) dump_props(3) [OF c] by simp
  moreover have "map (Some \<circ> event_id) ?out = map (Some \<circ> event_id) rs"
    using reseq_from_map(1) [of cd ?n rs] by (metis map_map)
  ultimately show ?thesis by auto
qed

text \<open>A second process merges the same records again.  The duplicate check asks the handle,
  not the log: when two processes whose handles were opened before either merge take in the same
  foreign records, the log holds every one of them twice, under the same identifier.\<close>

theorem stale_merge_duplicates:
  assumes "ecodec_sound cd" and "log_ok cd d" and "room_for 2 d" and "list_all record_ok rs"
    and "distinct (map event_id rs)" and "rs \<noteq> []"
    and "event_id ` set rs \<inter> h_event_ids h1 = {}" and "event_id ` set rs \<inter> h_event_ids h2 = {}"
  shows "\<exists>ls1 ls2. raw_event_lines (run_ops cd cfg se [(h1, Merge rs), (h2, Merge rs)] d)
        = raw_event_lines d @ ls1 @ ls2
      \<and> map (map_option event_id \<circ> parse_event cd) ls1 = map (Some \<circ> event_id) rs
      \<and> map (map_option event_id \<circ> parse_event cd) ls2 = map (Some \<circ> event_id) rs"
proof -
  let ?d1 = "apply_op cd cfg se h1 (Merge rs) d"
  have r: "room_for (Suc 1) d" using assms(3) by (simp add: numeral_2_eq_2)
  have o: "op_ok cd (Merge rs)" using assms(4) by simp
  have d1: "log_ok cd ?d1" "has_room ?d1"
    using op_extends [OF assms(1) o assms(2) room_for_has_room [OF r]]
      room_for_has_room [OF op_room [OF assms(1) o assms(2) r]] by (simp_all add: log_extends_def)
  note m = merge_fresh_lines [OF assms(1,4-6)]
  obtain ls1 where "raw_event_lines ?d1 = raw_event_lines d @ ls1"
    "map (map_option event_id \<circ> parse_event cd) ls1 = map (Some \<circ> event_id) rs"
    using m [OF assms(7,2) room_for_has_room [OF r]] by blast
  moreover obtain ls2 where "raw_event_lines (apply_op cd cfg se h2 (Merge rs) ?d1) = raw_event_lines ?d1 @ ls2"
    "map (map_option event_id \<circ> parse_event cd) ls2 = map (Some \<circ> event_id) rs"
    using m [OF assms(8) d1] by blast
  ultimately show ?thesis by (intro exI [of _ ls1] exI [of _ ls2]) simp
qed

theorem stale_merge_duplicates_witness:
  "\<exists>ls1 ls2. raw_event_lines (run_ops sample_codec sample_cfg no_schema
        [(new_handle, Merge sample_batch), (new_handle, Merge sample_batch)] empty_disk) = ls1 @ ls2
      \<and> map (map_option event_id \<circ> parse_event sample_codec) ls1 = map (Some \<circ> event_id) sample_batch
      \<and> map (map_option event_id \<circ> parse_event sample_codec) ls2 = map (Some \<circ> event_id) sample_batch"
proof -
  have r: "room_for 2 empty_disk" by (simp add: room_for_def empty_disk_def hot_keys_def)
  have d: "distinct (map event_id sample_batch)" by (simp add: sample_batch_def sample_record_def hex_id_def)
  have s: "event_id ` set sample_batch \<inter> h_event_ids new_handle = {}" by (simp add: new_handle_def)
  from stale_merge_duplicates [OF sample_sound empty_disk_ok(1) r sample_batch_ok d sample_batch_id(5) s s,
      of sample_cfg no_schema]
  show ?thesis by simp
qed

section \<open>The index\<close>

text \<open>Growing the index equals rebuilding it.  Folding new records into the index of a record
  list gives, in every posting, the index of the whole list; so after any growth a lookup by
  type, task, run, actor, correlation, causation or supersession returns exactly the matching
  records in log order, and a lookup by identifier the last record that carries it.\<close>

theorem index_growth_is_rebuild:
  "index_add_records rs' (event_index_of rs) = event_index_of (rs @ rs')
   \<and> lookup_event_id (index_add_records rs' (event_index_of rs)) i = last_with (Some \<circ> event_id) i (rs @ rs')
   \<and> lookup_type (index_add_records rs' (event_index_of rs)) k = filter (\<lambda>r. event_type r = k) (rs @ rs')
   \<and> lookup_task (index_add_records rs' (event_index_of rs)) k = filter (\<lambda>r. task_id (provenance r) = Some k) (rs @ rs')
   \<and> lookup_run (index_add_records rs' (event_index_of rs)) k = filter (\<lambda>r. run_id (provenance r) = Some k) (rs @ rs')
   \<and> lookup_actor (index_add_records rs' (event_index_of rs)) k = filter (\<lambda>r. actor_id (provenance r) = k) (rs @ rs')
   \<and> lookup_causation (index_add_records rs' (event_index_of rs)) k
       = filter (\<lambda>r. causation_event_id (provenance r) = Some k) (rs @ rs')
   \<and> lookup_supersede (index_add_records rs' (event_index_of rs)) k
       = filter (\<lambda>r. superseded_event_id (supersede r) = Some k) (rs @ rs')
   \<and> sequence_set (index_add_records rs' (event_index_of rs)) = sequence_number ` set (rs @ rs')
   \<and> max_sequence (index_add_records rs' (event_index_of rs)) = Max (insert (-1) (sequence_number ` set (rs @ rs')))"
  by (simp only: index_add_records_rebuild index_lookups index_sets max_sequence_eq simp_thms)

section \<open>Reading through the index\<close>

text \<open>C13: What a process reads does not depend on how it got its index.  For records with
  distinct identifiers, a process that adopted the files another process persisted answers
  every point lookup, every query by type, category, actor, task, run or correlation with its
  bounds, every range query, and both chain walks exactly as a process that built the index
  from the log itself.\<close>

theorem adopted_index_reads_alike:
  assumes "indexable rs" and "own_files fs"
  shows "let lz = adopted_api token fs rs; ix = eager_api (event_index_of rs) in
      get_event lz cold i = get_event ix cold i
    \<and> get_events_by_type lz k since lim = get_events_by_type ix k since lim
    \<and> get_events_by_category lz k since lim = get_events_by_category ix k since lim
    \<and> get_events_by_actor lz k since = get_events_by_actor ix k since
    \<and> get_events_by_task lz k = get_events_by_task ix k
    \<and> get_events_by_run lz k = get_events_by_run ix k
    \<and> get_correlated_events lz k = get_correlated_events ix k
    \<and> get_events_in_range lz crange m n = get_events_in_range ix crange m n
    \<and> get_causation_chain lz cold i depth = get_causation_chain ix cold i depth
    \<and> get_supersede_chain lz cold i = get_supersede_chain ix cold i
    \<and> (NUL \<notin> set k \<longrightarrow> get_events_by_entity lz k i = get_events_by_entity ix k i
         \<and> get_event_by_input_hash lz k i = get_event_by_input_hash ix k i)"
proof -
  have o: "indexable rs \<and> own_files fs" using assms by simp
  note a = adopted.get_event_eq [OF o] adopted.type_law [OF o] adopted.category_law [OF o]
    adopted.actor_law [OF o] adopted.task_law [OF o] adopted.run_law [OF o]
    adopted.correlation_law [OF o] adopted.range_law [OF o] adopted.causation_chain_eq [OF o]
    adopted.supersede_chain_eq [OF o] adopted.entity_law [OF o] adopted.hash_law [OF o]
  note e = eager.get_event_eq [OF TrueI] eager.type_law [OF TrueI] eager.category_law [OF TrueI]
    eager.actor_law [OF TrueI] eager.task_law [OF TrueI] eager.run_law [OF TrueI]
    eager.correlation_law [OF TrueI] eager.range_law [OF TrueI] eager.causation_chain_eq [OF TrueI]
    eager.supersede_chain_eq [OF TrueI] eager.entity_law [OF TrueI] eager.hash_law [OF TrueI]
  show ?thesis
    by (simp add: Let_def a e get_events_by_type_def get_events_by_category_def get_events_by_actor_def
        get_events_by_task_def get_events_by_run_def get_correlated_events_def get_events_in_range_def
        get_events_by_entity_def get_event_by_input_hash_def del: take_events.simps
        split: option.split)
qed

definition no_files :: idx_files where
  "no_files = \<lparr>eid_file = None, posting_files = []\<rparr>"

lemma sample_indexable: "indexable sample_batch" "own_files no_files"
proof -
  have "\<forall>r \<in> set sample_batch. nul_free r \<and> 0 \<le> sequence_number r"
    by (simp add: sample_batch_def sample_record_def nul_free_def entity_keys_def opt_list_def input_hash_key_def)
  then show "indexable sample_batch"
    by (simp add: indexable_def) (simp add: sample_batch_def sample_record_def hex_id_def)
  show "own_files no_files" by (simp add: own_files_def no_files_def)
qed

theorem adopted_index_reads_alike_witness:
  "get_events_by_type (adopted_api concat no_files sample_batch) ''FindingCreated'' None None
     = [hd sample_batch]"
proof -
  have "get_events_by_type (adopted_api concat no_files sample_batch) ''FindingCreated'' None None
      = get_events_by_type (eager_api (event_index_of sample_batch)) ''FindingCreated'' None None"
    using adopted_index_reads_alike [OF sample_indexable] by (simp add: Let_def)
  also have "\<dots> = [hd sample_batch]"
    by (simp add: get_events_by_type_def eager.type_law take_events_eq Let_def)
       (simp add: sample_batch_def sample_record_def)
  finally show ?thesis .
qed

text \<open>C12: The index files are never adopted torn.  Each of the fifteen files is replaced
  atomically but the set is not; whatever mixture of files of whatever writers is on disk, when
  \<open>load\<close> adopts it, the adopted index answers for exactly the records of its \<open>event_id.idx\<close>:
  every posting, the order, the sequence numbers and every record.  The digest that ties the
  files together is assumed not to collide on the identifier lists that were persisted.\<close>

theorem load_never_adopts_torn_files:
  assumes "load_index_store token fs = Some lz" and "written_by token R fs" and "eid_file fs = Some rs"
    and "inj_on token (map event_id ` R)"
    and "\<forall>rs1 \<in> R. \<forall>rs2 \<in> R. map event_id rs1 = map event_id rs2 \<longrightarrow> rs1 = rs2"
    and "indexable rs"
  shows "lazy_of rs lz \<and> lazy_records lz = rs
    \<and> lazy_bucket lz ''type'' k = filter (\<lambda>r. event_type r = k) rs"
proof -
  have n: "distinct (map event_id rs)" "\<forall>r \<in> set rs. nul_free r" "\<forall>r \<in> set rs. 0 \<le> sequence_number r"
    using assms(6) by (auto simp: indexable_def)
  have l: "lazy_of rs lz"
    using assms(5) by (intro load_untorn [OF assms(1-4) _ n]) blast
  with lazy_range(1) [OF l] lazy_provides(2) [OF l n(2,1)] show ?thesis by (simp add: lazy_api_def)
qed

theorem load_never_adopts_torn_files_witness:
  "\<exists>lz. load_index_store concat (snd (persist concat sample_batch no_files)) = Some lz
     \<and> lazy_records lz = sample_batch"
proof -
  obtain lz where l: "load_index_store concat (snd (persist concat sample_batch no_files)) = Some lz"
    using adopt_persisted [OF sample_indexable] by blast
  have e: "eid_file (snd (persist concat sample_batch no_files)) = Some sample_batch"
    by (simp add: persist_def Let_def eid_file_fold_write write_eid_def)
  from load_never_adopts_torn_files [OF l persist_written [OF sample_indexable(2)] e _ _ sample_indexable(1)] l
  show ?thesis by simp
qed

section \<open>Chains of events\<close>

definition causes_first :: "(string \<Rightarrow> event_record option) \<Rightarrow> bool" where
  "causes_first get \<longleftrightarrow>
     (\<forall>j r k r'. get j = Some r \<longrightarrow> causation_event_id (provenance r) = Some k \<longrightarrow> get k = Some r' \<longrightarrow>
        nat (sequence_number r') < nat (sequence_number r))"

text \<open>C32: A causation chain is complete when causes come before effects.  If in the records a
  reader can reach every cause has a smaller sequence number than its effect, the walk ends,
  and it gives the event, its cause, the cause of that, and so on, until an event without a
  cause or with one that is not in the log.\<close>

theorem causation_chain_complete:
  assumes "causes_first (get_event api cold)"
  shows "\<exists>chain. get_causation_chain api cold i None = Some chain
    \<and> linked (get_event api cold) (causation_event_id \<circ> provenance) (Some i) chain"
  using follow_linked [of "get_event api cold" "causation_event_id \<circ> provenance" "nat \<circ> sequence_number" "[]" "Some i"]
    assms
  by (simp add: get_causation_chain_def causes_first_def)

definition effect_record :: event_record where
  "effect_record = (sample_record ''b'' 1 ''NodeTouched'' None)
     \<lparr>provenance := sample_prov\<lparr>causation_event_id := Some (hex_id ''a'')\<rparr>\<rparr>"

definition cause_record :: event_record where
  "cause_record = sample_record ''a'' 0 ''FindingCreated'' None"

lemma cause_effect_simps [simp]:
  "event_id cause_record = hex_id ''a''" "event_id effect_record = hex_id ''b''"
  "causation_event_id (provenance cause_record) = None"
  "causation_event_id (provenance effect_record) = Some (hex_id ''a'')"
  "sequence_number cause_record = 0" "sequence_number effect_record = 1"
  by (simp_all add: cause_record_def effect_record_def sample_record_def sample_prov_def)

theorem causation_chain_complete_witness:
  "\<exists>chain. get_causation_chain (eager_api (event_index_of [cause_record, effect_record])) (\<lambda>_. None)
        (hex_id ''b'') None = Some chain
     \<and> chain = [effect_record, cause_record]"
proof -
  let ?get = "get_event (eager_api (event_index_of [cause_record, effect_record])) (\<lambda>_. None)"
  have ab: "hex_id ''a'' \<noteq> hex_id ''b''" by (simp add: hex_id_def)
  have g: "?get j = (if j = hex_id ''b'' then Some effect_record
      else if j = hex_id ''a'' then Some cause_record else None)" for j
    by (auto simp: eager.get_event_eq last_with_def)
  have "causes_first ?get"
    using ab by (auto simp: causes_first_def g split: if_splits)
  from causation_chain_complete [where api = "eager_api (event_index_of [cause_record, effect_record])"
      and cold = "\<lambda>_. None" and i = "hex_id ''b''", OF this] obtain chain where
    c: "get_causation_chain (eager_api (event_index_of [cause_record, effect_record])) (\<lambda>_. None)
        (hex_id ''b'') None = Some chain"
    and l: "linked ?get (causation_event_id \<circ> provenance) (Some (hex_id ''b'')) chain" by blast
  have "chain = [effect_record, cause_record]"
    using l ab by (cases chain; cases "tl chain"; cases "tl (tl chain)") (auto simp: g)
  with c show ?thesis by blast
qed

text \<open>The walk has no guard against cycles.  An event that names itself as its cause makes
  \<open>get_causation_chain\<close> without a depth run forever; with a depth it returns.  The same holds
  for \<open>get_supersede_chain\<close>, which has no depth.\<close>

theorem chain_diverges_on_cycle:
  assumes "get_event api cold i = Some r"
  shows "(causation_event_id (provenance r) = Some i \<longrightarrow>
       get_causation_chain api cold i None = None
       \<and> get_causation_chain api cold i (Some 1) = Some [r])
    \<and> (superseded_event_id (supersede r) = Some i \<longrightarrow> get_supersede_chain api cold i = None)"
  using follow_cycle [where get = "get_event api cold" and up = "causation_event_id \<circ> provenance" and acc = "[]",
      OF assms]
    follow_cycle [where get = "get_event api cold" and up = "superseded_event_id \<circ> supersede" and acc = "[]",
      OF assms] assms
  by (simp add: get_causation_chain_def get_supersede_chain_def follow.simps [of _ _ "Some (Suc 0)"])

theorem chain_diverges_on_cycle_witness:
  "get_causation_chain (eager_api (event_index_of [(sample_record ''a'' 0 ''NodeTouched'' None)
       \<lparr>provenance := sample_prov\<lparr>causation_event_id := Some (hex_id ''a'')\<rparr>\<rparr>])) (\<lambda>_. None) (hex_id ''a'') None = None"
proof -
  let ?r = "(sample_record ''a'' 0 ''NodeTouched'' None)
       \<lparr>provenance := sample_prov\<lparr>causation_event_id := Some (hex_id ''a'')\<rparr>\<rparr>"
  have "get_event (eager_api (event_index_of [?r])) (\<lambda>_. None) (hex_id ''a'') = Some ?r"
    by (simp add: eager.get_event_eq last_with_def sample_record_def)
  from chain_diverges_on_cycle [OF this] show ?thesis by simp
qed

section \<open>The warm index\<close>

text \<open>C4: Catching up gives what a full scan gives.  A handle whose index covers the visible
  records up to its baseline at least, however many writes of whatever processes followed, gets
  from \<open>committed_index\<close> the index of the whole committed stream, whether it finds nothing new,
  folds the tail of the active segment, folds across one rotation, or notices a gap and
  rebuilds - provided that batches are complete within their segments and that, if more than
  one segment was opened since the baseline, the active one holds a visible record.\<close>

theorem warm_index_is_exact:
  assumes "log_ok cd d" and "closed_segments cd d" and "index_behind cd d h rest"
    and "length rest \<le> 1 \<or> seg_records cd (snd (last rest)) \<noteq> []"
  shows "fst (committed_index cd d h) = Inr (event_index_of (fst (committed cd d)))"
proof -
  obtain x where x: "h_index h = Some x" using assms(3) by (auto simp: index_behind_def index_at_def)
  from catch_up_exact [OF assms(1-3) x assms(4)] show ?thesis
    by (cases "catch_up_index cd d x h")
       (simp add: committed_index_def x caught_up_def committed_closed [OF assms(2)])
qed

text \<open>A disk with one direct record.\<close>

definition single_disk :: "event_record \<Rightarrow> disk" where
  "single_disk r = append_text Base (lines_text sample_codec [r]) empty_disk"

definition single_ok :: "event_record \<Rightarrow> bool" where
  "single_ok r \<longleftrightarrow> record_ok r \<and> is_known_schema_version (schema_version r) \<and> sequence_number r = 0 \<and> batch_id r = None"

lemma single_disk_props:
  assumes "single_ok r"
  shows "log_ok sample_codec (single_disk r)" "raw_event_lines (single_disk r) = [dump_event sample_codec r]"
    "ordered_segments (single_disk r) = [(Base, lines_text sample_codec [r])]"
    "log_readable sample_codec (single_disk r) = [r]" "closed_segments sample_codec (single_disk r)"
proof -
  have ok: "record_ok r" "is_known_schema_version (schema_version r)" "sequence_number r = 0" "batch_id r = None"
    using assms by (simp_all add: single_ok_def)
  have n: "numbered_from (read_max_seq_on_disk sample_codec empty_disk + 1) [r]"
    by (simp add: ok read_max_seq_on_disk_def empty_disk_def ordered_segments_def ordered_hot_segments_def)
  have t: "write_target sample_cfg empty_disk 1 = Base"
    by (simp add: write_target_def Let_def active_segment_event_count_def empty_disk_def
        active_segment_def ordered_hot_segments_def)
  have r: "\<forall>r \<in> set [r]. record_ok r" by (simp add: ok)
  note app = append_records [OF empty_disk_ok(1,3) sample_sound r n, of sample_cfg 1, unfolded t]
  from app show "log_ok sample_codec (single_disk r)" and raw: "raw_event_lines (single_disk r) = [dump_event sample_codec r]"
    by (simp_all add: single_disk_def)
  show seg: "ordered_segments (single_disk r) = [(Base, lines_text sample_codec [r])]"
    by (simp add: single_disk_def append_text_def empty_disk_def ordered_segments_def ordered_hot_segments_def)
  show "log_readable sample_codec (single_disk r) = [r]"
    by (simp add: log_readable_def raw readable_def ok)
  have "raw_lines (lines_text sample_codec [r]) = [dump_event sample_codec r]"
    using raw_lines_text [OF sample_sound, of "[r]"] ok by simp
  then show "closed_segments sample_codec (single_disk r)"
    by (simp add: closed_segments_def seg seg_records_def readable_def no_unknown_truth_def ok vis_step_def
        del: lines_text_simps)
qed

lemma single_disk_behind:
  assumes "single_ok r"
  shows "index_behind sample_codec (single_disk r) (snd (rebuild_index sample_codec (single_disk r) h)) []"
  by (rule rebuilt_not_behind [OF single_disk_props(1,5) [OF assms]]) (simp add: single_disk_props(3) [OF assms])

definition one_record :: event_record where
  "one_record = sample_record ''a'' 0 ''RunStarted'' None"

lemma one_record_props:
  "record_ok one_record" "is_known_schema_version (schema_version one_record)"
  "sequence_number one_record = 0" "batch_id one_record = None"
  by (code_simp, simp_all add: one_record_def sample_record_def sample_schema)

lemma one_record_single: "single_ok one_record"
  by (simp add: single_ok_def one_record_props)

theorem warm_index_is_exact_witness:
  "fst (committed_index sample_codec (single_disk one_record) (snd (rebuild_index sample_codec (single_disk one_record) new_handle)))
     = Inr (event_index_of [one_record])"
proof -
  note d = single_disk_props [OF one_record_single]
  from warm_index_is_exact [OF d(1,5) single_disk_behind [OF one_record_single]] show ?thesis
    by (simp add: committed_closed [OF d(5)] d(4))
qed






end
