(* ===== verification/Documents.thy ===== *)
theory Documents
  imports Event_Record "HOL-Library.List_Lexorder" "HOL-Library.Char_ord"
begin

text \<open>
  Small state files.  The harness keeps much of its state in directories that hold one JSON
  document per file.  Such a directory is an association list from the stem of the file name
  to the document; \<open>None\<close> is a file that cannot be read as JSON.  A write is an atomic rename
  in the sources, so it is one update here.  The theory also has Python's \<open>str\<close>, \<open>repr\<close> and
  \<open>int\<close> on JSON values.
\<close>

section \<open>Python conversions\<close>

text \<open>\<open>int(s)\<close> on a text: digits, with single underscores between them.\<close>

fun py_digits :: "bool \<Rightarrow> nat \<Rightarrow> string \<Rightarrow> nat option" where
  "py_digits d acc [] = (if d then Some acc else None)"
| "py_digits d acc (c # cs) =
     (if is_digit c then py_digits True (10 * acc + char_digit c) cs
      else if c = CHR ''_'' \<and> d then py_digits False acc cs
      else None)"

definition py_int :: "string \<Rightarrow> int option" where
  "py_int s =
     (case py_strip s of
        [] \<Rightarrow> None
      | c # cs \<Rightarrow>
          (if c = CHR ''-'' then map_option (\<lambda>n. - int n) (py_digits False 0 cs)
           else if c = CHR ''+'' then map_option int (py_digits False 0 cs)
           else map_option int (py_digits False 0 (c # cs))))"

text \<open>\<open>int(v)\<close>: \<open>None\<close> where it raises \<open>TypeError\<close> or \<open>ValueError\<close>.\<close>

fun to_int :: "json \<Rightarrow> int option" where
  "to_int (JInt i) = Some i"
| "to_int (JBool b) = Some (if b then 1 else 0)"
| "to_int (JStr s) = py_int s"
| "to_int _ = None"

definition hex_digit :: "nat \<Rightarrow> char" where
  "hex_digit d = ''0123456789abcdef'' ! d"

definition repr_char :: "char \<Rightarrow> char \<Rightarrow> string" where
  "repr_char q c =
     (if c = q \<or> c = CHR 0x5C then [CHR 0x5C, c]
      else if c = LF then [CHR 0x5C, CHR ''n'']
      else if c = CHR 0x0D then [CHR 0x5C, CHR ''r'']
      else if c = CHR 0x09 then [CHR 0x5C, CHR ''t'']
      else if of_char c < (32 :: nat) \<or> of_char c \<ge> (127 :: nat)
      then [CHR 0x5C, CHR ''x'', hex_digit (of_char c div 16), hex_digit (of_char c mod 16)]
      else [c])"

definition repr_str :: "string \<Rightarrow> string" where
  "repr_str s =
     (let q = (if CHR 0x27 \<in> set s \<and> CHR 0x22 \<notin> set s then CHR 0x22 else CHR 0x27)
      in [q] @ concat (map (repr_char q) s) @ [q])"

fun comma_join :: "string list \<Rightarrow> string" where
  "comma_join [] = []"
| "comma_join [s] = s"
| "comma_join (s # ss) = s @ '', '' @ comma_join ss"

fun py_repr :: "json \<Rightarrow> string" where
  "py_repr JNull = ''None''"
| "py_repr (JBool b) = (if b then ''True'' else ''False'')"
| "py_repr (JInt i) = int_str i"
| "py_repr (JStr s) = repr_str s"
| "py_repr (JArr xs) = ''['' @ comma_join (map py_repr xs) @ '']''"
| "py_repr (JObj d) = ''{'' @ comma_join (map (\<lambda>(k, v). repr_str k @ '': '' @ py_repr v) d) @ ''}''"

fun py_str :: "json \<Rightarrow> string" where
  "py_str (JStr s) = s"
| "py_str v = py_repr v"

lemma is_digit_digit_char: "d < 10 \<Longrightarrow> is_digit (digit_char d)"
  by (drule digit_cases) (auto simp: is_digit_def digit_char_def)

lemma py_digits_append:
  "list_all is_digit s \<Longrightarrow> s \<noteq> [] \<Longrightarrow>
     \<exists>n. py_digits d acc s = Some n \<and> (\<forall>t. py_digits d acc (s @ t) = py_digits True n t)"
proof (induction s arbitrary: d acc)
  case (Cons c s)
  then show ?case by (cases "s = []") auto
qed simp

lemma nat_str_digits: "list_all is_digit (nat_str n) \<and> nat_str n \<noteq> []"
proof (induction n rule: nat_str.induct)
  case (1 n)
  then show ?case
    by (cases "n < 10") (simp_all add: nat_str.simps [of n] is_digit_digit_char)
qed

lemma py_digits_nat_str: "py_digits d 0 (nat_str n) = Some n"
proof (induction n arbitrary: d rule: nat_str.induct)
  case (1 n)
  show ?case
  proof (cases "n < 10")
    case True
    then show ?thesis by (simp add: nat_str.simps [of n] is_digit_digit_char char_digit_char)
  next
    case False
    have "nat_str n = nat_str (n div 10) @ [digit_char (n mod 10)]"
      using False by (simp add: nat_str.simps [of n])
    moreover have "py_digits d 0 (nat_str (n div 10) @ [digit_char (n mod 10)])
        = py_digits True (n div 10) [digit_char (n mod 10)]"
      using nat_str_digits [of "n div 10"] "1.IH" [OF False, of d]
        py_digits_append [of "nat_str (n div 10)" d 0] by auto
    ultimately show ?thesis by (simp add: is_digit_digit_char char_digit_char)
  qed
qed

lemma digit_not_space: "is_digit c \<Longrightarrow> \<not> is_space c"
  by (auto simp: is_digit_def is_space_def)

lemma py_strip_nat_str: "py_strip (nat_str n) = nat_str n"
  using nat_str_digits [of n]
  by (intro py_strip_stripped)
     (auto simp: stripped_def list_all_iff digit_not_space dest: hd_in_set last_in_set)

lemma py_int_nat_str [simp]: "py_int (nat_str n) = Some (int n)"
proof -
  obtain d cs where d: "nat_str n = digit_char d # cs" "d < 10" using nat_str_hd by blast
  have "digit_char d \<noteq> CHR ''+''" using d(2) by (drule_tac digit_cases) (auto simp: digit_char_def)
  then show ?thesis
    using d py_digits_nat_str [of False n] digit_char_minus [OF d(2)] py_strip_nat_str [of n]
    by (simp add: py_int_def)
qed

section \<open>Directories of documents\<close>

type_synonym 'a dir = "(string \<times> 'a) list"

text \<open>\<open>sorted(dir.glob("*.json"))\<close> compares file names, which end in \<open>.json\<close>.\<close>

definition json_files :: "'a dir \<Rightarrow> string list" where
  "json_files d = sort_key (\<lambda>stem. stem @ ''.json'') (map fst d)"

lemma set_json_files [simp]: "set (json_files d) = fst ` set d"
  by (simp add: json_files_def)

lemma distinct_json_files [simp]: "distinct (json_files d) \<longleftrightarrow> distinct (map fst d)"
  by (simp add: json_files_def)

lemma set_map_filter: "y \<in> set (List.map_filter f xs) \<longleftrightarrow> (\<exists>x \<in> set xs. f x = Some y)"
  by (force simp: List.map_filter_def)

lemma map_of_delete: "map_of (AList.delete k d) k' = (if k' = k then None else map_of d k')"
  by (simp add: delete_conv')

end
