(* ===== verification/Session_Locks.thy ===== *)
theory Session_Locks
  imports Complex_Main Documents
begin

text \<open>
  The per-session lock registry (\<open>harness/src/towow/l1/session_lock.py\<close>): one lock file per
  session and kind, with recovery of the locks of crashed sessions at the start of every
  operation.  The registry is the directory of lock files and the meta files beside them; an
  operation returns an exception or a value and the registry it leaves.  Times are rational
  seconds; the liveness of a process is asked through \<open>os.kill\<close>, whose outcomes are an argument.
\<close>

section \<open>Data\<close>

datatype lock_err =
    Duplicate_Session string
  | Unknown_Session string
  | Ambiguous_Active_Session "string list"
  | Invalid_Session_Id string
  | Single_Flight_Violation "string list"
  | Disk_Error

record lock_info =
  l_session_id :: string
  l_actor_id :: string
  l_skill_id :: string
  l_pid :: int
  l_started :: int
  l_parent :: "string option"
  l_fork :: "string option"

type_synonym doc = "json option"

record registry =
  r_kind :: string
  r_locks :: "doc dir"
  r_metas :: "doc dir"

text \<open>The keyword arguments that the operations share, and whether the disk takes writes.\<close>

record lock_env =
  e_now :: rat
  e_stale_after :: "rat option"
  e_pid_alive :: "int \<Rightarrow> bool"
  e_disk_ok :: bool

section \<open>Constants and small functions\<close>

definition interactive_stale_after :: rat where
  "interactive_stale_after = 12 * 60 * 60"

definition execution_stale_after :: rat where
  "execution_stale_after = 30 * 60"

definition serial_reject_kinds :: "string list" where
  "serial_reject_kinds = []"

definition validate_session_id :: "string \<Rightarrow> lock_err + unit" where
  "validate_session_id sid =
     (if sid = [] \<or> list_ex (\<lambda>c. \<not> id_char c) sid then Inl (Invalid_Session_Id sid) else Inr ())"

datatype kill_outcome = Kill_Ok | Process_Lookup_Error | Permission_Error | Other_OS_Error

definition pid_alive :: "(int \<Rightarrow> kill_outcome) \<Rightarrow> int \<Rightarrow> bool" where
  "pid_alive os_kill pid =
     (if pid \<le> 0 then True
      else (case os_kill pid of
              Process_Lookup_Error \<Rightarrow> False
            | Permission_Error \<Rightarrow> True
            | Other_OS_Error \<Rightarrow> True
            | Kill_Ok \<Rightarrow> True))"

text \<open>\<open>int(t)\<close> cuts towards zero.\<close>

definition trunc :: "rat \<Rightarrow> int" where
  "trunc t = (if t < 0 then - \<lfloor>- t\<rfloor> else \<lfloor>t\<rfloor>)"

definition to_dict :: "lock_info \<Rightarrow> dict" where
  "to_dict i =
     [(''session_id'', JStr (l_session_id i)), (''actor_id'', JStr (l_actor_id i)),
      (''skill_id'', JStr (l_skill_id i)), (''pid'', JInt (l_pid i)),
      (''started_at_unix'', JInt (l_started i))]
     @ (case l_parent i of None \<Rightarrow> [] | Some p \<Rightarrow> [(''parent_session_id'', JStr p)])
     @ (case l_fork i of None \<Rightarrow> [] | Some f \<Rightarrow> [(''fork_id'', JStr f)])"

definition opt_text :: "json \<Rightarrow> string option" where
  "opt_text v = (if truthy v then Some (py_str v) else None)"

text \<open>\<open>int(data.get(k, 0) or 0)\<close> and \<open>str(data.get(k, ""))\<close>\<close>

definition int_field :: "dict \<Rightarrow> string \<Rightarrow> int option" where
  "int_field d k = (if truthy (dget d k) then to_int (dget d k) else Some 0)"

definition text_field :: "dict \<Rightarrow> string \<Rightarrow> string" where
  "text_field d k = (case map_of d k of None \<Rightarrow> [] | Some v \<Rightarrow> py_str v)"

definition read_lock :: "doc option \<Rightarrow> lock_info option" where
  "read_lock file =
     (case file of
        Some (Some (JObj d)) \<Rightarrow>
          (if \<not> has_key d ''session_id'' then None
           else (case (int_field d ''pid'', int_field d ''started_at_unix'') of
                   (Some p, Some t) \<Rightarrow>
                     Some \<lparr>l_session_id = text_field d ''session_id'',
                           l_actor_id = text_field d ''actor_id'',
                           l_skill_id = text_field d ''skill_id'',
                           l_pid = p, l_started = t,
                           l_parent = opt_text (dget d ''parent_session_id''),
                           l_fork = opt_text (dget d ''fork_id'')\<rparr>
                 | _ \<Rightarrow> None))
      | _ \<Rightarrow> None)"

definition lock_of :: "registry \<Rightarrow> string \<Rightarrow> lock_info option" where
  "lock_of reg sid = read_lock (map_of (r_locks reg) sid)"

definition lock_path :: "registry \<Rightarrow> string \<Rightarrow> string list" where
  "lock_path reg sid = [''locks'', ''sessions'', r_kind reg, sid @ ''.json'']"

section \<open>Staleness\<close>

definition default_stale_after :: "string \<Rightarrow> rat" where
  "default_stale_after kind =
     (if kind = ''execution'' then execution_stale_after else interactive_stale_after)"

definition is_stale :: "lock_info \<Rightarrow> rat \<Rightarrow> rat \<Rightarrow> (int \<Rightarrow> bool) \<Rightarrow> bool" where
  "is_stale i now stale_after alive =
     (if l_pid i > 0 \<and> \<not> alive (l_pid i) then True
      else now - rat_of_int (l_started i) > stale_after)"

definition stale_after_of :: "lock_env \<Rightarrow> string \<Rightarrow> rat" where
  "stale_after_of env kind =
     (case e_stale_after env of None \<Rightarrow> default_stale_after kind | Some s \<Rightarrow> s)"

abbreviation stale_in :: "lock_env \<Rightarrow> string \<Rightarrow> lock_info \<Rightarrow> bool" where
  "stale_in env kind i \<equiv> is_stale i (e_now env) (stale_after_of env kind) (e_pid_alive env)"

definition session_signal :: "lock_env \<Rightarrow> string \<Rightarrow> registry \<Rightarrow> bool option \<times> bool" where
  "session_signal env sid reg =
     (case lock_of reg sid of
        None \<Rightarrow> (None, False)
      | Some i \<Rightarrow>
          (let stale = stale_in env (r_kind reg) i;
               proc = (if l_pid i > 0 then Some (e_pid_alive env (l_pid i))
                       else if stale then Some False else None)
           in (proc, \<not> stale)))"

section \<open>Recovery\<close>

text \<open>What the loop does with one file: the name it reports when it removes the file.\<close>

definition reap_decision :: "lock_env \<Rightarrow> string \<Rightarrow> string \<Rightarrow> doc option \<Rightarrow> string option" where
  "reap_decision env kind stem file =
     (case read_lock file of
        None \<Rightarrow> Some stem
      | Some i \<Rightarrow> if stale_in env kind i then Some (l_session_id i) else None)"

definition unlink :: "string \<Rightarrow> registry \<Rightarrow> registry" where
  "unlink stem reg = reg\<lparr>r_locks := AList.delete stem (r_locks reg)\<rparr>"

definition reap_one :: "lock_env \<Rightarrow> string \<Rightarrow> string list \<times> registry \<Rightarrow> string list \<times> registry" where
  "reap_one env stem acc =
     (case reap_decision env (r_kind (snd acc)) stem (map_of (r_locks (snd acc)) stem) of
        Some name \<Rightarrow> (fst acc @ [name], unlink stem (snd acc))
      | None \<Rightarrow> acc)"

definition reap_stale :: "lock_env \<Rightarrow> registry \<Rightarrow> string list \<times> registry" where
  "reap_stale env reg = fold (reap_one env) (json_files (r_locks reg)) ([], reg)"

section \<open>Operations\<close>

definition write_lock :: "string \<Rightarrow> dict \<Rightarrow> registry \<Rightarrow> registry" where
  "write_lock sid d reg = reg\<lparr>r_locks := AList.update sid (Some (JObj d)) (r_locks reg)\<rparr>"

text \<open>\<open>acquire\<close> up to its check for a live lock, and the write that follows.\<close>

definition acquire_check :: "lock_env \<Rightarrow> string \<Rightarrow> registry \<Rightarrow> (lock_err + unit) \<times> registry" where
  "acquire_check env sid reg =
     (case validate_session_id sid of
        Inl e \<Rightarrow> (Inl e, reg)
      | Inr _ \<Rightarrow>
          (let reg' = snd (reap_stale env reg)
           in if lock_of reg' sid \<noteq> None then (Inl (Duplicate_Session sid), reg') else (Inr (), reg')))"

definition acquire_write :: "lock_env \<Rightarrow> lock_info \<Rightarrow> registry \<Rightarrow> (lock_err + lock_info) \<times> registry" where
  "acquire_write env i reg =
     (if e_disk_ok env then (Inr i, write_lock (l_session_id i) (to_dict i) reg) else (Inl Disk_Error, reg))"

definition new_lock :: "string \<Rightarrow> string \<Rightarrow> string \<Rightarrow> int option \<Rightarrow> int option \<Rightarrow> rat
    \<Rightarrow> string option \<Rightarrow> string option \<Rightarrow> lock_info" where
  "new_lock sid actor skill pid started clock parent fork =
     \<lparr>l_session_id = sid, l_actor_id = actor, l_skill_id = skill,
      l_pid = (case pid of None \<Rightarrow> 0 | Some p \<Rightarrow> p),
      l_started = (case started of None \<Rightarrow> trunc clock | Some t \<Rightarrow> t),
      l_parent = parent, l_fork = fork\<rparr>"

definition acquire :: "lock_env \<Rightarrow> lock_info \<Rightarrow> registry \<Rightarrow> (lock_err + lock_info) \<times> registry" where
  "acquire env i reg =
     (case acquire_check env (l_session_id i) reg of
        (Inl e, reg') \<Rightarrow> (Inl e, reg')
      | (Inr _, reg') \<Rightarrow> acquire_write env i reg')"

definition live_sessions :: "lock_env \<Rightarrow> registry \<Rightarrow> lock_info list \<times> registry" where
  "live_sessions env reg =
     (let reg' = snd (reap_stale env reg)
      in (sort_key l_session_id (List.map_filter (lock_of reg') (json_files (r_locks reg'))), reg'))"

definition read_meta :: "string \<Rightarrow> registry \<Rightarrow> dict" where
  "read_meta sid reg = (case map_of (r_metas reg) sid of Some (Some (JObj d)) \<Rightarrow> d | _ \<Rightarrow> [])"

definition assert_single_flight :: "lock_env \<Rightarrow> registry
    \<Rightarrow> (lock_err + lock_info list) \<times> registry" where
  "assert_single_flight env reg =
     (let (live, reg') = live_sessions env reg
      in if r_kind reg \<notin> set serial_reject_kinds then (Inr live, reg')
         else if length live > 1 then (Inl (Single_Flight_Violation (map l_session_id live)), reg')
         else (Inr live, reg'))"

text \<open>\<open>touch\<close> reads the lock, and later writes it back with a new time stamp.\<close>

definition touch_read :: "string \<Rightarrow> rat \<Rightarrow> registry \<Rightarrow> dict option" where
  "touch_read sid now reg =
     map_option (\<lambda>i. dset ''started_at_unix'' (JInt (trunc now)) (to_dict i)) (lock_of reg sid)"

definition touch_write :: "bool \<Rightarrow> string \<Rightarrow> dict option \<Rightarrow> registry \<Rightarrow> registry" where
  "touch_write disk_ok sid plan reg =
     (case plan of Some d \<Rightarrow> if disk_ok then write_lock sid d reg else reg | None \<Rightarrow> reg)"

definition touch :: "bool \<Rightarrow> string \<Rightarrow> rat \<Rightarrow> registry \<Rightarrow> registry" where
  "touch disk_ok sid now reg = touch_write disk_ok sid (touch_read sid now reg) reg"

definition resolve :: "lock_env \<Rightarrow> string option \<Rightarrow> rat \<Rightarrow> registry
    \<Rightarrow> (lock_err + lock_info option) \<times> registry" where
  "resolve env explicit touch_now reg =
     (let (live, reg') = live_sessions env reg
      in case explicit of
           Some sid \<Rightarrow>
             (case find (\<lambda>i. l_session_id i = sid) live of
                Some i \<Rightarrow> (Inr (Some i), touch (e_disk_ok env) (l_session_id i) touch_now reg')
              | None \<Rightarrow> (Inl (Unknown_Session sid), reg'))
         | None \<Rightarrow>
             (case live of
                [] \<Rightarrow> (Inr None, reg')
              | [i] \<Rightarrow> (Inr (Some i), touch (e_disk_ok env) (l_session_id i) touch_now reg')
              | _ \<Rightarrow> (Inl (Ambiguous_Active_Session (map l_session_id live)), reg')))"

definition release :: "string \<Rightarrow> registry \<Rightarrow> bool \<times> registry" where
  "release sid reg =
     (if map_of (r_locks reg) sid = None then (False, reg) else (True, unlink sid reg))"

text \<open>The file that serialises the starts for one key.\<close>

definition safe_key :: "string \<Rightarrow> string" where
  "safe_key key =
     (let safe = map (\<lambda>c. if id_char c \<or> c \<in> set ''@.'' then c else CHR ''_'') key
      in if safe = [] then ''_empty_'' else safe)"

definition start_cs_lock_path :: "string \<Rightarrow> string \<Rightarrow> string list" where
  "start_cs_lock_path kind key = [''locks'', ''start_cs'', kind, safe_key key @ ''.lock'']"

section \<open>Histories\<close>

text \<open>One call of the registry; every process goes through these.\<close>

datatype lock_op =
    Acquire lock_info
  | Resolve "string option" rat
  | Live
  | Release string

fun run_op :: "lock_env \<times> lock_op \<Rightarrow> registry \<Rightarrow> registry" where
  "run_op (env, Acquire i) reg = snd (acquire env i reg)"
| "run_op (env, Resolve sid now) reg = snd (resolve env sid now reg)"
| "run_op (env, Live) reg = snd (live_sessions env reg)"
| "run_op (env, Release sid) reg = snd (release sid reg)"

definition run_ops :: "(lock_env \<times> lock_op) list \<Rightarrow> registry \<Rightarrow> registry" where
  "run_ops ops reg = fold run_op ops reg"

end
