(* ===== verification/Session_Locks_Safety.thy ===== *)
theory Session_Locks_Safety
  imports Session_Locks
begin

text \<open>
  Lemmas about the lock registry: what recovery leaves, the invariant of registries that only
  the operations of the code have written, and its preservation; the lock of one session under
  the operations of the others, under its own heartbeats, and when it is abandoned.
\<close>

section \<open>Lock files\<close>

definition norm_lock :: "lock_info \<Rightarrow> lock_info" where
  "norm_lock i = i\<lparr>l_parent := (if l_parent i = Some [] then None else l_parent i),
                   l_fork := (if l_fork i = Some [] then None else l_fork i)\<rparr>"

lemma norm_lock_simps [simp]:
  "l_session_id (norm_lock i) = l_session_id i" "l_pid (norm_lock i) = l_pid i"
  "l_started (norm_lock i) = l_started i"
  by (simp_all add: norm_lock_def)

lemma norm_lock_started [simp]: "norm_lock (i\<lparr>l_started := t\<rparr>) = (norm_lock i)\<lparr>l_started := t\<rparr>"
  by (simp add: norm_lock_def)

lemma to_dict_started: "dset ''started_at_unix'' (JInt t) (to_dict i) = to_dict (i\<lparr>l_started := t\<rparr>)"
  by (simp add: to_dict_def)

lemma opt_text_simps [simp]:
  "opt_text (JStr s) = (if s = [] then None else Some s)" "opt_text JNull = None"
  by (simp_all add: opt_text_def)

lemma int_field_JInt: "map_of d k = Some (JInt n) \<Longrightarrow> int_field d k = Some n"
  by (simp add: int_field_def dget_def)

lemma read_to_dict [simp]: "read_lock (Some (Some (JObj (to_dict i)))) = Some (norm_lock i)"
proof -
  let ?d = "to_dict i"
  have m: "map_of ?d ''session_id'' = Some (JStr (l_session_id i))"
    "map_of ?d ''actor_id'' = Some (JStr (l_actor_id i))"
    "map_of ?d ''skill_id'' = Some (JStr (l_skill_id i))"
    "map_of ?d ''pid'' = Some (JInt (l_pid i))"
    "map_of ?d ''started_at_unix'' = Some (JInt (l_started i))"
    "map_of ?d ''parent_session_id'' = map_option JStr (l_parent i)"
    "map_of ?d ''fork_id'' = map_option JStr (l_fork i)"
    by (simp_all add: to_dict_def split: option.split)
  have o: "opt_text (dget ?d ''parent_session_id'') = (if l_parent i = Some [] then None else l_parent i)"
    "opt_text (dget ?d ''fork_id'') = (if l_fork i = Some [] then None else l_fork i)"
    using m(6,7) by (auto simp: dget_def split: option.split)
  show ?thesis
    by (simp add: read_lock_def m(1-3) int_field_JInt [OF m(4)] int_field_JInt [OF m(5)] text_field_def o norm_lock_def)
qed

lemma validate_ok_iff: "validate_session_id sid = Inr u \<longleftrightarrow> sid \<noteq> [] \<and> list_all id_char sid"
  by (auto simp: validate_session_id_def list_ex_iff list_all_iff)

section \<open>Recovery\<close>

lemma unlink_simps [simp]:
  "r_kind (unlink s reg) = r_kind reg" "r_metas (unlink s reg) = r_metas reg"
  "map_of (r_locks (unlink s reg)) t = (if t = s then None else map_of (r_locks reg) t)"
  by (simp_all add: unlink_def map_of_delete)

lemma read_lock_None [simp]: "read_lock None = None"
  by (simp add: read_lock_def)

lemma fold_reap:
  "r_kind (snd (fold (reap_one env) xs acc)) = r_kind (snd acc)
   \<and> map_of (r_locks (snd (fold (reap_one env) xs acc))) t =
       (if t \<in> set xs \<and> reap_decision env (r_kind (snd acc)) t (map_of (r_locks (snd acc)) t) \<noteq> None
        then None else map_of (r_locks (snd acc)) t)"
proof (induction xs arbitrary: acc)
  case (Cons x xs)
  show ?case
  proof (cases "reap_decision env (r_kind (snd acc)) x (map_of (r_locks (snd acc)) x)")
    case None
    then show ?thesis using Cons [of acc] by (auto simp: reap_one_def)
  next
    case (Some name)
    then show ?thesis
      using Cons [of "(fst acc @ [name], unlink x (snd acc))"]
      by (auto simp: reap_one_def reap_decision_def)
  qed
qed simp

lemma reap_kind [simp]: "r_kind (snd (reap_stale env reg)) = r_kind reg"
  by (simp add: reap_stale_def fold_reap)

lemma map_of_reap:
  "map_of (r_locks (snd (reap_stale env reg))) t =
     (if reap_decision env (r_kind reg) t (map_of (r_locks reg) t) \<noteq> None then None
      else map_of (r_locks reg) t)"
proof (cases "map_of (r_locks reg) t")
  case None
  then show ?thesis by (simp add: reap_stale_def fold_reap)
next
  case (Some f)
  then have "t \<in> fst ` set (r_locks reg)" by (metis map_of_SomeD fst_conv image_iff)
  then show ?thesis by (simp add: reap_stale_def fold_reap)
qed

lemma lock_of_reap:
  "lock_of (snd (reap_stale env reg)) t =
     (case lock_of reg t of None \<Rightarrow> None | Some i \<Rightarrow> if stale_in env (r_kind reg) i then None else Some i)"
  by (auto simp: lock_of_def map_of_reap reap_decision_def split: option.split)

lemma fold_reap_locks:
  "\<exists>P. r_locks (snd (fold (reap_one env) xs acc)) = filter P (r_locks (snd acc))"
proof (induction xs arbitrary: acc)
  case Nil
  show ?case by (rule exI [of _ "\<lambda>_. True"]) simp
next
  case (Cons x xs)
  obtain P where P: "r_locks (snd (fold (reap_one env) xs (reap_one env x acc))) = filter P (r_locks (snd (reap_one env x acc)))"
    using Cons by blast
  show ?case
  proof (cases "reap_decision env (r_kind (snd acc)) x (map_of (r_locks (snd acc)) x)")
    case None
    then have "reap_one env x acc = acc" by (simp add: reap_one_def)
    with P show ?thesis by auto
  next
    case (Some name)
    then have "r_locks (snd (reap_one env x acc)) = filter (\<lambda>e. x \<noteq> fst e) (r_locks (snd acc))"
      by (simp add: reap_one_def unlink_def AList.delete_eq split_def)
    with P show ?thesis by auto
  qed
qed

lemma reap_locks: "\<exists>P. r_locks (snd (reap_stale env reg)) = filter P (r_locks reg)"
  using fold_reap_locks [of env _ "([], reg)"] by (simp add: reap_stale_def)

section \<open>Registries that only these operations wrote\<close>

definition own_lock :: "string \<times> doc \<Rightarrow> bool" where
  "own_lock e =
     (case read_lock (Some (snd e)) of
        None \<Rightarrow> False
      | Some i \<Rightarrow> l_session_id i = fst e \<and> is_ok (validate_session_id (fst e)))"

definition registry_ok :: "registry \<Rightarrow> bool" where
  "registry_ok reg \<longleftrightarrow> distinct (map fst (r_locks reg)) \<and> list_all own_lock (r_locks reg)"

lemma registry_ok_reap: "registry_ok reg \<Longrightarrow> registry_ok (snd (reap_stale env reg))"
  using reap_locks [of env reg] by (auto simp: registry_ok_def list_all_iff distinct_map_filter)

lemma registry_ok_unlink: "registry_ok reg \<Longrightarrow> registry_ok (unlink s reg)"
  by (auto simp: registry_ok_def unlink_def AList.delete_eq list_all_iff distinct_map_filter)

lemma registry_ok_write:
  assumes "registry_ok reg" and "l_session_id i = sid" and "is_ok (validate_session_id sid)"
  shows "registry_ok (write_lock sid (to_dict i) reg)"
proof -
  have "set (AList.update k v al) \<subseteq> insert (k, v) (set al)" for k :: string and v :: doc and al
    by (induction al) auto
  moreover have "own_lock (sid, Some (JObj (to_dict i)))"
    using assms(2,3) by (simp add: own_lock_def)
  ultimately show ?thesis
    using assms(1) by (fastforce simp: registry_ok_def write_lock_def distinct_update list_all_iff)
qed

lemma registry_lock_of:
  assumes "registry_ok reg" and "lock_of reg t = Some i"
  shows "l_session_id i = t" "is_ok (validate_session_id t)"
proof -
  obtain f where "map_of (r_locks reg) t = Some f" "read_lock (Some f) = Some i"
    using assms(2) by (cases "map_of (r_locks reg) t") (auto simp: lock_of_def)
  moreover from this have "own_lock (t, f)"
    using assms(1) map_of_SomeD [of "r_locks reg" t f] by (auto simp: registry_ok_def list_all_iff)
  ultimately show "l_session_id i = t" "is_ok (validate_session_id t)"
    by (simp_all add: own_lock_def)
qed

lemma registry_readable:
  assumes "registry_ok reg"
  shows "map_of (r_locks reg) t \<noteq> None \<longleftrightarrow> lock_of reg t \<noteq> None"
proof (cases "map_of (r_locks reg) t")
  case (Some f)
  then have "own_lock (t, f)"
    using assms map_of_SomeD [of "r_locks reg" t f] by (auto simp: registry_ok_def list_all_iff)
  with Some show ?thesis by (auto simp: lock_of_def own_lock_def split: option.splits)
qed (simp add: lock_of_def)

section \<open>The operations\<close>

lemma write_lock_simps [simp]:
  "r_kind (write_lock s d reg) = r_kind reg"
  "lock_of (write_lock s d reg) t = (if t = s then read_lock (Some (Some (JObj d))) else lock_of reg t)"
  by (simp_all add: write_lock_def lock_of_def map_of_update_cases)

lemma lock_of_unlink [simp]: "lock_of (unlink s reg) t = (if t = s then None else lock_of reg t)"
  by (simp add: lock_of_def)

lemma touch_kind [simp]: "r_kind (touch ok s now reg) = r_kind reg"
  by (simp add: touch_def touch_write_def split: option.split)

lemma lock_of_touch:
  "lock_of (touch ok s now reg) t =
     (if t = s \<and> ok then map_option (\<lambda>i. (norm_lock i)\<lparr>l_started := trunc now\<rparr>) (lock_of reg s)
      else lock_of reg t)"
  by (cases "lock_of reg s")
     (simp_all add: touch_def touch_write_def touch_read_def to_dict_started)

lemma live_kind [simp]: "r_kind (snd (live_sessions env reg)) = r_kind reg"
  by (simp add: live_sessions_def Let_def)

lemma snd_live: "snd (live_sessions env reg) = snd (reap_stale env reg)"
  by (simp add: live_sessions_def Let_def)

lemma set_live:
  "i \<in> set (fst (live_sessions env reg)) \<longleftrightarrow>
     (\<exists>t. lock_of reg t = Some i \<and> \<not> stale_in env (r_kind reg) i)"
proof -
  let ?r = "snd (reap_stale env reg)"
  have "lock_of ?r t = Some j \<Longrightarrow> t \<in> fst ` set (r_locks ?r)" for t j
    by (cases "map_of (r_locks ?r) t") (auto simp: lock_of_def dest!: map_of_SomeD intro: image_eqI [rotated])
  then have "i \<in> set (fst (live_sessions env reg)) \<longleftrightarrow> (\<exists>t. lock_of ?r t = Some i)"
    by (auto simp: live_sessions_def Let_def set_map_filter)
  then show ?thesis by (auto simp: lock_of_reap split: option.splits if_splits)
qed

lemma live_ids:
  assumes "registry_ok reg"
  shows "map l_session_id (List.map_filter (lock_of reg) ts) = filter (\<lambda>t. lock_of reg t \<noteq> None) ts"
  using registry_lock_of [OF assms] by (induction ts) (auto split: option.split)

lemma distinct_live:
  assumes "registry_ok reg"
  shows "distinct (map l_session_id (fst (live_sessions env reg)))"
proof -
  let ?r = "snd (reap_stale env reg)"
  have ok: "registry_ok ?r" using assms by (rule registry_ok_reap)
  have "distinct (map l_session_id (List.map_filter (lock_of ?r) (json_files (r_locks ?r))))"
    using ok by (simp only: live_ids) (simp add: registry_ok_def)
  then show ?thesis by (simp add: live_sessions_def Let_def distinct_map)
qed

lemma live_mem_iff:
  assumes "registry_ok reg"
  shows "i \<in> set (fst (live_sessions env reg)) \<longleftrightarrow>
    lock_of reg (l_session_id i) = Some i \<and> \<not> stale_in env (r_kind reg) i"
  using registry_lock_of(1) [OF assms] by (auto simp: set_live)

lemma find_live:
  assumes "registry_ok reg"
  shows "find (\<lambda>i. l_session_id i = s) (fst (live_sessions env reg)) =
    (case lock_of reg s of None \<Rightarrow> None | Some i \<Rightarrow> if stale_in env (r_kind reg) i then None else Some i)"
proof (cases "find (\<lambda>i. l_session_id i = s) (fst (live_sessions env reg))")
  case None
  then have n: "\<forall>i \<in> set (fst (live_sessions env reg)). l_session_id i \<noteq> s"
    by (auto simp: find_None_iff)
  show ?thesis
  proof (cases "lock_of reg s")
    case (Some i)
    then show ?thesis
      using n None registry_lock_of(1) [OF assms Some] by (auto simp: live_mem_iff [OF assms])
  qed (simp add: None)
next
  case (Some i)
  then have "i \<in> set (fst (live_sessions env reg))" "l_session_id i = s"
    by (auto simp: find_Some_iff)
  with Some show ?thesis by (auto simp: live_mem_iff [OF assms])
qed

text \<open>The lock of one session after each operation.\<close>

definition kept :: "lock_env \<Rightarrow> registry \<Rightarrow> string \<Rightarrow> lock_info option" where
  "kept env reg t =
     (case lock_of reg t of None \<Rightarrow> None | Some i \<Rightarrow> if stale_in env (r_kind reg) i then None else Some i)"

lemma kept_eq: "lock_of (snd (reap_stale env reg)) t = kept env reg t"
  by (simp add: lock_of_reap kept_def)

lemma lock_of_acquire:
  "lock_of (snd (acquire env i reg)) t =
     (if \<not> is_ok (validate_session_id (l_session_id i)) then lock_of reg t
      else if t = l_session_id i \<and> kept env reg t = None \<and> e_disk_ok env then Some (norm_lock i)
      else kept env reg t)"
  by (auto simp: acquire_def acquire_check_def acquire_write_def Let_def kept_eq split: sum.split)

lemma fst_acquire:
  "fst (acquire env i reg) =
     (if \<not> is_ok (validate_session_id (l_session_id i)) then Inl (Invalid_Session_Id (l_session_id i))
      else if kept env reg (l_session_id i) \<noteq> None then Inl (Duplicate_Session (l_session_id i))
      else if e_disk_ok env then Inr i else Inl Disk_Error)"
  by (auto simp: acquire_def acquire_check_def acquire_write_def Let_def kept_eq
      validate_session_id_def split: sum.split)

lemma resolve_own:
  assumes "registry_ok reg"
  shows "fst (resolve env (Some s) now reg) =
      (case kept env reg s of None \<Rightarrow> Inl (Unknown_Session s) | Some i \<Rightarrow> Inr (Some i))"
    "lock_of (snd (resolve env (Some s) now reg)) t =
      (if t = s \<and> e_disk_ok env then map_option (\<lambda>i. (norm_lock i)\<lparr>l_started := trunc now\<rparr>) (kept env reg s)
       else kept env reg t)"
proof -
  have f: "find (\<lambda>i. l_session_id i = s) (fst (live_sessions env reg)) = kept env reg s"
    by (simp add: find_live [OF assms] kept_def)
  have id: "kept env reg s = Some i \<Longrightarrow> l_session_id i = s" for i
    using registry_lock_of(1) [OF assms, of s i] by (auto simp: kept_def split: option.splits if_splits)
  show "fst (resolve env (Some s) now reg) =
      (case kept env reg s of None \<Rightarrow> Inl (Unknown_Session s) | Some i \<Rightarrow> Inr (Some i))"
    by (simp add: resolve_def case_prod_beta Let_def f split: option.split)
  show "lock_of (snd (resolve env (Some s) now reg)) t =
      (if t = s \<and> e_disk_ok env then map_option (\<lambda>i. (norm_lock i)\<lparr>l_started := trunc now\<rparr>) (kept env reg s)
       else kept env reg t)"
    using id by (auto simp: resolve_def case_prod_beta Let_def f snd_live lock_of_touch kept_eq split: option.split)
qed

lemma resolve_any_lock:
  "lock_of (snd (resolve env None now reg)) t \<in>
     {kept env reg t, map_option (\<lambda>i. (norm_lock i)\<lparr>l_started := trunc now\<rparr>) (kept env reg t)}"
  by (auto simp: resolve_def case_prod_beta Let_def snd_live lock_of_touch kept_eq split: list.split)

lemma lock_of_release: "lock_of (snd (release s reg)) t = (if t = s then None else lock_of reg t)"
  by (auto simp: release_def lock_of_def)

lemma run_op_kind [simp]: "r_kind (run_op eo reg) = r_kind reg"
proof (cases eo)
  case (Pair env opn)
  then show ?thesis
    by (cases opn)
       (auto simp: acquire_def acquire_check_def acquire_write_def resolve_def release_def Let_def
         case_prod_beta split: sum.split option.split list.split)
qed

lemma registry_ok_touch:
  assumes "registry_ok reg" shows "registry_ok (touch ok s now reg)"
proof (cases "lock_of reg s")
  case (Some i)
  then show ?thesis
    using registry_lock_of [OF assms Some] registry_ok_write [OF assms, of "i\<lparr>l_started := trunc now\<rparr>" s] assms
    by (simp add: touch_def touch_write_def touch_read_def to_dict_started)
qed (simp add: assms touch_def touch_write_def touch_read_def)

lemma registry_ok_run_op: "registry_ok reg \<Longrightarrow> registry_ok (run_op eo reg)"
proof (cases eo)
  case (Pair env opn)
  assume ok: "registry_ok reg"
  have live: "registry_ok (snd (live_sessions env reg))"
    using ok by (simp add: snd_live registry_ok_reap)
  show ?thesis
  proof (cases opn)
    case (Acquire i)
    then show ?thesis
      using ok registry_ok_reap [OF ok, of env] registry_ok_write [of "snd (reap_stale env reg)" i "l_session_id i"] Pair
      by (auto simp: acquire_def acquire_check_def acquire_write_def Let_def split: sum.split)
  next
    case (Resolve s now)
    then show ?thesis
      using live registry_ok_touch Pair
      by (auto simp: resolve_def case_prod_beta Let_def split: option.split list.split)
  qed (use ok live Pair registry_ok_unlink in \<open>auto simp: release_def\<close>)
qed

lemma registry_ok_run_ops: "registry_ok reg \<Longrightarrow> registry_ok (run_ops ops reg)"
  unfolding run_ops_def by (induction ops arbitrary: reg) (simp_all add: registry_ok_run_op)

section \<open>Heartbeats and abandoned sessions\<close>

text \<open>
  In the history \<open>ops\<close> nobody releases \<open>s\<close>, its process lives whenever the registry is scanned,
  and every scan finds its last heartbeat \<open>t\<close> within the timeout.  A call without a session name
  may or may not be its heartbeat.
\<close>

definition in_time :: "lock_env \<Rightarrow> string \<Rightarrow> int \<Rightarrow> int \<Rightarrow> bool" where
  "in_time env kind p t \<longleftrightarrow>
     (p > 0 \<longrightarrow> e_pid_alive env p) \<and> e_now env - rat_of_int t \<le> stale_after_of env kind"

fun attended :: "string \<Rightarrow> string \<Rightarrow> int \<Rightarrow> int \<Rightarrow> (lock_env \<times> lock_op) list \<Rightarrow> bool" where
  "attended kind s p t [] \<longleftrightarrow> True"
| "attended kind s p t ((env, opn) # ops) \<longleftrightarrow>
     (case opn of
        Release s' \<Rightarrow> s' \<noteq> s \<and> attended kind s p t ops
      | Acquire i \<Rightarrow> in_time env kind p t \<and> attended kind s p t ops
      | Live \<Rightarrow> in_time env kind p t \<and> attended kind s p t ops
      | Resolve (Some s') now \<Rightarrow>
          in_time env kind p t \<and> attended kind s p (if s' = s \<and> e_disk_ok env then trunc now else t) ops
      | Resolve None now \<Rightarrow>
          in_time env kind p t \<and> attended kind s p t ops \<and> attended kind s p (trunc now) ops)"

lemma stale_in_time: "stale_in env kind i \<longleftrightarrow> \<not> in_time env kind (l_pid i) (l_started i)"
  by (auto simp: is_stale_def in_time_def)

lemma attended_step:
  assumes ok: "registry_ok reg" and i: "lock_of reg s = Some i"
    and a: "attended (r_kind reg) s (l_pid i) (l_started i) (eo # ops)"
  obtains j where "lock_of (run_op eo reg) s = Some j" "l_pid j = l_pid i"
    "attended (r_kind reg) s (l_pid j) (l_started j) ops"
proof -
  obtain env opn where eo: "eo = (env, opn)" by (cases eo)
  have k: "in_time env (r_kind reg) (l_pid i) (l_started i) \<Longrightarrow> kept env reg s = Some i"
    by (simp add: kept_def i stale_in_time)
  show thesis
  proof (cases opn)
    case (Acquire j)
    with a eo k i that [of i] show thesis by (auto simp: lock_of_acquire split: if_splits)
  next
    case (Resolve x now)
    show thesis
    proof (cases x)
      case None
      with a eo Resolve k have "kept env reg s = Some i" by simp
      with resolve_any_lock [of env now reg s] None Resolve eo a that [of i]
        that [of "(norm_lock i)\<lparr>l_started := trunc now\<rparr>"] show thesis by auto
    next
      case (Some s')
      with a eo Resolve k have "kept env reg s = Some i" by simp
      then show thesis
        using Some Resolve eo a that [of i] that [of "(norm_lock i)\<lparr>l_started := trunc now\<rparr>"]
        by (auto simp: resolve_own(2) [OF ok] split: if_splits)
    qed
  next
    case Live
    with a eo k i that [of i] show thesis by (auto simp: snd_live kept_eq)
  next
    case (Release s')
    with a eo i that [of i] show thesis by (auto simp: lock_of_release)
  qed
qed

lemma attended_run:
  assumes "registry_ok reg" and "lock_of reg s = Some i"
    and "attended (r_kind reg) s (l_pid i) (l_started i) (ops @ later)"
  shows "\<exists>j. lock_of (run_ops ops reg) s = Some j \<and> l_pid j = l_pid i
    \<and> attended (r_kind reg) s (l_pid j) (l_started j) later"
  using assms
proof (induction ops arbitrary: reg i)
  case (Cons eo ops)
  obtain j where j: "lock_of (run_op eo reg) s = Some j" "l_pid j = l_pid i"
    "attended (r_kind reg) s (l_pid j) (l_started j) (ops @ later)"
    using attended_step [of reg s i eo "ops @ later"] Cons.prems by auto
  with Cons.IH [OF registry_ok_run_op [OF Cons.prems(1)], of eo j] show ?case
    by (simp add: run_ops_def)
qed (simp add: run_ops_def)

lemma run_ops_kind [simp]: "r_kind (run_ops ops reg) = r_kind reg"
  unfolding run_ops_def by (induction ops arbitrary: reg) simp_all

text \<open>Calls that are not made for session \<open>s\<close>, and calls that scan the registry.\<close>

definition other_op :: "string \<Rightarrow> lock_op \<Rightarrow> bool" where
  "other_op s opn \<longleftrightarrow>
     (case opn of Acquire i \<Rightarrow> l_session_id i \<noteq> s | Resolve x _ \<Rightarrow> x \<noteq> None \<and> x \<noteq> Some s | _ \<Rightarrow> True)"

definition scans :: "lock_op \<Rightarrow> bool" where
  "scans opn \<longleftrightarrow>
     (case opn of Acquire i \<Rightarrow> is_ok (validate_session_id (l_session_id i)) | Release _ \<Rightarrow> False | _ \<Rightarrow> True)"

lemma other_op_lock:
  assumes "registry_ok reg" and "other_op s opn"
  shows "lock_of (run_op (env, opn) reg) s \<in> {None, lock_of reg s}"
    and "scans opn \<Longrightarrow> lock_of (run_op (env, opn) reg) s = kept env reg s"
proof -
  have k: "kept env reg s \<in> {None, lock_of reg s}" by (auto simp: kept_def split: option.split)
  show "scans opn \<Longrightarrow> lock_of (run_op (env, opn) reg) s = kept env reg s"
    using assms by (cases opn)
      (auto simp: other_op_def scans_def lock_of_acquire snd_live kept_eq resolve_own(2) split: if_splits)
  show "lock_of (run_op (env, opn) reg) s \<in> {None, lock_of reg s}"
    using assms k by (cases opn)
      (auto simp: other_op_def lock_of_acquire snd_live kept_eq resolve_own(2) lock_of_release
        split: if_splits)
qed

lemma abandoned_run:
  assumes "registry_ok reg" and "\<forall>(env, opn) \<in> set ops. other_op s opn"
    and "lock_of reg s = None \<or>
      (lock_of reg s = Some i \<and> (\<exists>(env, opn) \<in> set ops. scans opn \<and> stale_in env (r_kind reg) i))"
  shows "lock_of (run_ops ops reg) s = None"
  using assms
proof (induction ops arbitrary: reg)
  case Nil
  then show ?case by (simp add: run_ops_def)
next
  case (Cons eo ops)
  obtain env opn where eo: "eo = (env, opn)" by (cases eo)
  note step = other_op_lock [OF Cons.prems(1), of s opn env]
  have "lock_of (run_op eo reg) s = None \<or>
      (lock_of (run_op eo reg) s = Some i \<and> (\<exists>(env, opn) \<in> set ops. scans opn \<and> stale_in env (r_kind reg) i))"
    using Cons.prems(2,3) step by (auto simp: eo kept_def)
  with Cons.IH [OF registry_ok_run_op [OF Cons.prems(1)], of eo] Cons.prems(2) show ?case
    by (simp add: run_ops_def)
qed

end
