(* ===== verification/Lock_Properties.thy ===== *)
theory Lock_Properties
  imports Session_Locks_Safety
begin

text \<open>
  What the session lock registry guarantees, on concrete registries in the instances: the
  registry written by its own operations, isolation of sessions, attribution of a command to a
  session, heartbeats, recovery after a crash, and the limits of operations that read a lock
  file first and write it later.
\<close>

section \<open>Concrete registries\<close>

definition sample_lock :: "string \<Rightarrow> int \<Rightarrow> int \<Rightarrow> lock_info" where
  "sample_lock s pid started =
     \<lparr>l_session_id = s, l_actor_id = ''agent'', l_skill_id = ''work'', l_pid = pid, l_started = started,
      l_parent = None, l_fork = None\<rparr>"

definition sample_registry :: "string \<Rightarrow> lock_info list \<Rightarrow> registry" where
  "sample_registry kind locks =
     \<lparr>r_kind = kind, r_locks = map (\<lambda>i. (l_session_id i, Some (JObj (to_dict i)))) locks, r_metas = []\<rparr>"

text \<open>Process 7 lives, process 8 has died.\<close>

definition sample_env :: "rat \<Rightarrow> lock_env" where
  "sample_env now =
     \<lparr>e_now = now, e_stale_after = None,
      e_pid_alive = pid_alive (\<lambda>p. if p = 8 then Process_Lookup_Error else Kill_Ok), e_disk_ok = True\<rparr>"

definition two_sessions :: registry where
  "two_sessions = sample_registry ''execution'' [sample_lock ''s-a'' 7 1000, sample_lock ''s-b'' 8 1000]"

lemma two_sessions_ok: "registry_ok two_sessions"
  by code_simp

section \<open>Properties\<close>



text \<open>C19: Sessions are isolated: an operation that one session makes on its own lock (start,
  heartbeat, end) leaves the lock file of every other session unchanged, to the byte, unless
  that session has itself gone stale.\<close>

theorem session_isolation:
  assumes "lock_of reg t = Some j" and "\<not> stale_in env (r_kind reg) j" and "t \<noteq> s"
  shows "(l_session_id i = s \<longrightarrow> map_of (r_locks (snd (acquire env i reg))) t = map_of (r_locks reg) t)
    \<and> map_of (r_locks (snd (resolve env (Some s) now reg))) t = map_of (r_locks reg) t
    \<and> map_of (r_locks (snd (release s reg))) t = map_of (r_locks reg) t"
proof -
  have k: "map_of (r_locks (snd (reap_stale env reg))) t = map_of (r_locks reg) t"
    using assms(1,2) by (simp add: map_of_reap reap_decision_def flip: lock_of_def)
  have "map_of (r_locks (touch b s now reg')) t = map_of (r_locks reg') t" for b and reg' :: registry
    using assms(3)
    by (simp add: touch_def touch_write_def write_lock_def map_of_update_cases split: option.split)
  then have "map_of (r_locks (snd (resolve env (Some s) now reg))) t = map_of (r_locks reg) t"
    by (auto simp: resolve_def case_prod_beta Let_def snd_live k find_Some_iff split: option.split)
  with assms(3) k show ?thesis
    by (auto simp: acquire_def acquire_check_def acquire_write_def Let_def release_def write_lock_def
        map_of_update_cases split: sum.split)
qed

theorem session_isolation_witness:
  "map_of (r_locks (snd (resolve (sample_env 1100) (Some ''s-b'') 1100 two_sessions))) ''s-a''
     = map_of (r_locks two_sessions) ''s-a''"
proof -
  have "lock_of two_sessions ''s-a'' = Some (sample_lock ''s-a'' 7 1000)"
    "\<not> stale_in (sample_env 1100) (r_kind two_sessions) (sample_lock ''s-a'' 7 1000)" by code_simp+
  then show ?thesis
    using session_isolation [of two_sessions "''s-a''" "sample_lock ''s-a'' 7 1000" "sample_env 1100" "''s-b''"
        "sample_lock ''s-b'' 0 1100" 1100] by simp
qed

text \<open>A command is attributed to the right session.  With an explicit session the result is
  that session's lock if it is live and the error \<open>Unknown_Session\<close> otherwise.  Without one the
  result is the only live session, nothing when none is live, and the error
  \<open>Ambiguous_Active_Session\<close> when there are several: never a guess.\<close>

theorem resolve_binds_session:
  assumes "registry_ok reg"
    and "live = {i. \<exists>t. lock_of reg t = Some i \<and> \<not> stale_in env (r_kind reg) i}"
  shows "fst (resolve env (Some s) now reg) =
      (case lock_of reg s of
         Some i \<Rightarrow> if stale_in env (r_kind reg) i then Inl (Unknown_Session s) else Inr (Some i)
       | None \<Rightarrow> Inl (Unknown_Session s))
    \<and> (lock_of reg s = Some i \<longrightarrow> l_session_id i = s)
    \<and> (fst (resolve env None now reg) = Inr None \<longleftrightarrow> live = {})
    \<and> (fst (resolve env None now reg) = Inr (Some i) \<longleftrightarrow> live = {i})
    \<and> ((\<exists>ids. fst (resolve env None now reg) = Inl (Ambiguous_Active_Session ids)) \<longleftrightarrow>
         (\<exists>i j. {i, j} \<subseteq> live \<and> i \<noteq> j))"
proof -
  let ?live = "fst (live_sessions env reg)"
  have l: "set ?live = live" using assms(2) by (auto simp: set_live)
  have d: "distinct ?live" using distinct_live [OF assms(1)] by (simp add: distinct_map)
  have r: "fst (resolve env None now reg) =
      (case ?live of [] \<Rightarrow> Inr None | [i] \<Rightarrow> Inr (Some i)
       | _ \<Rightarrow> Inl (Ambiguous_Active_Session (map l_session_id ?live)))"
    by (simp add: resolve_def case_prod_beta Let_def split: list.split)
  have "(fst (resolve env None now reg) = Inr None \<longleftrightarrow> live = {})
    \<and> (fst (resolve env None now reg) = Inr (Some i) \<longleftrightarrow> live = {i})
    \<and> ((\<exists>ids. fst (resolve env None now reg) = Inl (Ambiguous_Active_Session ids)) \<longleftrightarrow>
         (\<exists>i j. {i, j} \<subseteq> live \<and> i \<noteq> j))"
    unfolding r using d unfolding l [symmetric]
    by (cases ?live rule: remdups_adj.cases) (auto simp: r)
  then show ?thesis
    using resolve_own(1) [OF assms(1), of env s now] registry_lock_of(1) [OF assms(1), of s i]
    by (auto simp: kept_def split: option.split)
qed

theorem resolve_binds_session_witness:
  "fst (resolve (sample_env 1100) (Some ''s-b'') 1100 two_sessions) = Inl (Unknown_Session ''s-b'')
   \<and> fst (resolve (sample_env 1100) None 1100 two_sessions) = Inr (Some (sample_lock ''s-a'' 7 1000))"
proof -
  let ?a = "sample_lock ''s-a'' 7 1000" and ?b = "sample_lock ''s-b'' 8 1000"
  have b: "lock_of two_sessions ''s-b'' = Some ?b" "stale_in (sample_env 1100) (r_kind two_sessions) ?b"
    and a: "lock_of two_sessions ''s-a'' = Some ?a" "\<not> stale_in (sample_env 1100) (r_kind two_sessions) ?a"
    by code_simp+
  have "lock_of two_sessions t = Some i \<Longrightarrow> t = ''s-a'' \<and> i = ?a \<or> t = ''s-b'' \<and> i = ?b" for t i
    using a(1) b(1) by (auto simp: two_sessions_def sample_registry_def lock_of_def split: if_splits)
  then have "{i. \<exists>t. lock_of two_sessions t = Some i \<and> \<not> stale_in (sample_env 1100) (r_kind two_sessions) i} = {?a}"
    using a b by auto
  then show ?thesis
    using resolve_binds_session [OF two_sessions_ok refl, of "sample_env 1100" "''s-b''" 1100 ?a] b by simp
qed

text \<open>C20: A session that keeps working keeps its lock: as long as its process lives and no scan
  comes later than the timeout of its kind after its last command, no history of calls by any
  number of other sessions, crashes and recoveries takes the lock away, and its next command
  finds it.\<close>

theorem heartbeat_keeps_session:
  assumes "registry_ok reg" and "lock_of reg s = Some i"
    and "attended (r_kind reg) s (l_pid i) (l_started i) (ops @ [(env, Resolve (Some s) now)])"
  shows "\<exists>j. fst (resolve env (Some s) now (run_ops ops reg)) = Inr (Some j) \<and> l_session_id j = s \<and> l_pid j = l_pid i"
proof -
  have ok: "registry_ok (run_ops ops reg)" using assms(1) by (rule registry_ok_run_ops)
  obtain j where j: "lock_of (run_ops ops reg) s = Some j" "l_pid j = l_pid i"
    "attended (r_kind reg) s (l_pid j) (l_started j) [(env, Resolve (Some s) now)]"
    using attended_run [OF assms] by blast
  then have "kept env (run_ops ops reg) s = Some j" by (simp add: kept_def stale_in_time)
  with j registry_lock_of(1) [OF ok j(1)] show ?thesis by (simp add: resolve_own(1) [OF ok])
qed

text \<open>Session \<open>s-a\<close> works every twenty minutes while another session starts and a third dies.\<close>

definition busy_hour :: "(lock_env \<times> lock_op) list" where
  "busy_hour =
     [(sample_env 1200, Acquire (sample_lock ''s-c'' 9 1200)), (sample_env 2200, Resolve (Some ''s-a'') 2200),
      (sample_env 3300, Live), (sample_env 3400, Resolve (Some ''s-a'') 3400), (sample_env 3500, Release ''s-c'')]"

theorem heartbeat_keeps_session_witness:
  "\<exists>j. fst (resolve (sample_env 4600) (Some ''s-a'') 4600 (run_ops busy_hour two_sessions)) = Inr (Some j)
       \<and> l_session_id j = ''s-a'' \<and> l_pid j = 7"
proof -
  have "lock_of two_sessions ''s-a'' = Some (sample_lock ''s-a'' 7 1000)" by code_simp
  moreover have "attended (r_kind two_sessions) ''s-a'' (l_pid (sample_lock ''s-a'' 7 1000)) (l_started (sample_lock ''s-a'' 7 1000))
      (busy_hour @ [(sample_env 4600, Resolve (Some ''s-a'') 4600)])" by code_simp
  ultimately show ?thesis
    using heartbeat_keeps_session [OF two_sessions_ok, of "''s-a''" "sample_lock ''s-a'' 7 1000"]
    by (simp add: sample_lock_def)
qed

text \<open>A crashed session blocks nobody for good: when nobody works in the session any more, the
  first call of the registry by anybody that comes after its process died, or after its timeout,
  removes its lock; from then on the session cannot be resolved and its identifier can be taken
  again by a start, which succeeds.\<close>

theorem abandoned_session_is_freed:
  assumes "registry_ok reg" and "lock_of reg s = Some i"
    and "\<forall>(env, opn) \<in> set ops. other_op s opn"
    and "(env, opn) \<in> set ops" and "scans opn" and "stale_in env (r_kind reg) i"
  shows "fst (resolve env' (Some s) now (run_ops ops reg)) = Inl (Unknown_Session s)
    \<and> (e_disk_ok env' \<longrightarrow> l_session_id j = s \<longrightarrow>
        fst (acquire env' j (run_ops ops reg)) = Inr j
        \<and> lock_of (snd (acquire env' j (run_ops ops reg))) s = Some (norm_lock j))"
proof -
  have ok: "registry_ok (run_ops ops reg)" using assms(1) by (rule registry_ok_run_ops)
  have "lock_of (run_ops ops reg) s = None"
    using assms(2,4-6) by (intro abandoned_run [OF assms(1,3), of i]) auto
  then have "kept env' (run_ops ops reg) s = None" by (simp add: kept_def)
  then show ?thesis
    using registry_lock_of(2) [OF assms(1,2)]
    by (auto simp: resolve_own(1) [OF ok] fst_acquire lock_of_acquire)
qed

theorem abandoned_session_is_freed_witness:
  "fst (acquire (sample_env 1100) (sample_lock ''s-b'' 0 1100)
     (run_ops [(sample_env 1001, Resolve (Some ''s-a'') 1001)] two_sessions)) = Inr (sample_lock ''s-b'' 0 1100)"
proof -
  have "lock_of two_sessions ''s-b'' = Some (sample_lock ''s-b'' 8 1000)"
    "stale_in (sample_env 1001) (r_kind two_sessions) (sample_lock ''s-b'' 8 1000)"
    "scans (Resolve (Some ''s-a'') 1001)" "other_op ''s-b'' (Resolve (Some ''s-a'') 1001)"
    "e_disk_ok (sample_env 1100)" "l_session_id (sample_lock ''s-b'' 0 1100) = ''s-b''"
    by code_simp+
  then show ?thesis
    using abandoned_session_is_freed [OF two_sessions_ok, of "''s-b''" "sample_lock ''s-b'' 8 1000"
        "[(sample_env 1001, Resolve (Some ''s-a'') 1001)]" "sample_env 1001" "Resolve (Some ''s-a'') 1001"
        "sample_env 1100" 1100 "sample_lock ''s-b'' 0 1100"] by simp
qed

text \<open>C39: The operations are atomic only if nobody else works between their read and their write
  of a lock file, which the code does not ensure.  A heartbeat that read the lock before the
  session was released brings the lock back; a scan that judged a lock stale just before its
  heartbeat removes the lock of the session that is now live; two starts of the same session
  that both checked first both succeed, and the second one overwrites the lock of the first.\<close>

theorem interleaved_calls_break_locks:
  assumes "registry_ok reg" and "lock_of reg s = Some i"
    and "stale_in env_a (r_kind reg) i" and "\<not> stale_in env_b (r_kind reg) i" and "e_disk_ok env_b"
    and "l_session_id a = u" and "l_session_id b = u" and "is_ok (validate_session_id u)"
    and "lock_of reg u = None"
  shows "fst (release s reg)
      \<and> lock_of (touch_write True s (touch_read s now reg) (snd (release s reg))) s
          = Some ((norm_lock i)\<lparr>l_started := trunc now\<rparr>)
    \<and> reap_decision env_a (r_kind reg) s (map_of (r_locks reg) s) = Some s
      \<and> fst (resolve env_b (Some s) now reg) = Inr (Some i)
      \<and> lock_of (unlink s (snd (resolve env_b (Some s) now reg))) s = None
    \<and> fst (acquire_check env_b u reg) = Inr ()
      \<and> fst (acquire env_b b reg) = Inr b
      \<and> fst (acquire_write env_b a (snd (acquire env_b b reg))) = Inr a
      \<and> lock_of (snd (acquire_write env_b a (snd (acquire env_b b reg)))) u = Some (norm_lock a)"
proof -
  have "l_session_id i = s" using registry_lock_of(1) [OF assms(1,2)] .
  have r: "reap_decision env_a (r_kind reg) s (map_of (r_locks reg) s) = Some s"
    using assms(2,3) \<open>l_session_id i = s\<close> by (simp add: reap_decision_def flip: lock_of_def)
  have "kept env_b reg s = Some i" "kept env_b reg u = None"
    using assms(2,4,9) by (simp_all add: kept_def)
  moreover have "map_of (r_locks reg) s \<noteq> None"
    using registry_readable [OF assms(1), of s] assms(2) by simp
  ultimately show ?thesis
    using assms(5-9) r assms(2)
    by (auto simp: resolve_own(1) [OF assms(1)] fst_acquire release_def touch_write_def touch_read_def
        to_dict_started acquire_check_def acquire_write_def Let_def kept_eq split: sum.split)
qed

theorem interleaved_calls_break_locks_witness:
  "lock_of (touch_write True ''s-a'' (touch_read ''s-a'' 2800 two_sessions) (snd (release ''s-a'' two_sessions))) ''s-a''
     = Some (sample_lock ''s-a'' 7 2800)
   \<and> lock_of (unlink ''s-a'' (snd (resolve (sample_env 2800) (Some ''s-a'') 2800 two_sessions))) ''s-a'' = None"
proof -
  let ?i = "sample_lock ''s-a'' 7 1000" and ?b = "sample_lock ''s-d'' 0 2800"
  have "lock_of two_sessions ''s-a'' = Some ?i" "stale_in (sample_env 2801) (r_kind two_sessions) ?i"
    "\<not> stale_in (sample_env 2800) (r_kind two_sessions) ?i" "e_disk_ok (sample_env 2800)"
    "l_session_id ?b = ''s-d''" "is_ok (validate_session_id ''s-d'')" "lock_of two_sessions ''s-d'' = None"
    "(norm_lock ?i)\<lparr>l_started := trunc 2800\<rparr> = sample_lock ''s-a'' 7 2800"
    by code_simp+
  then show ?thesis
    using interleaved_calls_break_locks [OF two_sessions_ok, of "''s-a''" ?i "sample_env 2801" "sample_env 2800" ?b "''s-d''" ?b 2800]
    by simp
qed

end
