(* ===== verification/Retention_Stores.thy ===== *)
theory Retention_Stores
  imports Documents Event_Log_Reads Complex_Main
begin

text \<open>
  What garbage collection consults besides the log: the cursors of the registered consumers
  (\<open>l0/event_log/cursor.py\<close>), the retention leases (\<open>l0/event_log/lease.py\<close>), the retention
  policy (\<open>l0/snapshot/retention_policy.py\<close>) and the state files of the snapshot module
  (\<open>l0/snapshot/state.py\<close>).  A store is its directory; a file holds a document of the right
  shape, or \<open>None\<close>, where the validating reader raises.
\<close>

section \<open>Errors and shared loops\<close>

datatype store_err =
    Validation_Error
  | Key_Error string
  | Cursor_Backwards int int
  | Naive_Aware_Comparison
  | Log_Error verr

text \<open>Reading a list of files stops at the first that does not validate.\<close>

fun read_all :: "'a option list \<Rightarrow> store_err + 'a list" where
  "read_all [] = Inr []"
| "read_all (None # fs) = Inl Validation_Error"
| "read_all (Some a # fs) = rbind (read_all fs) (\<lambda>as. Inr (a # as))"

lemma read_all_Inr: "read_all fs = Inr as \<longleftrightarrow> fs = map Some as"
proof (induction fs arbitrary: as)
  case (Cons f fs)
  then show ?case by (cases f) (auto simp: py_simps)
qed auto

definition read_doc :: "'a option dir \<Rightarrow> string \<Rightarrow> store_err + 'a option" where
  "read_doc d name =
     (case map_of d name of
        None \<Rightarrow> Inr None
      | Some None \<Rightarrow> Inl Validation_Error
      | Some (Some a) \<Rightarrow> Inr (Some a))"

section \<open>Consumer cursors\<close>

record cursor =
  c_consumer_id :: string
  c_consumer_type :: string
  c_categories :: "string list option"
  c_types :: "string list option"
  c_last_seq :: int
  c_updated_at :: string

definition cursor_valid :: "cursor \<Rightarrow> bool" where
  "cursor_valid c \<longleftrightarrow> c_consumer_id c \<noteq> [] \<and> c_consumer_type c \<noteq> [] \<and> c_last_seq c \<ge> 0"

type_synonym cursor_store = "cursor option dir"

definition write_cursor :: "cursor \<Rightarrow> cursor_store \<Rightarrow> cursor_store" where
  "write_cursor c st = AList.update (c_consumer_id c) (Some c) st"

definition register_cursor :: "string \<Rightarrow> string \<Rightarrow> string list option \<Rightarrow> string list option \<Rightarrow> string
    \<Rightarrow> cursor_store \<Rightarrow> (store_err + cursor) \<times> cursor_store" where
  "register_cursor cid ctype categories types now st =
     (let c = \<lparr>c_consumer_id = cid, c_consumer_type = ctype, c_categories = categories, c_types = types,
               c_last_seq = 0, c_updated_at = now\<rparr>
      in if cursor_valid c then (Inr c, write_cursor c st) else (Inl Validation_Error, st))"

definition advance_cursor :: "string \<Rightarrow> int \<Rightarrow> string \<Rightarrow> cursor_store
    \<Rightarrow> (store_err + cursor) \<times> cursor_store" where
  "advance_cursor cid new_seq now st =
     (case read_doc st cid of
        Inl e \<Rightarrow> (Inl e, st)
      | Inr None \<Rightarrow> (Inl (Key_Error cid), st)
      | Inr (Some c) \<Rightarrow>
          (if new_seq < c_last_seq c then (Inl (Cursor_Backwards (c_last_seq c) new_seq), st)
           else (let c' = c\<lparr>c_last_seq := new_seq, c_updated_at := now\<rparr> in (Inr c', write_cursor c' st))))"

definition all_cursors :: "cursor_store \<Rightarrow> store_err + cursor list" where
  "all_cursors st = read_all (map snd st)"

definition retention_watermark :: "cursor_store \<Rightarrow> store_err + int" where
  "retention_watermark st =
     rbind (all_cursors st) (\<lambda>cs. Inr (if cs = [] then 0 else Min (set (map c_last_seq cs))))"

definition retention_watermark_with_default :: "int \<Rightarrow> cursor_store \<Rightarrow> store_err + int" where
  "retention_watermark_with_default dflt st =
     rbind (all_cursors st) (\<lambda>cs. Inr (if cs = [] then dflt else Min (set (map c_last_seq cs))))"

section \<open>Retention leases\<close>

datatype lease_reason = ACTIVE_TASK | RESOLVER_CACHE | CAPSULE_RECONSTRUCTION

record lease =
  le_lease_id :: string
  le_owner :: string
  le_reason :: lease_reason
  le_min_seq :: "int option"
  le_event_ids :: "string list option"
  le_input_hashes :: "string list option"
  le_expires_at :: string
  le_created_at :: string

definition lease_valid :: "lease \<Rightarrow> bool" where
  "lease_valid l \<longleftrightarrow> le_lease_id l \<noteq> [] \<and> (case le_min_seq l of None \<Rightarrow> True | Some n \<Rightarrow> n \<ge> 0)"

type_synonym lease_store = "lease option dir"

definition create_lease :: "lease \<Rightarrow> lease_store \<Rightarrow> (store_err + lease) \<times> lease_store" where
  "create_lease l st =
     (if lease_valid l then (Inr l, AList.update (le_lease_id l) (Some l) st) else (Inl Validation_Error, st))"

definition release_lease :: "string \<Rightarrow> lease_store \<Rightarrow> bool \<times> lease_store" where
  "release_lease lid st = (if map_of st lid = None then (False, st) else (True, AList.delete lid st))"

definition all_leases :: "lease_store \<Rightarrow> store_err + lease list" where
  "all_leases st = read_all (map (the \<circ> map_of st) (json_files st))"

text \<open>A moment of Python: with a time zone or without; the two kinds do not compare.\<close>

datatype moment = Naive int | Aware int

fun later :: "moment \<Rightarrow> moment \<Rightarrow> store_err + bool" where
  "later (Naive a) (Naive b) = Inr (a > b)"
| "later (Aware a) (Aware b) = Inr (a > b)"
| "later _ _ = Inl Naive_Aware_Comparison"

text \<open>\<open>from_iso\<close> is \<open>datetime.fromisoformat\<close>.\<close>

definition lease_active :: "(string \<Rightarrow> moment option) \<Rightarrow> moment \<Rightarrow> lease \<Rightarrow> store_err + bool" where
  "lease_active from_iso now l =
     (case from_iso (le_expires_at l) of None \<Rightarrow> Inr False | Some t \<Rightarrow> later t now)"

definition active_leases :: "(string \<Rightarrow> moment option) \<Rightarrow> moment \<Rightarrow> lease_store \<Rightarrow> store_err + lease list" where
  "active_leases from_iso now st =
     rbind (all_leases st)
       (rfold (\<lambda>acc l. rbind (lease_active from_iso now l) (\<lambda>b. Inr (if b then acc @ [l] else acc))) [])"

section \<open>Retention policy\<close>

datatype retention_action =
    KEEP_HOT_FOREVER
  | ARCHIVE_TO_COLD_AFTER_GC_UNREACHABLE
  | DIGEST_THEN_ARCHIVE
  | DISCARD_AFTER_CONSUMERS_ADVANCE

definition retention_action_of :: "string \<Rightarrow> retention_action option" where
  "retention_action_of s =
     (if s = ''keep_hot_forever'' then Some KEEP_HOT_FOREVER
      else if s = ''archive_to_cold_after_gc_unreachable'' then Some ARCHIVE_TO_COLD_AFTER_GC_UNREACHABLE
      else if s = ''digest_then_archive'' then Some DIGEST_THEN_ARCHIVE
      else if s = ''discard_after_consumers_advance'' then Some DISCARD_AFTER_CONSUMERS_ADVANCE
      else None)"

fun default_retention_action :: "base_class \<Rightarrow> retention_action" where
  "default_retention_action IMMUTABLE_TRUTH = ARCHIVE_TO_COLD_AFTER_GC_UNREACHABLE"
| "default_retention_action ABSTRACTABLE_PROCESS = DIGEST_THEN_ARCHIVE"
| "default_retention_action DISCARDABLE_NOISE = DISCARD_AFTER_CONSUMERS_ADVANCE"

text \<open>The first rule for the class whose action is one of the enumeration.\<close>

fun matching_rule :: "base_class \<Rightarrow> dict list \<Rightarrow> retention_action option" where
  "matching_rule c [] = None"
| "matching_rule c (rule # rules) =
     (if dget rule ''base_classification'' = JStr (base_class_value c)
      then (case as_str (dget rule ''retention_action'') of
              Some s \<Rightarrow> (case retention_action_of s of Some a \<Rightarrow> Some a | None \<Rightarrow> matching_rule c rules)
            | None \<Rightarrow> matching_rule c rules)
      else matching_rule c rules)"

definition resolve_retention_action :: "base_class \<Rightarrow> dict list \<Rightarrow> retention_action" where
  "resolve_retention_action c rules =
     (let resolved = (case matching_rule c rules of Some a \<Rightarrow> a | None \<Rightarrow> default_retention_action c)
      in if c = IMMUTABLE_TRUTH \<and> resolved = DISCARD_AFTER_CONSUMERS_ADVANCE
         then ARCHIVE_TO_COLD_AFTER_GC_UNREACHABLE else resolved)"

text \<open>\<open>max(xs, key=f)\<close>: the first element with the greatest key.\<close>

fun max_by :: "('a \<Rightarrow> int) \<Rightarrow> 'a \<Rightarrow> 'a list \<Rightarrow> 'a" where
  "max_by f m [] = m"
| "max_by f m (x # xs) = max_by f (if f x > f m then x else m) xs"

definition load_active_retention_policy :: "index_api \<Rightarrow> dict list" where
  "load_active_retention_policy api =
     (case get_events_by_type api ''RetentionPolicyChanged'' None None of
        [] \<Rightarrow> []
      | r # rs \<Rightarrow>
          (case as_obj (dget (payload (max_by sequence_number r rs)) ''after_state'') of
             None \<Rightarrow> []
           | Some after_state \<Rightarrow>
               (case as_list (dget after_state ''new_rules'') of
                  None \<Rightarrow> []
                | Some rules \<Rightarrow> List.map_filter as_obj rules)))"

text \<open>The provenance of an event of the snapshot module, and the intent of a policy change.\<close>

definition module_prov :: "string option \<Rightarrow> prov" where
  "module_prov correlation =
     \<lparr>actor_type = ''snapshot_module'', actor_id = ''m07'', session_id = None, task_id = None, run_id = None,
      causation_event_id = None, correlation_id = correlation, daemon_name = None, skill_id = None,
      parent_session_id = None, fork_name = None, writer_id = None\<rparr>"

definition no_supersede :: superseding where
  "no_supersede = \<lparr>is_supersede = False, superseded_event_id = None, novelty = None, novelty_type = None\<rparr>"

definition policy_changed_intent :: "string \<Rightarrow> string \<Rightarrow> dict list \<Rightarrow> string \<Rightarrow> event_intent" where
  "policy_changed_intent hex policy_id new_rules reason =
     \<lparr>i_local_intent_id = ''retpol-'' @ take 12 hex,
      i_event_type = ''RetentionPolicyChanged'', i_event_category = ''consolidation'',
      i_payload = [(''after_state'', JObj [(''policy_id'', JStr policy_id),
                     (''new_rules'', JArr (map JObj new_rules)), (''change_reason'', JStr reason)])],
      i_provenance_hint = module_prov None, i_base_classification = IMMUTABLE_TRUTH,
      i_supersede = no_supersede,
      i_subjects = [\<lparr>entity_type = ''snapshot'', entity_id = policy_id, role = ''primary''\<rparr>],
      i_schema_version = ''1.0.0''\<rparr>"

section \<open>State files of the snapshot module\<close>

record module_state =
  m_config :: "json option"
  m_watermark :: "json option"
  m_gc_state :: "json option"

record module_config =
  cfg_retention :: int
  cfg_sampling_rate :: rat
  cfg_lookback :: int
  cfg_auto_audit :: bool

definition default_retention :: int where
  "default_retention = 5"

definition read_json_obj :: "json option \<Rightarrow> dict option" where
  "read_json_obj file = (case file of Some (JObj d) \<Rightarrow> Some d | _ \<Rightarrow> None)"

fun coerce_nonneg_int :: "json \<Rightarrow> int \<Rightarrow> int" where
  "coerce_nonneg_int (JInt i) fallback = (if i \<ge> 0 then i else fallback)"
| "coerce_nonneg_int _ fallback = fallback"

definition load_config :: "module_state \<Rightarrow> module_config" where
  "load_config m =
     (case read_json_obj (m_config m) of
        None \<Rightarrow> \<lparr>cfg_retention = default_retention, cfg_sampling_rate = 1, cfg_lookback = 50, cfg_auto_audit = False\<rparr>
      | Some d \<Rightarrow>
          \<lparr>cfg_retention = coerce_nonneg_int (dget d ''retention'') default_retention,
           cfg_sampling_rate = (case dget d ''sampling_rate'' of JInt i \<Rightarrow> if i > 0 then of_int i else 1 | _ \<Rightarrow> 1),
           cfg_lookback = coerce_nonneg_int (dget d ''lookback'') 50,
           cfg_auto_audit = (dget d ''reconstructability_auto_audit_enabled'' = JBool True)\<rparr>)"

definition effective_retention :: "module_state \<Rightarrow> int option \<Rightarrow> int" where
  "effective_retention m explicit =
     (case explicit of Some n \<Rightarrow> n | None \<Rightarrow> cfg_retention (load_config m))"

definition push_retention_watermark :: "int \<Rightarrow> int \<Rightarrow> int \<Rightarrow> string \<Rightarrow> module_state \<Rightarrow> module_state" where
  "push_retention_watermark bound consumer_wm hot_floor run_at m =
     m\<lparr>m_watermark := Some (JObj [(''retention_watermark'', JInt bound), (''consumer_watermark'', JInt consumer_wm),
        (''hot_replay_floor'', JInt hot_floor), (''pushed_at'', JStr run_at)])\<rparr>"

definition pull_retention_watermark :: "module_state \<Rightarrow> int option" where
  "pull_retention_watermark m =
     (case read_json_obj (m_watermark m) of
        None \<Rightarrow> None
      | Some d \<Rightarrow> (case dget d ''retention_watermark'' of JInt n \<Rightarrow> Some n | _ \<Rightarrow> None))"

text \<open>\<open>digest\<close> is the hash of the three numbers of a run.\<close>

definition write_gc_state :: "(int \<Rightarrow> int \<Rightarrow> int \<Rightarrow> string) \<Rightarrow> int \<Rightarrow> int \<Rightarrow> int \<Rightarrow> string \<Rightarrow> module_state
    \<Rightarrow> module_state" where
  "write_gc_state digest bound consumer_wm hot_floor run_at m =
     (let runs = coerce_nonneg_int
            (case read_json_obj (m_gc_state m) of None \<Rightarrow> JNull | Some d \<Rightarrow> dget d ''run_count'') 0 + 1
      in m\<lparr>m_gc_state := Some (JObj [(''last_gc_at'', JStr run_at), (''last_gc_archive_seq_bound'', JInt bound),
             (''last_gc_consumer_watermark'', JInt consumer_wm), (''last_gc_hot_replay_floor'', JInt hot_floor),
             (''run_count'', JInt runs), (''gc_run_state_hash'', JStr (digest bound consumer_wm hot_floor))])\<rparr>)"

section \<open>Lemmas\<close>

lemma immutable_never_discarded:
  "resolve_retention_action IMMUTABLE_TRUTH rules \<noteq> DISCARD_AFTER_CONSUMERS_ADVANCE"
  by (simp add: resolve_retention_action_def Let_def)

lemma max_by_mem: "max_by f m xs \<in> set (m # xs)"
  by (induction xs arbitrary: m) auto

lemma max_by_bound: "f m \<le> f (max_by f m xs) \<and> (\<forall>x \<in> set xs. f x \<le> f (max_by f m xs))"
proof (induction xs arbitrary: m)
  case (Cons y ys)
  from Cons [of y] Cons [of m] show ?case by (auto dest: order_trans)
qed simp

lemma max_by_greatest: "x \<in> set (m # xs) \<Longrightarrow> f x \<le> f (max_by f m xs)"
  using max_by_bound [of f m xs] by auto

lemma active_leases_fold:
  "rfold (\<lambda>acc l. rbind (lease_active from_iso now l) (\<lambda>b. Inr (if b then acc @ [l] else acc))) acc ls = Inr as
   \<longleftrightarrow> (\<forall>l \<in> set ls. is_ok (lease_active from_iso now l))
     \<and> as = acc @ filter (\<lambda>l. lease_active from_iso now l = Inr True) ls"
proof (induction ls arbitrary: acc)
  case (Cons l ls)
  then show ?case by (cases "lease_active from_iso now l") auto
qed auto

end
