(* ===== verification/Gc_Reachability.thy ===== *)
theory Gc_Reachability
  imports Retention_Stores Lookup_Contract
begin

text \<open>
  The semantic half of garbage collection (\<open>l0/snapshot/reachability.py\<close>): the seven categories
  of roots, the breadth-first closure over the reference edges of records, and the action of
  each classification.  The log is read through the index (\<open>api\<close>) and as the list of committed
  records (\<open>recs\<close>); \<open>proj\<close> is the stored state of the projections, which the projection
  reducers, not modelled here, produce.  A Python set is a list of its elements in any order.
\<close>

section \<open>Roots\<close>

definition projection_ref_fields :: "string list" where
  "projection_ref_fields = [''last_state_change_event_id'', ''last_change_event_id'']"

definition recent_by_type :: "index_api \<Rightarrow> string \<Rightarrow> nat \<Rightarrow> event_record list" where
  "recent_by_type api t window =
     take window (sort_key (\<lambda>r. - sequence_number r) (get_events_by_type api t None None))"

definition min_of :: "int list \<Rightarrow> int option" where
  "min_of ns = (if ns = [] then None else Some (Min (set ns)))"

text \<open>The offsets of snapshots whose payload has one.\<close>

definition event_offsets :: "event_record list \<Rightarrow> int list" where
  "event_offsets rs = List.map_filter (\<lambda>r. as_int (dget (payload r) ''event_offset'')) rs"

definition snapshot_anchor_roots :: "index_api \<Rightarrow> nat \<Rightarrow> string list \<times> int option" where
  "snapshot_anchor_roots api window =
     (let snaps = recent_by_type api ''SnapshotCreated'' window
      in (map event_id snaps, min_of (event_offsets snaps)))"

definition is_event_ref :: "json \<Rightarrow> bool" where
  "is_event_ref v = (case v of JStr s \<Rightarrow> prefix ''evt-'' s | _ \<Rightarrow> False)"

fun harvest_event_ids :: "json \<Rightarrow> string list" where
  "harvest_event_ids (JObj d) =
     concat (map (\<lambda>(k, v). if k \<in> set projection_ref_fields \<and> is_event_ref v
                           then (case v of JStr s \<Rightarrow> [s] | _ \<Rightarrow> []) else harvest_event_ids v) d)"
| "harvest_event_ids (JArr xs) = concat (map harvest_event_ids xs)"
| "harvest_event_ids _ = []"

definition projection_names :: "string list" where
  "projection_names =
     [''concept_graph'', ''task_graph'', ''obligation_lifecycle_state'', ''ownership'',
      ''at_reference_graph'', ''consumer_relation'', ''finding_lifecycle'', ''detection_rule_lifecycle'',
      ''escalation_lifecycle'', ''commit_history'', ''gate_check_firing'', ''debt_registry'',
      ''capability_status'', ''information_need_graph'', ''interview_progress'', ''interview_brief_index'',
      ''review_plan'', ''engineering_consensus_index'', ''impact_graph'', ''decision'', ''session_graph'',
      ''lock_graph'', ''escalation_graph'']"

type_synonym projections = "string \<Rightarrow> dict option"

definition projection_reference_roots :: "projections \<Rightarrow> string list" where
  "projection_reference_roots proj =
     concat (map (\<lambda>name. case proj name of Some state \<Rightarrow> harvest_event_ids (JObj state) | None \<Rightarrow> []) projection_names)"

definition as_node_list :: "json \<Rightarrow> dict list" where
  "as_node_list v = (case as_list v of Some xs \<Rightarrow> List.map_filter as_obj xs | None \<Rightarrow> [])"

definition add_if_event_id :: "json \<Rightarrow> string list" where
  "add_if_event_id v = (case v of JStr s \<Rightarrow> if prefix ''evt-'' s then [s] else [] | _ \<Rightarrow> [])"

definition is_terminal_finding :: "dict \<Rightarrow> bool" where
  "is_terminal_finding node =
     (let state = (if truthy (dget node ''lifecycle_state'') then dget node ''lifecycle_state''
                   else dget node ''state'')
      in (case as_str state of
            Some s \<Rightarrow> s \<in> set [''resolved'', ''dismissed'', ''closed'', ''fixed'']
          | None \<Rightarrow> False))"

definition resolved_envelopes :: "index_api \<Rightarrow> string list" where
  "resolved_envelopes api =
     List.map_filter (\<lambda>r. as_str (dget (payload r) ''envelope_event_id''))
       (get_events_by_type api ''CommitAccepted'' None None
        @ get_events_by_type api ''CommitRejected'' None None)"

definition in_flight_envelope_roots :: "index_api \<Rightarrow> string list" where
  "in_flight_envelope_roots api =
     filter (\<lambda>i. i \<notin> set (resolved_envelopes api))
       (map event_id (get_events_by_type api ''TransactionEnvelopeSubmitted'' None None))"

definition active_object_roots :: "index_api \<Rightarrow> projections \<Rightarrow> string list" where
  "active_object_roots api proj =
     (case proj ''obligation_lifecycle_state'' of
        None \<Rightarrow> []
      | Some obl \<Rightarrow>
          concat (map (\<lambda>node. if dget node ''canonical_state'' = JStr ''active''
                              then add_if_event_id (dget node ''last_state_change_event_id'') else [])
                      (as_node_list (dget obl ''obligations''))))
     @ (case proj ''finding_lifecycle'' of
          None \<Rightarrow> []
        | Some fnd \<Rightarrow>
            concat (map (\<lambda>node. if \<not> is_terminal_finding node
                                then add_if_event_id (dget node ''last_state_change_event_id'') else [])
                        (as_node_list (dget fnd ''findings''))))
     @ in_flight_envelope_roots api"

definition protocol_level_anchor_roots :: "index_api \<Rightarrow> nat \<Rightarrow> string list" where
  "protocol_level_anchor_roots api policy_window =
     map event_id (filter (\<lambda>r. dget (payload r) ''capture_source'' = JStr ''system_bootstrap'')
                          (get_events_by_type api ''ObligationCaptured'' None None))
     @ map event_id (recent_by_type api ''RetentionPolicyChanged'' policy_window)"

definition nature_anchor_roots :: "index_api \<Rightarrow> nat \<Rightarrow> string list" where
  "nature_anchor_roots api window = map event_id (recent_by_type api ''NatureJudgmentCaptured'' window)"

definition resolve_input_hash_events :: "index_api \<Rightarrow> string list \<Rightarrow> string list" where
  "resolve_input_hash_events api wanted =
     map event_id (filter (\<lambda>r. case as_str (dget (payload r) ''input_hash'') of
                                 Some h \<Rightarrow> h \<in> set wanted | None \<Rightarrow> False)
                          (get_events_by_type api ''ResolverDecisionMade'' None None))"

text \<open>\<open>{r.sequence_number: r.event_id for r in records}\<close>\<close>

definition seq_to_id :: "event_record list \<Rightarrow> (int \<times> string) list" where
  "seq_to_id recs = fold (\<lambda>r. AList.update (sequence_number r) (event_id r)) recs []"

definition lease_roots :: "index_api \<Rightarrow> event_record list \<Rightarrow> lease \<Rightarrow> string list" where
  "lease_roots api recs l =
     (case le_event_ids l of None \<Rightarrow> [] | Some ids \<Rightarrow> ids)
     @ (case le_min_seq l of
          None \<Rightarrow> []
        | Some n \<Rightarrow> map snd (filter (\<lambda>(s, i). s \<ge> n) (seq_to_id recs)))
     @ (case le_input_hashes l of None \<Rightarrow> [] | Some hs \<Rightarrow> resolve_input_hash_events api hs)"

definition lease_protection_roots :: "index_api \<Rightarrow> event_record list \<Rightarrow> lease list \<Rightarrow> string list" where
  "lease_protection_roots api recs leases = concat (map (lease_roots api recs) leases)"

definition supersede_chain_roots :: "event_record list \<Rightarrow> string list" where
  "supersede_chain_roots recs = List.map_filter (superseded_event_id \<circ> supersede) recs"

record gc_roots =
  g_snapshot_anchors :: "string list"
  g_projection_references :: "string list"
  g_active_objects :: "string list"
  g_protocol_level_anchors :: "string list"
  g_nature_anchors :: "string list"
  g_lease_protection :: "string list"
  g_supersede_chains :: "string list"
  g_post_snapshot_floor :: "int option"

definition root_ids :: "gc_roots \<Rightarrow> string list" where
  "root_ids g =
     g_snapshot_anchors g @ g_projection_references g @ g_active_objects g @ g_protocol_level_anchors g
     @ g_nature_anchors g @ g_lease_protection g @ g_supersede_chains g"

definition category_of :: "gc_roots \<Rightarrow> string \<Rightarrow> string list" where
  "category_of g i =
     map fst (filter (\<lambda>(name, ids). i \<in> set ids)
       [(''snapshot_anchors'', g_snapshot_anchors g), (''projection_references'', g_projection_references g),
        (''active_objects'', g_active_objects g), (''protocol_level_anchors'', g_protocol_level_anchors g),
        (''nature_anchors'', g_nature_anchors g), (''lease_protection'', g_lease_protection g),
        (''supersede_chains'', g_supersede_chains g)])"

definition default_snapshot_window :: nat where "default_snapshot_window = 5"
definition default_nature_window :: nat where "default_nature_window = 100"
definition default_policy_window :: nat where "default_policy_window = 1"

text \<open>\<open>leases\<close> are the active leases, \<open>None\<close> without a lease store.\<close>

definition compute_gc_roots :: "index_api \<Rightarrow> event_record list \<Rightarrow> projections \<Rightarrow> lease list option
    \<Rightarrow> nat \<Rightarrow> nat \<Rightarrow> nat \<Rightarrow> gc_roots" where
  "compute_gc_roots api recs proj leases snapshot_window nature_window policy_window =
     (let (snap_ids, floor_seq) = snapshot_anchor_roots api snapshot_window
      in \<lparr>g_snapshot_anchors = snap_ids,
          g_projection_references = projection_reference_roots proj,
          g_active_objects = active_object_roots api proj,
          g_protocol_level_anchors = protocol_level_anchor_roots api policy_window,
          g_nature_anchors = nature_anchor_roots api nature_window,
          g_lease_protection = (case leases of None \<Rightarrow> [] | Some ls \<Rightarrow> lease_protection_roots api recs ls),
          g_supersede_chains = supersede_chain_roots recs,
          g_post_snapshot_floor = floor_seq\<rparr>)"

section \<open>Closure\<close>

definition refs_from :: "event_record \<Rightarrow> string list" where
  "refs_from r =
     (case causation_event_id (provenance r) of None \<Rightarrow> [] | Some c \<Rightarrow> [c])
     @ (case superseded_event_id (supersede r) of None \<Rightarrow> [] | Some s \<Rightarrow> [s])"

type_synonym by_id = "(string \<times> event_record) list"

definition records_by_id :: "event_record list \<Rightarrow> by_id" where
  "records_by_id recs = fold (\<lambda>r. AList.update (event_id r) r) recs []"

text \<open>\<open>if i in by_id and i not in reachable: reachable.add(i); queue.append(i)\<close>\<close>

definition enqueue :: "by_id \<Rightarrow> string \<Rightarrow> string set \<times> string list \<Rightarrow> string set \<times> string list" where
  "enqueue m i acc =
     (if i \<notin> fst acc \<and> map_of m i \<noteq> None then (insert i (fst acc), snd acc @ [i]) else acc)"

definition gc_seeds :: "by_id \<Rightarrow> gc_roots \<Rightarrow> string set \<times> string list" where
  "gc_seeds m g =
     (let seeds = fold (enqueue m) (root_ids g) ({}, [])
      in case g_post_snapshot_floor g of
           None \<Rightarrow> seeds
         | Some n \<Rightarrow> fold (enqueue m) (map (event_id \<circ> snd) (filter (\<lambda>(i, r). sequence_number r > n) m)) seeds)"

text \<open>Progress of the loop: what is not reached yet, then the length of the queue.\<close>

lemma enqueue_progress:
  "finite (dom (map_of m) - fst (fold (enqueue m) xs acc))
   \<and> (card (dom (map_of m) - fst (fold (enqueue m) xs acc)) < card (dom (map_of m) - fst acc)
      \<or> fold (enqueue m) xs acc = acc)"
proof (induction xs arbitrary: acc)
  case (Cons x xs)
  show ?case
  proof (cases "x \<notin> fst acc \<and> map_of m x \<noteq> None")
    case True
    then have "card (dom (map_of m) - insert x (fst acc)) < card (dom (map_of m) - fst acc)"
      by (intro psubset_card_mono) (auto simp: finite_dom_map_of)
    moreover have "fold (enqueue m) (x # xs) acc = fold (enqueue m) xs (insert x (fst acc), snd acc @ [x])"
      using True by (simp add: enqueue_def)
    ultimately show ?thesis using Cons [of "(insert x (fst acc), snd acc @ [x])"] by auto
  next
    case False
    then have "fold (enqueue m) (x # xs) acc = fold (enqueue m) xs acc" by (auto simp: enqueue_def)
    then show ?thesis using Cons [of acc] by simp
  qed
qed (simp add: finite_dom_map_of)

function gc_close :: "by_id \<Rightarrow> string set \<times> string list \<Rightarrow> store_err + string set" where
  "gc_close m (reachable, []) = Inr reachable"
| "gc_close m (reachable, q # queue) =
     (case map_of m q of
        None \<Rightarrow> Inl (Key_Error q)
      | Some r \<Rightarrow> gc_close m (fold (enqueue m) (refs_from r) (reachable, queue)))"
  by pat_completeness auto

termination
proof (relation "measures [\<lambda>(m, acc). card (dom (map_of m) - fst acc), \<lambda>(m, acc). length (snd acc)]")
  fix m :: by_id and reachable q queue r
  assume "map_of m q = Some r"
  show "((m, fold (enqueue m) (refs_from r) (reachable, queue)), m, (reachable, q # queue))
      \<in> measures [\<lambda>(m, acc). card (dom (map_of m) - fst acc), \<lambda>(m, acc). length (snd acc)]"
    using enqueue_progress [of m "refs_from r" "(reachable, queue)"] by auto
qed simp

definition compute_gc_reachable :: "event_record list \<Rightarrow> gc_roots \<Rightarrow> store_err + string set" where
  "compute_gc_reachable recs g = (let m = records_by_id recs in gc_close m (gc_seeds m g))"

definition is_gc_reachable :: "string \<Rightarrow> string set \<Rightarrow> bool" where
  "is_gc_reachable i reachable \<longleftrightarrow> i \<in> reachable"

section \<open>The action of a classification\<close>

datatype archive_action = MOVE_TO_COLD | DIGEST_AND_COLD | DISCARD

fun determine_archive_action :: "base_class \<Rightarrow> archive_action" where
  "determine_archive_action IMMUTABLE_TRUTH = MOVE_TO_COLD"
| "determine_archive_action ABSTRACTABLE_PROCESS = DIGEST_AND_COLD"
| "determine_archive_action DISCARDABLE_NOISE = DISCARD"

section \<open>The closure is the set of referenced records\<close>

text \<open>What is referenced, directly or not, from the records of \<open>start\<close>.\<close>

inductive referenced :: "by_id \<Rightarrow> string set \<Rightarrow> string \<Rightarrow> bool" for m start where
  start: "i \<in> start \<Longrightarrow> map_of m i \<noteq> None \<Longrightarrow> referenced m start i"
| step: "referenced m start i \<Longrightarrow> map_of m i = Some r \<Longrightarrow> j \<in> set (refs_from r) \<Longrightarrow> map_of m j \<noteq> None
    \<Longrightarrow> referenced m start j"

lemma fold_enqueue:
  "fst (fold (enqueue m) xs acc) = fst acc \<union> {x \<in> set xs. map_of m x \<noteq> None}
   \<and> set (snd (fold (enqueue m) xs acc)) = set (snd acc) \<union> ({x \<in> set xs. map_of m x \<noteq> None} - fst acc)"
proof (induction xs arbitrary: acc)
  case (Cons x xs)
  show ?case
  proof (cases "x \<notin> fst acc \<and> map_of m x \<noteq> None")
    case True
    then have "fold (enqueue m) (x # xs) acc = fold (enqueue m) xs (insert x (fst acc), snd acc @ [x])"
      by (simp add: enqueue_def)
    with True Cons [of "(insert x (fst acc), snd acc @ [x])"] show ?thesis by auto
  next
    case False
    then have "fold (enqueue m) (x # xs) acc = fold (enqueue m) xs acc" by (auto simp: enqueue_def)
    with False Cons [of acc] show ?thesis by auto
  qed
qed simp

text \<open>The loop invariant: what is reached is referenced, and its references are reached or queued.\<close>

definition closing :: "by_id \<Rightarrow> string set \<Rightarrow> string set \<times> string list \<Rightarrow> bool" where
  "closing m start acc \<longleftrightarrow>
     set (snd acc) \<subseteq> fst acc \<and> (\<forall>i \<in> fst acc. referenced m start i)
     \<and> (\<forall>i \<in> start. map_of m i \<noteq> None \<longrightarrow> i \<in> fst acc)
     \<and> (\<forall>i \<in> fst acc - set (snd acc). \<forall>r. map_of m i = Some r \<longrightarrow>
          (\<forall>j \<in> set (refs_from r). map_of m j \<noteq> None \<longrightarrow> j \<in> fst acc))"

lemma referenced_mem: "referenced m start i \<Longrightarrow> map_of m i \<noteq> None"
  by (induction rule: referenced.induct) auto

lemma closing_step:
  assumes "closing m start (reachable, q # queue)" and "map_of m q = Some r"
  shows "closing m start (fold (enqueue m) (refs_from r) (reachable, queue))"
proof -
  let ?new = "{j \<in> set (refs_from r). map_of m j \<noteq> None}"
  have e: "fst (fold (enqueue m) (refs_from r) (reachable, queue)) = reachable \<union> ?new"
    "set (snd (fold (enqueue m) (refs_from r) (reachable, queue))) = set queue \<union> (?new - reachable)"
    using fold_enqueue [of m "refs_from r" "(reachable, queue)"] by auto
  note c = assms(1) [unfolded closing_def fst_conv snd_conv]
  have "referenced m start q" using c by simp
  then have new: "\<forall>j \<in> ?new. referenced m start j" using assms(2) by (auto intro: referenced.step)
  show ?thesis
    unfolding closing_def e
  proof (intro conjI ballI allI impI)
    show "set queue \<union> (?new - reachable) \<subseteq> reachable \<union> ?new" using c by auto
    show "referenced m start i" if "i \<in> reachable \<union> ?new" for i using that c new by blast
    show "i \<in> reachable \<union> ?new" if "i \<in> start" "map_of m i \<noteq> None" for i using that c by blast
    show "j \<in> reachable \<union> ?new"
      if i: "i \<in> reachable \<union> ?new - (set queue \<union> (?new - reachable))" and r': "map_of m i = Some r'"
        and j: "j \<in> set (refs_from r')" "map_of m j \<noteq> None" for i r' j
    proof (cases "i = q")
      case True
      with r' assms(2) j show ?thesis by simp
    next
      case False
      with i have "i \<in> reachable - set (q # queue)" by auto
      with c r' j have "j \<in> reachable" by blast
      then show ?thesis by blast
    qed
  qed
qed

lemma gc_close_exact:
  "closing m start acc \<Longrightarrow> gc_close m acc = Inr {i. referenced m start i}"
proof (induction m acc rule: gc_close.induct)
  case (1 m reachable)
  note c = 1 [unfolded closing_def fst_conv snd_conv]
  have "i \<in> reachable" if "referenced m start i" for i
    using that
  proof (induction rule: referenced.induct)
    case (start i)
    with c show ?case by blast
  next
    case (step i r j)
    then show ?case using c by simp
  qed
  with c have "reachable = {i. referenced m start i}" by blast
  then show ?case by simp
next
  case (2 m reachable q queue)
  have "referenced m start q" using "2.prems" [unfolded closing_def fst_conv snd_conv] by simp
  then have "map_of m q \<noteq> None" by (rule referenced_mem)
  then obtain r where r: "map_of m q = Some r" by blast
  with 2 closing_step [OF "2.prems" r] show ?case by simp
qed

text \<open>Where the closure starts.\<close>

definition gc_start :: "by_id \<Rightarrow> gc_roots \<Rightarrow> string set" where
  "gc_start m g =
     set (root_ids g)
     \<union> (case g_post_snapshot_floor g of
          None \<Rightarrow> {}
        | Some n \<Rightarrow> {event_id r | i r. (i, r) \<in> set m \<and> sequence_number r > n})"

lemma gc_seeds_closing:
  "closing m (gc_start m g) (gc_seeds m g)"
proof -
  have e: "fst (gc_seeds m g) = {i \<in> gc_start m g. map_of m i \<noteq> None}"
    "set (snd (gc_seeds m g)) = fst (gc_seeds m g)"
    by (cases "g_post_snapshot_floor g",
        auto simp: gc_seeds_def gc_start_def Let_def fold_enqueue case_prod_beta image_iff)+
  then show ?thesis by (simp add: closing_def e referenced.start)
qed

lemma gc_reachable_exact:
  "compute_gc_reachable recs g
     = Inr {i. referenced (records_by_id recs) (gc_start (records_by_id recs) g) i}"
  by (simp add: compute_gc_reachable_def Let_def gc_close_exact [OF gc_seeds_closing])

end
