(* ===== verification/Snapshots.thy ===== *)
theory Snapshots
  imports Retention_Stores
begin

text \<open>
  Standalone snapshots (\<open>l0/snapshot/snapshot.py\<close>): the projection files copied into a directory
  named after the last committed sequence number, with a manifest that carries a hash of them;
  the move of older snapshots to the archive, their way back, and the restore, which checks the
  hash.  \<open>hash\<close> is SHA-256 and \<open>dumps\<close> the JSON text of the map of file hashes.  What the
  projection store does with a restored bundle is not modelled.
\<close>

section \<open>Data\<close>

datatype snap_err = Integrity_Error string | Json_Decode_Error | Not_A_Directory

text \<open>A manifest that is \<open>None\<close> is missing, \<open>Some None\<close> is not JSON; a bundle that is \<open>None\<close> is
  no directory.\<close>

record snapshot_dir =
  sd_manifest :: "json option option"
  sd_bundle :: "(string \<times> string) list option"

datatype entry = Dir snapshot_dir | Plain_File

record snapshot_area =
  hot_dirs :: "entry dir"
  cold_dirs :: "entry dir"

record snapshot_result =
  sr_event_id :: string
  sr_cutoff_seq :: int
  sr_bundle_hash :: string
  sr_covered :: "string list"
  sr_archived :: "string list"

record restore_result =
  rr_cutoff_seq :: int
  rr_bundle_hash :: string
  rr_bundle :: "(string \<times> string) list"

section \<open>Names and listings\<close>

definition remove_prefix :: "string \<Rightarrow> string \<Rightarrow> string" where
  "remove_prefix p s = (if prefix p s then drop (length p) s else s)"

definition snapshot_seq :: "string \<Rightarrow> int" where
  "snapshot_seq name = (case py_int (remove_prefix ''snapshot-'' name) of Some n \<Rightarrow> n | None \<Rightarrow> -1)"

definition snapshot_name :: "int \<Rightarrow> string" where
  "snapshot_name n = ''snapshot-'' @ int_str n"

definition is_snapshot_entry :: "string \<times> entry \<Rightarrow> bool" where
  "is_snapshot_entry e \<longleftrightarrow>
     (case snd e of Dir _ \<Rightarrow> True | Plain_File \<Rightarrow> False)
     \<and> prefix ''snapshot-'' (fst e) \<and> \<not> suffix ''.tmp'' (fst e)"

definition list_snapshots :: "entry dir \<Rightarrow> string list" where
  "list_snapshots d = sort_key snapshot_seq (map fst (filter is_snapshot_entry d))"

abbreviation list_snapshot_dirs :: "snapshot_area \<Rightarrow> string list" where
  "list_snapshot_dirs a \<equiv> list_snapshots (hot_dirs a)"

definition list_archived_snapshot_dirs :: "snapshot_area \<Rightarrow> string list" where
  "list_archived_snapshot_dirs a = list_snapshots (cold_dirs a)"

section \<open>Retention of snapshot directories\<close>

definition archive_dir :: "string \<Rightarrow> snapshot_area \<Rightarrow> snapshot_area" where
  "archive_dir name a =
     (case map_of (hot_dirs a) name of
        None \<Rightarrow> a
      | Some e \<Rightarrow> a\<lparr>hot_dirs := AList.delete name (hot_dirs a),
                   cold_dirs := AList.update name e (AList.delete name (cold_dirs a))\<rparr>)"

definition enforce_retention :: "module_state \<Rightarrow> int option \<Rightarrow> snapshot_area
    \<Rightarrow> string list \<times> snapshot_area" where
  "enforce_retention m explicit a =
     (let resolved = effective_retention m explicit;
          dirs = list_snapshot_dirs a
      in if int (length dirs) \<le> resolved then ([], a)
         else (let to_archive = take (nat (int (length dirs) - resolved)) dirs
               in (to_archive, fold archive_dir to_archive a)))"

definition fetch_snapshot_from_cold :: "int \<Rightarrow> snapshot_area \<Rightarrow> (snap_err + string) \<times> snapshot_area" where
  "fetch_snapshot_from_cold cutoff a =
     (let name = snapshot_name cutoff in
      case map_of (hot_dirs a) name of
        Some (Dir _) \<Rightarrow> (Inr name, a)
      | blocked \<Rightarrow>
          (case map_of (cold_dirs a) name of
             Some (Dir s) \<Rightarrow>
               (if blocked = None
                then (Inr name, a\<lparr>hot_dirs := AList.update name (Dir s) (hot_dirs a),
                                 cold_dirs := AList.delete name (cold_dirs a)\<rparr>)
                else (Inl Not_A_Directory, a))
           | _ \<Rightarrow> (Inl (Integrity_Error ''in neither place''), a)))"

section \<open>Creation and restore\<close>

text \<open>The hash of the map from names to file hashes, keys sorted.\<close>

definition bundle_digest :: "(string \<Rightarrow> string) \<Rightarrow> ((string \<times> string) list \<Rightarrow> string)
    \<Rightarrow> (string \<times> string) list \<Rightarrow> string" where
  "bundle_digest hash dumps files = hash (dumps (sort_key fst (map (\<lambda>(n, t). (n, hash t)) files)))"

text \<open>The files of the directory of projections in the order of their names.\<close>

definition sorted_files :: "(string \<times> string) list \<Rightarrow> (string \<times> string) list" where
  "sorted_files files = sort_key (\<lambda>(n, t). n @ ''.json'') files"

definition per_projection :: "(string \<Rightarrow> string) \<Rightarrow> int \<Rightarrow> (string \<times> string) list \<Rightarrow> json" where
  "per_projection hash cutoff files =
     JArr (map (\<lambda>(n, t). JObj [(''projection_name'', JStr n), (''projection_state_hash'', JStr (hash t)),
                              (''watermark'', JInt cutoff)]) files)"

definition snapshot_files :: "(string \<Rightarrow> string) \<Rightarrow> ((string \<times> string) list \<Rightarrow> string) \<Rightarrow> string \<Rightarrow> int
    \<Rightarrow> (string \<times> string) list \<Rightarrow> snapshot_dir" where
  "snapshot_files hash dumps snapshot_type cutoff graph =
     \<lparr>sd_manifest = Some (Some (JObj [(''cutoff_seq'', JInt cutoff),
         (''bundle_hash'', JStr (bundle_digest hash dumps (sorted_files graph))),
         (''snapshot_type'', JStr snapshot_type),
         (''covered_projections'', per_projection hash cutoff (sorted_files graph))])),
      sd_bundle = Some (sorted_files graph)\<rparr>"

definition snapshot_created_intent :: "(string \<Rightarrow> string) \<Rightarrow> ((string \<times> string) list \<Rightarrow> string)
    \<Rightarrow> string \<Rightarrow> string \<Rightarrow> string \<Rightarrow> int \<Rightarrow> (string \<times> string) list \<Rightarrow> event_intent" where
  "snapshot_created_intent hash dumps hex_corr hex snapshot_type cutoff graph =
     (let files = sorted_files graph; bundle_hash = bundle_digest hash dumps files in
      \<lparr>i_local_intent_id = ''snap-'' @ take 12 hex,
       i_event_type = ''SnapshotCreated'', i_event_category = ''snapshot'',
       i_payload =
         [(''event_offset'', JInt cutoff), (''projection_state_hash'', JStr bundle_hash),
          (''snapshot_type'', JStr snapshot_type),
          (''covered_projections'', JArr (map JStr (sort (map fst files)))),
          (''bundle_hash'', JStr bundle_hash),
          (''snapshot_storage_path'', JStr (''.towow/snapshots/'' @ snapshot_name cutoff @ ''/'')),
          (''consolidation_event_id'', JNull),
          (''per_projection'', per_projection hash cutoff files)],
       i_provenance_hint = module_prov (Some (''snapshot-'' @ take 12 hex_corr)),
       i_base_classification = IMMUTABLE_TRUTH, i_supersede = no_supersede,
       i_subjects = [\<lparr>entity_type = ''snapshot'', entity_id = snapshot_name cutoff, role = ''primary''\<rparr>],
       i_schema_version = ''1.0.0''\<rparr>)"

text \<open>The new directory replaces one of the same name; the event is written after it, and the
  retention runs last.  \<open>hex_ev\<close> and \<open>now\<close> are for the record.\<close>

definition create_standalone_snapshot :: "ecodec \<Rightarrow> config \<Rightarrow> (string \<Rightarrow> dict \<Rightarrow> verr option)
    \<Rightarrow> (string \<Rightarrow> string) \<Rightarrow> ((string \<times> string) list \<Rightarrow> string) \<Rightarrow> string \<Rightarrow> string \<Rightarrow> string \<Rightarrow> string
    \<Rightarrow> string \<Rightarrow> module_state \<Rightarrow> int option \<Rightarrow> (string \<times> string) list \<Rightarrow> handle \<Rightarrow> disk \<Rightarrow> snapshot_area
    \<Rightarrow> (verr + snapshot_result) \<times> handle \<times> disk \<times> snapshot_area" where
  "create_standalone_snapshot cd cfg se hash dumps hex_corr hex hex_ev now snapshot_type m explicit graph h d a =
     (let cutoff = max 0 (h_next h - 1);
          name = snapshot_name cutoff;
          snap = snapshot_files hash dumps snapshot_type cutoff graph;
          a' = a\<lparr>hot_dirs := AList.update name (Dir snap) (AList.delete (name @ ''.tmp'') (hot_dirs a))\<rparr>
      in case write_direct cd cfg se (snapshot_created_intent hash dumps hex_corr hex snapshot_type cutoff graph)
                hex_ev now h d of
           (Inl e, h', d') \<Rightarrow> (Inl e, h', d', a')
         | (Inr r, h', d') \<Rightarrow>
             (let (archived, a'') = enforce_retention m explicit a'
              in (Inr \<lparr>sr_event_id = event_id r, sr_cutoff_seq = cutoff,
                       sr_bundle_hash = bundle_digest hash dumps (sorted_files graph),
                       sr_covered = sort (map fst (sorted_files graph)), sr_archived = archived\<rparr>,
                  h', d', a'')))"

definition restore_from_snapshot :: "(string \<Rightarrow> string) \<Rightarrow> ((string \<times> string) list \<Rightarrow> string) \<Rightarrow> snapshot_dir
    \<Rightarrow> snap_err + restore_result" where
  "restore_from_snapshot hash dumps s =
     (case sd_manifest s of
        None \<Rightarrow> Inl (Integrity_Error ''no manifest'')
      | Some None \<Rightarrow> Inl Json_Decode_Error
      | Some (Some manifest) \<Rightarrow>
          (let fields = (case manifest of JObj d \<Rightarrow> d | _ \<Rightarrow> []) in
           if \<not> has_key fields ''cutoff_seq'' \<or> to_int (dget fields ''cutoff_seq'') = None
              \<or> \<not> has_key fields ''bundle_hash''
           then Inl (Integrity_Error ''bad manifest'')
           else (case sd_bundle s of
                   None \<Rightarrow> Inl (Integrity_Error ''no bundle'')
                 | Some files \<Rightarrow>
                     (if bundle_digest hash dumps (sorted_files files) \<noteq> py_str (dget fields ''bundle_hash'')
                      then Inl (Integrity_Error ''bundle_hash differs'')
                      else Inr \<lparr>rr_cutoff_seq = the (to_int (dget fields ''cutoff_seq'')),
                                rr_bundle_hash = py_str (dget fields ''bundle_hash''),
                                rr_bundle = sorted_files files\<rparr>))))"

section \<open>Lemmas\<close>

lemma archive_dir_other [simp]:
  "n \<noteq> name \<Longrightarrow> map_of (hot_dirs (archive_dir name a)) n = map_of (hot_dirs a) n"
  "n \<noteq> name \<Longrightarrow> map_of (cold_dirs (archive_dir name a)) n = map_of (cold_dirs a) n"
  by (simp_all add: archive_dir_def map_of_delete map_of_update_cases split: option.split)

lemma archive_dir_same:
  "map_of (hot_dirs a) name = Some e \<Longrightarrow>
     map_of (hot_dirs (archive_dir name a)) name = None \<and> map_of (cold_dirs (archive_dir name a)) name = Some e"
  by (simp add: archive_dir_def map_of_delete map_of_update_cases)

lemma fold_archive:
  assumes "distinct names" and "\<forall>n \<in> set names. map_of (hot_dirs a) n \<noteq> None"
  shows "map_of (hot_dirs (fold archive_dir names a)) n
      = (if n \<in> set names then None else map_of (hot_dirs a) n)
    \<and> map_of (cold_dirs (fold archive_dir names a)) n
      = (if n \<in> set names then map_of (hot_dirs a) n else map_of (cold_dirs a) n)"
  using assms
proof (induction names arbitrary: a)
  case (Cons x xs)
  then have hyp: "\<forall>n \<in> set xs. map_of (hot_dirs (archive_dir x a)) n \<noteq> None"
    by (metis archive_dir_other(1) distinct.simps(2) list.set_intros(2))
  obtain e where "map_of (hot_dirs a) x = Some e" using Cons.prems(2) by auto
  with Cons.IH [OF _ hyp] Cons.prems(1) archive_dir_same [of a x e] show ?case by (cases "n = x") auto
qed simp

lemma list_snapshots_mem:
  "distinct (map fst d) \<Longrightarrow> n \<in> set (list_snapshots d) \<longleftrightarrow> (\<exists>e. map_of d n = Some e \<and> is_snapshot_entry (n, e))"
  by (force simp: list_snapshots_def)

lemma distinct_list_snapshots: "distinct (map fst d) \<Longrightarrow> distinct (list_snapshots d)"
  by (simp add: list_snapshots_def distinct_map_filter)

text \<open>The snapshots that retention leaves hot, and where the others are.\<close>

lemma enforce_retention_dirs:
  assumes "distinct (map fst (hot_dirs a))"
  shows "let (archived, a') = enforce_retention m explicit a in
      archived = take (nat (int (length (list_snapshot_dirs a)) - effective_retention m explicit)) (list_snapshot_dirs a)
      \<and> map_of (hot_dirs a') n = (if n \<in> set archived then None else map_of (hot_dirs a) n)
      \<and> map_of (cold_dirs a') n = (if n \<in> set archived then map_of (hot_dirs a) n else map_of (cold_dirs a) n)"
proof -
  let ?k = "nat (int (length (list_snapshot_dirs a)) - effective_retention m explicit)"
  have "distinct (take ?k (list_snapshot_dirs a))"
    using distinct_list_snapshots [OF assms] by simp
  moreover have "\<forall>n \<in> set (take ?k (list_snapshot_dirs a)). map_of (hot_dirs a) n \<noteq> None"
    using list_snapshots_mem [OF assms] by (auto dest!: in_set_takeD)
  ultimately show ?thesis
    using fold_archive [of "take ?k (list_snapshot_dirs a)" a n]
    by (auto simp: enforce_retention_def Let_def)
qed

lemma distinct_archive: "distinct (map fst (hot_dirs a)) \<Longrightarrow> distinct (map fst (hot_dirs (fold archive_dir names a)))"
  by (induction names arbitrary: a) (simp_all add: archive_dir_def distinct_delete split: option.split)

lemma sorted_files_idem [simp]: "sorted_files (sorted_files files) = sorted_files files"
  by (simp add: sorted_files_def sort_key_id_if_sorted)

lemma snapshot_entry_name:
  "is_snapshot_entry (n, e) \<Longrightarrow> \<exists>s. e = Dir s"
  by (cases e) (auto simp: is_snapshot_entry_def)

end
