(* ===== verification/Retention_Gc.thy ===== *)
theory Retention_Gc
  imports Gc_Reachability Snapshots
begin

text \<open>
  The collector (\<open>l0/snapshot/gc.py\<close>) and what decides segment by segment
  (\<open>segment_align.py\<close>, \<open>consolidation_guard.py\<close>, \<open>discard_tombstone.py\<close>).  A run caps the
  sequence numbers that may go by what consumers, leases and snapshots still need, and keeps
  every record that is still referenced.  The locale \<open>retention_guard\<close> states what a cap
  promises; consumers, leases and snapshots are its interpretations.
\<close>

section \<open>The bound\<close>

definition retained_snapshot_offsets :: "index_api \<Rightarrow> int list" where
  "retained_snapshot_offsets api = event_offsets (get_events_by_type api ''SnapshotCreated'' None None)"

text \<open>\<open>{r.event_id: r.sequence_number for r in records}\<close>\<close>

definition seq_by_id :: "event_record list \<Rightarrow> (string \<times> int) list" where
  "seq_by_id recs = fold (\<lambda>r. AList.update (event_id r) (sequence_number r)) recs []"

definition lease_seqs :: "event_record list \<Rightarrow> lease \<Rightarrow> int list" where
  "lease_seqs recs l =
     (case le_min_seq l of None \<Rightarrow> [] | Some n \<Rightarrow> [n])
     @ (case le_event_ids l of
          None \<Rightarrow> []
        | Some ids \<Rightarrow> List.map_filter (map_of (seq_by_id recs)) ids)"

definition protected_seqs :: "event_record list \<Rightarrow> lease list \<Rightarrow> int list" where
  "protected_seqs recs leases = concat (map (lease_seqs recs) leases)"

definition lease_watermark_floor :: "event_record list \<Rightarrow> lease list \<Rightarrow> int option" where
  "lease_watermark_floor recs leases = map_option (\<lambda>n. n - 1) (min_of (protected_seqs recs leases))"

text \<open>\<open>leases\<close> are the active leases, \<open>None\<close> without a lease store; \<open>next_seq\<close> is the cursor of
  the projections.  The result is the bound, the consumer watermark and the replay floor.\<close>

definition compute_archive_seq_bound :: "index_api \<Rightarrow> event_record list \<Rightarrow> int \<Rightarrow> lease list option
    \<Rightarrow> cursor_store option \<Rightarrow> store_err + int \<times> int \<times> int" where
  "compute_archive_seq_bound api recs next_seq leases cursors =
     (let consumer_wm = max 0 (next_seq - 1)
      in rbind (case cursors of
                  None \<Rightarrow> Inr consumer_wm
                | Some st \<Rightarrow>
                    rbind (retention_watermark_with_default consumer_wm st)
                      (\<lambda>registered. Inr (max 0 (min consumer_wm registered))))
          (\<lambda>consumer_wm.
            let consumer_wm =
                  (case leases of
                     None \<Rightarrow> consumer_wm
                   | Some ls \<Rightarrow> (case lease_watermark_floor recs ls of
                                   None \<Rightarrow> consumer_wm
                                 | Some f \<Rightarrow> max 0 (min consumer_wm f)));
                offsets = retained_snapshot_offsets api;
                hot_floor = (if offsets = [] then 0 else Min (set offsets))
            in Inr (min consumer_wm hot_floor, consumer_wm, hot_floor)))"

section \<open>The run\<close>

record drop_file =
  df_is_file :: bool
  df_mtime :: "rat option"
  df_unlink_ok :: bool

definition orphan_max_age :: rat where
  "orphan_max_age = 3600"

definition sweepable :: "rat \<Rightarrow> rat \<Rightarrow> drop_file \<Rightarrow> bool" where
  "sweepable max_age now f \<longleftrightarrow>
     df_is_file f
     \<and> (case df_mtime f of None \<Rightarrow> False | Some t \<Rightarrow> \<not> now - t < max_age)
     \<and> df_unlink_ok f"

definition sweep_orphan_dropfiles :: "rat \<Rightarrow> rat \<Rightarrow> drop_file dir \<Rightarrow> string list \<times> drop_file dir" where
  "sweep_orphan_dropfiles max_age now d =
     (sort (map fst (filter (\<lambda>e. sweepable max_age now (snd e)) d)),
      filter (\<lambda>e. \<not> sweepable max_age now (snd e)) d)"

record gc_result =
  gr_archive_seq_bound :: int
  gr_consumer_watermark :: int
  gr_hot_replay_floor :: int
  gr_archivable_noise_seqs :: "int list"
  gr_archived_snapshot_dirs :: "string list"
  gr_protected_seqs :: "int list"
  gr_swept :: "string list"

text \<open>The files a run reads or changes, and its clock readings.\<close>

record gc_state =
  st_cursors :: cursor_store
  st_leases :: lease_store
  st_module :: module_state
  st_area :: snapshot_area
  st_dropfiles :: "drop_file dir"

record gc_clock =
  clk_bound :: moment
  clk_roots :: moment
  clk_sweep :: rat
  clk_pushed :: string
  clk_state :: string

text \<open>The loop over the records: first what is withheld, then what may go.\<close>

definition collectable :: "dict list \<Rightarrow> int \<Rightarrow> event_record \<Rightarrow> bool" where
  "collectable rules bound r \<longleftrightarrow>
     \<not> sequence_number r > bound
     \<and> resolve_retention_action (base_classification r) rules = DISCARD_AFTER_CONSUMERS_ADVANCE"

definition gc_sweep :: "dict list \<Rightarrow> int \<Rightarrow> string set \<Rightarrow> event_record list \<Rightarrow> int list \<times> int list" where
  "gc_sweep rules bound reachable recs =
     (map sequence_number (filter (\<lambda>r. collectable rules bound r \<and> event_id r \<in> reachable) recs),
      map sequence_number (filter (\<lambda>r. collectable rules bound r \<and> event_id r \<notin> reachable) recs))"

definition run_gc :: "(string \<Rightarrow> moment option) \<Rightarrow> (int \<Rightarrow> int \<Rightarrow> int \<Rightarrow> string) \<Rightarrow> index_api
    \<Rightarrow> event_record list \<Rightarrow> int \<Rightarrow> projections \<Rightarrow> int option \<Rightarrow> gc_clock \<Rightarrow> gc_state
    \<Rightarrow> (store_err + gc_result) \<times> gc_state" where
  "run_gc from_iso digest api recs next_seq proj retention clk s =
     (case
        rbind (active_leases from_iso (clk_bound clk) (st_leases s)) (\<lambda>ls.
        rbind (compute_archive_seq_bound api recs next_seq (Some ls) (Some (st_cursors s))) (\<lambda>bounds.
        rbind (active_leases from_iso (clk_roots clk) (st_leases s)) (\<lambda>ls'.
        rbind (compute_gc_reachable recs
                 (compute_gc_roots api recs proj (Some ls') default_snapshot_window default_nature_window
                    default_policy_window)) (\<lambda>reachable.
        Inr (bounds, reachable)))))
      of
        Inl e \<Rightarrow> (Inl e, s)
      | Inr ((bound, consumer_wm, hot_floor), reachable) \<Rightarrow>
          (let (withheld, archivable) =
                 (if bound > 0 then gc_sweep (load_active_retention_policy api) bound reachable recs else ([], []));
               (archived, area') = enforce_retention (st_module s) retention (st_area s);
               (swept, dropfiles') = sweep_orphan_dropfiles orphan_max_age (clk_sweep clk) (st_dropfiles s);
               m' = write_gc_state digest bound consumer_wm hot_floor (clk_state clk)
                      (push_retention_watermark bound consumer_wm hot_floor (clk_pushed clk) (st_module s))
           in (Inr \<lparr>gr_archive_seq_bound = bound, gr_consumer_watermark = consumer_wm,
                    gr_hot_replay_floor = hot_floor, gr_archivable_noise_seqs = sort archivable,
                    gr_archived_snapshot_dirs = archived, gr_protected_seqs = sort withheld,
                    gr_swept = swept\<rparr>,
               s\<lparr>st_area := area', st_dropfiles := dropfiles', st_module := m'\<rparr>)))"

section \<open>Segments\<close>

definition events_in_segment :: "event_record list \<Rightarrow> int \<Rightarrow> int \<Rightarrow> event_record list" where
  "events_in_segment recs start_seq end_seq =
     filter (\<lambda>r. start_seq \<le> sequence_number r \<and> sequence_number r \<le> end_seq) recs"

datatype archive_path = PURE_DISCARD | CONSERVATIVE_COLD | EMPTY

record segment_decision =
  sg_path :: archive_path
  sg_summary :: "base_class \<Rightarrow> nat"
  sg_retained_noise :: "int list"

definition class_count :: "event_record list \<Rightarrow> base_class \<Rightarrow> nat" where
  "class_count events c = length (filter (\<lambda>r. base_classification r = c) events)"

definition align_segment_archive :: "event_record list \<Rightarrow> int \<Rightarrow> int \<Rightarrow> segment_decision" where
  "align_segment_archive recs start_seq end_seq =
     (let events = events_in_segment recs start_seq end_seq; summary = class_count events in
      if events = [] then \<lparr>sg_path = EMPTY, sg_summary = summary, sg_retained_noise = []\<rparr>
      else if summary IMMUTABLE_TRUTH + summary ABSTRACTABLE_PROCESS = 0
      then \<lparr>sg_path = PURE_DISCARD, sg_summary = summary, sg_retained_noise = []\<rparr>
      else \<lparr>sg_path = CONSERVATIVE_COLD, sg_summary = summary,
            sg_retained_noise = sort (map sequence_number
              (filter (\<lambda>r. base_classification r = DISCARDABLE_NOISE) events))\<rparr>)"

definition verify_segment_alignment :: "event_record list \<Rightarrow> segment_decision \<Rightarrow> int \<Rightarrow> int \<Rightarrow> bool" where
  "verify_segment_alignment recs decision start_seq end_seq =
     (let events = events_in_segment recs start_seq end_seq in
      case sg_path decision of
        PURE_DISCARD \<Rightarrow> list_all (\<lambda>r. determine_archive_action (base_classification r) = DISCARD) events
      | CONSERVATIVE_COLD \<Rightarrow>
          list_all (\<lambda>r. base_classification r = DISCARDABLE_NOISE
                        \<or> determine_archive_action (base_classification r) \<in> {MOVE_TO_COLD, DIGEST_AND_COLD}) events
      | EMPTY \<Rightarrow> events = [])"

text \<open>The guard of a digest: the facts that it would fold away, and the exception.\<close>

definition verify_consolidation_invariants :: "event_record list \<Rightarrow> int \<Rightarrow> int \<Rightarrow> bool \<times> string list" where
  "verify_consolidation_invariants recs start_seq end_seq =
     (let offenders = map event_id (filter (\<lambda>r. base_classification r = IMMUTABLE_TRUTH)
                                      (events_in_segment recs start_seq end_seq))
      in (offenders = [], offenders))"

datatype digest_err = Immutable_Truth_Digest "string list"

definition assert_no_immutable_truth_digested :: "event_record list \<Rightarrow> int \<Rightarrow> int \<Rightarrow> digest_err + unit" where
  "assert_no_immutable_truth_digested recs start_seq end_seq =
     (let (ok, offenders) = verify_consolidation_invariants recs start_seq end_seq
      in if \<not> ok then Inl (Immutable_Truth_Digest offenders) else Inr ())"

definition discard_tombstone_intent :: "string \<Rightarrow> event_record list \<Rightarrow> int \<Rightarrow> int \<Rightarrow> event_intent" where
  "discard_tombstone_intent hex recs start_seq end_seq =
     \<lparr>i_local_intent_id = ''discard-'' @ take 12 hex,
      i_event_type = ''ArchiveSegmentMoved'', i_event_category = ''consolidation'',
      i_payload =
        [(''segment_range'', JObj [(''start_seq'', JInt start_seq), (''end_seq'', JInt end_seq)]),
         (''archive_destination'', JStr ''discarded''),
         (''original_event_count'', JInt (int (length (events_in_segment recs start_seq end_seq)))),
         (''provenance_preserved'', JBool False)],
      i_provenance_hint = module_prov None, i_base_classification = ABSTRACTABLE_PROCESS,
      i_supersede = no_supersede,
      i_subjects = [\<lparr>entity_type = ''snapshot'',
                     entity_id = ''discard-'' @ int_str start_seq @ ''-'' @ int_str end_seq, role = ''primary''\<rparr>],
      i_schema_version = ''1.0.0''\<rparr>"

definition emit_discard_tombstone :: "ecodec \<Rightarrow> config \<Rightarrow> (string \<Rightarrow> dict \<Rightarrow> verr option) \<Rightarrow> string \<Rightarrow> string
    \<Rightarrow> string \<Rightarrow> event_record list \<Rightarrow> int \<Rightarrow> int \<Rightarrow> handle \<Rightarrow> disk \<Rightarrow> event_record effect" where
  "emit_discard_tombstone cd cfg se hex hex_ev now recs start_seq end_seq h d =
     write_direct cd cfg se (discard_tombstone_intent hex recs start_seq end_seq) hex_ev now h d"

section \<open>Guards\<close>

text \<open>A guard needs some sequence numbers and announces a floor below all of them.\<close>

locale retention_guard =
  fixes floor_of :: "'s \<Rightarrow> int option"
    and needs :: "'s \<Rightarrow> int \<Rightarrow> bool"
  assumes floor_below: "needs s n \<Longrightarrow> \<exists>f. floor_of s = Some f \<and> f < n"
begin

text \<open>Capping with the floor, as the code does it, keeps what is needed.\<close>

lemma cap_keeps:
  assumes "needs s n" and "0 < b" and "b \<le> (case floor_of s of None \<Rightarrow> w | Some f \<Rightarrow> max 0 (min w f))"
  shows "b < n"
  using floor_below [OF assms(1)] assms(2,3) by auto

end

lemma min_of_le: "x \<in> set xs \<Longrightarrow> \<exists>m. min_of xs = Some m \<and> m \<le> x"
  by (auto simp: min_of_def)

interpretation consumer_guard: retention_guard "\<lambda>cs. min_of (map c_last_seq cs)"
  "\<lambda>cs n. \<exists>c \<in> set cs. c_last_seq c < n"
  by unfold_locales (use min_of_le in \<open>force simp del: set_map simp add: set_map\<close>)

lemma lease_seqs_mem:
  "n \<in> set (lease_seqs recs l) \<longleftrightarrow>
     le_min_seq l = Some n
     \<or> (\<exists>ids i. le_event_ids l = Some ids \<and> i \<in> set ids \<and> map_of (seq_by_id recs) i = Some n)"
  by (cases "le_min_seq l"; cases "le_event_ids l") (auto simp: lease_seqs_def set_map_filter)

interpretation lease_guard: retention_guard "\<lambda>(recs, ls). lease_watermark_floor recs ls"
  "\<lambda>(recs, ls) n. \<exists>k \<in> set (protected_seqs recs ls). k \<le> n"
  by unfold_locales (use min_of_le in \<open>fastforce simp: lease_watermark_floor_def\<close>)

interpretation snapshot_guard: retention_guard "\<lambda>api. min_of (retained_snapshot_offsets api)"
  "\<lambda>api n. \<exists>k \<in> set (retained_snapshot_offsets api). k < n"
  by unfold_locales (use min_of_le in force)

end
