(* ===== verification/Retention_Safety.thy ===== *)
theory Retention_Safety
  imports Retention_Gc
begin

text \<open>
  Lemmas about a collection run: the dictionaries of a log without duplicate identifiers, the
  closure as a path between records, the roots that the log itself gives (in the context of the
  lookup contract), and the parts of a successful run.
\<close>

section \<open>Dictionaries of distinct keys\<close>

lemma fold_update_distinct:
  "distinct (map f xs) \<Longrightarrow> \<forall>x \<in> set xs. f x \<notin> fst ` set al \<Longrightarrow>
     fold (\<lambda>x. AList.update (f x) (g x)) xs al = al @ map (\<lambda>x. (f x, g x)) xs"
proof (induction xs arbitrary: al)
  case (Cons x xs)
  from Cons.prems have "AList.update (f x) (g x) al = al @ [(f x, g x)]" by (simp add: update_new)
  moreover have "\<forall>y \<in> set xs. f y \<notin> fst ` set (al @ [(f x, g x)])"
    using Cons.prems by (auto simp: image_iff)
  ultimately show ?case using Cons.IH [of "al @ [(f x, g x)]"] Cons.prems(1) by simp
qed simp

lemma map_of_graph: "distinct (map f xs) \<Longrightarrow> map_of (map (\<lambda>x. (f x, g x)) xs) k = Some y \<longleftrightarrow>
    (\<exists>x \<in> set xs. f x = k \<and> g x = y)"
  by (subst map_of_eq_Some_iff) (auto simp: o_def)

lemma records_by_id_eq: "distinct (map event_id rs) \<Longrightarrow> records_by_id rs = map (\<lambda>r. (event_id r, r)) rs"
  using fold_update_distinct [of event_id rs "[]" "\<lambda>r. r"] by (simp add: records_by_id_def)

lemma map_of_records_by_id:
  "distinct (map event_id rs) \<Longrightarrow> map_of (records_by_id rs) i = Some r \<longleftrightarrow> r \<in> set rs \<and> event_id r = i"
  by (auto simp: records_by_id_eq map_of_graph)

lemma map_of_seq_by_id:
  "distinct (map event_id rs) \<Longrightarrow> map_of (seq_by_id rs) i = Some n \<longleftrightarrow>
     (\<exists>r \<in> set rs. event_id r = i \<and> sequence_number r = n)"
  using fold_update_distinct [of event_id rs "[]" sequence_number]
  by (simp add: seq_by_id_def map_of_graph)

section \<open>The closure as a path\<close>

definition ref_edges :: "event_record list \<Rightarrow> (event_record \<times> event_record) set" where
  "ref_edges rs = {(a, b). a \<in> set rs \<and> b \<in> set rs
     \<and> (causation_event_id (provenance a) = Some (event_id b)
        \<or> superseded_event_id (supersede a) = Some (event_id b))}"

lemma ref_edges_refs_from:
  "ref_edges rs = {(a, b). a \<in> set rs \<and> b \<in> set rs \<and> event_id b \<in> set (refs_from a)}"
  by (auto simp: ref_edges_def refs_from_def split: option.splits)

definition is_gc_root :: "gc_roots \<Rightarrow> event_record \<Rightarrow> bool" where
  "is_gc_root g r \<longleftrightarrow>
     event_id r \<in> set (root_ids g)
     \<or> (case g_post_snapshot_floor g of None \<Rightarrow> False | Some n \<Rightarrow> n < sequence_number r)"

lemma gc_start_mem:
  assumes "distinct (map event_id rs)" and "r \<in> set rs"
  shows "event_id r \<in> gc_start (records_by_id rs) g \<longleftrightarrow> is_gc_root g r"
proof -
  have "(i, q) \<in> set (records_by_id rs) \<longleftrightarrow> q \<in> set rs \<and> event_id q = i" for i q
    by (auto simp: records_by_id_eq [OF assms(1)])
  moreover have "q \<in> set rs \<Longrightarrow> event_id q = event_id r \<Longrightarrow> q = r" for q
    using assms by (auto simp: distinct_map dest: inj_onD)
  ultimately show ?thesis
    using assms(2) by (auto simp: gc_start_def is_gc_root_def split: option.splits)
qed

lemma referenced_path:
  assumes d: "distinct (map event_id rs)"
  shows "referenced (records_by_id rs) (gc_start (records_by_id rs) g) i \<longleftrightarrow>
    (\<exists>r0 r. r0 \<in> set rs \<and> is_gc_root g r0 \<and> (r0, r) \<in> (ref_edges rs)\<^sup>* \<and> event_id r = i)"
proof
  assume "referenced (records_by_id rs) (gc_start (records_by_id rs) g) i"
  then have "\<exists>r0 r. r0 \<in> set rs \<and> r \<in> set rs \<and> is_gc_root g r0 \<and> (r0, r) \<in> (ref_edges rs)\<^sup>* \<and> event_id r = i"
  proof (induction rule: referenced.induct)
    case (start i)
    then obtain r where "r \<in> set rs" "event_id r = i"
      by (auto simp: map_of_records_by_id [OF d])
    with start gc_start_mem [OF d] show ?case by blast
  next
    case (step i r j)
    then obtain r0 where r0: "r0 \<in> set rs" "is_gc_root g r0" "(r0, r) \<in> (ref_edges rs)\<^sup>*" "r \<in> set rs"
      using d by (auto simp: map_of_records_by_id [OF d] distinct_map dest: inj_onD)
    from step obtain q where "q \<in> set rs" "event_id q = j" by (auto simp: map_of_records_by_id [OF d])
    with r0 step have "(r, q) \<in> ref_edges rs" by (auto simp: ref_edges_refs_from)
    with r0(3) have "(r0, q) \<in> (ref_edges rs)\<^sup>*" by (rule rtrancl.rtrancl_into_rtrancl)
    with r0(1,2) \<open>q \<in> set rs\<close> \<open>event_id q = j\<close> show ?case by blast
  qed
  then show "\<exists>r0 r. r0 \<in> set rs \<and> is_gc_root g r0 \<and> (r0, r) \<in> (ref_edges rs)\<^sup>* \<and> event_id r = i" by blast
next
  assume "\<exists>r0 r. r0 \<in> set rs \<and> is_gc_root g r0 \<and> (r0, r) \<in> (ref_edges rs)\<^sup>* \<and> event_id r = i"
  then obtain r0 r where "r0 \<in> set rs" "is_gc_root g r0" "(r0, r) \<in> (ref_edges rs)\<^sup>*" "event_id r = i" by blast
  note this(3,1,2)
  then have "referenced (records_by_id rs) (gc_start (records_by_id rs) g) (event_id r) \<and> r \<in> set rs"
  proof (induction rule: rtrancl_induct)
    case base
    then show ?case using gc_start_mem [OF d] by (auto intro!: referenced.start simp: map_of_records_by_id [OF d])
  next
    case (step q r)
    then have q: "referenced (records_by_id rs) (gc_start (records_by_id rs) g) (event_id q)"
      and r: "q \<in> set rs" "r \<in> set rs" "event_id r \<in> set (refs_from q)"
      by (auto simp: ref_edges_refs_from)
    have "map_of (records_by_id rs) (event_id q) = Some q" "map_of (records_by_id rs) (event_id r) = Some r"
      using r by (auto simp: map_of_records_by_id [OF d])
    with q r show ?case by (auto intro: referenced.step)
  qed
  with \<open>event_id r = i\<close> show "referenced (records_by_id rs) (gc_start (records_by_id rs) g) i" by simp
qed

lemma reachable_closed:
  assumes "compute_gc_reachable rs g = Inr reach" and "distinct (map event_id rs)"
    and "q \<in> set rs" and "event_id q \<in> reach" and "r \<in> set rs" and "event_id r \<notin> reach"
  shows "event_id r \<notin> set (refs_from q)"
proof
  assume "event_id r \<in> set (refs_from q)"
  moreover have reach: "reach = {i. referenced (records_by_id rs) (gc_start (records_by_id rs) g) i}"
    using assms(1) by (simp add: gc_reachable_exact)
  moreover have "map_of (records_by_id rs) (event_id q) = Some q"
    using assms(2,3) by (simp add: map_of_records_by_id)
  moreover have "map_of (records_by_id rs) (event_id r) = Some r"
    using assms(2,5) by (simp add: map_of_records_by_id)
  ultimately have "event_id r \<in> reach" using assms(4) by (auto intro: referenced.step)
  with assms(6) show False by contradiction
qed

lemma root_reachable:
  assumes "compute_gc_reachable rs g = Inr reach" and "distinct (map event_id rs)"
    and "r \<in> set rs" and "is_gc_root g r"
  shows "event_id r \<in> reach"
  using assms by (auto simp: gc_reachable_exact referenced_path)

section \<open>Roots of the log\<close>

context lookup_contract
begin

lemma events_of_type: "ok rs \<Longrightarrow> get_events_by_type (api rs) t None None = filter (\<lambda>r. event_type r = t) rs"
  by (simp add: get_events_by_type_def take_events_eq type_law)

text \<open>An envelope without an outcome, a bootstrap obligation.\<close>

lemma in_flight_root:
  assumes "ok rs" and "r \<in> set rs" and "event_type r = ''TransactionEnvelopeSubmitted''"
    and "\<forall>q \<in> set rs. event_type q \<in> {''CommitAccepted'', ''CommitRejected''} \<longrightarrow>
      dget (payload q) ''envelope_event_id'' \<noteq> JStr (event_id r)"
  shows "is_gc_root (compute_gc_roots (api rs) rs proj leases w1 w2 w3) r"
proof -
  have "event_id r \<notin> set (resolved_envelopes (api rs))"
    using assms(1,4) by (auto simp: resolved_envelopes_def set_map_filter events_of_type py_simps)
  then have "event_id r \<in> set (in_flight_envelope_roots (api rs))"
    using assms(1-3) by (auto simp: in_flight_envelope_roots_def events_of_type)
  then show ?thesis
    by (simp add: is_gc_root_def root_ids_def compute_gc_roots_def case_prod_beta active_object_roots_def)
qed

lemma bootstrap_root:
  assumes "ok rs" and "r \<in> set rs" and "event_type r = ''ObligationCaptured''"
    and "dget (payload r) ''capture_source'' = JStr ''system_bootstrap''"
  shows "is_gc_root (compute_gc_roots (api rs) rs proj leases w1 w2 w3) r"
  using assms
  by (auto simp: is_gc_root_def root_ids_def compute_gc_roots_def case_prod_beta protocol_level_anchor_roots_def
      events_of_type image_iff)

end

lemma superseded_root:
  assumes "q \<in> set rs" and "superseded_event_id (supersede q) = Some (event_id r)"
  shows "is_gc_root (compute_gc_roots api rs proj leases w1 w2 w3) r"
  using assms
  by (auto simp: is_gc_root_def root_ids_def compute_gc_roots_def case_prod_beta supersede_chain_roots_def
      set_map_filter)

lemma leased_root:
  assumes "l \<in> set ls" and "r \<in> set rs" and "distinct (map sequence_number rs)"
    and "(\<exists>ids. le_event_ids l = Some ids \<and> event_id r \<in> set ids)
      \<or> (\<exists>m. le_min_seq l = Some m \<and> m \<le> sequence_number r)"
  shows "is_gc_root (compute_gc_roots api rs proj (Some ls) w1 w2 w3) r"
proof -
  have "seq_to_id rs = map (\<lambda>r. (sequence_number r, event_id r)) rs"
    using fold_update_distinct [OF assms(3), of "[]" event_id] by (simp add: seq_to_id_def)
  then have "event_id r \<in> set (map snd (filter (\<lambda>(s, i). s \<ge> m) (seq_to_id rs)))"
    if "m \<le> sequence_number r" for m
    using assms(2) that by (auto intro!: image_eqI [where x = "(sequence_number r, event_id r)"])
  then have "event_id r \<in> set (lease_roots api rs l)"
    using assms(4) by (elim disjE exE conjE) (simp_all add: lease_roots_def)
  with assms(1) show ?thesis
    by (auto simp: is_gc_root_def root_ids_def compute_gc_roots_def case_prod_beta lease_protection_roots_def)
qed

section \<open>A run in its parts\<close>

lemma bound_parts:
  assumes "compute_archive_seq_bound api recs next_seq (Some ls) (Some st) = Inr (bound, cw, hot)"
  obtains cs where "st = zip (map fst st) (map Some cs)" "length cs = length st"
    "cw = (let w = (case min_of (map c_last_seq cs) of None \<Rightarrow> max 0 (next_seq - 1)
                      | Some f \<Rightarrow> max 0 (min (max 0 (next_seq - 1)) f))
           in case lease_watermark_floor recs ls of None \<Rightarrow> w | Some f \<Rightarrow> max 0 (min w f))"
    "hot = (case min_of (retained_snapshot_offsets api) of None \<Rightarrow> 0 | Some f \<Rightarrow> f)"
    "bound = min cw hot"
proof -
  obtain cs where cs: "map snd st = map Some cs"
    using assms by (auto simp: compute_archive_seq_bound_def Let_def retention_watermark_with_default_def
        all_cursors_def py_simps read_all_Inr)
  then have "st = zip (map fst st) (map Some cs)" "length cs = length st"
    by (metis zip_map_fst_snd) (metis cs length_map)
  moreover have "retention_watermark_with_default w st
      = Inr (case min_of (map c_last_seq cs) of None \<Rightarrow> w | Some f \<Rightarrow> f)" for w
    using cs by (simp add: retention_watermark_with_default_def all_cursors_def min_of_def read_all_Inr [THEN iffD2])
  moreover have "(if offs = [] then 0 else Min (set offs)) = (case min_of offs of None \<Rightarrow> 0 | Some f \<Rightarrow> f)"
    for offs :: "int list" by (simp add: min_of_def)
  ultimately show thesis
    using that [of cs] assms
    by (auto simp: compute_archive_seq_bound_def Let_def split: option.split_asm)
qed

lemma bound_keeps_needed:
  assumes b: "compute_archive_seq_bound api recs next_seq (Some ls) (Some st) = Inr (bound, cw, hot)"
    and "0 < bound" and "n \<le> bound"
  shows "(name, Some c) \<in> set st \<Longrightarrow> n \<le> c_last_seq c"
    "k \<in> set (protected_seqs recs ls) \<Longrightarrow> n < k"
    "k \<in> set (retained_snapshot_offsets api) \<Longrightarrow> n \<le> k"
proof -
  obtain cs where cs: "st = zip (map fst st) (map Some cs)" "length cs = length st"
    and cw: "cw = (let w = (case min_of (map c_last_seq cs) of None \<Rightarrow> max 0 (next_seq - 1)
                      | Some f \<Rightarrow> max 0 (min (max 0 (next_seq - 1)) f))
           in case lease_watermark_floor recs ls of None \<Rightarrow> w | Some f \<Rightarrow> max 0 (min w f))"
    and hot: "hot = (case min_of (retained_snapshot_offsets api) of None \<Rightarrow> 0 | Some f \<Rightarrow> f)"
    and bound: "bound = min cw hot"
    using bound_parts [OF b] .
  define w :: int where "w = (case min_of (map c_last_seq cs) of None \<Rightarrow> max 0 (next_seq - 1)
                      | Some f \<Rightarrow> max 0 (min (max 0 (next_seq - 1)) f))"
  have le: "bound \<le> (case lease_watermark_floor recs ls of None \<Rightarrow> w | Some f \<Rightarrow> max 0 (min w f))"
    using cw bound unfolding w_def Let_def by linarith
  then have "bound \<le> w" using assms(2) by (auto split: option.splits)
  show "n < k" if "k \<in> set (protected_seqs recs ls)"
  proof -
    have "bound < k"
      by (rule lease_guard.cap_keeps [of "(recs, ls)" k bound w]) (use that assms(2) le in auto)
    with assms(3) show ?thesis by simp
  qed
  show "n \<le> c_last_seq c" if "(name, Some c) \<in> set st"
  proof -
    have "c \<in> set cs" using that cs(1) by (metis in_set_zipE image_iff list.set_map option.inject)
    then show ?thesis
      using consumer_guard.cap_keeps [of cs "c_last_seq c + 1" bound "max 0 (next_seq - 1)"]
        \<open>bound \<le> w\<close> assms(2,3) by (force simp: w_def)
  qed
  show "n \<le> k" if "k \<in> set (retained_snapshot_offsets api)"
    using snapshot_guard.floor_below [of api "k + 1"] that bound hot assms(3) by force
qed

lemma run_gc_parts:
  assumes "run_gc from_iso digest api recs next_seq proj retention clk s = (Inr res, s')"
  obtains ls ls' reach where
    "active_leases from_iso (clk_bound clk) (st_leases s) = Inr ls"
    "active_leases from_iso (clk_roots clk) (st_leases s) = Inr ls'"
    "compute_archive_seq_bound api recs next_seq (Some ls) (Some (st_cursors s))
       = Inr (gr_archive_seq_bound res, gr_consumer_watermark res, gr_hot_replay_floor res)"
    "compute_gc_reachable recs (compute_gc_roots api recs proj (Some ls') default_snapshot_window
       default_nature_window default_policy_window) = Inr reach"
    "set (gr_archivable_noise_seqs res) =
       (if gr_archive_seq_bound res > 0
        then sequence_number ` {r \<in> set recs. collectable (load_active_retention_policy api) (gr_archive_seq_bound res) r
                                 \<and> event_id r \<notin> reach} else {})"
    "set (gr_protected_seqs res) =
       (if gr_archive_seq_bound res > 0
        then sequence_number ` {r \<in> set recs. collectable (load_active_retention_policy api) (gr_archive_seq_bound res) r
                                 \<and> event_id r \<in> reach} else {})"
  using assms
  by (auto simp: run_gc_def Let_def case_prod_beta gc_sweep_def py_simps rbind_eq_Inl
      split: sum.splits if_splits)

section \<open>What a record outside the closure cannot be\<close>

lemma consumers_passed:
  assumes "compute_archive_seq_bound api recs next_seq (Some ls) (Some st) = Inr (bound, cw, hot)"
    and "0 < bound" and "n \<le> bound"
  shows "\<forall>(name, f) \<in> set st. \<exists>c. f = Some c \<and> n \<le> c_last_seq c"
proof clarify
  obtain cs where cs: "st = zip (map fst st) (map Some cs)" by (rule bound_parts [OF assms(1)]) (rule that)
  fix name f assume f: "(name, f) \<in> set st"
  then obtain c where "f = Some c" using cs by (metis in_set_zipE image_iff list.set_map)
  with f bound_keeps_needed(1) [OF assms] show "\<exists>c. f = Some c \<and> n \<le> c_last_seq c" by blast
qed

lemma unrooted_record:
  assumes "\<not> is_gc_root (compute_gc_roots (eager_api (event_index_of recs)) recs proj (Some ls) w1 w2 w3) r"
    and "r \<in> set recs" and "distinct (map sequence_number recs)"
  shows "l \<in> set ls \<Longrightarrow> (\<forall>ids. le_event_ids l = Some ids \<longrightarrow> event_id r \<notin> set ids)
           \<and> (\<forall>m. le_min_seq l = Some m \<longrightarrow> sequence_number r < m)"
    and "q \<in> set recs \<Longrightarrow> superseded_event_id (supersede q) \<noteq> Some (event_id r)"
    and "event_type r = ''TransactionEnvelopeSubmitted'' \<longrightarrow>
        (\<exists>q \<in> set recs. event_type q \<in> {''CommitAccepted'', ''CommitRejected''}
           \<and> dget (payload q) ''envelope_event_id'' = JStr (event_id r))"
    and "\<not> (event_type r = ''ObligationCaptured''
         \<and> dget (payload r) ''capture_source'' = JStr ''system_bootstrap'')"
proof -
  show "(\<forall>ids. le_event_ids l = Some ids \<longrightarrow> event_id r \<notin> set ids)
        \<and> (\<forall>m. le_min_seq l = Some m \<longrightarrow> sequence_number r < m)" if "l \<in> set ls"
    using leased_root [OF that assms(2,3), of "eager_api (event_index_of recs)" proj w1 w2 w3] assms(1)
    by (metis not_le)
  show "superseded_event_id (supersede q) \<noteq> Some (event_id r)" if "q \<in> set recs"
    using superseded_root [OF that] assms(1) by blast
qed (use eager.in_flight_root [OF TrueI assms(2)] eager.bootstrap_root [OF TrueI assms(2)] assms(1) in blast)+

end
