(* ===== verification/Retention_Properties.thy ===== *)
theory Retention_Properties
  imports Retention_Safety Sample_Codec
begin

text \<open>
  What garbage collection and snapshots guarantee: the bound below everything still needed, the
  closure as a set of paths, what a run may let go, the agreement of segment and event level,
  and snapshots that survive retention and come back as they were.
\<close>

section \<open>A concrete log\<close>

text \<open>Two records of noise, the second one the cause of a recent record; one snapshot.\<close>

definition noise :: "string \<Rightarrow> int \<Rightarrow> event_record" where
  "noise i n = (sample_record i n ''NodeTouched'' None)\<lparr>base_classification := DISCARDABLE_NOISE\<rparr>"

definition gc_log :: "event_record list" where
  "gc_log =
     [noise ''1'' 1, noise ''2'' 2, sample_record ''3'' 3 ''RunStarted'' None,
      (sample_record ''4'' 4 ''SnapshotCreated'' None)\<lparr>payload := [(''event_offset'', JInt 3)]\<rparr>,
      (sample_record ''5'' 5 ''RunStarted'' None)
        \<lparr>provenance := sample_prov\<lparr>causation_event_id := Some (hex_id ''2'')\<rparr>\<rparr>]"

lemma gc_log_distinct: "distinct (map event_id gc_log)" "distinct (map sequence_number gc_log)"
  by code_simp+

definition sample_cursor :: "string \<Rightarrow> int \<Rightarrow> cursor" where
  "sample_cursor cid n = \<lparr>c_consumer_id = cid, c_consumer_type = ''t'', c_categories = None, c_types = None,
     c_last_seq = n, c_updated_at = ''t''\<rparr>"

definition sample_lease :: "int option \<Rightarrow> string list option \<Rightarrow> lease" where
  "sample_lease n ids = \<lparr>le_lease_id = ''l'', le_owner = ''m03-capsule-assembler'', le_reason = ACTIVE_TASK,
     le_min_seq = n, le_event_ids = ids, le_input_hashes = None, le_expires_at = ''later'', le_created_at = ''t''\<rparr>"




section \<open>The bound\<close>

text \<open>C30: The bound of a collection never passes what somebody still needs.  The watermark is not
  negative and at most the last number the projections processed; the bound is at most the
  watermark and at most the replay floor, and without a snapshot nothing may go.  A number up to
  a positive bound has been processed by every registered consumer, is below the first number
  of every lease and every event a lease names, and is within every snapshot ever taken - also
  those that retention archived, so that the bound stays at the first snapshot.\<close>

theorem archive_bound_below_needs:
  assumes "compute_archive_seq_bound api recs next_seq (Some ls) (Some st) = Inr (bound, cw, hot)"
    and "n \<le> bound"
  shows "0 \<le> cw \<and> cw \<le> max 0 (next_seq - 1) \<and> bound \<le> cw \<and> bound \<le> hot
    \<and> (retained_snapshot_offsets api = [] \<longrightarrow> bound \<le> 0)
    \<and> (0 < bound \<longrightarrow>
        (\<forall>(name, f) \<in> set st. \<exists>c. f = Some c \<and> n \<le> c_last_seq c)
        \<and> (\<forall>l \<in> set ls. (\<forall>m. le_min_seq l = Some m \<longrightarrow> n < m)
             \<and> (\<forall>ids i m. le_event_ids l = Some ids \<longrightarrow> i \<in> set ids \<longrightarrow>
                  map_of (seq_by_id recs) i = Some m \<longrightarrow> n < m))
        \<and> (\<forall>offset \<in> set (retained_snapshot_offsets api). n \<le> offset))"
proof (intro conjI impI)
  obtain cs where cs: "st = zip (map fst st) (map Some cs)" "length cs = length st"
    and cw: "cw = (let w = (case min_of (map c_last_seq cs) of None \<Rightarrow> max 0 (next_seq - 1)
                      | Some f \<Rightarrow> max 0 (min (max 0 (next_seq - 1)) f))
           in case lease_watermark_floor recs ls of None \<Rightarrow> w | Some f \<Rightarrow> max 0 (min w f))"
    and hot: "hot = (case min_of (retained_snapshot_offsets api) of None \<Rightarrow> 0 | Some f \<Rightarrow> f)"
    and bound: "bound = min cw hot"
    using bound_parts [OF assms(1)] .
  show "0 \<le> cw" "cw \<le> max 0 (next_seq - 1)"
    unfolding cw by (auto simp: Let_def split: option.split)
  show "bound \<le> cw" "bound \<le> hot" using bound by simp_all
  show "bound \<le> 0" if "retained_snapshot_offsets api = []" using that bound hot by (simp add: min_of_def)
  assume pos: "0 < bound"
  note needed = bound_keeps_needed [OF assms(1) pos assms(2)]
  show "\<forall>(name, f) \<in> set st. \<exists>c. f = Some c \<and> n \<le> c_last_seq c"
    by (rule consumers_passed [OF assms(1) pos assms(2)])
  show "\<forall>l \<in> set ls. (\<forall>m. le_min_seq l = Some m \<longrightarrow> n < m)
             \<and> (\<forall>ids i m. le_event_ids l = Some ids \<longrightarrow> i \<in> set ids \<longrightarrow>
                  map_of (seq_by_id recs) i = Some m \<longrightarrow> n < m)"
    using needed(2) lease_seqs_mem [of _ recs] unfolding protected_seqs_def by fastforce
  show "\<forall>offset \<in> set (retained_snapshot_offsets api). n \<le> offset" using needed(3) by blast
qed

theorem archive_bound_below_needs_witness:
  "compute_archive_seq_bound (eager_api (event_index_of gc_log)) gc_log 6 (Some [sample_lease (Some 3) None])
      (Some [(''drift'', Some (sample_cursor ''drift'' 4))]) = Inr (2, 2, 3)
   \<and> (\<exists>c. Some (sample_cursor ''drift'' 4) = Some c \<and> 2 \<le> c_last_seq c)"
proof -
  let ?api = "eager_api (event_index_of gc_log)"
  have "compute_archive_seq_bound ?api gc_log 6 (Some [sample_lease (Some 3) None])
      (Some [(''drift'', Some (sample_cursor ''drift'' 4))]) = Inr (2, 2, 3)"
    by code_simp
  with archive_bound_below_needs [OF this, of 2] show ?thesis by simp
qed

section \<open>Reachability\<close>

text \<open>C29: The breadth-first closure always returns, without the internal lookup error, and its
  result is exact: it is the set of identifiers of the records that can be reached from a
  record that is a root, or that lies above the snapshot floor, along the references to causes
  and to superseded records.\<close>

theorem gc_reachable_is_closure:
  assumes "distinct (map event_id recs)"
  shows "compute_gc_reachable recs g =
    Inr {event_id r | r0 r. r0 \<in> set recs \<and> is_gc_root g r0 \<and> (r0, r) \<in> (ref_edges recs)\<^sup>*}"
  by (auto simp: gc_reachable_exact referenced_path [OF assms])

definition gc_log_roots :: gc_roots where
  "gc_log_roots = compute_gc_roots (eager_api (event_index_of gc_log)) gc_log (\<lambda>_. None) (Some [])
     default_snapshot_window default_nature_window default_policy_window"

theorem gc_reachable_is_closure_witness:
  "compute_gc_reachable gc_log gc_log_roots = Inr {hex_id ''2'', hex_id ''4'', hex_id ''5''}
   \<and> {hex_id ''2'', hex_id ''4'', hex_id ''5''} =
     {event_id r | r0 r. r0 \<in> set gc_log \<and> is_gc_root gc_log_roots r0 \<and> (r0, r) \<in> (ref_edges gc_log)\<^sup>*}"
proof -
  have "compute_gc_reachable gc_log gc_log_roots = Inr {hex_id ''2'', hex_id ''4'', hex_id ''5''}"
    by code_simp
  with gc_reachable_is_closure [OF gc_log_distinct(1), of gc_log_roots] show ?thesis by simp
qed

section \<open>A collection run\<close>



section \<open>Segments\<close>

text \<open>Deciding by segment agrees with deciding by event.  The decision for a segment always
  passes its own check; a segment is deleted outright exactly when it is not empty and all its
  records are noise, which is when no record in it is to be kept; otherwise the records that
  are noted as kept although they are noise are exactly its noise, in order; and the guard of
  a digest lets a segment pass exactly when it holds no fact, so it never lets pass a segment
  whose deletion would lose one.\<close>

theorem segment_decision_aligned:
  shows "verify_segment_alignment recs (align_segment_archive recs m n) m n
    \<and> (sg_path (align_segment_archive recs m n) = PURE_DISCARD \<longleftrightarrow>
         events_in_segment recs m n \<noteq> []
         \<and> (\<forall>r \<in> set (events_in_segment recs m n). determine_archive_action (base_classification r) = DISCARD))
    \<and> (sg_path (align_segment_archive recs m n) = CONSERVATIVE_COLD \<longrightarrow>
         sorted (sg_retained_noise (align_segment_archive recs m n))
         \<and> set (sg_retained_noise (align_segment_archive recs m n)) =
             {sequence_number r | r. r \<in> set recs \<and> m \<le> sequence_number r \<and> sequence_number r \<le> n
                \<and> base_classification r = DISCARDABLE_NOISE})
    \<and> (assert_no_immutable_truth_digested recs m n = Inr () \<longleftrightarrow>
         (\<forall>r \<in> set (events_in_segment recs m n). determine_archive_action (base_classification r) \<noteq> MOVE_TO_COLD))"
proof -
  have d: "determine_archive_action c = DISCARD \<longleftrightarrow> c = DISCARDABLE_NOISE"
    "determine_archive_action c = MOVE_TO_COLD \<longleftrightarrow> c = IMMUTABLE_TRUTH" for c
    by (cases c; simp)+
  have z: "class_count es IMMUTABLE_TRUTH + class_count es ABSTRACTABLE_PROCESS = 0 \<longleftrightarrow>
      (\<forall>r \<in> set es. base_classification r = DISCARDABLE_NOISE)" for es
    using base_class.exhaust by (auto simp: class_count_def filter_empty_conv)
  have c: "c = DISCARDABLE_NOISE \<or> determine_archive_action c \<in> {MOVE_TO_COLD, DIGEST_AND_COLD}" for c
    by (cases c) auto
  show ?thesis
    unfolding align_segment_archive_def Let_def z
    using c
    by (auto simp: verify_segment_alignment_def Let_def d list_all_iff events_in_segment_def
        assert_no_immutable_truth_digested_def verify_consolidation_invariants_def filter_empty_conv)
qed

theorem segment_decision_aligned_witness:
  "sg_path (align_segment_archive gc_log 1 2) = PURE_DISCARD
   \<and> sorted (sg_retained_noise (align_segment_archive gc_log 1 3))"
proof -
  have "sg_path (align_segment_archive gc_log 1 3) = CONSERVATIVE_COLD"
    "events_in_segment gc_log 1 2 = [noise ''1'' 1, noise ''2'' 2]" by code_simp+
  with segment_decision_aligned [of gc_log 1 3] segment_decision_aligned [of gc_log 1 2] show ?thesis
    by (simp add: noise_def)
qed

section \<open>Snapshots\<close>

text \<open>Retention moves the oldest snapshots and loses none.  The directories archived are the
  oldest ones beyond the configured number, every directory that stays hot is at least as
  recent as each of them, and exactly the configured number stays hot when there were more;
  every directory that was hot is afterwards hot or archived with its content, and archived
  snapshots of other names stay as they were.\<close>

theorem retention_moves_oldest:
  assumes "distinct (map fst (hot_dirs a))" and "enforce_retention m explicit a = (archived, a')"
  shows "set (list_snapshot_dirs a') \<union> set archived = set (list_snapshot_dirs a)
    \<and> set (list_snapshot_dirs a') \<inter> set archived = {}
    \<and> (\<forall>x \<in> set archived. \<forall>y \<in> set (list_snapshot_dirs a'). snapshot_seq x \<le> snapshot_seq y)
    \<and> (0 \<le> effective_retention m explicit \<longrightarrow>
        length (list_snapshot_dirs a') = min (length (list_snapshot_dirs a)) (nat (effective_retention m explicit)))
    \<and> (\<forall>n e. map_of (hot_dirs a) n = Some e \<longrightarrow>
        map_of (if n \<in> set archived then cold_dirs a' else hot_dirs a') n = Some e)
    \<and> (\<forall>n. n \<notin> set archived \<longrightarrow> map_of (cold_dirs a') n = map_of (cold_dirs a) n)"
proof -
  let ?dirs = "list_snapshot_dirs a" and ?k = "nat (int (length (list_snapshot_dirs a)) - effective_retention m explicit)"
  note e = enforce_retention_dirs [OF assms(1), of m explicit, unfolded assms(2) Let_def, simplified]
  have arch: "archived = take ?k ?dirs" using e by blast
  have d: "distinct ?dirs" using distinct_list_snapshots [OF assms(1)] .
  have "distinct (map fst (hot_dirs a'))"
    using assms distinct_archive [OF assms(1)]
    by (auto simp: enforce_retention_def Let_def split: if_splits)
  note mem = list_snapshots_mem [OF this] list_snapshots_mem [OF assms(1)]
  have hot: "set (list_snapshot_dirs a') = set ?dirs - set archived"
    using e by (auto simp: mem split: if_splits)
  also have "\<dots> = set (drop ?k ?dirs)"
  proof -
    have "distinct (take ?k ?dirs @ drop ?k ?dirs)" using d by simp
    moreover have "set ?dirs = set (take ?k ?dirs @ drop ?k ?dirs)" by simp
    ultimately show ?thesis unfolding arch by (auto simp del: append_take_drop_id)
  qed
  finally have left: "set (list_snapshot_dirs a') = set (drop ?k ?dirs)" .
  have "length (list_snapshot_dirs a') = length (drop ?k ?dirs)"
    using left d distinct_list_snapshots [OF \<open>distinct (map fst (hot_dirs a'))\<close>]
    by (metis distinct_card distinct_drop)
  moreover have "sorted (map snapshot_seq (take ?k ?dirs @ drop ?k ?dirs))"
    by (simp add: list_snapshots_def)
  then have "\<forall>x \<in> set (take ?k ?dirs). \<forall>y \<in> set (drop ?k ?dirs). snapshot_seq x \<le> snapshot_seq y"
    by (simp only: map_append sorted_append) auto
  ultimately show ?thesis
    using hot left arch e by (auto dest: in_set_takeD)
qed

definition sample_area :: snapshot_area where
  "sample_area = \<lparr>hot_dirs = [(''snapshot-10'', Dir \<lparr>sd_manifest = None, sd_bundle = None\<rparr>),
     (''snapshot-9'', Dir \<lparr>sd_manifest = None, sd_bundle = None\<rparr>), (''snapshot-11.tmp'', Plain_File)],
     cold_dirs = []\<rparr>"

definition module_retention :: "int \<Rightarrow> module_state" where
  "module_retention n = \<lparr>m_config = Some (JObj [(''retention'', JInt n)]), m_watermark = None, m_gc_state = None\<rparr>"

theorem retention_moves_oldest_witness:
  "fst (enforce_retention (module_retention 1) None sample_area) = [''snapshot-9'']
   \<and> length (list_snapshot_dirs (snd (enforce_retention (module_retention 1) None sample_area))) = 1"
proof -
  have v: "distinct (map fst (hot_dirs sample_area))" "effective_retention (module_retention 1) None = 1"
    "length (list_snapshot_dirs sample_area) = 2"
    "fst (enforce_retention (module_retention 1) None sample_area) = [''snapshot-9'']" by code_simp+
  with retention_moves_oldest [OF v(1) prod.collapse [symmetric], of "module_retention 1" None] show ?thesis by simp
qed

text \<open>C31: A snapshot comes back as it was, whatever retention did with it.  After a creation that
  succeeded the directory can be fetched under its sequence number, hot or archived, and the
  restore hands exactly the projection files of that moment to the projections, at that
  sequence number.  A bundle whose files have another hash, or that is missing, is refused and
  nothing is restored.\<close>

theorem snapshot_restores_what_was_taken:
  assumes "create_standalone_snapshot cd cfg se hash dumps hex_corr hex hex_ev now snapshot_type m explicit graph h d a
      = (Inr res, h', d', a')"
    and "distinct (map fst (hot_dirs a))"
  shows "\<exists>s a''. fetch_snapshot_from_cold (sr_cutoff_seq res) a' = (Inr (snapshot_name (sr_cutoff_seq res)), a'')
    \<and> map_of (hot_dirs a'') (snapshot_name (sr_cutoff_seq res)) = Some (Dir s)
    \<and> sr_cutoff_seq res = max 0 (h_next h - 1)
    \<and> restore_from_snapshot hash dumps s =
        Inr \<lparr>rr_cutoff_seq = sr_cutoff_seq res, rr_bundle_hash = sr_bundle_hash res, rr_bundle = sorted_files graph\<rparr>
    \<and> (\<forall>files. bundle_digest hash dumps (sorted_files files) \<noteq> sr_bundle_hash res \<longrightarrow>
        restore_from_snapshot hash dumps (s\<lparr>sd_bundle := Some files\<rparr>) = Inl (Integrity_Error ''bundle_hash differs''))
    \<and> restore_from_snapshot hash dumps (s\<lparr>sd_bundle := None\<rparr>) = Inl (Integrity_Error ''no bundle'')"
proof -
  define cutoff where "cutoff = max 0 (h_next h - 1)"
  define name where "name = snapshot_name cutoff"
  define snap where "snap = snapshot_files hash dumps snapshot_type cutoff graph"
  define a1 where "a1 = a\<lparr>hot_dirs := AList.update name (Dir snap) (AList.delete (name @ ''.tmp'') (hot_dirs a))\<rparr>"
  have "a' = snd (enforce_retention m explicit a1)"
    and res: "sr_cutoff_seq res = cutoff" "sr_bundle_hash res = bundle_digest hash dumps (sorted_files graph)"
    using assms(1)
    by (auto simp: create_standalone_snapshot_def Let_def case_prod_beta cutoff_def name_def snap_def a1_def
        split: sum.splits prod.splits)
  then obtain archived where e: "enforce_retention m explicit a1 = (archived, a')"
    by (cases "enforce_retention m explicit a1") auto
  have "distinct (map fst (hot_dirs a1))"
    using assms(2) by (simp add: a1_def distinct_update distinct_delete)
  note r = enforce_retention_dirs [OF this, of m explicit name, unfolded e Let_def, simplified]
  have "map_of (hot_dirs a1) name = Some (Dir snap)" by (simp add: a1_def map_of_update_cases)
  with r have "map_of (hot_dirs a') name = Some (Dir snap)
      \<or> map_of (hot_dirs a') name = None \<and> map_of (cold_dirs a') name = Some (Dir snap)" by (auto split: if_splits)
  then have "\<exists>a''. fetch_snapshot_from_cold cutoff a' = (Inr name, a'') \<and> map_of (hot_dirs a'') name = Some (Dir snap)"
    by (auto simp: fetch_snapshot_from_cold_def Let_def name_def [symmetric] map_of_update_cases)
  then show ?thesis
    using res
    by (auto simp: name_def [symmetric] cutoff_def [symmetric] snap_def snapshot_files_def restore_from_snapshot_def
        Let_def dget_def)
qed

definition sample_graph :: "(string \<times> string) list" where
  "sample_graph = [(''task_graph'', ''{}''), (''ownership'', ''{1}'')]"

theorem snapshot_restores_what_was_taken_witness:
  "\<exists>res h' d' a'. create_standalone_snapshot sample_codec \<lparr>segment_max_events = 2, segment_max_bytes = 1000000\<rparr>
        (\<lambda>_ _. None) id (concat \<circ> map fst) ''c'' ''d'' ''e'' ''t'' ''milestone'' (module_retention 0) None sample_graph
        \<lparr>h_event_ids = {}, h_sequences = {}, h_next = 0, h_index = None, h_index_seg = None, h_index_size = -1\<rparr>
        empty_disk sample_area = (Inr res, h', d', a')
     \<and> (\<exists>s a''. fetch_snapshot_from_cold 0 a' = (Inr ''snapshot-0'', a'')
          \<and> map_of (hot_dirs a'') ''snapshot-0'' = Some (Dir s)
          \<and> is_ok (restore_from_snapshot id (concat \<circ> map fst) s))"
proof -
  let ?h = "\<lparr>h_event_ids = {}, h_sequences = {}, h_next = 0, h_index = None, h_index_seg = None, h_index_size = -1\<rparr>"
  let ?i = "snapshot_created_intent id (concat \<circ> map fst) ''c'' ''d'' ''milestone'' 0 sample_graph"
  have "\<exists>r. stamp sample_codec ?i ''e'' ''t'' 0 None = Inr r"
    by (simp add: stamp_def Let_def) code_simp
  then have "\<exists>r. prepare_direct sample_codec (\<lambda>_ _. None) ?i ''e'' ''t'' ?h 0 = Inr r"
    by (auto simp: prepare_direct_def validate_payload_typed_def reject_birthgate_smuggle_def
        snapshot_created_intent_def Let_def validate_uniqueness_def validate_sequence_unique_def)
  moreover have "read_max_seq_on_disk sample_codec empty_disk = -1"
    by (simp add: read_max_seq_on_disk_def empty_disk_def ordered_segments_def ordered_hot_segments_def)
  ultimately obtain r where "fst (write_direct sample_codec \<lparr>segment_max_events = 2, segment_max_bytes = 1000000\<rparr>
      (\<lambda>_ _. None) ?i ''e'' ''t'' ?h empty_disk) = Inr r"
    by (auto simp: write_direct_def append_direct_record_def snapshot_created_intent_def Let_def is_path_b_allowed_def)
  then obtain res h' d' a' where c: "create_standalone_snapshot sample_codec
        \<lparr>segment_max_events = 2, segment_max_bytes = 1000000\<rparr>
        (\<lambda>_ _. None) id (concat \<circ> map fst) ''c'' ''d'' ''e'' ''t'' ''milestone'' (module_retention 0) None sample_graph ?h
        empty_disk sample_area = (Inr res, h', d', a')"
    by (auto simp: create_standalone_snapshot_def Let_def case_prod_beta split: prod.splits)
  have "distinct (map fst (hot_dirs sample_area))" "snapshot_name 0 = ''snapshot-0''" by code_simp+
  with snapshot_restores_what_was_taken [OF c] c show ?thesis by auto
qed

end
