(* ===== verification/Gate_Conflicts.thy ===== *)
theory Gate_Conflicts
  imports Lookup_Contract Documents "HOL-Library.Product_Lexorder"
begin

text \<open>
  The checks of the commit gate that compare an envelope with the log and with itself
  (\<open>l0/commit_gate/semantic_checks.py\<close>, \<open>drift_checks.py\<close>, \<open>l0/envelope/checks.py\<close>): version,
  write and ownership conflicts, scope and freshness drift, the integrity of the envelope and the
  claims boundary.  They read the log through \<open>index_api\<close> only.  Texts of notices are shortened
  to their leading identifier.
\<close>

section \<open>Results of a check\<close>

text \<open>
  The result classes of the checks have the same fields; \<open>cr_applicable\<close> is the negation of
  their \<open>skipped\<close> and \<open>claims_absent\<close>.
\<close>

record check_result =
  cr_passed :: bool
  cr_applicable :: bool
  cr_reason :: "string option"
  cr_evidence :: "(string \<times> string) list"
  cr_notices :: "string list"

definition check_ok :: check_result where
  "check_ok = \<lparr>cr_passed = True, cr_applicable = True, cr_reason = None, cr_evidence = [], cr_notices = []\<rparr>"

definition check_skip :: "string list \<Rightarrow> check_result" where
  "check_skip notices = check_ok\<lparr>cr_applicable := False, cr_notices := notices\<rparr>"

definition check_fail :: "string \<Rightarrow> (string \<times> string) list \<Rightarrow> check_result" where
  "check_fail reason evidence = check_ok\<lparr>cr_passed := False, cr_reason := Some reason, cr_evidence := evidence\<rparr>"

lemma check_result_simps [simp]:
  "cr_passed check_ok" "cr_passed (check_skip n)" "\<not> cr_passed (check_fail a b)"
  "cr_applicable check_ok" "\<not> cr_applicable (check_skip n)" "cr_applicable (check_fail a b)"
  "cr_reason (check_fail a b) = Some a" "cr_evidence (check_fail a b) = b"
  "cr_notices check_ok = []" "cr_notices (check_skip n) = n" "cr_notices (check_fail a b) = []"
  by (simp_all add: check_ok_def check_skip_def check_fail_def)

section \<open>Reading payloads\<close>

text \<open>The entries of a list that are dictionaries; none if the value is no list.\<close>

definition obj_items :: "json \<Rightarrow> dict list" where
  "obj_items v = (case v of JArr xs \<Rightarrow> List.map_filter as_obj xs | _ \<Rightarrow> [])"

definition entity_ref :: "dict \<Rightarrow> (string \<times> string) option" where
  "entity_ref entry =
     (case (as_str (dget entry ''entity_type''), as_str (dget entry ''entity_id'')) of
        (Some t, Some i) \<Rightarrow> Some (t, i)
      | _ \<Rightarrow> None)"

definition refs :: "json \<Rightarrow> (string \<times> string) list" where
  "refs entries = List.map_filter entity_ref (obj_items entries)"

definition nonempty_ref :: "string \<times> string \<Rightarrow> bool" where
  "nonempty_ref k \<longleftrightarrow> fst k \<noteq> [] \<and> snd k \<noteq> []"

definition is_nonempty_str :: "json \<Rightarrow> bool" where
  "is_nonempty_str v = (case v of JStr s \<Rightarrow> py_strip s \<noteq> [] | _ \<Rightarrow> False)"

definition colon_ref :: "string \<times> string \<Rightarrow> string" where
  "colon_ref k = fst k @ '':'' @ snd k"

fun join :: "string \<Rightarrow> string list \<Rightarrow> string" where
  "join sep [] = []"
| "join sep [x] = x"
| "join sep (x # y # xs) = x @ sep @ join sep (y # xs)"

text \<open>Keeps the first of equal elements, as appending with a \<open>seen\<close> set does.\<close>

definition first_of_each :: "'a list \<Rightarrow> 'a list" where
  "first_of_each xs = rev (remdups (rev xs))"

lemma set_first_of_each [simp]: "set (first_of_each xs) = set xs"
  by (simp add: first_of_each_def)

lemma first_of_each_Nil [simp]: "first_of_each xs = [] \<longleftrightarrow> xs = []"
  by (simp add: first_of_each_def)

text \<open>\<open>v in {...}\<close> over a set of strings: an unhashable value raises.\<close>

definition in_names :: "json \<Rightarrow> string list \<Rightarrow> verr + bool" where
  "in_names v names =
     (case v of
        JStr s \<Rightarrow> Inr (s \<in> set names)
      | JArr _ \<Rightarrow> Inl (TypeError ''unhashable type'')
      | JObj _ \<Rightarrow> Inl (TypeError ''unhashable type'')
      | _ \<Rightarrow> Inr False)"

section \<open>Version, write and ownership conflicts\<close>

definition stub_capsule_prefixes :: "string list" where
  "stub_capsule_prefixes = [''evt-no-capsule'', ''evt-bootstrap-no-capsule'', ''evt-stub-capsule'']"

definition is_stub_capsule_ref :: "string \<Rightarrow> bool" where
  "is_stub_capsule_ref ref \<longleftrightarrow> (\<exists>p \<in> set stub_capsule_prefixes. ref = p \<or> prefix p ref)"

definition writing_roles :: "string list" where
  "writing_roles = [''primary'', ''affected'']"

definition writes_entity :: "event_record \<Rightarrow> string \<times> string \<Rightarrow> bool" where
  "writes_entity r k \<longleftrightarrow>
     (\<exists>s \<in> set (subjects r). entity_type s = fst k \<and> entity_id s = snd k \<and> role s \<in> set writing_roles)"

definition check_version_consistency :: "index_api \<Rightarrow> string \<Rightarrow> check_result" where
  "check_version_consistency api capsule =
     (let ref = py_strip capsule
      in if ref = [] \<or> is_stub_capsule_ref ref then check_skip [''version_consistency_skipped'']
         else if api_event_id api ref = None
         then check_fail ''invalid_capsule_reference'' [(''capsule_compiled_event_id'', ref)]
         else (case api_supersede api ref of
                 [] \<Rightarrow> check_ok
               | r # _ \<Rightarrow> check_fail ''capsule_superseded''
                    [(''capsule_compiled_event_id'', ref), (''superseded_by_event_id'', event_id r)]))"

definition conflicting_write :: "index_api \<Rightarrow> int \<Rightarrow> string \<times> string \<Rightarrow> event_record option" where
  "conflicting_write api as_of k =
     find (\<lambda>r. event_category r = ''state_transition'' \<and> \<not> sequence_number r \<le> as_of \<and> writes_entity r k)
       (api_entity api (fst k) (snd k))"

fun first_conflict :: "index_api \<Rightarrow> int \<Rightarrow> (string \<times> string) list
    \<Rightarrow> ((string \<times> string) \<times> event_record) option" where
  "first_conflict api as_of [] = None"
| "first_conflict api as_of (k # ks) =
     (case conflicting_write api as_of k of Some r \<Rightarrow> Some (k, r) | None \<Rightarrow> first_conflict api as_of ks)"

definition check_write_conflict :: "index_api \<Rightarrow> json \<Rightarrow> int \<Rightarrow> check_result" where
  "check_write_conflict api write_set as_of =
     (if as_of \<le> 0 then check_skip [''write_conflict_skipped'']
      else (case first_conflict api as_of (refs write_set) of
              None \<Rightarrow> check_ok
            | Some (k, r) \<Rightarrow> check_fail ''write_conflict''
                [(''conflicting_entity'', colon_ref k), (''conflicting_event_id'', event_id r),
                 (''conflicting_seq'', int_str (sequence_number r)), (''as_of_projection_seq'', int_str as_of)]))"

text \<open>The ownership projection maps locked entities to their lock; the last entry wins.\<close>

definition ownership_locks :: "dict list \<Rightarrow> ((string \<times> string) \<times> dict) list" where
  "ownership_locks entities =
     fold (\<lambda>e. case entity_ref e of
                 Some k \<Rightarrow> if truthy (dget e ''write_locked'') then AList.update k e else id
               | None \<Rightarrow> id) entities []"

definition foreign_holder :: "dict \<Rightarrow> string \<Rightarrow> string option" where
  "foreign_holder lock submitter =
     (case dget lock ''lock_holder_run_id'' of
        JStr run \<Rightarrow> if run \<noteq> [] \<and> run \<noteq> submitter then Some run else None
      | _ \<Rightarrow> None)"

fun first_foreign_lock :: "((string \<times> string) \<times> dict) list \<Rightarrow> string \<Rightarrow> (string \<times> string) list
    \<Rightarrow> ((string \<times> string) \<times> dict \<times> string) option" where
  "first_foreign_lock locks submitter [] = None"
| "first_foreign_lock locks submitter (k # ks) =
     (case map_of locks k of
        None \<Rightarrow> first_foreign_lock locks submitter ks
      | Some lock \<Rightarrow>
          (case foreign_holder lock submitter of
             Some run \<Rightarrow> Some (k, lock, run)
           | None \<Rightarrow> first_foreign_lock locks submitter ks))"

definition check_ownership_conflict :: "dict option \<Rightarrow> json \<Rightarrow> string option \<Rightarrow> check_result" where
  "check_ownership_conflict projection write_set submitter_run =
     (case submitter_run of
        None \<Rightarrow> check_skip [''ownership_conflict_skipped'']
      | Some submitter \<Rightarrow>
          (if submitter = [] \<or> \<not> truthy write_set then check_skip [''ownership_conflict_skipped'']
           else (case dget (case projection of None \<Rightarrow> [] | Some d \<Rightarrow> d) ''entities'' of
                   JArr (e # es) \<Rightarrow>
                     (case first_foreign_lock (ownership_locks (obj_items (JArr (e # es)))) submitter
                             (refs write_set) of
                        None \<Rightarrow> check_ok
                      | Some (k, lock, run) \<Rightarrow> check_fail ''write_conflict''
                          [(''locked_entity'', colon_ref k), (''lock_holder_run_id'', run),
                           (''lock_owner_task_id'', py_str (dget lock ''owner_task_id'')),
                           (''submitter_run_id'', submitter)])
                 | _ \<Rightarrow> check_skip [''ownership_conflict_skipped''])))"

section \<open>Scope and freshness drift\<close>

definition invalidating_event_types :: "string list" where
  "invalidating_event_types =
     [''ObligationCaptured'', ''ObligationEvolved'', ''ObligationRetired'', ''ConceptCreated'',
      ''ConceptEdgeAdded'', ''ConceptEdgeRemoved'', ''ConceptStateTransition'', ''ConceptGraphProposal'',
      ''AtReferenceAdded'', ''AtReferenceRemoved'', ''SemanticUpgradeDeclaration'', ''NatureJudgmentCaptured'']"

definition capsule_neighborhood :: "index_api \<Rightarrow> string \<Rightarrow> string set option" where
  "capsule_neighborhood api capsule =
     (case api_event_id api capsule of
        None \<Rightarrow> None
      | Some r \<Rightarrow>
          (if event_type r \<noteq> ''CapsuleCompiled'' then None
           else (case dget (payload r) ''neighborhood_concept_ids'' of
                   JArr xs \<Rightarrow> Some (set (filter (\<lambda>c. c \<noteq> []) (List.map_filter as_str xs)))
                 | _ \<Rightarrow> None)))"

record scope_result =
  so_passed :: bool
  so_notice :: "string option"
  so_drift_nodes :: "(string \<times> string) list"
  so_capsule_scope :: "string list"

definition check_scope_drift :: "index_api \<Rightarrow> string \<Rightarrow> (string \<times> string) set \<Rightarrow> scope_result" where
  "check_scope_drift api capsule touched =
     (case capsule_neighborhood api capsule of
        None \<Rightarrow> \<lparr>so_passed = True, so_notice = Some ''scope_drift_skipped'', so_drift_nodes = [],
                 so_capsule_scope = []\<rparr>
      | Some scope \<Rightarrow>
          (let concepts = snd ` {k \<in> touched. fst k = ''concept''};
               drift = sorted_list_of_set (concepts - scope)
           in \<lparr>so_passed = (drift = []), so_notice = None, so_drift_nodes = map (Pair ''concept'') drift,
               so_capsule_scope = sorted_list_of_set scope\<rparr>))"

definition scope_touched_from_payload :: "dict \<Rightarrow> (string \<times> string) set" where
  "scope_touched_from_payload pl =
     set (filter nonempty_ref (refs (dget pl ''read_set'')))
     \<union> set (filter nonempty_ref (List.map_filter entity_ref
         (filter (\<lambda>e. dget e ''change_type'' \<noteq> JStr ''created'') (obj_items (dget pl ''write_set'')))))"

definition relevant_subjects_from_payload :: "dict \<Rightarrow> (string \<times> string) set" where
  "relevant_subjects_from_payload pl =
     set (filter nonempty_ref (refs (dget pl ''read_set'') @ refs (dget pl ''write_set'')))"

definition freshness_relevant_subjects :: "index_api \<Rightarrow> string \<Rightarrow> dict \<Rightarrow> (string \<times> string) set" where
  "freshness_relevant_subjects api capsule pl =
     relevant_subjects_from_payload pl
     \<union> (case capsule_neighborhood api capsule of None \<Rightarrow> {} | Some cs \<Rightarrow> Pair ''concept'' ` cs)"

record freshness_result =
  fr_passed :: bool
  fr_notice :: "string option"
  fr_invalidating_event_ids :: "string list"
  fr_drift_nodes :: "(string \<times> string) list"

definition invalidating_hits :: "index_api \<Rightarrow> int \<Rightarrow> string \<times> string \<Rightarrow> event_record list" where
  "invalidating_hits api as_of k =
     filter (\<lambda>r. \<not> sequence_number r \<le> as_of \<and> event_type r \<in> set invalidating_event_types \<and> writes_entity r k)
       (api_entity api (fst k) (snd k))"

definition check_freshness_drift :: "index_api \<Rightarrow> (string \<times> string) set \<Rightarrow> int \<Rightarrow> freshness_result" where
  "check_freshness_drift api relevant as_of =
     (if as_of \<le> 0 \<or> relevant = {}
      then \<lparr>fr_passed = True, fr_notice = Some ''freshness_drift_skipped'', fr_invalidating_event_ids = [],
            fr_drift_nodes = []\<rparr>
      else (let nodes = sorted_list_of_set relevant;
                ids = first_of_each (concat (map (map event_id \<circ> invalidating_hits api as_of) nodes))
            in if ids = []
               then \<lparr>fr_passed = True, fr_notice = None, fr_invalidating_event_ids = [], fr_drift_nodes = []\<rparr>
               else \<lparr>fr_passed = False, fr_notice = None, fr_invalidating_event_ids = ids,
                     fr_drift_nodes = filter (\<lambda>k. invalidating_hits api as_of k \<noteq> []) nodes\<rparr>))"

section \<open>The envelope itself\<close>

definition required_str_fields :: "string list" where
  "required_str_fields = [''envelope_id'', ''task_id'', ''run_id'', ''fork_id'']"

definition read_entity_types :: "string list" where
  "read_entity_types = [''concept'', ''concept_edge'', ''task'', ''file'', ''obligation'', ''at_reference'']"

definition write_entity_types :: "string list" where
  "write_entity_types = read_entity_types @ [''patch'']"

definition patch_types :: "string list" where
  "patch_types = [''code_diff'', ''concept_event'', ''task_event'', ''doc_change'', ''config_change'',
     ''obligation_event'', ''consolidation_event'']"

text \<open>\<open>entry.get("entity_type") if isinstance(entry, dict) else None\<close>\<close>

definition entry_type :: "json \<Rightarrow> json" where
  "entry_type entry = (case entry of JObj d \<Rightarrow> dget d ''entity_type'' | _ \<Rightarrow> JNull)"

fun check_entries :: "string \<Rightarrow> string list \<Rightarrow> json list \<Rightarrow> verr + check_result" where
  "check_entries field types [] = Inr check_ok"
| "check_entries field types (e # es) =
     rbind (in_names (entry_type e) types) (\<lambda>known.
       if known then check_entries field types es
       else Inr (check_fail ''envelope_malformed'' [(field, py_str (entry_type e))]))"

fun check_patches :: "json list \<Rightarrow> verr + check_result" where
  "check_patches [] = Inr check_ok"
| "check_patches (JObj p # ps) =
     rbind (in_names (dget p ''patch_type'') patch_types) (\<lambda>known.
       if \<not> known then Inr (check_fail ''envelope_malformed'' [(''patch_type'', py_str (dget p ''patch_type''))])
       else if truthy (dget p ''is_supersede'')
               \<and> (\<not> is_nonempty_str (dget p ''superseded_entity_ref'') \<or> \<not> is_nonempty_str (dget p ''novelty_type''))
       then Inr (check_fail ''supersede_declaration_incomplete''
              [(''patch_id'', if has_key p ''patch_id'' then py_str (dget p ''patch_id'') else [])])
       else check_patches ps)"
| "check_patches (_ # ps) = check_patches ps"

definition check_envelope_integrity :: "dict \<Rightarrow> verr + check_result" where
  "check_envelope_integrity pl =
     (if \<not> is_nonempty_str (dget pl ''schema_version'')
      then Inr (check_fail ''envelope_malformed'' [(''field'', ''schema_version'')])
      else if dget pl ''schema_version'' \<noteq> JStr ''1.0.0''
      then Inr (check_fail ''schema_version_unsupported'' [(''schema_version'', py_str (dget pl ''schema_version''))])
      else (case find (\<lambda>f. \<not> is_nonempty_str (dget pl f)) (required_str_fields @ [''capsule_compiled_event_id'']) of
              Some f \<Rightarrow> Inr (check_fail ''envelope_malformed'' [(''field'', f)])
            | None \<Rightarrow>
                (case (dget pl ''read_set'', dget pl ''write_set'') of
                   (JArr (r # rs), JArr (w # ws)) \<Rightarrow>
                     (if as_list (dget pl ''active_obligations_declared'') = None
                      then Inr (check_fail ''envelope_malformed'' [(''field'', ''active_obligations_declared'')])
                      else if as_obj (dget pl ''self_check'') = None
                      then Inr (check_fail ''envelope_malformed'' [(''field'', ''self_check'')])
                      else rbind (check_entries ''read_set.entity_type'' read_entity_types (r # rs)) (\<lambda>res.
                             if \<not> cr_passed res then Inr res
                             else rbind (check_entries ''write_set.entity_type'' write_entity_types (w # ws)) (\<lambda>res.
                               if \<not> cr_passed res then Inr res
                               else (case dget pl ''patches'' of
                                       JArr ps \<Rightarrow> check_patches ps
                                     | _ \<Rightarrow> Inr check_ok))))
                 | (JArr (r # rs), _) \<Rightarrow> Inr (check_fail ''envelope_malformed'' [(''field'', ''write_set'')])
                 | _ \<Rightarrow> Inr (check_fail ''envelope_malformed'' [(''field'', ''read_set'')]))))"

definition claimed :: "string \<Rightarrow> dict list \<Rightarrow> (string \<times> string) set" where
  "claimed kind claims =
     set (List.map_filter entity_ref (filter (\<lambda>c. dget c ''claim_type'' = JStr kind) claims))"

definition exceeded_evidence :: "(string \<times> string) set \<Rightarrow> (string \<times> string) list" where
  "exceeded_evidence ks = [(''exceeded'', join '';'' (map colon_ref (sorted_list_of_set ks)))]"

definition check_claims_boundary :: "dict \<Rightarrow> check_result" where
  "check_claims_boundary pl =
     (case dget pl ''claims'' of
        JArr (c # cs) \<Rightarrow>
          (let claims = obj_items (JArr (c # cs));
               reads = claimed ''read_claim'' claims; writes = claimed ''write_claim'' claims;
               read_exceeded = set (refs (dget pl ''read_set'')) - (reads \<union> writes);
               write_exceeded = set (refs (dget pl ''write_set'')) - writes
           in if read_exceeded \<noteq> {} then check_fail ''read_set_exceeds_claims'' (exceeded_evidence read_exceeded)
              else if write_exceeded \<noteq> {}
              then check_fail ''write_set_exceeds_claims'' (exceeded_evidence write_exceeded)
              else check_ok)
      | _ \<Rightarrow> check_skip [''claims_absent''])"

end
