(* ===== verification/Gate_Obligations.thy ===== *)
theory Gate_Obligations
  imports Gate_Conflicts
begin

text \<open>
  The checks of the commit gate on obligations, completeness and debts
  (\<open>l0/commit_gate/obligation_checks.py\<close>, \<open>completeness.py\<close>, \<open>completion_checks.py\<close>,
  \<open>fencing_check.py\<close>, \<open>audit.py\<close>, \<open>activation_acceptance_check.py\<close>, \<open>l0/debt/registry.py\<close>).
  The regular expression engine is the argument \<open>re_search\<close> (\<open>None\<close> where it raises), the fence
  files are the argument \<open>fence\<close>, the sampling decisions and the age of timestamps are arguments.
\<close>

section \<open>The newest value\<close>

text \<open>The loops that keep the value of the record with the highest number seen so far.\<close>

definition latest_step :: "(event_record \<Rightarrow> 'a option) \<Rightarrow> event_record \<Rightarrow> int \<times> 'a option \<Rightarrow> int \<times> 'a option" where
  "latest_step f r acc =
     (case f r of
        None \<Rightarrow> acc
      | Some v \<Rightarrow> if sequence_number r > fst acc then (sequence_number r, Some v) else acc)"

definition latest :: "(event_record \<Rightarrow> 'a option) \<Rightarrow> event_record list \<Rightarrow> 'a option" where
  "latest f rs = snd (fold (latest_step f) rs (-1, None))"

lemma fold_latest_step:
  assumes "\<forall>r \<in> set rs. 0 \<le> sequence_number r"
  shows "(\<forall>r \<in> set rs. f r \<noteq> None \<longrightarrow> sequence_number r \<le> fst (fold (latest_step f) rs (-1, None)))
    \<and> (fold (latest_step f) rs (-1, None) = (-1, None)
       \<or> (\<exists>r \<in> set rs. fold (latest_step f) rs (-1, None) = (sequence_number r, f r) \<and> f r \<noteq> None))"
  using assms
proof (induction rs rule: rev_induct)
  case (snoc r rs)
  then show ?case by (cases "f r") (auto simp: latest_step_def)
qed simp

lemma latest_None:
  assumes "\<forall>r \<in> set rs. 0 \<le> sequence_number r"
  shows "latest f rs = None \<longleftrightarrow> (\<forall>r \<in> set rs. f r = None)"
  using fold_latest_step [OF assms, of f] assms by (fastforce simp: latest_def)

lemma latest_Some:
  assumes "latest f rs = Some v" and "\<forall>r \<in> set rs. 0 \<le> sequence_number r"
  shows "\<exists>r \<in> set rs. f r = Some v \<and> (\<forall>q \<in> set rs. f q \<noteq> None \<longrightarrow> sequence_number q \<le> sequence_number r)"
  using fold_latest_step [OF assms(2), of f] assms(1) by (auto simp: latest_def)

text \<open>A record or an intent that is wrapped in a \<open>NodeTouched\<close> stub: its kind and payload.\<close>

definition unwrap_stub :: "string \<Rightarrow> dict \<Rightarrow> string \<times> dict" where
  "unwrap_stub type pl =
     (if type = ''NodeTouched''
      then (case (as_str (dget pl ''kind''), as_obj (dget pl ''stub_original_payload'')) of
              (Some kind, Some orig) \<Rightarrow> (kind, orig)
            | _ \<Rightarrow> (type, pl))
      else (type, pl))"

definition after_state :: "dict \<Rightarrow> dict" where
  "after_state pl = (case dget pl ''after_state'' of JObj d \<Rightarrow> d | _ \<Rightarrow> [])"

text \<open>A string that is not empty.\<close>

definition nonempty :: "json \<Rightarrow> string option" where
  "nonempty v = (case v of JStr s \<Rightarrow> if s = [] then None else Some s | _ \<Rightarrow> None)"

section \<open>Provenance of captured obligations\<close>

definition capture_source :: "dict \<Rightarrow> string option" where
  "capture_source pl =
     (case (case dget pl ''capture_provenance'' of JObj d \<Rightarrow> nonempty (dget d ''capture_source'') | _ \<Rightarrow> None) of
        Some s \<Rightarrow> Some s
      | None \<Rightarrow> nonempty (dget pl ''capture_source''))"

definition text_refs :: "json list \<Rightarrow> string list" where
  "text_refs xs = filter (\<lambda>s. py_strip s \<noteq> []) (List.map_filter as_str xs)"

definition source_event_refs :: "dict \<Rightarrow> string list" where
  "source_event_refs pl =
     (case (case dget pl ''capture_provenance'' of JObj d \<Rightarrow> as_list (dget d ''source_event_refs'') | _ \<Rightarrow> None) of
        Some xs \<Rightarrow> text_refs xs
      | None \<Rightarrow> (case dget pl ''source_event_refs'' of JArr xs \<Rightarrow> text_refs xs | _ \<Rightarrow> []))"

definition lacks_provenance :: "event_intent \<Rightarrow> bool" where
  "lacks_provenance i \<longleftrightarrow>
     i_event_type i = ''ObligationCaptured'' \<and> capture_source (i_payload i) \<noteq> Some ''system_bootstrap''
     \<and> source_event_refs (i_payload i) = []"

definition check_obligation_capture_provenance :: "event_intent list \<Rightarrow> check_result" where
  "check_obligation_capture_provenance intents =
     (case find lacks_provenance intents of
        None \<Rightarrow> check_ok
      | Some i \<Rightarrow> check_fail ''obligation_provenance_missing''
          [(''obligation_id'', case as_str (dget (i_payload i) ''obligation_id'') of
                                 Some s \<Rightarrow> s | None \<Rightarrow> ''<unknown>''),
           (''capture_source'', case capture_source (i_payload i) of Some s \<Rightarrow> s | None \<Rightarrow> ''<unset>'')])"

section \<open>Maintenance of obligations\<close>

datatype match_outcome = MATCH | NO_MATCH | UNCHECKABLE

definition match_forbidden_pattern :: "(string \<Rightarrow> string \<Rightarrow> bool option) \<Rightarrow> string \<Rightarrow> string \<Rightarrow> string
    \<Rightarrow> match_outcome" where
  "match_forbidden_pattern re_search pattern pattern_type content =
     (if pattern = [] \<or> content = [] then NO_MATCH
      else if pattern_type = ''regex''
      then (case re_search pattern content of None \<Rightarrow> UNCHECKABLE
            | Some found \<Rightarrow> if found then MATCH else NO_MATCH)
      else if pattern_type = ''text_match''
      then (if sublist pattern content then MATCH else NO_MATCH)
      else UNCHECKABLE)"

definition defines_obligation :: "event_record \<Rightarrow> bool" where
  "defines_obligation r \<longleftrightarrow> event_type r \<in> set [''ObligationCaptured'', ''ObligationEvolved'']"

text \<open>The pattern and its type that one defining record declares.\<close>

definition declared_checker :: "dict \<Rightarrow> (string \<times> string) option" where
  "declared_checker pl =
     (let cm = (case dget pl ''obligation_definition'' of
                  JObj def \<Rightarrow> (case dget def ''checker_metadata'' of JObj d \<Rightarrow> d | _ \<Rightarrow> [])
                | _ \<Rightarrow> []);
          pattern = (case nonempty (dget cm ''forbidden_pattern'') of
                       Some p \<Rightarrow> Some p
                     | None \<Rightarrow> nonempty (dget pl ''forbidden_pattern''))
      in map_option (\<lambda>p. (p, case nonempty (dget cm ''pattern_type'') of Some t \<Rightarrow> t | None \<Rightarrow> ''text_match''))
           pattern)"

definition obligation_forbidden_pattern :: "index_api \<Rightarrow> string \<Rightarrow> (string \<times> string) option" where
  "obligation_forbidden_pattern api oid =
     (case latest (\<lambda>r. if defines_obligation r then Some (declared_checker (payload r)) else None)
             (api_obligation api oid) of
        None \<Rightarrow> None
      | Some c \<Rightarrow> c)"

definition injected_obligation_ids :: "index_api \<Rightarrow> string \<Rightarrow> string set" where
  "injected_obligation_ids api capsule =
     set (List.map_filter
       (\<lambda>r. if event_type r = ''ObligationActivated'' then nonempty (dget (payload r) ''obligation_id'') else None)
       (api_causation api capsule))"

definition obligation_severity :: "index_api \<Rightarrow> string \<Rightarrow> string option" where
  "obligation_severity api oid =
     latest (\<lambda>r. if defines_obligation r then as_str (dget (payload r) ''severity'') else None)
       (api_obligation api oid)"

record obligation_violation =
  ov_obligation_id :: string
  ov_reason :: string
  ov_description :: string

record obligation_result =
  or_violations :: "obligation_violation list"
  or_notices :: "string list"
  or_coverage_gap :: "int option"

definition or_passed :: "obligation_result \<Rightarrow> bool" where
  "or_passed r \<longleftrightarrow> or_violations r = []"

definition violation :: "string \<Rightarrow> string \<Rightarrow> obligation_violation" where
  "violation oid reason = \<lparr>ov_obligation_id = oid, ov_reason = reason,
     ov_description = reason @ '': obligation '' @ oid\<rparr>"

text \<open>The declarations with an identifier, in order.\<close>

definition declarations :: "json list \<Rightarrow> (string \<times> json) list" where
  "declarations declared =
     List.map_filter (\<lambda>d. map_option (\<lambda>oid. (oid, dget d ''status'')) (nonempty (dget d ''obligation_id'')))
       (List.map_filter as_obj declared)"

definition check_declaration :: "(string \<Rightarrow> string \<Rightarrow> bool option) \<Rightarrow> index_api \<Rightarrow> string \<Rightarrow> string \<times> json
    \<Rightarrow> obligation_violation list \<times> string list" where
  "check_declaration re_search api match_content decl =
     (let (oid, status) = decl in
      if status = JStr ''violated'' then ([violation oid ''self_reported_violation''], [])
      else if status = JStr ''not_applicable''
      then (case obligation_severity api oid of
              None \<Rightarrow> ([], [''obligation_severity_unresolved: '' @ oid])
            | Some sev \<Rightarrow>
                if sev = ''red_line'' then ([violation oid ''red_line_obligation_not_applicable''], []) else ([], []))
      else if status = JStr ''maintained''
      then (case obligation_forbidden_pattern api oid of
              None \<Rightarrow> ([], [])
            | Some (pattern, ptype) \<Rightarrow>
                (case match_forbidden_pattern re_search pattern ptype match_content of
                   MATCH \<Rightarrow> ([violation oid ''forbidden_pattern_matched''], [])
                 | UNCHECKABLE \<Rightarrow> ([], [''obligation_forbidden_pattern_uncheckable: '' @ oid])
                 | NO_MATCH \<Rightarrow> ([], [])))
      else ([], []))"

definition check_obligations :: "(string \<Rightarrow> string \<Rightarrow> bool option) \<Rightarrow> index_api \<Rightarrow> string \<Rightarrow> json list \<Rightarrow> string
    \<Rightarrow> obligation_result" where
  "check_obligations re_search api capsule declared match_content =
     (let decls = declarations declared;
          found = map (check_declaration re_search api match_content) decls;
          declared_ids = fst ` set decls;
          injected = injected_obligation_ids api capsule;
          gap = (if injected \<noteq> {} then None
                 else (case api_event_id api capsule of
                         None \<Rightarrow> None
                       | Some cap \<Rightarrow>
                           (case dget (payload cap) ''capsule_sections_summary'' of
                              JObj summary \<Rightarrow>
                                (case as_int (dget summary ''obligation_count'') of
                                   Some n \<Rightarrow> if int (card declared_ids) < n then Some (n - int (card declared_ids))
                                             else None
                                 | None \<Rightarrow> None)
                            | _ \<Rightarrow> None)))
      in \<lparr>or_violations = concat (map fst found)
            @ map (\<lambda>oid. violation oid ''obligation_silently_omitted'') (sorted_list_of_set (injected - declared_ids)),
          or_notices = concat (map snd found)
            @ (case gap of None \<Rightarrow> [] | Some _ \<Rightarrow> [''obligation_coverage_gap'']),
          or_coverage_gap = gap\<rparr>)"

section \<open>Completeness and completion\<close>

definition required_completeness_checks :: "string \<Rightarrow> string list" where
  "required_completeness_checks type =
     (if type = ''EngineeringConsensusFreezed''
      then [''consensus.consumer_scan_complete'', ''consensus.cia_downstream_scan'',
            ''consensus.maintainability_clause_present'']
      else if type = ''FindingCreated'' then [''review.review_contract_present'']
      else if type = ''PlanFreezed''
      then [''planning.coverage_complete'', ''planning.cia_dependency_scan'',
            ''planning.migration_old_path_removal'', ''planning.new_capability_livefire_machine_check'',
            ''planning.no_circular_dependency'', ''planning.no_cross_plan_resource_conflict'',
            ''planning.no_unresolved_red_line_uncertainty'']
      else if type = ''ReviewPlanCreated'' then [''review.cia_upstream_scan'']
      else if type = ''FixCompleted'' then [''fix.cia_cascade_scan'']
      else if type = ''MigrationStepRecorded''
      then [''migration.source_origin_complete'', ''migration.target_concept_consistency'',
            ''migration.target_obligation_well_formed'', ''migration.translation_confidence_threshold'',
            ''migration.no_self_supersede_within_batch'']
      else [])"

definition blocking_checks :: "json \<Rightarrow> dict list" where
  "blocking_checks self_check =
     (case self_check of JObj d \<Rightarrow> obj_items (dget d ''blocking_checks'') | _ \<Rightarrow> [])"

definition blocking_checks_by_id :: "json \<Rightarrow> (string \<times> dict) list" where
  "blocking_checks_by_id self_check =
     fold (\<lambda>c. case nonempty (dget c ''check_id'') of Some cid \<Rightarrow> AList.update cid c | None \<Rightarrow> id)
       (blocking_checks self_check) []"

definition execution_checks :: "string list" where
  "execution_checks = [''execution.sis_declared'', ''execution.livefire_recomputed'',
     ''execution.deploy_byte_identity'']"

definition required_checks :: "string list \<Rightarrow> json \<Rightarrow> string set" where
  "required_checks types self_check =
     set (concat (map required_completeness_checks types))
     \<union> (if ''TaskRunCompleted'' \<in> set types
            \<and> (\<exists>cid \<in> fst ` set (blocking_checks_by_id self_check). prefix ''execution.'' cid)
        then set execution_checks else {})"

fun check_required :: "(string \<times> dict) list \<Rightarrow> string list \<Rightarrow> check_result" where
  "check_required by_id [] = check_ok"
| "check_required by_id (cid # cids) =
     (case map_of by_id cid of
        None \<Rightarrow> check_fail ''completeness_check_missing'' [(''check_id'', cid)]
      | Some c \<Rightarrow>
          if dget c ''status'' \<noteq> JStr ''passed''
          then check_fail ''completeness_check_failed'' [(''check_id'', cid), (''status'', py_str (dget c ''status''))]
          else check_required by_id cids)"

definition check_completeness_requirements :: "string list \<Rightarrow> json \<Rightarrow> check_result" where
  "check_completeness_requirements types self_check =
     check_required (blocking_checks_by_id self_check) (sorted_list_of_set (required_checks types self_check))"

definition completeness_check_id :: string where
  "completeness_check_id = ''completion.semantic_completeness_verified''"

definition review_check_id :: string where
  "review_check_id = ''review.author_time_complete''"

definition passed_check_ids :: "json \<Rightarrow> string set" where
  "passed_check_ids self_check =
     set (List.map_filter (\<lambda>c. as_str (dget c ''check_id''))
       (filter (\<lambda>c. dget c ''status'' = JStr ''passed'' \<and> truthy (dget c ''evidence'')) (blocking_checks self_check)))"

text \<open>Debts against a capability, from the records about its concept.\<close>

definition debt_step :: "event_record \<Rightarrow> (string \<times> bool) list \<times> string set \<Rightarrow> (string \<times> bool) list \<times> string set" where
  "debt_step r acc =
     (case nonempty (dget (payload r) ''debt_id'') of
        None \<Rightarrow> acc
      | Some did \<Rightarrow>
          if event_type r = ''DebtRegistered''
          then (AList.update did (dget (payload r) ''severity'' = JStr ''blocking'') (fst acc), snd acc)
          else if event_type r = ''DebtResolved'' then (fst acc, insert did (snd acc))
          else acc)"

definition open_blocking_debt_ids :: "index_api \<Rightarrow> string \<Rightarrow> string list" where
  "open_blocking_debt_ids api capability =
     (let (registered, resolved) = fold debt_step (api_entity api ''concept'' capability) ([], {})
      in map fst (filter (\<lambda>(did, is_blocking). is_blocking \<and> did \<notin> resolved) registered))"

definition check_claim :: "index_api \<Rightarrow> string set \<Rightarrow> string \<Rightarrow> check_result" where
  "check_claim api passed capability =
     (if completeness_check_id \<notin> passed
      then check_fail ''completion_without_completeness_check''
             [(''capability'', capability), (''required_check_id'', completeness_check_id)]
      else if review_check_id \<notin> passed
      then check_fail ''completion_without_review_check''
             [(''capability'', capability), (''required_check_id'', review_check_id)]
      else if open_blocking_debt_ids api capability \<noteq> []
      then check_fail ''completion_blocked_by_open_debt''
             [(''capability'', capability),
              (''open_blocking_debt_ids'', join '','' (sort (open_blocking_debt_ids api capability)))]
      else check_ok)"

definition first_failure :: "check_result list \<Rightarrow> check_result" where
  "first_failure rs = (case find (\<lambda>r. \<not> cr_passed r) rs of None \<Rightarrow> check_ok | Some r \<Rightarrow> r)"

definition check_completion_claims :: "index_api \<Rightarrow> dict \<Rightarrow> check_result" where
  "check_completion_claims api pl =
     (case dget pl ''completion_claims'' of
        JArr claims \<Rightarrow>
          first_failure (map (check_claim api (passed_check_ids (dget pl ''self_check'')))
            (List.map_filter nonempty claims))
      | _ \<Rightarrow> check_ok)"

end
