(* ===== verification/Review_Verdict.thy ===== *)
theory Review_Verdict
  imports Gate_Obligations
begin

text \<open>
  The review verdict (\<open>l0/projection/review_verdict.py\<close>) and the check that ties the completion of
  a review task to it (\<open>l0/commit_gate/review_verdict_check.py\<close>): the findings of all sessions that
  declared a review of the task are folded in sequence order into pending, failed or passed.
\<close>

section \<open>Folding the life of findings\<close>

datatype verdict = PENDING | FAILED | PASSED

fun verdict_value :: "verdict \<Rightarrow> string" where
  "verdict_value PENDING = ''pending''"
| "verdict_value FAILED = ''failed''"
| "verdict_value PASSED = ''passed''"

definition severity_rank :: "(string \<times> nat) list" where
  "severity_rank = [(''critical'', 5), (''major'', 4), (''minor'', 3), (''purple'', 2), (''observation'', 1)]"

definition fail_severity_floor :: nat where
  "fail_severity_floor = 4"

definition sev_rank :: "json \<Rightarrow> nat" where
  "sev_rank severity =
     (case map_of severity_rank (py_str severity) of Some n \<Rightarrow> n | None \<Rightarrow> fail_severity_floor)"

record finding_event =
  fv_type :: string
  fv_finding :: json
  fv_severity :: json
  fv_verification :: json
  fv_seq :: int

record finding_state =
  fs_severity :: json
  fs_verification :: json
  fs_lifecycle :: string
  fs_ever_verified :: bool

definition new_finding :: finding_state where
  "new_finding = \<lparr>fs_severity = JNull, fs_verification = JNull, fs_lifecycle = ''created'', fs_ever_verified = False\<rparr>"

definition is_unresolved_verified_fail :: "finding_state \<Rightarrow> bool" where
  "is_unresolved_verified_fail s \<longleftrightarrow>
     fs_lifecycle s \<noteq> ''resolved'' \<and> fs_verification s = JStr ''verified''
     \<and> sev_rank (fs_severity s) \<ge> fail_severity_floor"

definition is_terminal :: "finding_state \<Rightarrow> bool" where
  "is_terminal s \<longleftrightarrow>
     (if fs_lifecycle s = ''resolved'' then fs_ever_verified s
      else fs_lifecycle s = ''verified'' \<and> fs_verification s = JStr ''rejected_false_positive'')"

text \<open>What one event does to its finding; \<open>old\<close> is the state before, if the finding is known.\<close>

definition update_finding :: "finding_event \<Rightarrow> finding_state option \<Rightarrow> finding_state" where
  "update_finding e old =
     (let s = (case old of Some s \<Rightarrow> s | None \<Rightarrow> new_finding) in
      if fv_type e = ''FindingCreated''
      then (let s' = (if fv_severity e \<noteq> JNull
                         \<and> (fs_severity s = JNull \<or> sev_rank (fv_severity e) > sev_rank (fs_severity s))
                      then s\<lparr>fs_severity := fv_severity e\<rparr> else s)
            in if old = None then s'\<lparr>fs_lifecycle := ''created''\<rparr> else s')
      else if fv_type e = ''FindingVerified''
      then s\<lparr>fs_lifecycle := ''verified'', fs_verification := fv_verification e, fs_ever_verified := True\<rparr>
      else if fv_type e = ''FindingDisputed'' then s\<lparr>fs_lifecycle := ''disputed''\<rparr>
      else if fv_type e = ''FindingResolved'' then s\<lparr>fs_lifecycle := ''resolved''\<rparr>
      else s)"

type_synonym finding_states = "(string \<times> finding_state) list"

definition apply_event :: "finding_event \<Rightarrow> finding_states \<Rightarrow> finding_states" where
  "apply_event e states =
     (case nonempty (fv_finding e) of
        None \<Rightarrow> states
      | Some fid \<Rightarrow> AList.update fid (update_finding e (map_of states fid)) states)"

definition verdict_step :: "finding_event \<Rightarrow> finding_states \<times> verdict \<Rightarrow> finding_states \<times> verdict" where
  "verdict_step e acc =
     (let states = apply_event e (fst acc) in
      (states,
       if list_ex (is_unresolved_verified_fail \<circ> snd) states then FAILED
       else if snd acc = FAILED then PENDING
       else if list_all (is_terminal \<circ> snd) states then PASSED
       else PENDING))"

definition event_order :: "finding_event \<Rightarrow> int \<times> string" where
  "event_order e = (fv_seq e, py_str (fv_finding e))"

definition fold_review_verdict :: "finding_event list \<Rightarrow> verdict" where
  "fold_review_verdict events =
     (let (states, v) = fold verdict_step (sort_key event_order events) ([], PENDING)
      in if states = [] then PASSED else v)"

section \<open>The findings of a review\<close>

definition finding_event_types :: "string list" where
  "finding_event_types = [''FindingCreated'', ''FindingVerified'', ''FindingDisputed'', ''FindingResolved'']"

text \<open>An event of the log or of the batch, as far as the fold reads it.\<close>

record raw_event =
  re_type :: string
  re_payload :: dict
  re_session :: "string option"
  re_seq :: int

definition event_source :: "raw_event \<Rightarrow> dict" where
  "event_source e = (case dget (re_payload e) ''after_state'' of JObj d \<Rightarrow> d | _ \<Rightarrow> re_payload e)"

definition event_review_unit_id :: "raw_event \<Rightarrow> string option" where
  "event_review_unit_id e =
     (case nonempty (dget (event_source e) ''review_unit_id'') of
        Some u \<Rightarrow> Some u
      | None \<Rightarrow> (case re_session e of Some s \<Rightarrow> if s = [] then None else Some s | None \<Rightarrow> None))"

definition in_review :: "string set \<Rightarrow> raw_event \<Rightarrow> bool" where
  "in_review units e \<longleftrightarrow>
     re_type e \<in> set finding_event_types
     \<and> (case event_review_unit_id e of Some u \<Rightarrow> u \<in> units | None \<Rightarrow> False)"

definition finding_event_of :: "raw_event \<Rightarrow> finding_event" where
  "finding_event_of e =
     (let src = event_source e in
      \<lparr>fv_type = re_type e, fv_finding = dget src ''finding_id'', fv_severity = dget src ''severity'',
       fv_verification = dget src ''verification_state'', fv_seq = re_seq e\<rparr>)"

definition compute_review_verdict_over_set :: "raw_event list \<Rightarrow> string set \<Rightarrow> verdict" where
  "compute_review_verdict_over_set events units =
     (if units = {} then PASSED
      else fold_review_verdict (map finding_event_of (filter (in_review units) events)))"

definition compute_review_verdict :: "raw_event list \<Rightarrow> string \<Rightarrow> verdict" where
  "compute_review_verdict events unit =
     (if unit = [] then PASSED else compute_review_verdict_over_set events {unit})"

section \<open>The check of the gate\<close>

definition resolve_task_type :: "index_api \<Rightarrow> string \<Rightarrow> string option" where
  "resolve_task_type api task =
     (case List.map_filter (\<lambda>r. if event_type r = ''TaskNodeCreated''
                             then as_str (dget (after_state (payload r)) ''task_type'') else None)
             (api_entity api ''task'' task) of
        [] \<Rightarrow> None
      | tt # _ \<Rightarrow> Some tt)"

text \<open>The task an envelope was submitted for, unless it is scoped to a session.\<close>

definition declared_task :: "event_record \<Rightarrow> (string \<times> string) option" where
  "declared_task r =
     (let (type, pl) = unwrap_stub (event_type r) (payload r) in
      if type \<noteq> ''TransactionEnvelopeSubmitted'' then None
      else (case (nonempty (dget pl ''task_id''), session_id (provenance r)) of
              (Some task, Some sess) \<Rightarrow>
                 if prefix ''session:'' task \<or> sess = [] then None else Some (sess, task)
            | _ \<Rightarrow> None))"

definition declared_reviews :: "event_record list \<Rightarrow> (string \<times> string) list" where
  "declared_reviews recs = List.map_filter declared_task recs"

definition record_to_raw :: "event_record \<Rightarrow> raw_event" where
  "record_to_raw r = \<lparr>re_type = event_type r, re_payload = payload r, re_session = session_id (provenance r),
     re_seq = sequence_number r\<rparr>"

definition intent_to_raw :: "event_intent \<Rightarrow> raw_event" where
  "intent_to_raw i = \<lparr>re_type = i_event_type i, re_payload = i_payload i,
     re_session = session_id (i_provenance_hint i), re_seq = 2 ^ 62\<rparr>"

text \<open>The review task that an intent completes with success.\<close>

definition completed_review :: "index_api \<Rightarrow> event_intent \<Rightarrow> string option" where
  "completed_review api i =
     (let after = after_state (i_payload i) in
      if i_event_type i \<noteq> ''TaskRunCompleted'' \<or> dget after ''outcome'' \<noteq> JStr ''success'' then None
      else (case nonempty (dget after ''task_id'') of
              Some task \<Rightarrow> if resolve_task_type api task = Some ''review'' then Some task else None
            | None \<Rightarrow> None))"

definition review_sessions :: "event_record list \<Rightarrow> string \<Rightarrow> string \<Rightarrow> string list" where
  "review_sessions recs unit task =
     remdups (unit # map fst (filter (\<lambda>(sess, t). t = task) (declared_reviews recs)))"

definition other_review_tasks :: "index_api \<Rightarrow> event_record list \<Rightarrow> string \<Rightarrow> string \<Rightarrow> string list" where
  "other_review_tasks api recs task sess =
     sort (remdups (filter (\<lambda>t. t \<noteq> task \<and> resolve_task_type api t = Some ''review'')
       (map snd (filter (\<lambda>(s, t). s = sess) (declared_reviews recs)))))"

definition review_fold_events :: "event_intent list \<Rightarrow> event_record list \<Rightarrow> raw_event list" where
  "review_fold_events intents recs =
     map record_to_raw recs
     @ map intent_to_raw (filter (\<lambda>i. i_event_type i \<in> set finding_event_types) intents)"

definition check_completed_review :: "event_intent list \<Rightarrow> index_api \<Rightarrow> event_record list \<Rightarrow> event_intent
    \<Rightarrow> string \<Rightarrow> check_result" where
  "check_completed_review intents api recs i task =
     (case session_id (i_provenance_hint i) of
        None \<Rightarrow> check_fail ''review_verdict_unprovable'' [(''task_id'', task)]
      | Some unit \<Rightarrow>
          (if unit = [] then check_fail ''review_verdict_unprovable'' [(''task_id'', task)]
           else (let sessions = review_sessions recs unit task in
                 case find (\<lambda>s. other_review_tasks api recs task s \<noteq> []) sessions of
                   Some s \<Rightarrow> check_fail ''ambiguous_review_session_multi_task''
                     [(''task_id'', task), (''session_id'', s),
                      (''also_declared_review_tasks'', join '', '' (other_review_tasks api recs task s))]
                 | None \<Rightarrow>
                     (let v = compute_review_verdict_over_set (review_fold_events intents recs) (set sessions) in
                      if v \<noteq> PASSED
                      then check_fail ''review_verdict_not_passed''
                        [(''task_id'', task), (''review_unit_id'', unit),
                         (''review_session_set'', join '', '' (sort sessions)), (''verdict'', verdict_value v)]
                      else check_ok))))"

definition check_review_verdict_gated_completion :: "event_intent list \<Rightarrow> index_api \<Rightarrow> event_record list
    \<Rightarrow> check_result" where
  "check_review_verdict_gated_completion intents api recs =
     first_failure (List.map_filter (\<lambda>i. map_option (check_completed_review intents api recs i)
       (completed_review api i)) intents)"

section \<open>What a verdict says\<close>

text \<open>The state of one finding depends on its own events only.\<close>

definition finding_step :: "string \<Rightarrow> finding_event \<Rightarrow> finding_state option \<Rightarrow> finding_state option" where
  "finding_step fid e s = (if nonempty (fv_finding e) = Some fid then Some (update_finding e s) else s)"

lemma apply_event_finding: "map_of (apply_event e states) fid = finding_step fid e (map_of states fid)"
  by (auto simp: apply_event_def finding_step_def update_conv' split: option.split)

lemma fold_apply_finding: "map_of (fold apply_event es states) fid = fold (finding_step fid) es (map_of states fid)"
  by (induction es arbitrary: states) (simp_all add: apply_event_finding)

lemma fold_verdict_states: "fst (fold verdict_step es acc) = fold apply_event es (fst acc)"
  by (induction es arbitrary: acc) (simp_all add: verdict_step_def Let_def)

lemma distinct_apply_event: "distinct (map fst states) \<Longrightarrow> distinct (map fst (apply_event e states))"
  by (simp add: apply_event_def distinct_update split: option.split)

lemma distinct_fold_apply: "distinct (map fst states) \<Longrightarrow> distinct (map fst (fold apply_event es states))"
  by (induction es arbitrary: states) (simp_all add: distinct_apply_event)

lemma verdict_of_states:
  assumes "es \<noteq> []" and "fold verdict_step es ([], PENDING) = (states, v)"
  shows "v = FAILED \<longleftrightarrow> list_ex (is_unresolved_verified_fail \<circ> snd) states"
    and "v = PASSED \<Longrightarrow> list_all (is_terminal \<circ> snd) states"
  using assms by (cases es rule: rev_cases; auto simp: verdict_step_def Let_def split: if_splits)+

text \<open>The state of a finding after a list of events.\<close>

definition finding_after :: "string \<Rightarrow> finding_event list \<Rightarrow> finding_state option" where
  "finding_after fid es = fold (finding_step fid) es None"

lemma states_finding:
  assumes "states = fold apply_event es []"
  shows "(fid, s) \<in> set states \<longleftrightarrow> finding_after fid es = Some s"
proof -
  have "distinct (map fst states)" using distinct_fold_apply [of "[]" es] assms by simp
  then have "(fid, s) \<in> set states \<longleftrightarrow> map_of states fid = Some s" by (rule map_of_eq_Some_iff [symmetric])
  also have "map_of states fid = finding_after fid es"
    unfolding assms fold_apply_finding by (simp add: finding_after_def)
  finally show ?thesis .
qed

lemma fold_verdict_exact:
  shows "fold_review_verdict es = FAILED \<longleftrightarrow>
      (\<exists>fid s. finding_after fid (sort_key event_order es) = Some s \<and> is_unresolved_verified_fail s)"
    and "fold_review_verdict es = PASSED \<Longrightarrow>
      finding_after fid (sort_key event_order es) = Some s \<Longrightarrow> is_terminal s \<and> \<not> is_unresolved_verified_fail s"
proof -
  let ?es = "sort_key event_order es"
  obtain states v where f: "fold verdict_step ?es ([], PENDING) = (states, v)" by (cases "fold verdict_step ?es ([], PENDING)")
  have st: "states = fold apply_event ?es []" using fold_verdict_states [of ?es "([], PENDING)"] f by simp
  note mem = states_finding [OF st]
  have r: "fold_review_verdict es = (if states = [] then PASSED else v)" by (simp add: fold_review_verdict_def f)
  have e: "?es \<noteq> []" if "states \<noteq> []" using that st by auto
  show "fold_review_verdict es = FAILED \<longleftrightarrow>
      (\<exists>fid s. finding_after fid ?es = Some s \<and> is_unresolved_verified_fail s)"
  proof (cases "states = []")
    case True
    with r show ?thesis by (simp add: mem [symmetric])
  next
    case False
    with r verdict_of_states(1) [OF e f] show ?thesis by (force simp: list_ex_iff mem [symmetric])
  qed
  assume p: "fold_review_verdict es = PASSED" and s: "finding_after fid ?es = Some s"
  have m: "(fid, s) \<in> set states" using s by (simp add: mem)
  then have ne: "states \<noteq> []" by auto
  with p have v: "v = PASSED" by (simp add: r)
  from m show "is_terminal s \<and> \<not> is_unresolved_verified_fail s"
    using verdict_of_states [OF e [OF ne] f] v by (fastforce simp: list_all_iff list_ex_iff)
qed

end
