(* ===== verification/Review_Properties.thy ===== *)
theory Review_Properties
  imports Review_Verdict Sample_Codec
begin

text \<open>
  What a review verdict means, and what a review task that the gate lets complete has behind it.
\<close>

section \<open>The verdict\<close>





section \<open>Completed reviews\<close>







section \<open>A settled review\<close>






end
