(* ===== verification/Gate_Acceptance.thy ===== *)
theory Gate_Acceptance
  imports Gate_Obligations
begin

text \<open>
  Activation debts, audit triggers and the registration of debts
  (\<open>l0/commit_gate/activation_acceptance_check.py\<close>, \<open>audit.py\<close>, \<open>l0/debt/registry.py\<close>).
  \<open>sample\<close> decides a draw of the audit sampler by its call site and position, \<open>recent\<close> says that a
  timestamp is not before the window of the oscillation check.
\<close>

section \<open>Activation debts\<close>

definition registry_concept_id :: string where
  "registry_concept_id = ''harness-capability-registry@v1''"

definition is_registry_edge :: "dict \<Rightarrow> bool" where
  "is_registry_edge d \<longleftrightarrow>
     dget d ''source_concept_id'' = JStr registry_concept_id \<and> dget d ''edge_type'' = JStr ''reference''"

text \<open>The registry edges that were added, with their edge and target, and those removed.\<close>

definition added_edge :: "event_record \<Rightarrow> (string option \<times> string) option" where
  "added_edge r =
     (let (type, pl) = unwrap_stub (event_type r) (payload r); after = after_state pl
      in if type = ''ConceptEdgeAdded'' \<and> is_registry_edge after
         then map_option (\<lambda>t. (nonempty (dget after ''edge_id''), t)) (nonempty (dget after ''target_concept_id''))
         else None)"

definition removed_edge :: "event_record \<Rightarrow> (string option \<times> string option) option" where
  "removed_edge r =
     (let (type, pl) = unwrap_stub (event_type r) (payload r);
          prior = (case dget pl ''before_state'' of JObj d \<Rightarrow> d | _ \<Rightarrow> [])
      in if type = ''ConceptEdgeRemoved'' \<and> is_registry_edge prior
         then Some (nonempty (dget prior ''edge_id''), nonempty (dget prior ''target_concept_id'')) else None)"

definition registered_capabilities :: "event_record list \<Rightarrow> string set" where
  "registered_capabilities recs =
     (let added = List.map_filter added_edge recs;
          removed = List.map_filter removed_edge recs;
          removed_ids = List.map_filter fst removed;
          removed_targets = List.map_filter snd removed;
          by_id = fold (\<lambda>(e, t). case e of Some i \<Rightarrow> AList.update i t | None \<Rightarrow> id) added []
      in set (map snd (filter (\<lambda>(i, t). i \<notin> set removed_ids) by_id))
         \<union> set (filter (\<lambda>t. t \<notin> set removed_targets)
                (List.map_filter (\<lambda>(e, t). if e = None then Some t else None) added)))"

definition closing_task_id :: "string \<Rightarrow> dict \<Rightarrow> string option" where
  "closing_task_id type after =
     (if type = ''TaskRunCompleted''
      then (if dget after ''outcome'' \<noteq> JStr ''success'' then None else nonempty (dget after ''task_id''))
      else if type = ''TaskNodeClosed'' then nonempty (dget after ''task_id'')
      else None)"

definition task_concept_ref_ids :: "event_record list \<Rightarrow> string \<Rightarrow> string list" where
  "task_concept_ref_ids recs task =
     (case find (\<lambda>r. let (type, pl) = unwrap_stub (event_type r) (payload r)
                     in type = ''TaskNodeCreated'' \<and> dget (after_state pl) ''task_id'' = JStr task) recs of
        None \<Rightarrow> []
      | Some r \<Rightarrow>
          List.map_filter (\<lambda>d. nonempty (dget d ''concept_id''))
            (obj_items (dget (after_state (snd (unwrap_stub (event_type r) (payload r)))) ''concept_refs'')))"

definition covering_debt :: "string \<Rightarrow> string \<Rightarrow> string \<times> dict \<Rightarrow> bool" where
  "covering_debt capability task unwrapped \<longleftrightarrow>
     (let (type, pl) = unwrapped
      in type = ''DebtRegistered'' \<and> dget pl ''debt_type'' = JStr ''activation'' \<and> nonempty (dget pl ''expiry'') \<noteq> None
         \<and> (dget pl ''against_capability'' = JStr capability \<or> dget pl ''registered_by_task'' = JStr task))"

definition activation_debt_covers :: "event_intent list \<Rightarrow> event_record list \<Rightarrow> string \<Rightarrow> string \<Rightarrow> bool" where
  "activation_debt_covers intents recs capability task \<longleftrightarrow>
     (\<exists>i \<in> set intents. covering_debt capability task (unwrap_stub (i_event_type i) (i_payload i)))
     \<or> (\<exists>r \<in> set recs. covering_debt capability task (unwrap_stub (event_type r) (payload r)))"

text \<open>The task an intent closes and the registered capabilities it touches.\<close>

definition closing_of :: "event_record list \<Rightarrow> event_intent \<Rightarrow> (string \<times> string list) option" where
  "closing_of recs i =
     (let (type, pl) = unwrap_stub (i_event_type i) (i_payload i)
      in map_option (\<lambda>task. (task, filter (\<lambda>c. c \<in> registered_capabilities recs) (task_concept_ref_ids recs task)))
           (closing_task_id type (after_state pl)))"

definition check_activation_acceptance :: "event_intent list \<Rightarrow> event_record list \<Rightarrow> check_result" where
  "check_activation_acceptance intents recs =
     (let closings = List.map_filter (closing_of recs) intents;
          touched = concat (map (\<lambda>(task, caps). map (Pair task) caps) closings)
      in case find (\<lambda>(task, cap). \<not> activation_debt_covers intents recs cap task) touched of
           Some (task, cap) \<Rightarrow> check_fail ''activation_no_evidence_no_debt''
             [(''task_id'', task), (''capability'', cap)]
         | None \<Rightarrow> if touched = [] then check_skip [] else check_ok)"

section \<open>Audit triggers\<close>

record audit_trigger =
  at_reason :: string
  at_subject_type :: string
  at_target_ref :: string
  at_detail :: string
  at_entity_type :: string

definition reason_priority :: "string list" where
  "reason_priority = [''high_risk_patch'', ''obligation_violation_suspected'', ''semantic_check_needed'',
     ''random_sample'']"

definition headline_reason :: "audit_trigger list \<Rightarrow> string" where
  "headline_reason ts =
     (case find (\<lambda>p. p \<in> at_reason ` set ts) reason_priority of Some p \<Rightarrow> p | None \<Rightarrow> ''random_sample'')"

definition self_check_failed :: "dict \<Rightarrow> bool" where
  "self_check_failed pl \<longleftrightarrow>
     (case dget pl ''self_check'' of JObj d \<Rightarrow> dget d ''passed'' = JBool False | _ \<Rightarrow> False)"

text \<open>\<open>a or b\<close>\<close>

definition py_or :: "json \<Rightarrow> json \<Rightarrow> json" where
  "py_or a b = (if truthy a then a else b)"

definition supersede_oscillates :: "(string \<Rightarrow> bool) \<Rightarrow> index_api \<Rightarrow> string \<Rightarrow> string \<Rightarrow> nat" where
  "supersede_oscillates recent api type eid =
     length (filter (\<lambda>r. is_supersede (supersede r) \<and> recent (timestamp r)) (api_entity api type eid))"

definition oscillation_supersede_threshold :: nat where
  "oscillation_supersede_threshold = 2"

definition declaration_trigger :: "(string \<Rightarrow> nat \<Rightarrow> bool) \<Rightarrow> index_api \<Rightarrow> nat \<times> string \<times> json
    \<Rightarrow> audit_trigger list" where
  "declaration_trigger sample api numbered =
     (let (n, oid, status) = numbered in
      if status = JStr ''not_applicable''
      then (if obligation_severity api oid \<noteq> Some ''red_line'' \<and> sample ''not_applicable'' n
            then [\<lparr>at_reason = ''obligation_violation_suspected'', at_subject_type = ''obligation_declaration'',
                   at_target_ref = oid, at_detail = ''not_applicable'', at_entity_type = ''obligation''\<rparr>]
            else [])
      else if status = JStr ''maintained'' \<and> sample ''no_checker'' n
      then [\<lparr>at_reason = ''semantic_check_needed'', at_subject_type = ''obligation_declaration'',
             at_target_ref = oid, at_detail = ''maintained'', at_entity_type = ''obligation''\<rparr>]
      else [])"

definition supersede_trigger :: "(string \<Rightarrow> nat \<Rightarrow> bool) \<Rightarrow> (string \<Rightarrow> bool) \<Rightarrow> index_api
    \<Rightarrow> nat \<times> event_intent \<Rightarrow> audit_trigger list" where
  "supersede_trigger sample recent api numbered =
     (let (n, i) = numbered in
      if \<not> is_supersede (i_supersede i) then []
      else (case (case find (\<lambda>s. role s = ''primary'') (i_subjects i) of
                    Some s \<Rightarrow> Some s
                  | None \<Rightarrow> (case i_subjects i of [] \<Rightarrow> None | s # _ \<Rightarrow> Some s)) of
              None \<Rightarrow> []
            | Some s \<Rightarrow>
                (if supersede_oscillates recent api (entity_type s) (entity_id s) + 1
                    \<ge> oscillation_supersede_threshold
                 then [\<lparr>at_reason = ''high_risk_patch'', at_subject_type = ''supersede_novelty'',
                        at_target_ref = entity_id s, at_detail = ''oscillation'', at_entity_type = entity_type s\<rparr>]
                 else if sample ''supersede_novelty'' n
                 then [\<lparr>at_reason = ''random_sample'', at_subject_type = ''supersede_novelty'',
                        at_target_ref = entity_id s, at_detail = ''supersede'', at_entity_type = entity_type s\<rparr>]
                 else [])))"

definition detect_audit_triggers :: "(string \<Rightarrow> nat \<Rightarrow> bool) \<Rightarrow> (string \<Rightarrow> bool) \<Rightarrow> index_api \<Rightarrow> dict
    \<Rightarrow> event_intent list \<Rightarrow> audit_trigger list" where
  "detect_audit_triggers sample recent api pl intents =
     (if self_check_failed pl
      then [\<lparr>at_reason = ''semantic_check_needed'', at_subject_type = ''self_check_failure'',
             at_target_ref = py_str (py_or (dget pl ''envelope_id'')
               (py_or (dget pl ''envelope_event_id'') (JStr ''envelope''))),
             at_detail = ''self_check'', at_entity_type = ''task''\<rparr>]
      else [])
     @ concat (map (declaration_trigger sample api)
         (case dget pl ''active_obligations_declared'' of
            JArr declared \<Rightarrow> zip [0..<length (declarations declared)] (declarations declared)
          | _ \<Rightarrow> []))
     @ concat (map (supersede_trigger sample recent api) (zip [0..<length intents] intents))"

definition audit_scope_summary :: "audit_trigger list \<Rightarrow> string" where
  "audit_scope_summary ts =
     join '' | '' (map (\<lambda>t. ''['' @ at_reason t @ ''] '' @ at_subject_type t @ '':'' @ at_target_ref t) ts)"

section \<open>Fencing\<close>

text \<open>\<open>fence task\<close> is the text of the task's fence file, if it can be read.\<close>

definition stale_token :: "(string \<Rightarrow> string option) \<Rightarrow> event_intent \<Rightarrow> (string \<times> json \<times> int) option" where
  "stale_token fence i =
     (if i_event_type i \<noteq> ''TaskRunCompleted'' then None
      else (let after = after_state (i_payload i) in
            case (as_int (dget after ''fencing_token''), nonempty (dget after ''task_id'')) of
              (Some token, Some task) \<Rightarrow>
                (case Option.bind (fence task) py_int of
                   None \<Rightarrow> None
                 | Some current \<Rightarrow>
                     if token = current then None else Some (task, dget after ''fencing_token'', current))
            | _ \<Rightarrow> None))"

record fencing_result =
  fe_passed :: bool
  fe_evidence :: "(string \<times> string) list"
  fe_would_reject :: bool
  fe_enforce :: bool

text \<open>The first stale token decides, whether the check is enforced or only observes.\<close>

definition check_fencing_token :: "bool \<Rightarrow> (string \<Rightarrow> string option) \<Rightarrow> event_intent list \<Rightarrow> fencing_result" where
  "check_fencing_token enforce fence intents =
     (case List.map_filter (stale_token fence) intents of
        [] \<Rightarrow> \<lparr>fe_passed = True, fe_evidence = [], fe_would_reject = False, fe_enforce = enforce\<rparr>
      | (task, token, current) # _ \<Rightarrow>
          \<lparr>fe_passed = \<not> enforce,
           fe_evidence = [(''task_id'', task), (''carried_token'', py_str token),
                          (''current_highest_fence'', int_str current)],
           fe_would_reject = True, fe_enforce = enforce\<rparr>)"

section \<open>Registering a debt\<close>

definition system_prov :: "string \<Rightarrow> string \<Rightarrow> prov" where
  "system_prov type actor = \<lparr>actor_type = type, actor_id = actor, session_id = None, task_id = None,
     run_id = None, causation_event_id = None, correlation_id = None, daemon_name = None,
     skill_id = None, parent_session_id = None, fork_name = None, writer_id = None\<rparr>"

definition plain_supersede :: superseding where
  "plain_supersede = \<lparr>is_supersede = False, superseded_event_id = None, novelty = None, novelty_type = None\<rparr>"

definition register_debt_intent :: "string \<Rightarrow> string \<Rightarrow> string \<Rightarrow> string \<Rightarrow> string \<Rightarrow> string \<Rightarrow> string \<Rightarrow> string
    \<Rightarrow> string list \<Rightarrow> string option \<Rightarrow> string option \<Rightarrow> string \<Rightarrow> event_intent" where
  "register_debt_intent hex did debt_type severity title description capability criteria depends_on
      by_task by_event actor =
     \<lparr>i_local_intent_id = ''dr-'' @ take 12 hex, i_event_type = ''DebtRegistered'',
      i_event_category = ''semantic_judgment'',
      i_payload = [(''debt_id'', JStr did), (''debt_type'', JStr debt_type), (''severity'', JStr severity),
        (''title'', JStr title), (''description'', JStr description), (''against_capability'', JStr capability),
        (''depends_on'', JArr (map JStr depends_on)), (''resolution_criteria'', JStr criteria),
        (''registered_by_task'', jopt by_task), (''registered_by_event_id'', jopt by_event)],
      i_provenance_hint = system_prov ''system'' actor, i_base_classification = IMMUTABLE_TRUTH,
      i_supersede = plain_supersede,
      i_subjects = [\<lparr>entity_type = ''concept'', entity_id = capability, role = ''primary''\<rparr>],
      i_schema_version = ''1.0.0''\<rparr>"

definition register_debt :: "ecodec \<Rightarrow> config \<Rightarrow> (string \<Rightarrow> dict \<Rightarrow> verr option) \<Rightarrow> string \<Rightarrow> string \<Rightarrow> string
    \<Rightarrow> string option \<Rightarrow> string \<Rightarrow> string \<Rightarrow> string \<Rightarrow> string \<Rightarrow> string \<Rightarrow> string \<Rightarrow> string \<Rightarrow> string list
    \<Rightarrow> string option \<Rightarrow> string option \<Rightarrow> string \<Rightarrow> handle \<Rightarrow> disk \<Rightarrow> event_record effect" where
  "register_debt cd cfg se hex_debt hex hex_ev did debt_type severity title description capability criteria now
      depends_on by_task by_event actor h d =
     write_direct cd cfg se
       (register_debt_intent hex (case did of Some s \<Rightarrow> if s = [] then ''debt-'' @ take 12 hex_debt else s
                                  | None \<Rightarrow> ''debt-'' @ take 12 hex_debt)
          debt_type severity title description capability criteria depends_on by_task by_event actor)
       hex_ev now h d"

end
