(* ===== verification/Exec_Claims.thy ===== *)
theory Exec_Claims
  imports Complex_Main Gate_Acceptance
begin

text \<open>
  Execution claims (\<open>awareness/claim.py\<close>) and the fence the commit gate reads
  (\<open>l0/commit_gate/fencing_check.py\<close>).  A claim is a file created exclusively; the fence file of a
  task holds the highest token ever handed out and outlives the claim.  A claim file has an inode,
  because the claimant writes through the descriptor it created, also after the name was unlinked.
\<close>

section \<open>The claim directory\<close>

record claim_info =
  ci_claimant :: string
  ci_token :: int
  ci_ts :: rat
  ci_task :: string

text \<open>
  What a claim file holds: no JSON, JSON without a usable token or time stamp, a claim without
  a claimant, or a claim.
\<close>

datatype claim_doc = Unreadable | Incomplete | Anonymous claim_info | Claim_Doc claim_info

record claim_dir =
  cl_claims :: "(nat \<times> claim_doc) dir"
  cl_fences :: "string dir"
  cl_next_inode :: nat

definition exec_claim_stale_after :: rat where
  "exec_claim_stale_after = 600"

definition slug :: "string \<Rightarrow> string" where
  "slug task = map (\<lambda>c. if c = CHR ''/'' \<or> c = CHR 0x5C then CHR ''_'' else c) task"

text \<open>\<open>int(fp.read_text())\<close>, if the file is there and holds a number.\<close>

definition fence_value :: "claim_dir \<Rightarrow> string \<Rightarrow> int option" where
  "fence_value cl task = Option.bind (map_of (cl_fences cl) (slug task)) py_int"

section \<open>The steps of a claim\<close>

text \<open>\<open>os.open(p, O_CREAT | O_EXCL)\<close>: the inode, or nothing if the name is taken.\<close>

definition claim_open :: "string \<Rightarrow> claim_dir \<Rightarrow> nat option \<times> claim_dir" where
  "claim_open task cl =
     (if map_of (cl_claims cl) (slug task) \<noteq> None then (None, cl)
      else (Some (cl_next_inode cl),
            cl\<lparr>cl_claims := AList.update (slug task) (cl_next_inode cl, Unreadable) (cl_claims cl),
               cl_next_inode := cl_next_inode cl + 1\<rparr>))"

definition token_read :: "string \<Rightarrow> claim_dir \<Rightarrow> int" where
  "token_read task cl = (case fence_value cl task of None \<Rightarrow> 0 | Some n \<Rightarrow> n) + 1"

definition token_write :: "string \<Rightarrow> int \<Rightarrow> claim_dir \<Rightarrow> claim_dir" where
  "token_write task n cl = cl\<lparr>cl_fences := AList.update (slug task) (int_str n) (cl_fences cl)\<rparr>"

definition next_token :: "string \<Rightarrow> claim_dir \<Rightarrow> int \<times> claim_dir" where
  "next_token task cl = (let n = token_read task cl in (n, token_write task n cl))"

text \<open>Writing through the descriptor reaches the directory only while the name has that inode.\<close>

definition claim_write :: "string \<Rightarrow> nat \<Rightarrow> claim_info \<Rightarrow> claim_dir \<Rightarrow> claim_dir" where
  "claim_write task inode info cl =
     (case map_of (cl_claims cl) (slug task) of
        Some (i, _) \<Rightarrow>
          if i = inode then cl\<lparr>cl_claims := AList.update (slug task) (inode, Claim_Doc info) (cl_claims cl)\<rparr> else cl
      | None \<Rightarrow> cl)"

text \<open>The result is the token, or nothing for \<open>already_claimed\<close>.\<close>

definition claim_task :: "rat \<Rightarrow> string \<Rightarrow> string \<Rightarrow> claim_dir \<Rightarrow> int option \<times> claim_dir" where
  "claim_task now task claimant cl =
     (case claim_open task cl of
        (None, cl') \<Rightarrow> (None, cl')
      | (Some inode, cl') \<Rightarrow>
          (let (token, cl'') = next_token task cl'
           in (Some token,
               claim_write task inode
                 \<lparr>ci_claimant = claimant, ci_token = token, ci_ts = now, ci_task = task\<rparr> cl'')))"

section \<open>Reading, renewing, releasing\<close>

datatype claim_err = Claim_Key_Error

definition read_claim :: "claim_dir \<Rightarrow> string \<Rightarrow> claim_err + claim_info option" where
  "read_claim cl task =
     (case map_of (cl_claims cl) (slug task) of
        None \<Rightarrow> Inr None
      | Some (_, Unreadable) \<Rightarrow> Inr None
      | Some (_, Incomplete) \<Rightarrow> Inl Claim_Key_Error
      | Some (_, Anonymous _) \<Rightarrow> Inl Claim_Key_Error
      | Some (_, Claim_Doc info) \<Rightarrow> Inr (Some (info\<lparr>ci_task := if ci_task info = [] then task else ci_task info\<rparr>)))"

definition holds :: "claim_dir \<Rightarrow> string \<Rightarrow> string \<Rightarrow> claim_err + claim_info option" where
  "holds cl task claimant =
     rbind (read_claim cl task) (\<lambda>i.
       Inr (case i of Some info \<Rightarrow> if ci_claimant info = claimant then Some info else None | None \<Rightarrow> None))"

text \<open>\<open>write_text\<close> truncates the file of that name, or creates one.\<close>

definition renew_claim :: "rat \<Rightarrow> string \<Rightarrow> string \<Rightarrow> claim_dir \<Rightarrow> (claim_err + bool) \<times> claim_dir" where
  "renew_claim now task claimant cl =
     (case holds cl task claimant of
        Inl e \<Rightarrow> (Inl e, cl)
      | Inr None \<Rightarrow> (Inr False, cl)
      | Inr (Some info) \<Rightarrow>
          (let inode = (case map_of (cl_claims cl) (slug task) of Some (i, _) \<Rightarrow> i | None \<Rightarrow> cl_next_inode cl)
           in (Inr True,
               cl\<lparr>cl_claims := AList.update (slug task)
                    (inode, Claim_Doc \<lparr>ci_claimant = claimant, ci_token = ci_token info, ci_ts = now, ci_task = task\<rparr>)
                    (cl_claims cl)\<rparr>)))"

definition unlink_claim :: "string \<Rightarrow> claim_dir \<Rightarrow> claim_dir" where
  "unlink_claim stem cl = cl\<lparr>cl_claims := AList.delete stem (cl_claims cl)\<rparr>"

definition release_claim :: "string \<Rightarrow> string \<Rightarrow> claim_dir \<Rightarrow> (claim_err + bool) \<times> claim_dir" where
  "release_claim task claimant cl =
     (case holds cl task claimant of
        Inl e \<Rightarrow> (Inl e, cl)
      | Inr None \<Rightarrow> (Inr False, cl)
      | Inr (Some _) \<Rightarrow> (Inr True, unlink_claim (slug task) cl))"

definition verify_fencing_token :: "claim_dir \<Rightarrow> string \<Rightarrow> int \<Rightarrow> bool" where
  "verify_fencing_token cl task token \<longleftrightarrow> fence_value cl task = Some token"

section \<open>Reaping\<close>

record reaped_claim =
  rc_task :: string
  rc_claimant :: string
  rc_token :: int
  rc_age :: rat
  rc_reason :: string

definition parse_claim_file :: "string \<Rightarrow> claim_doc \<Rightarrow> (string \<times> string \<times> int \<times> rat) option" where
  "parse_claim_file stem file =
     (case file of
        Claim_Doc info \<Rightarrow>
          Some (if ci_task info = [] then stem else ci_task info, ci_claimant info, ci_token info, ci_ts info)
      | Anonymous info \<Rightarrow>
          Some (if ci_task info = [] then stem else ci_task info, [], ci_token info, ci_ts info)
      | _ \<Rightarrow> None)"

text \<open>What the reaper reports when it unlinks a file; \<open>is_live\<close> is \<open>None\<close> without a session context.\<close>

definition reap_verdict :: "rat \<Rightarrow> rat \<Rightarrow> (string \<Rightarrow> bool) option \<Rightarrow> string \<Rightarrow> claim_doc \<Rightarrow> reaped_claim option" where
  "reap_verdict now stale_after is_live stem file =
     (case parse_claim_file stem file of
        None \<Rightarrow> Some \<lparr>rc_task = stem, rc_claimant = [], rc_token = -1, rc_age = -1, rc_reason = ''malformed''\<rparr>
      | Some (task, claimant, token, ts) \<Rightarrow>
          (if now - ts \<le> stale_after then None
           else if (case is_live of None \<Rightarrow> False | Some live \<Rightarrow> live task) then None
           else Some \<lparr>rc_task = task, rc_claimant = claimant, rc_token = token, rc_age = now - ts,
                      rc_reason = ''stale''\<rparr>))"

definition claim_files :: "claim_dir \<Rightarrow> string list" where
  "claim_files cl = sort_key (\<lambda>stem. stem @ ''.claim'') (map fst (cl_claims cl))"

definition reap_claim :: "rat \<Rightarrow> rat \<Rightarrow> (string \<Rightarrow> bool) option \<Rightarrow> string
    \<Rightarrow> reaped_claim list \<times> claim_dir \<Rightarrow> reaped_claim list \<times> claim_dir" where
  "reap_claim now stale_after is_live stem acc =
     (case reap_verdict now stale_after is_live stem
             (case map_of (cl_claims (snd acc)) stem of Some (_, file) \<Rightarrow> file | None \<Rightarrow> Unreadable) of
        None \<Rightarrow> acc
      | Some r \<Rightarrow> (fst acc @ [r], unlink_claim stem (snd acc)))"

definition reap_stale_claims :: "rat \<Rightarrow> rat \<Rightarrow> (string \<Rightarrow> bool) option \<Rightarrow> claim_dir
    \<Rightarrow> reaped_claim list \<times> claim_dir" where
  "reap_stale_claims now stale_after is_live cl =
     (let (reaped, cl') = fold (reap_claim now stale_after is_live) (claim_files cl) ([], cl)
      in (sort_key rc_task reaped, cl'))"

section \<open>Runs of whole operations\<close>

datatype claim_op =
    Claim rat string string
  | Renew rat string string
  | Release string string
  | Reap rat rat "(string \<Rightarrow> bool) option"

text \<open>The state after an operation and the grant it made: task, claimant and token.\<close>

fun run_claim_op :: "claim_op \<Rightarrow> claim_dir \<Rightarrow> (string \<times> string \<times> int) list \<times> claim_dir" where
  "run_claim_op (Claim now task who) cl =
     (case claim_task now task who cl of
        (None, cl') \<Rightarrow> ([], cl')
      | (Some token, cl') \<Rightarrow> ([(task, who, token)], cl'))"
| "run_claim_op (Renew now task who) cl = ([], snd (renew_claim now task who cl))"
| "run_claim_op (Release task who) cl = ([], snd (release_claim task who cl))"
| "run_claim_op (Reap now stale_after is_live) cl = ([], snd (reap_stale_claims now stale_after is_live cl))"

fun run_claim_ops :: "claim_op list \<Rightarrow> claim_dir \<Rightarrow> (string \<times> string \<times> int) list \<times> claim_dir" where
  "run_claim_ops [] cl = ([], cl)"
| "run_claim_ops (op # ops) cl =
     (let (grants, cl') = run_claim_op op cl; (rest, cl'') = run_claim_ops ops cl' in (grants @ rest, cl''))"

section \<open>Tokens only grow\<close>

lemma py_int_int_str [simp]: "0 \<le> n \<Longrightarrow> py_int (int_str n) = Some n"
  by (simp add: int_str_def)

definition fences_ok :: "claim_dir \<Rightarrow> bool" where
  "fences_ok cl \<longleftrightarrow> (\<forall>task n. fence_value cl task = Some n \<longrightarrow> 0 \<le> n)"

definition fence_level :: "claim_dir \<Rightarrow> string \<Rightarrow> int" where
  "fence_level cl task = (case fence_value cl task of None \<Rightarrow> 0 | Some n \<Rightarrow> n)"

lemma fence_token_write:
  "0 \<le> n \<Longrightarrow> fence_value (token_write task n cl) t = (if slug t = slug task then Some n else fence_value cl t)"
  by (simp add: fence_value_def token_write_def update_conv')

lemma fence_claim_write [simp]: "fence_value (claim_write task i info cl) t = fence_value cl t"
  by (simp add: fence_value_def claim_write_def split: option.split)

lemma claim_task_cases:
  assumes "claim_task now task who cl = (res, cl')" and "fences_ok cl"
  shows "res = None \<and> cl' = cl
    \<or> res = Some (fence_level cl task + 1)
      \<and> (\<forall>t. fence_value cl' t = (if slug t = slug task then Some (fence_level cl task + 1) else fence_value cl t))"
proof (cases "map_of (cl_claims cl) (slug task)")
  case (Some f)
  with assms(1) show ?thesis by (auto simp: claim_task_def claim_open_def)
next
  case None
  define cl1 where "cl1 = snd (claim_open task cl)"
  have c: "claim_open task cl = (Some (cl_next_inode cl), cl1)" "\<And>t. fence_value cl1 t = fence_value cl t"
    using None by (simp_all add: claim_open_def cl1_def fence_value_def)
  then have lv: "token_read task cl1 = fence_level cl task + 1" by (simp add: token_read_def fence_level_def)
  have pos: "0 \<le> fence_level cl task + 1"
    using assms(2) by (auto simp: fences_ok_def fence_level_def split: option.split)
  from assms(1) show ?thesis
    by (auto simp: claim_task_def c next_token_def Let_def lv fence_token_write [OF pos])
qed

lemma fold_reap_fences: "cl_fences (snd (fold (reap_claim a b c) stems acc)) = cl_fences (snd acc)"
  by (induction stems arbitrary: acc) (simp_all add: reap_claim_def unlink_claim_def split: option.split)

lemma other_ops_fences:
  "fence_value (snd (renew_claim now task who cl)) t = fence_value cl t"
  "fence_value (snd (release_claim task who cl)) t = fence_value cl t"
  "fence_value (snd (reap_stale_claims now s l cl)) t = fence_value cl t"
  by (simp_all add: fence_value_def renew_claim_def release_claim_def unlink_claim_def Let_def
      reap_stale_claims_def case_prod_beta fold_reap_fences split: sum.split option.split)

text \<open>The grants of one name, oldest first.\<close>

definition tokens_of :: "string \<Rightarrow> (string \<times> string \<times> int) list \<Rightarrow> int list" where
  "tokens_of task grants = map (snd \<circ> snd) (filter (\<lambda>g. slug (fst g) = slug task) grants)"

lemma tokens_of_append [simp]: "tokens_of task (xs @ ys) = tokens_of task xs @ tokens_of task ys"
  by (simp add: tokens_of_def)

lemma run_claim_op_tokens:
  assumes "run_claim_op op cl = (grants, cl')" and "fences_ok cl"
  shows "fences_ok cl' \<and> (tokens_of task grants = [] \<and> fence_value cl' task = fence_value cl task
     \<or> tokens_of task grants = [fence_level cl task + 1] \<and> fence_value cl' task = Some (fence_level cl task + 1))"
proof (cases op)
  case (Claim now t who)
  obtain res c where ct: "claim_task now t who cl = (res, c)" by (cases "claim_task now t who cl")
  from claim_task_cases [OF ct assms(2)] show ?thesis
  proof (elim disjE conjE)
    assume "res = None" "c = cl"
    with assms Claim ct show ?thesis by (simp add: tokens_of_def)
  next
    assume res: "res = Some (fence_level cl t + 1)"
      and f: "\<forall>u. fence_value c u = (if slug u = slug t then Some (fence_level cl t + 1) else fence_value cl u)"
    have g: "grants = [(t, who, fence_level cl t + 1)]" "cl' = c" using assms(1) Claim ct res by simp_all
    have same: "fence_level cl t = fence_level cl task" if "slug t = slug task"
      using that by (simp add: fence_level_def fence_value_def)
    have "0 \<le> fence_level cl t" using assms(2) by (auto simp: fences_ok_def fence_level_def split: option.split)
    with f assms(2) have "fences_ok c" by (auto simp: fences_ok_def)
    with f g same show ?thesis by (auto simp: tokens_of_def)
  qed
qed (use assms other_ops_fences in \<open>auto simp: fences_ok_def tokens_of_def\<close>)

lemma run_claim_ops_tokens:
  assumes "run_claim_ops ops cl = (grants, cl')" and "fences_ok cl"
  shows "fences_ok cl' \<and> sorted_wrt (<) (fence_level cl task # tokens_of task grants)
    \<and> (tokens_of task grants \<noteq> [] \<longrightarrow> fence_value cl' task = Some (last (tokens_of task grants)))
    \<and> (tokens_of task grants = [] \<longrightarrow> fence_value cl' task = fence_value cl task)"
  using assms
proof (induction ops arbitrary: cl grants)
  case Nil
  then show ?case by (simp add: tokens_of_def)
next
  case (Cons op ops)
  obtain g1 c1 where o: "run_claim_op op cl = (g1, c1)" by (cases "run_claim_op op cl")
  obtain g2 where r: "run_claim_ops ops c1 = (g2, cl')" and g: "grants = g1 @ g2"
    using Cons.prems(1) o by (auto simp: Let_def split: prod.splits)
  note one = run_claim_op_tokens [OF o Cons.prems(2), of task]
  note rest = Cons.IH [OF r conjunct1 [OF one]]
  from one show ?case
  proof (elim conjE disjE)
    assume "tokens_of task g1 = []" "fence_value c1 task = fence_value cl task"
    with rest g show ?thesis by (simp add: fence_level_def)
  next
    assume t: "tokens_of task g1 = [fence_level cl task + 1]" "fence_value c1 task = Some (fence_level cl task + 1)"
    then have "fence_level c1 task = fence_level cl task + 1" by (simp add: fence_level_def)
    with rest g t show ?thesis by (cases "tokens_of task g2") auto
  qed
qed

end
