(* ===== verification/Claim_Properties.thy ===== *)
theory Claim_Properties
  imports Exec_Claims
begin

text \<open>
  What the fence guarantees for execution claims, and where the reaper breaks it: tokens of one
  name grow over every run of whole operations, so that the gate refuses each superseded holder,
  but a reaper between the creation of a claim file and its first write lets two claimants
  compute the same token.
\<close>

section \<open>The gate and the fence\<close>

text \<open>A completion that carries a token.\<close>

definition completion :: "string \<Rightarrow> int \<Rightarrow> event_intent" where
  "completion task token =
     \<lparr>i_local_intent_id = ''done'', i_event_type = ''TaskRunCompleted'', i_event_category = ''state_transition'',
      i_payload = [(''after_state'', JObj [(''task_id'', JStr task), (''fencing_token'', JInt token)])],
      i_provenance_hint = system_prov ''agent'' ''w'', i_base_classification = IMMUTABLE_TRUTH,
      i_supersede = plain_supersede, i_subjects = [], i_schema_version = ''1.0.0''\<rparr>"

text \<open>The text of the fence file of a task.\<close>

definition fence_text :: "claim_dir \<Rightarrow> string \<Rightarrow> string option" where
  "fence_text cl task = map_of (cl_fences cl) (slug task)"

lemma completion_passes:
  assumes "task \<noteq> []"
  shows "fe_passed (check_fencing_token True (fence_text cl) [completion task token])
    \<longleftrightarrow> (case fence_value cl task of None \<Rightarrow> True | Some n \<Rightarrow> token = n)"
  using assms
  by (simp add: check_fencing_token_def stale_token_def completion_def fence_text_def fence_value_def
      after_state_def nonempty_def dget_def List.map_filter_simps Let_def split: option.split)

lemma sorted_last_only:
  fixes ns :: "int list"
  assumes "sorted_wrt (<) ns" and "i < length ns"
  shows "ns ! i = last ns \<longleftrightarrow> i + 1 = length ns"
proof
  assume eq: "ns ! i = last ns"
  show "i + 1 = length ns"
  proof (rule ccontr)
    assume "i + 1 \<noteq> length ns"
    then have "ns ! i < ns ! (length ns - 1)" using assms(2) by (intro sorted_wrt_nth_less [OF assms(1)]) auto
    with eq assms(2) show False by (simp add: last_conv_nth length_0_conv [symmetric] del: length_0_conv)
  qed
next
  assume "i + 1 = length ns"
  then show "ns ! i = last ns" by (metis diff_add_inverse2 last_conv_nth list.size(3) add_is_0 one_neq_zero)
qed

text \<open>C21: Over any run of claims, renewals, releases and reaps, the tokens granted for one
  name grow strictly, and a completion that carries one of them passes the enforced fencing
  check exactly when it is the newest: every superseded holder is refused, also when it was
  reaped or revived, and the current one is accepted.\<close>
theorem newest_token_passes:
  assumes "fences_ok cl" and "task \<noteq> []" and "run_claim_ops ops cl = (grants, cl')"
  shows "sorted_wrt (<) (tokens_of task grants)
    \<and> (\<forall>i < length (tokens_of task grants).
         fe_passed (check_fencing_token True (fence_text cl') [completion task (tokens_of task grants ! i)])
           \<longleftrightarrow> i + 1 = length (tokens_of task grants))"
proof (intro conjI allI impI)
  note run = run_claim_ops_tokens [OF assms(3,1), of task]
  then show sorted: "sorted_wrt (<) (tokens_of task grants)" by simp
  fix i assume i: "i < length (tokens_of task grants)"
  with run have "fence_value cl' task = Some (last (tokens_of task grants))" by auto
  then show "fe_passed (check_fencing_token True (fence_text cl') [completion task (tokens_of task grants ! i)])
      \<longleftrightarrow> i + 1 = length (tokens_of task grants)"
    by (simp add: completion_passes [OF assms(2)] sorted_last_only [OF sorted i])
qed

definition no_claims :: claim_dir where
  "no_claims = \<lparr>cl_claims = [], cl_fences = [], cl_next_inode = 0\<rparr>"

text \<open>A worker dies after its claim, the claim is reaped, and a second worker takes over.\<close>

definition takeover :: "claim_op list" where
  "takeover = [Claim 0 ''t'' ''A'', Reap 601 exec_claim_stale_after None, Claim 602 ''t'' ''B'']"

lemma takeover_run: "fst (run_claim_ops takeover no_claims) = [(''t'', ''A'', 1), (''t'', ''B'', 2)]"
  by code_simp

theorem newest_token_passes_witness:
  "\<not> fe_passed (check_fencing_token True (fence_text (snd (run_claim_ops takeover no_claims))) [completion ''t'' 1])
   \<and> fe_passed (check_fencing_token True (fence_text (snd (run_claim_ops takeover no_claims))) [completion ''t'' 2])"
proof -
  have r: "run_claim_ops takeover no_claims
      = ([(''t'', ''A'', 1), (''t'', ''B'', 2)], snd (run_claim_ops takeover no_claims))"
    using takeover_run by (metis prod.collapse)
  have ok: "fences_ok no_claims" by (simp add: fences_ok_def fence_value_def no_claims_def)
  have t: "tokens_of ''t'' [(''t'', ''A'', 1), (''t'', ''B'', 2)] = [1, 2]" by (simp add: tokens_of_def)
  note all = conjunct2 [OF newest_token_passes [OF ok _ r, of "''t''"], unfolded t, rule_format]
  show ?thesis using all [of 0] all [of 1] by simp
qed

section \<open>The reaper and the unwritten claim\<close>

lemma reap_unreadable:
  fixes acc :: "reaped_claim list \<times> claim_dir"
  assumes "\<And>i doc. map_of (cl_claims (snd acc)) name = Some (i, doc) \<Longrightarrow> doc = Unreadable"
  shows "map_of (cl_claims (snd (reap_claim now s live stem acc))) name
    = (if stem = name then None else map_of (cl_claims (snd acc)) name)"
proof (cases "stem = name")
  case True
  have "reap_verdict now s live name
      (case map_of (cl_claims (snd acc)) name of Some (_, doc) \<Rightarrow> doc | None \<Rightarrow> Unreadable) \<noteq> None"
    using assms by (auto simp: reap_verdict_def parse_claim_file_def split: option.split)
  with True show ?thesis by (auto simp: reap_claim_def unlink_claim_def map_of_delete)
next
  case False
  then show ?thesis by (auto simp: reap_claim_def unlink_claim_def map_of_delete split: option.splits)
qed

lemma fold_reap_unreadable:
  "name \<in> set stems \<or> map_of (cl_claims (snd acc)) name = None \<Longrightarrow>
   (\<And>i doc. map_of (cl_claims (snd acc)) name = Some (i, doc) \<Longrightarrow> doc = Unreadable) \<Longrightarrow>
   map_of (cl_claims (snd (fold (reap_claim now s live) stems acc))) name = None"
proof (induction stems arbitrary: acc)
  case (Cons stem stems)
  let ?acc = "reap_claim now s live stem acc"
  have step: "map_of (cl_claims (snd ?acc)) name = (if stem = name then None else map_of (cl_claims (snd acc)) name)"
    by (rule reap_unreadable) (rule Cons.prems(2))
  have "map_of (cl_claims (snd (fold (reap_claim now s live) stems ?acc))) name = None"
  proof (rule Cons.IH)
    show "name \<in> set stems \<or> map_of (cl_claims (snd ?acc)) name = None" using step Cons.prems(1) by auto
    show "doc = Unreadable" if "map_of (cl_claims (snd ?acc)) name = Some (i, doc)" for i doc
      using step Cons.prems(2) [of i doc] that by (simp split: if_splits)
  qed
  then show ?case by simp
qed simp

text \<open>
  One schedule of \<open>claim_task\<close> by A, the reaper, and \<open>claim_task\<close> by B: the reaper runs after A has
  created its file and before A has written it, and both read the fence before either writes it.
  The result has both tokens and the directory.
\<close>

definition racing_claims :: "rat \<Rightarrow> rat \<Rightarrow> (string \<Rightarrow> bool) option \<Rightarrow> string \<Rightarrow> claim_dir
    \<Rightarrow> (int option \<times> int option) \<times> claim_dir" where
  "racing_claims now s live task cl =
     (let (a, cl) = claim_open task cl;
          (reaped, cl) = reap_stale_claims now s live cl;
          (b, cl) = claim_open task cl;
          na = token_read task cl;
          nb = token_read task cl;
          info = (\<lambda>who n. \<lparr>ci_claimant = who, ci_token = n, ci_ts = now, ci_task = task\<rparr>)
      in case (a, b) of
           (Some i, Some j) \<Rightarrow>
             ((Some na, Some nb),
              claim_write task j (info ''B'' nb) (token_write task nb
                (claim_write task i (info ''A'' na) (token_write task na cl))))
         | _ \<Rightarrow> ((map_option (\<lambda>_. na) a, map_option (\<lambda>_. nb) b), cl))"

lemma reap_frees_unwritten:
  assumes "map_of (cl_claims cl) (slug task) = None"
  shows "map_of (cl_claims (snd (reap_stale_claims now s live (snd (claim_open task cl))))) (slug task) = None"
proof -
  let ?cl = "snd (claim_open task cl)"
  have doc: "map_of (cl_claims ?cl) (slug task) = Some (cl_next_inode cl, Unreadable)"
    using assms by (simp add: claim_open_def update_conv')
  then have "slug task \<in> set (claim_files ?cl)"
    by (auto simp: claim_files_def dest!: map_of_SomeD intro: rev_image_eqI)
  then have "map_of (cl_claims (snd (fold (reap_claim now s live) (claim_files ?cl) ([], ?cl)))) (slug task) = None"
    by (intro fold_reap_unreadable) (use doc in auto)
  then show ?thesis by (simp add: reap_stale_claims_def case_prod_beta)
qed

text \<open>C34: The reaper removes a claim file that is created and not yet written, whatever its age
  and whether its session lives.  A second worker then claims the same task while the first one
  still believes it holds it, both are granted the same token, and the enforced fencing check
  accepts the completions of both.\<close>
theorem reaped_claim_shares_token:
  assumes "fences_ok cl" and "task \<noteq> []" and "map_of (cl_claims cl) (slug task) = None"
  shows "\<exists>n cl'. racing_claims now s live task cl = ((Some n, Some n), cl')
    \<and> fe_passed (check_fencing_token True (fence_text cl') [completion task n])
    \<and> read_claim cl' task = Inr (Some \<lparr>ci_claimant = ''B'', ci_token = n, ci_ts = now, ci_task = task\<rparr>)"
proof -
  define cl1 where "cl1 = snd (claim_open task cl)"
  define cl2 where "cl2 = snd (reap_stale_claims now s live cl1)"
  define cl3 where "cl3 = snd (claim_open task cl2)"
  define n where "n = token_read task cl3"
  have o1: "claim_open task cl = (Some (cl_next_inode cl), cl1)"
    using assms(3) by (simp add: claim_open_def cl1_def)
  have free: "map_of (cl_claims cl2) (slug task) = None"
    using reap_frees_unwritten [OF assms(3)] by (simp add: cl2_def cl1_def)
  then have o2: "claim_open task cl2 = (Some (cl_next_inode cl2), cl3)"
    and doc: "map_of (cl_claims cl3) (slug task) = Some (cl_next_inode cl2, Unreadable)"
    by (simp_all add: claim_open_def cl3_def update_conv')
  obtain reaped where r: "reap_stale_claims now s live cl1 = (reaped, cl2)"
    by (cases "reap_stale_claims now s live cl1") (simp add: cl2_def)
  have keep: "cl_fences cl3 = cl_fences cl"
    using other_ops_fences(3) by (simp add: cl3_def cl2_def cl1_def claim_open_def reap_stale_claims_def case_prod_beta fold_reap_fences)
  then have pos: "0 \<le> n"
    using assms(1) by (auto simp: n_def token_read_def fences_ok_def fence_value_def split: option.split)
  define mine where "mine = (\<lambda>who. \<lparr>ci_claimant = who, ci_token = n, ci_ts = now, ci_task = task\<rparr>)"
  define cl4 where "cl4 = token_write task n (claim_write task (cl_next_inode cl) (mine ''A'') (token_write task n cl3))"
  define cl5 where "cl5 = claim_write task (cl_next_inode cl2) (mine ''B'') cl4"
  have "\<exists>d. map_of (cl_claims cl4) (slug task) = Some (cl_next_inode cl2, d)"
    by (simp add: cl4_def claim_write_def token_write_def doc update_conv')
  then have "map_of (cl_claims cl5) (slug task) = Some (cl_next_inode cl2, Claim_Doc (mine ''B''))"
    by (auto simp: cl5_def claim_write_def update_conv')
  then have "read_claim cl5 task = Inr (Some (mine ''B''))"
    using assms(2) by (simp add: read_claim_def mine_def)
  moreover have "fence_value cl5 task = Some n"
    using pos by (simp add: cl5_def cl4_def fence_token_write)
  moreover have "racing_claims now s live task cl = ((Some n, Some n), cl5)"
    by (simp add: racing_claims_def o1 r o2 n_def [symmetric] cl5_def cl4_def mine_def Let_def)
  ultimately show ?thesis by (simp add: completion_passes [OF assms(2)] mine_def)
qed

theorem reaped_claim_shares_token_witness:
  "\<exists>n cl'. racing_claims 0 600 (Some (\<lambda>_. True)) ''t'' no_claims = ((Some n, Some n), cl')
    \<and> fe_passed (check_fencing_token True (fence_text cl') [completion ''t'' n])
    \<and> read_claim cl' ''t'' = Inr (Some \<lparr>ci_claimant = ''B'', ci_token = n, ci_ts = 0, ci_task = ''t''\<rparr>)"
  by (rule reaped_claim_shares_token) (simp_all add: fences_ok_def fence_value_def no_claims_def)

end
