(* ===== verification/Envelope_Schema.thy ===== *)
theory Envelope_Schema
  imports Gate_Conflicts "HOL-Library.Monad_Syntax"
begin

text \<open>
  The canonical envelope (\<open>schemas/envelope.py\<close>): its parts, what their validators accept when
  they read a JSON object, and the JSON that they are written as.  What the validation library
  does with values that are almost of the right type is the argument \<open>lax\<close>; \<open>lax_ok\<close> states what
  is relied on: exact values are kept, and a time stamp reads back from its canonical text.
\<close>

section \<open>Lenient values\<close>

record lax =
  lax_bool :: "json \<Rightarrow> bool option"
  lax_int :: "json \<Rightarrow> int option"
  lax_time :: "json \<Rightarrow> string option"

definition lax_ok :: "lax \<Rightarrow> bool" where
  "lax_ok lx \<longleftrightarrow> (\<forall>b. lax_bool lx (JBool b) = Some b) \<and> (\<forall>i. lax_int lx (JInt i) = Some i)
     \<and> (\<forall>v t. lax_time lx v = Some t \<longrightarrow> lax_time lx (JStr t) = Some t)"

section \<open>Fields\<close>

text \<open>\<open>extra="forbid"\<close>\<close>

definition only_keys :: "string list \<Rightarrow> dict \<Rightarrow> unit option" where
  "only_keys ks d = (if fst ` set d \<subseteq> set ks then Some () else None)"

definition str_field :: "dict \<Rightarrow> string \<Rightarrow> string option" where
  "str_field d k = (case map_of d k of Some (JStr s) \<Rightarrow> Some s | _ \<Rightarrow> None)"

definition nonempty_field :: "dict \<Rightarrow> string \<Rightarrow> string option" where
  "nonempty_field d k = (case str_field d k of Some s \<Rightarrow> if s = [] then None else Some s | None \<Rightarrow> None)"

definition enum_field :: "string list \<Rightarrow> dict \<Rightarrow> string \<Rightarrow> string option" where
  "enum_field vs d k = (case str_field d k of Some s \<Rightarrow> if s \<in> set vs then Some s else None | None \<Rightarrow> None)"

text \<open>A field of type \<open>T | None = None\<close>.\<close>

definition opt_field :: "(dict \<Rightarrow> string \<Rightarrow> 'a option) \<Rightarrow> dict \<Rightarrow> string \<Rightarrow> 'a option option" where
  "opt_field f d k = (if dget d k = JNull then Some None else map_option Some (f d k))"

definition bool_field :: "lax \<Rightarrow> dict \<Rightarrow> string \<Rightarrow> bool option" where
  "bool_field lx d k = Option.bind (map_of d k) (lax_bool lx)"

fun read_all :: "('a \<Rightarrow> 'b option) \<Rightarrow> 'a list \<Rightarrow> 'b list option" where
  "read_all f [] = Some []"
| "read_all f (x # xs) = do { y \<leftarrow> f x; ys \<leftarrow> read_all f xs; Some (y # ys) }"

text \<open>A list of objects; \<open>absent\<close> is the default of the field, if it has one.\<close>

definition list_field :: "(dict \<Rightarrow> 'b option) \<Rightarrow> 'b list option \<Rightarrow> dict \<Rightarrow> string \<Rightarrow> 'b list option" where
  "list_field f absent d k =
     (case map_of d k of
        None \<Rightarrow> absent
      | Some (JArr xs) \<Rightarrow> read_all (\<lambda>v. Option.bind (as_obj v) f) xs
      | Some _ \<Rightarrow> None)"

section \<open>The parts of an envelope\<close>

record read_entry =
  re_entity_type :: string
  re_entity_id :: string
  re_version :: string

record write_entry =
  we_entity_type :: string
  we_entity_id :: string
  we_change_type :: string

record claim_entry =
  ce_entity_type :: string
  ce_entity_id :: string
  ce_claim_type :: string

record declared_obligation =
  do_obligation_id :: string
  do_status :: string
  do_justification :: "string option"

record supersede_bridge =
  sb_novelty_type :: string
  sb_mapping_reason :: string

record patch_entry =
  pe_patch_id :: string
  pe_patch_type :: string
  pe_target :: string
  pe_summary :: string
  pe_detail_ref :: "string option"
  pe_is_supersede :: bool
  pe_superseded :: "string option"
  pe_novelty_type :: "string option"
  pe_bridge :: "supersede_bridge option"

record uncertainty =
  un_id :: string
  un_description :: string
  un_related :: "(string \<times> string) option"
  un_related_obligation :: "string option"
  un_severity :: string
  un_action :: string

record self_check_result =
  sc_check_type :: string
  sc_passed :: bool
  sc_detail :: "string option"

record blocking_check =
  bc_check_id :: string
  bc_status :: string
  bc_evidence :: "(string \<times> string) list"
  bc_detail :: "string option"

record self_check =
  sc_all_passed :: bool
  sc_checks_run :: "self_check_result list"
  sc_blocking :: "blocking_check list"

record envelope =
  en_envelope_id :: string
  en_task_id :: string
  en_run_id :: string
  en_fork_id :: string
  en_read_set :: "read_entry list"
  en_write_set :: "write_entry list"
  en_declared_write_set :: "write_entry list"
  en_claims :: "claim_entry list"
  en_obligations :: "declared_obligation list"
  en_patches :: "patch_entry list"
  en_uncertainties :: "uncertainty list"
  en_self_check :: self_check
  en_completion_claims :: "string list"
  en_capsule :: string
  en_resolver :: "string option"
  en_as_of :: int
  en_schema_version :: string
  en_submitted_at :: string

section \<open>The vocabularies\<close>

definition change_types :: "string list" where
  "change_types = [''created'', ''modified'', ''removed'']"

definition claim_types :: "string list" where
  "claim_types = [''read_claim'', ''write_claim'']"

definition declared_statuses :: "string list" where
  "declared_statuses = [''maintained'', ''violated'', ''not_applicable'']"

definition patch_novelty_types :: "string list" where
  "patch_novelty_types = [''new_constraint'', ''new_evidence'', ''new_resolution'', ''scope_change'', ''nature_override'']"

definition supersede_novelty_types :: "string list" where
  "supersede_novelty_types = [''new_evidence'', ''corrected_error'', ''scope_change'', ''nature_override'']"

definition uncertainty_severities :: "string list" where
  "uncertainty_severities = [''low'', ''medium'', ''high'']"

definition suggested_actions :: "string list" where
  "suggested_actions = [''review_recommended'', ''nature_input_needed'', ''proceed_with_caution'']"

definition check_statuses :: "string list" where
  "check_statuses = [''pending'', ''passed'', ''failed'']"

definition subject_entity_types :: "string list" where
  "subject_entity_types = [''concept'', ''concept_edge'', ''task'', ''task_edge'', ''obligation'', ''file'',
     ''finding'', ''review_plan'', ''patch'', ''rule'', ''snapshot'', ''capsule'', ''at_reference'',
     ''information_need'', ''mismatch'', ''advisor_consult'']"

section \<open>Validators\<close>

definition read_entry_of :: "dict \<Rightarrow> read_entry option" where
  "read_entry_of d = do {
     only_keys [''entity_type'', ''entity_id'', ''version''] d;
     t \<leftarrow> enum_field read_entity_types d ''entity_type'';
     i \<leftarrow> nonempty_field d ''entity_id'';
     v \<leftarrow> nonempty_field d ''version'';
     Some \<lparr>re_entity_type = t, re_entity_id = i, re_version = v\<rparr> }"

definition write_entry_of :: "dict \<Rightarrow> write_entry option" where
  "write_entry_of d = do {
     only_keys [''entity_type'', ''entity_id'', ''change_type''] d;
     t \<leftarrow> enum_field write_entity_types d ''entity_type'';
     i \<leftarrow> nonempty_field d ''entity_id'';
     c \<leftarrow> enum_field change_types d ''change_type'';
     Some \<lparr>we_entity_type = t, we_entity_id = i, we_change_type = c\<rparr> }"

definition claim_entry_of :: "dict \<Rightarrow> claim_entry option" where
  "claim_entry_of d = do {
     only_keys [''entity_type'', ''entity_id'', ''claim_type''] d;
     t \<leftarrow> enum_field write_entity_types d ''entity_type'';
     i \<leftarrow> nonempty_field d ''entity_id'';
     c \<leftarrow> enum_field claim_types d ''claim_type'';
     Some \<lparr>ce_entity_type = t, ce_entity_id = i, ce_claim_type = c\<rparr> }"

text \<open>\<open>enforce_justification\<close>: a violation or a non-applicability states its reason.\<close>

definition justified :: "declared_obligation \<Rightarrow> bool" where
  "justified o' \<longleftrightarrow>
     (do_status o' \<in> {''violated'', ''not_applicable''}
        \<longrightarrow> (case do_justification o' of None \<Rightarrow> False | Some j \<Rightarrow> py_strip j \<noteq> []))"

definition declared_obligation_of :: "dict \<Rightarrow> declared_obligation option" where
  "declared_obligation_of d = do {
     only_keys [''obligation_id'', ''status'', ''justification''] d;
     i \<leftarrow> nonempty_field d ''obligation_id'';
     s \<leftarrow> enum_field declared_statuses d ''status'';
     j \<leftarrow> opt_field str_field d ''justification'';
     let o' = \<lparr>do_obligation_id = i, do_status = s, do_justification = j\<rparr>;
     if justified o' then Some o' else None }"

definition bridge_of :: "dict \<Rightarrow> supersede_bridge option" where
  "bridge_of d = do {
     only_keys [''supersede_novelty_type'', ''mapping_reason''] d;
     t \<leftarrow> enum_field supersede_novelty_types d ''supersede_novelty_type'';
     r \<leftarrow> nonempty_field d ''mapping_reason'';
     Some \<lparr>sb_novelty_type = t, sb_mapping_reason = r\<rparr> }"

definition obj_field :: "(dict \<Rightarrow> 'a option) \<Rightarrow> dict \<Rightarrow> string \<Rightarrow> 'a option" where
  "obj_field f d k = (case map_of d k of Some (JObj x) \<Rightarrow> f x | _ \<Rightarrow> None)"

text \<open>\<open>s.split(",")\<close>\<close>

fun split_comma :: "string \<Rightarrow> string list" where
  "split_comma [] = [[]]"
| "split_comma (c # cs) =
     (if c = CHR '','' then [] # split_comma cs
      else (case split_comma cs of [] \<Rightarrow> [[c]] | p # ps \<Rightarrow> (c # p) # ps))"

definition comma_parts :: "string \<Rightarrow> string list" where
  "comma_parts s = filter (\<lambda>p. p \<noteq> []) (map py_strip (split_comma s))"

definition git_patch_types :: "string list" where
  "git_patch_types = [''code_diff'', ''doc_change'', ''config_change'']"

text \<open>\<open>enforce_supersede_completeness\<close> and \<open>enforce_detail_ref_format\<close>.\<close>

definition patch_complete :: "patch_entry \<Rightarrow> bool" where
  "patch_complete p \<longleftrightarrow>
     (pe_is_supersede p \<longrightarrow> pe_superseded p \<noteq> None \<and> pe_novelty_type p \<noteq> None \<and> pe_bridge p \<noteq> None)"

definition detail_ref_ok :: "patch_entry \<Rightarrow> bool" where
  "detail_ref_ok p \<longleftrightarrow>
     (case pe_detail_ref p of
        None \<Rightarrow> True
      | Some s \<Rightarrow>
          comma_parts s \<noteq> []
          \<and> list_all (prefix (if pe_patch_type p \<in> set git_patch_types then ''git:'' else ''evt:'')) (comma_parts s))"

definition patch_entry_of :: "lax \<Rightarrow> dict \<Rightarrow> patch_entry option" where
  "patch_entry_of lx d = do {
     only_keys [''patch_id'', ''patch_type'', ''target'', ''summary'', ''detail_ref'', ''is_supersede'',
                ''superseded_entity_ref'', ''novelty_type'', ''supersede_bridge''] d;
     i \<leftarrow> nonempty_field d ''patch_id'';
     t \<leftarrow> enum_field patch_types d ''patch_type'';
     tg \<leftarrow> nonempty_field d ''target'';
     s \<leftarrow> str_field d ''summary'';
     r \<leftarrow> opt_field str_field d ''detail_ref'';
     sup \<leftarrow> (if map_of d ''is_supersede'' = None then Some False else bool_field lx d ''is_supersede'');
     old \<leftarrow> opt_field str_field d ''superseded_entity_ref'';
     n \<leftarrow> opt_field (enum_field patch_novelty_types) d ''novelty_type'';
     b \<leftarrow> opt_field (obj_field bridge_of) d ''supersede_bridge'';
     let p = \<lparr>pe_patch_id = i, pe_patch_type = t, pe_target = tg, pe_summary = s, pe_detail_ref = r,
              pe_is_supersede = sup, pe_superseded = old, pe_novelty_type = n, pe_bridge = b\<rparr>;
     if patch_complete p \<and> detail_ref_ok p then Some p else None }"

definition entity_ref_of :: "dict \<Rightarrow> (string \<times> string) option" where
  "entity_ref_of d = do {
     only_keys [''entity_type'', ''entity_id''] d;
     t \<leftarrow> enum_field subject_entity_types d ''entity_type'';
     i \<leftarrow> nonempty_field d ''entity_id'';
     Some (t, i) }"

definition uncertainty_of :: "dict \<Rightarrow> uncertainty option" where
  "uncertainty_of d = do {
     only_keys [''uncertainty_id'', ''description'', ''related_entity'', ''related_obligation_id'',
                ''severity'', ''suggested_action''] d;
     i \<leftarrow> nonempty_field d ''uncertainty_id'';
     s \<leftarrow> str_field d ''description'';
     e \<leftarrow> opt_field (obj_field entity_ref_of) d ''related_entity'';
     ob \<leftarrow> opt_field str_field d ''related_obligation_id'';
     sv \<leftarrow> enum_field uncertainty_severities d ''severity'';
     a \<leftarrow> enum_field suggested_actions d ''suggested_action'';
     Some \<lparr>un_id = i, un_description = s, un_related = e, un_related_obligation = ob, un_severity = sv,
           un_action = a\<rparr> }"

definition self_check_result_of :: "lax \<Rightarrow> dict \<Rightarrow> self_check_result option" where
  "self_check_result_of lx d = do {
     only_keys [''check_type'', ''passed'', ''detail''] d;
     t \<leftarrow> nonempty_field d ''check_type'';
     p \<leftarrow> bool_field lx d ''passed'';
     dt \<leftarrow> opt_field str_field d ''detail'';
     Some \<lparr>sc_check_type = t, sc_passed = p, sc_detail = dt\<rparr> }"

text \<open>A field of type \<open>dict[str, str]\<close> that defaults to the empty one.\<close>

definition texts_field :: "dict \<Rightarrow> string \<Rightarrow> (string \<times> string) list option" where
  "texts_field d k =
     (case map_of d k of
        None \<Rightarrow> Some []
      | Some (JObj x) \<Rightarrow> read_all (\<lambda>(key, v). map_option (Pair key) (as_str v)) x
      | Some _ \<Rightarrow> None)"

definition evidenced :: "blocking_check \<Rightarrow> bool" where
  "evidenced b \<longleftrightarrow> (bc_status b = ''passed'' \<longrightarrow> bc_evidence b \<noteq> [])"

definition blocking_check_of :: "dict \<Rightarrow> blocking_check option" where
  "blocking_check_of d = do {
     only_keys [''check_id'', ''status'', ''evidence'', ''detail''] d;
     i \<leftarrow> nonempty_field d ''check_id'';
     s \<leftarrow> enum_field check_statuses d ''status'';
     e \<leftarrow> texts_field d ''evidence'';
     dt \<leftarrow> opt_field str_field d ''detail'';
     let b = \<lparr>bc_check_id = i, bc_status = s, bc_evidence = e, bc_detail = dt\<rparr>;
     if evidenced b then Some b else None }"

definition self_check_of :: "lax \<Rightarrow> dict \<Rightarrow> self_check option" where
  "self_check_of lx d = do {
     only_keys [''passed'', ''checks_run'', ''blocking_checks''] d;
     p \<leftarrow> bool_field lx d ''passed'';
     run \<leftarrow> list_field (self_check_result_of lx) (Some []) d ''checks_run'';
     blocking \<leftarrow> list_field blocking_check_of (Some []) d ''blocking_checks'';
     Some \<lparr>sc_all_passed = p, sc_checks_run = run, sc_blocking = blocking\<rparr> }"

text \<open>The pattern \<open>^env-[A-Za-z0-9_-]+$\<close>.\<close>

definition envelope_id_pattern :: "string \<Rightarrow> bool" where
  "envelope_id_pattern s \<longleftrightarrow> prefix ''env-'' s \<and> drop 4 s \<noteq> [] \<and> list_all id_char (drop 4 s)"

definition strings_field :: "dict \<Rightarrow> string \<Rightarrow> string list option" where
  "strings_field d k =
     (case map_of d k of None \<Rightarrow> Some [] | Some (JArr xs) \<Rightarrow> read_all as_str xs | Some _ \<Rightarrow> None)"

definition envelope_keys :: "string list" where
  "envelope_keys = [''envelope_id'', ''task_id'', ''run_id'', ''fork_id'', ''read_set'', ''write_set'',
     ''declared_write_set'', ''claims'', ''active_obligations_declared'', ''patches'', ''uncertainties'',
     ''self_check'', ''completion_claims'', ''capsule_compiled_event_id'', ''resolver_decision_event_id'',
     ''as_of_projection_seq'', ''schema_version'', ''submitted_at'']"

text \<open>The constraints on the fields of an envelope that is built from valid parts.\<close>

definition envelope_ok :: "envelope \<Rightarrow> bool" where
  "envelope_ok e \<longleftrightarrow>
     envelope_id_pattern (en_envelope_id e) \<and> en_task_id e \<noteq> [] \<and> en_run_id e \<noteq> [] \<and> en_fork_id e \<noteq> []
     \<and> en_read_set e \<noteq> [] \<and> en_write_set e \<noteq> [] \<and> en_capsule e \<noteq> [] \<and> en_as_of e \<ge> 0
     \<and> schema_version_pattern (en_schema_version e)"

definition envelope_of :: "lax \<Rightarrow> dict \<Rightarrow> envelope option" where
  "envelope_of lx d = do {
     only_keys envelope_keys d;
     eid \<leftarrow> str_field d ''envelope_id'';
     task \<leftarrow> str_field d ''task_id'';
     run \<leftarrow> str_field d ''run_id'';
     fork \<leftarrow> str_field d ''fork_id'';
     rs \<leftarrow> list_field read_entry_of None d ''read_set'';
     ws \<leftarrow> list_field write_entry_of None d ''write_set'';
     dws \<leftarrow> list_field write_entry_of (Some []) d ''declared_write_set'';
     cs \<leftarrow> list_field claim_entry_of (Some []) d ''claims'';
     obs \<leftarrow> list_field declared_obligation_of (Some []) d ''active_obligations_declared'';
     ps \<leftarrow> list_field (patch_entry_of lx) (Some []) d ''patches'';
     us \<leftarrow> list_field uncertainty_of (Some []) d ''uncertainties'';
     sc \<leftarrow> obj_field (self_check_of lx) d ''self_check'';
     cc \<leftarrow> strings_field d ''completion_claims'';
     cap \<leftarrow> str_field d ''capsule_compiled_event_id'';
     res \<leftarrow> opt_field str_field d ''resolver_decision_event_id'';
     n \<leftarrow> Option.bind (map_of d ''as_of_projection_seq'') (lax_int lx);
     v \<leftarrow> str_field d ''schema_version'';
     t \<leftarrow> Option.bind (map_of d ''submitted_at'') (lax_time lx);
     let e = \<lparr>en_envelope_id = eid, en_task_id = task, en_run_id = run, en_fork_id = fork, en_read_set = rs,
              en_write_set = ws, en_declared_write_set = dws, en_claims = cs, en_obligations = obs,
              en_patches = ps, en_uncertainties = us, en_self_check = sc, en_completion_claims = cc,
              en_capsule = cap, en_resolver = res, en_as_of = n, en_schema_version = v, en_submitted_at = t\<rparr>;
     if envelope_ok e then Some e else None }"

section \<open>The JSON of an envelope\<close>

definition jopt_str :: "string option \<Rightarrow> json" where
  "jopt_str x = (case x of None \<Rightarrow> JNull | Some s \<Rightarrow> JStr s)"

definition read_entry_dump :: "read_entry \<Rightarrow> dict" where
  "read_entry_dump e = [(''entity_type'', JStr (re_entity_type e)), (''entity_id'', JStr (re_entity_id e)),
     (''version'', JStr (re_version e))]"

definition write_entry_dump :: "write_entry \<Rightarrow> dict" where
  "write_entry_dump e = [(''entity_type'', JStr (we_entity_type e)), (''entity_id'', JStr (we_entity_id e)),
     (''change_type'', JStr (we_change_type e))]"

definition claim_entry_dump :: "claim_entry \<Rightarrow> dict" where
  "claim_entry_dump e = [(''entity_type'', JStr (ce_entity_type e)), (''entity_id'', JStr (ce_entity_id e)),
     (''claim_type'', JStr (ce_claim_type e))]"

definition declared_obligation_dump :: "declared_obligation \<Rightarrow> dict" where
  "declared_obligation_dump o' = [(''obligation_id'', JStr (do_obligation_id o')), (''status'', JStr (do_status o')),
     (''justification'', jopt_str (do_justification o'))]"

definition bridge_dump :: "supersede_bridge \<Rightarrow> dict" where
  "bridge_dump b = [(''supersede_novelty_type'', JStr (sb_novelty_type b)),
     (''mapping_reason'', JStr (sb_mapping_reason b))]"

definition patch_entry_dump :: "patch_entry \<Rightarrow> dict" where
  "patch_entry_dump p =
     [(''patch_id'', JStr (pe_patch_id p)), (''patch_type'', JStr (pe_patch_type p)),
      (''target'', JStr (pe_target p)), (''summary'', JStr (pe_summary p)),
      (''detail_ref'', jopt_str (pe_detail_ref p)), (''is_supersede'', JBool (pe_is_supersede p)),
      (''superseded_entity_ref'', jopt_str (pe_superseded p)), (''novelty_type'', jopt_str (pe_novelty_type p)),
      (''supersede_bridge'', case pe_bridge p of None \<Rightarrow> JNull | Some b \<Rightarrow> JObj (bridge_dump b))]"

definition entity_ref_dump :: "string \<times> string \<Rightarrow> dict" where
  "entity_ref_dump k = [(''entity_type'', JStr (fst k)), (''entity_id'', JStr (snd k))]"

definition uncertainty_dump :: "uncertainty \<Rightarrow> dict" where
  "uncertainty_dump u =
     [(''uncertainty_id'', JStr (un_id u)), (''description'', JStr (un_description u)),
      (''related_entity'', case un_related u of None \<Rightarrow> JNull | Some k \<Rightarrow> JObj (entity_ref_dump k)),
      (''related_obligation_id'', jopt_str (un_related_obligation u)), (''severity'', JStr (un_severity u)),
      (''suggested_action'', JStr (un_action u))]"

definition self_check_result_dump :: "self_check_result \<Rightarrow> dict" where
  "self_check_result_dump r = [(''check_type'', JStr (sc_check_type r)), (''passed'', JBool (sc_passed r)),
     (''detail'', jopt_str (sc_detail r))]"

definition blocking_check_dump :: "blocking_check \<Rightarrow> dict" where
  "blocking_check_dump b = [(''check_id'', JStr (bc_check_id b)), (''status'', JStr (bc_status b)),
     (''evidence'', JObj (map (\<lambda>(k, v). (k, JStr v)) (bc_evidence b))), (''detail'', jopt_str (bc_detail b))]"

abbreviation dumps_list :: "('a \<Rightarrow> dict) \<Rightarrow> 'a list \<Rightarrow> json" where
  "dumps_list f xs \<equiv> JArr (map (JObj \<circ> f) xs)"

definition self_check_dump :: "self_check \<Rightarrow> dict" where
  "self_check_dump s = [(''passed'', JBool (sc_all_passed s)),
     (''checks_run'', dumps_list self_check_result_dump (sc_checks_run s)),
     (''blocking_checks'', dumps_list blocking_check_dump (sc_blocking s))]"

definition envelope_dump :: "envelope \<Rightarrow> dict" where
  "envelope_dump e =
     [(''envelope_id'', JStr (en_envelope_id e)), (''task_id'', JStr (en_task_id e)),
      (''run_id'', JStr (en_run_id e)), (''fork_id'', JStr (en_fork_id e)),
      (''read_set'', dumps_list read_entry_dump (en_read_set e)),
      (''write_set'', dumps_list write_entry_dump (en_write_set e)),
      (''declared_write_set'', dumps_list write_entry_dump (en_declared_write_set e)),
      (''claims'', dumps_list claim_entry_dump (en_claims e)),
      (''active_obligations_declared'', dumps_list declared_obligation_dump (en_obligations e)),
      (''patches'', dumps_list patch_entry_dump (en_patches e)),
      (''uncertainties'', dumps_list uncertainty_dump (en_uncertainties e)),
      (''self_check'', JObj (self_check_dump (en_self_check e))),
      (''completion_claims'', JArr (map JStr (en_completion_claims e))),
      (''capsule_compiled_event_id'', JStr (en_capsule e)),
      (''resolver_decision_event_id'', jopt_str (en_resolver e)),
      (''as_of_projection_seq'', JInt (en_as_of e)), (''schema_version'', JStr (en_schema_version e)),
      (''submitted_at'', JStr (en_submitted_at e))]"

section \<open>Reading what was written\<close>

lemma read_all_map: "(\<And>x. x \<in> set xs \<Longrightarrow> f (g x) = Some x) \<Longrightarrow> read_all f (map g xs) = Some xs"
  by (induction xs) simp_all

lemma read_all_set: "read_all f xs = Some ys \<Longrightarrow> y \<in> set ys \<Longrightarrow> \<exists>x \<in> set xs. f x = Some y"
  by (induction xs arbitrary: ys) (auto simp: bind_eq_Some_conv)

lemma list_field_back:
  "map_of d k = Some (dumps_list g xs) \<Longrightarrow> (\<And>x. x \<in> set xs \<Longrightarrow> f (g x) = Some x) \<Longrightarrow> list_field f a d k = Some xs"
  by (simp add: list_field_def read_all_map)

text \<open>The parts that some JSON object reads as.\<close>

definition valid_part :: "(dict \<Rightarrow> 'a option) \<Rightarrow> 'a \<Rightarrow> bool" where
  "valid_part f x \<longleftrightarrow> (\<exists>d. f d = Some x)"

lemma list_field_valid:
  "list_field f a d k = Some xs \<Longrightarrow> (\<And>ys. a = Some ys \<Longrightarrow> ys = []) \<Longrightarrow> x \<in> set xs \<Longrightarrow> valid_part f x"
  by (auto simp: list_field_def valid_part_def bind_eq_Some_conv split: option.splits json.splits dest!: read_all_set)

text \<open>What a field that reads tells about its value.\<close>

lemma enum_field_Some: "enum_field vs d k = Some s \<longleftrightarrow> str_field d k = Some s \<and> s \<in> set vs"
  by (auto simp: enum_field_def split: option.splits)

lemma nonempty_field_Some: "nonempty_field d k = Some s \<longleftrightarrow> str_field d k = Some s \<and> s \<noteq> []"
  by (auto simp: nonempty_field_def split: option.splits)

lemma opt_field_Some: "opt_field f d k = Some x \<Longrightarrow> x = None \<or> (\<exists>y. x = Some y \<and> f d k = Some y)"
  by (auto simp: opt_field_def split: if_splits)

lemma str_field_Cons: "str_field ((k', v) # d) k = (if k' = k then as_str v else str_field d k)"
  by (cases v) (simp_all add: str_field_def)

lemma opt_str_field_back: "map_of d k = Some (jopt_str x) \<Longrightarrow> opt_field str_field d k = Some x"
  by (simp add: opt_field_def dget_def jopt_str_def str_field_def split: option.split)

lemma opt_enum_field_back:
  "map_of d k = Some (jopt_str x) \<Longrightarrow> set_option x \<subseteq> set vs \<Longrightarrow> opt_field (enum_field vs) d k = Some x"
  by (auto simp: opt_field_def dget_def jopt_str_def enum_field_def str_field_def split: option.split)

lemma opt_obj_field_back:
  "map_of d k = Some (case x of None \<Rightarrow> JNull | Some b \<Rightarrow> JObj (g b)) \<Longrightarrow>
   (\<And>b. x = Some b \<Longrightarrow> f (g b) = Some b) \<Longrightarrow> opt_field (obj_field f) d k = Some x"
  by (auto simp: opt_field_def dget_def obj_field_def split: option.split)

lemma obj_field_valid: "obj_field f d k = Some x \<Longrightarrow> valid_part f x"
  by (auto simp: obj_field_def valid_part_def split: option.splits json.splits)

lemma opt_enum_field_set: "opt_field (enum_field vs) d k = Some x \<Longrightarrow> set_option x \<subseteq> set vs"
  by (auto dest!: opt_field_Some simp: enum_field_Some)

lemma opt_obj_field_valid: "opt_field (obj_field f) d k = Some x \<Longrightarrow> x = Some b \<Longrightarrow> valid_part f b"
  by (auto dest!: opt_field_Some dest: obj_field_valid)

lemmas back_simps = valid_part_def only_keys_def bind_eq_Some_conv enum_field_Some nonempty_field_Some
  str_field_Cons opt_str_field_back

lemma read_entry_back: "valid_part read_entry_of e \<Longrightarrow> read_entry_of (read_entry_dump e) = Some e"
  by (auto simp: read_entry_of_def read_entry_dump_def back_simps split: if_splits)

lemma write_entry_back: "valid_part write_entry_of e \<Longrightarrow> write_entry_of (write_entry_dump e) = Some e"
  by (auto simp: write_entry_of_def write_entry_dump_def back_simps split: if_splits)

lemma claim_entry_back: "valid_part claim_entry_of e \<Longrightarrow> claim_entry_of (claim_entry_dump e) = Some e"
  by (auto simp: claim_entry_of_def claim_entry_dump_def back_simps split: if_splits)

lemma declared_obligation_back:
  "valid_part declared_obligation_of e \<Longrightarrow> declared_obligation_of (declared_obligation_dump e) = Some e"
  by (auto simp: declared_obligation_of_def declared_obligation_dump_def back_simps Let_def split: if_splits)

lemma bridge_back: "valid_part bridge_of b \<Longrightarrow> bridge_of (bridge_dump b) = Some b"
  by (auto simp: bridge_of_def bridge_dump_def back_simps split: if_splits)

lemma entity_ref_back: "valid_part entity_ref_of k \<Longrightarrow> entity_ref_of (entity_ref_dump k) = Some k"
  by (auto simp: entity_ref_of_def entity_ref_dump_def back_simps split: if_splits)

lemma uncertainty_back:
  assumes "valid_part uncertainty_of u"
  shows "uncertainty_of (uncertainty_dump u) = Some u"
proof -
  obtain d where d: "uncertainty_of d = Some u" using assms by (auto simp: valid_part_def)
  have k: "entity_ref_of (entity_ref_dump k) = Some k" if "un_related u = Some k" for k
    using d that by (intro entity_ref_back) (auto simp: uncertainty_of_def bind_eq_Some_conv
        dest: opt_obj_field_valid)
  show ?thesis
    using d k
    by (auto simp: uncertainty_of_def uncertainty_dump_def only_keys_def bind_eq_Some_conv enum_field_Some
        nonempty_field_Some str_field_Cons opt_str_field_back opt_obj_field_back [where g = entity_ref_dump]
        split: if_splits)
qed

lemma patch_entry_back:
  assumes "lax_ok lx" and "valid_part (patch_entry_of lx) p"
  shows "patch_entry_of lx (patch_entry_dump p) = Some p"
proof -
  obtain d where d: "patch_entry_of lx d = Some p" using assms(2) by (auto simp: valid_part_def)
  have b: "bridge_of (bridge_dump b) = Some b" if "pe_bridge p = Some b" for b
    using d that by (intro bridge_back) (auto simp: patch_entry_of_def bind_eq_Some_conv Let_def
        dest: opt_obj_field_valid split: if_splits)
  have n: "set_option (pe_novelty_type p) \<subseteq> set patch_novelty_types"
    using d by (auto simp: patch_entry_of_def bind_eq_Some_conv Let_def dest!: opt_enum_field_set split: if_splits)
  show ?thesis
    using d assms(1) b n
    by (auto simp: patch_entry_of_def patch_entry_dump_def only_keys_def bind_eq_Some_conv enum_field_Some
        nonempty_field_Some str_field_Cons opt_str_field_back Let_def lax_ok_def bool_field_def
        opt_enum_field_back opt_obj_field_back [where g = bridge_dump] split: if_splits)
qed

lemma self_check_result_back:
  "lax_ok lx \<Longrightarrow> valid_part (self_check_result_of lx) r \<Longrightarrow> self_check_result_of lx (self_check_result_dump r) = Some r"
  by (auto simp: self_check_result_of_def self_check_result_dump_def back_simps lax_ok_def bool_field_def
      split: if_splits)

lemma texts_field_back:
  "map_of d k = Some (JObj (map (\<lambda>(k, v). (k, JStr v)) xs)) \<Longrightarrow> texts_field d k = Some xs"
  by (simp add: texts_field_def read_all_map case_prod_beta)

lemma blocking_check_back: "valid_part blocking_check_of b \<Longrightarrow> blocking_check_of (blocking_check_dump b) = Some b"
  by (auto simp: blocking_check_of_def blocking_check_dump_def back_simps texts_field_back Let_def split: if_splits)

lemma self_check_back:
  assumes "lax_ok lx" and "valid_part (self_check_of lx) c"
  shows "self_check_of lx (self_check_dump c) = Some c"
proof -
  obtain d where d: "self_check_of lx d = Some c" using assms(2) by (auto simp: valid_part_def)
  have "self_check_result_of lx (self_check_result_dump r) = Some r" if "r \<in> set (sc_checks_run c)" for r
    using d that by (intro self_check_result_back assms(1))
      (auto simp: self_check_of_def bind_eq_Some_conv intro: list_field_valid)
  moreover have "blocking_check_of (blocking_check_dump b) = Some b" if "b \<in> set (sc_blocking c)" for b
    using d that by (intro blocking_check_back) (auto simp: self_check_of_def bind_eq_Some_conv intro: list_field_valid)
  ultimately show ?thesis
    using assms(1)
    by (simp add: self_check_of_def self_check_dump_def only_keys_def lax_ok_def bool_field_def
        list_field_back [where g = self_check_result_dump] list_field_back [where g = blocking_check_dump])
qed

lemma strings_field_back: "map_of d k = Some (JArr (map JStr xs)) \<Longrightarrow> strings_field d k = Some xs"
  by (simp add: strings_field_def read_all_map)

text \<open>An envelope whose parts are valid.\<close>

definition envelope_wf :: "lax \<Rightarrow> envelope \<Rightarrow> bool" where
  "envelope_wf lx e \<longleftrightarrow>
     envelope_ok e
     \<and> (\<forall>x \<in> set (en_read_set e). valid_part read_entry_of x)
     \<and> (\<forall>x \<in> set (en_write_set e) \<union> set (en_declared_write_set e). valid_part write_entry_of x)
     \<and> (\<forall>x \<in> set (en_claims e). valid_part claim_entry_of x)
     \<and> (\<forall>x \<in> set (en_obligations e). valid_part declared_obligation_of x)
     \<and> (\<forall>x \<in> set (en_patches e). valid_part (patch_entry_of lx) x)
     \<and> (\<forall>x \<in> set (en_uncertainties e). valid_part uncertainty_of x)
     \<and> valid_part (self_check_of lx) (en_self_check e)
     \<and> lax_time lx (JStr (en_submitted_at e)) = Some (en_submitted_at e)"

lemma envelope_back:
  assumes "lax_ok lx" and wf: "envelope_wf lx e"
  shows "envelope_of lx (envelope_dump e) = Some e"
proof -
  have i: "lax_int lx (JInt n) = Some n" for n using assms(1) by (simp add: lax_ok_def)
  have k: "fst ` set (envelope_dump e) \<subseteq> set envelope_keys" by (simp add: envelope_dump_def envelope_keys_def)
  have parts: "\<And>x. x \<in> set (en_read_set e) \<Longrightarrow> read_entry_of (read_entry_dump x) = Some x"
    "\<And>x. x \<in> set (en_write_set e) \<Longrightarrow> write_entry_of (write_entry_dump x) = Some x"
    "\<And>x. x \<in> set (en_declared_write_set e) \<Longrightarrow> write_entry_of (write_entry_dump x) = Some x"
    "\<And>x. x \<in> set (en_claims e) \<Longrightarrow> claim_entry_of (claim_entry_dump x) = Some x"
    "\<And>x. x \<in> set (en_obligations e) \<Longrightarrow> declared_obligation_of (declared_obligation_dump x) = Some x"
    "\<And>x. x \<in> set (en_patches e) \<Longrightarrow> patch_entry_of lx (patch_entry_dump x) = Some x"
    "\<And>x. x \<in> set (en_uncertainties e) \<Longrightarrow> uncertainty_of (uncertainty_dump x) = Some x"
    using wf by (simp_all add: envelope_wf_def read_entry_back write_entry_back claim_entry_back
        declared_obligation_back patch_entry_back [OF assms(1)] uncertainty_back)
  have sc: "self_check_of lx (self_check_dump (en_self_check e)) = Some (en_self_check e)"
    using wf by (intro self_check_back assms(1)) (simp add: envelope_wf_def)
  have t: "lax_time lx (JStr (en_submitted_at e)) = Some (en_submitted_at e)" and ok: "envelope_ok e"
    using wf by (simp_all add: envelope_wf_def)
  have get: "map_of (envelope_dump e) ''read_set'' = Some (dumps_list read_entry_dump (en_read_set e))"
    "map_of (envelope_dump e) ''write_set'' = Some (dumps_list write_entry_dump (en_write_set e))"
    "map_of (envelope_dump e) ''declared_write_set'' = Some (dumps_list write_entry_dump (en_declared_write_set e))"
    "map_of (envelope_dump e) ''claims'' = Some (dumps_list claim_entry_dump (en_claims e))"
    "map_of (envelope_dump e) ''active_obligations_declared'' = Some (dumps_list declared_obligation_dump (en_obligations e))"
    "map_of (envelope_dump e) ''patches'' = Some (dumps_list patch_entry_dump (en_patches e))"
    "map_of (envelope_dump e) ''uncertainties'' = Some (dumps_list uncertainty_dump (en_uncertainties e))"
    "map_of (envelope_dump e) ''self_check'' = Some (JObj (self_check_dump (en_self_check e)))"
    "map_of (envelope_dump e) ''completion_claims'' = Some (JArr (map JStr (en_completion_claims e)))"
    "map_of (envelope_dump e) ''resolver_decision_event_id'' = Some (jopt_str (en_resolver e))"
    "map_of (envelope_dump e) ''as_of_projection_seq'' = Some (JInt (en_as_of e))"
    "map_of (envelope_dump e) ''submitted_at'' = Some (JStr (en_submitted_at e))"
    by (simp_all add: envelope_dump_def)
  have str: "str_field (envelope_dump e) ''envelope_id'' = Some (en_envelope_id e)"
    "str_field (envelope_dump e) ''task_id'' = Some (en_task_id e)"
    "str_field (envelope_dump e) ''run_id'' = Some (en_run_id e)"
    "str_field (envelope_dump e) ''fork_id'' = Some (en_fork_id e)"
    "str_field (envelope_dump e) ''capsule_compiled_event_id'' = Some (en_capsule e)"
    "str_field (envelope_dump e) ''schema_version'' = Some (en_schema_version e)"
    by (simp_all add: envelope_dump_def str_field_def)
  note lists = list_field_back [OF get(1) parts(1)] list_field_back [OF get(2) parts(2)]
    list_field_back [OF get(3) parts(3)] list_field_back [OF get(4) parts(4)] list_field_back [OF get(5) parts(5)]
    list_field_back [OF get(6) parts(6)] list_field_back [OF get(7) parts(7)]
  show ?thesis
    using ok
    by (simp add: envelope_ok_def envelope_of_def only_keys_def k str lists get(8,11,12) strings_field_back [OF get(9)]
        opt_str_field_back [OF get(10)] sc i t obj_field_def Let_def)
qed

text \<open>Whatever JSON reads as an envelope gives one with valid parts.\<close>

lemma envelope_of_wf:
  assumes "lax_ok lx" and d: "envelope_of lx d = Some e"
  shows "envelope_wf lx e"
proof -
  have t: "lax_time lx v = Some t \<Longrightarrow> lax_time lx (JStr t) = Some t" for v t
    using assms(1) by (simp add: lax_ok_def)
  show ?thesis
    using d unfolding envelope_of_def envelope_wf_def bind_eq_Some_conv Let_def
    by (auto split: if_splits dest: obj_field_valid t elim: list_field_valid)
qed

end
