(* ===== verification/Envelope_Builder.thy ===== *)
theory Envelope_Builder
  imports Envelope_Schema Gate_Acceptance
begin

text \<open>
  Deriving an envelope (\<open>l0/envelope/builder.py, engine.py, reader.py\<close>): what a batch reads and
  writes, the capsule an envelope belongs to, the canonical payload the gate stores, the
  references that are filled in once event identifiers are known, and reading envelopes back.
\<close>

section \<open>What is written\<close>

definition write_roles :: "string list" where
  "write_roles = [''primary'', ''affected'']"

definition removed_fragments :: "string list" where
  "removed_fragments = [''Removed'', ''Deleted'', ''Archived'', ''Retired'', ''Tombstoned'']"

definition change_strength :: "string \<Rightarrow> nat" where
  "change_strength c = (if c = ''removed'' then 2 else if c = ''modified'' then 1 else 0)"

definition infer_change_type :: "event_intent \<Rightarrow> string" where
  "infer_change_type i =
     (if is_supersede (i_supersede i) then ''modified''
      else if list_ex (\<lambda>frag. sublist frag (i_event_type i)) removed_fragments then ''removed''
      else if list_ex (\<lambda>frag. sublist frag (i_event_type i)) [''Updated'', ''Modified'', ''Changed''] then ''modified''
      else ''created'')"

text \<open>The strongest change of each entity, in the order of first mention.\<close>

definition note_change :: "'k \<times> string \<Rightarrow> ('k \<times> string) list \<Rightarrow> ('k \<times> string) list" where
  "note_change kc best =
     (let (k, c) = kc in
      case map_of best k of
        None \<Rightarrow> best @ [(k, c)]
      | Some c' \<Rightarrow> if change_strength c > change_strength c' then AList.update k c best else best)"

definition writes_of :: "event_intent \<Rightarrow> ((string \<times> string) \<times> string) list" where
  "writes_of i =
     map (\<lambda>s. ((entity_type s, entity_id s), infer_change_type i))
       (filter (\<lambda>s. role s \<in> set write_roles \<and> entity_type s \<in> set write_entity_types) (i_subjects i))"

definition derive_write_set :: "event_intent list \<Rightarrow> write_entry list" where
  "derive_write_set intents =
     map (\<lambda>((t, i), c). \<lparr>we_entity_type = t, we_entity_id = i, we_change_type = c\<rparr>)
       (fold note_change (concat (map writes_of intents)) [])"

section \<open>What is read\<close>

definition add_read :: "read_entry \<Rightarrow> read_entry list \<Rightarrow> read_entry list" where
  "add_read e entries =
     (if (re_entity_type e, re_entity_id e) \<in> (\<lambda>x. (re_entity_type x, re_entity_id x)) ` set entries
      then entries else entries @ [e])"

definition derive_read_set :: "string \<Rightarrow> string \<Rightarrow> string list \<Rightarrow> read_entry list \<Rightarrow> string list
    \<Rightarrow> read_entry list" where
  "derive_read_set task capsule files declared concepts =
     (let of_type = (\<lambda>t i. \<lparr>re_entity_type = t, re_entity_id = i, re_version = capsule\<rparr>);
          entries = fold add_read
            (map (of_type ''file'') files @ declared
             @ map (of_type ''concept'') (filter (\<lambda>c. c \<noteq> []) concepts)) []
      in if entries = [] then [of_type ''task'' task] else entries)"

section \<open>What the log knows about the capsule\<close>

definition derive_capsule_compiled_event_id :: "event_record list \<Rightarrow> string option \<Rightarrow> string option" where
  "derive_capsule_compiled_event_id recs fork =
     (case fork of
        None \<Rightarrow> None
      | Some f \<Rightarrow>
          if f = [] then None
          else latest (\<lambda>r. if event_type r = ''CapsuleCompiled'' \<and> dget (payload r) ''target_fork_id'' = JStr f
                           then Some (event_id r) else None) recs)"

definition resolver_was_called :: "event_record \<Rightarrow> bool" where
  "resolver_was_called r =
     (case dget (after_state (payload r)) ''pipeline_stages'' of
        JObj stages \<Rightarrow>
          (case dget stages ''stage_4_semantic_judgment'' of
             JObj stage \<Rightarrow> dget stage ''resolver_called'' = JBool True
           | _ \<Rightarrow> False)
      | _ \<Rightarrow> False)"

text \<open>The first record of a capsule with this identifier.\<close>

definition capsule_record :: "event_record list \<Rightarrow> string option \<Rightarrow> event_record option" where
  "capsule_record recs capsule =
     (case capsule of
        None \<Rightarrow> None
      | Some c \<Rightarrow> if c = [] then None
                  else find (\<lambda>r. event_id r = c \<and> event_type r = ''CapsuleCompiled'') recs)"

definition derive_resolver_decision_event_id :: "event_record list \<Rightarrow> string option \<Rightarrow> string option" where
  "derive_resolver_decision_event_id recs capsule =
     (case Option.bind (capsule_record recs capsule) (correlation_id \<circ> provenance) of
        None \<Rightarrow> None
      | Some corr \<Rightarrow>
          if corr = [] then None
          else map_option event_id
            (find (\<lambda>r. event_type r = ''ResolverDecisionMade'' \<and> correlation_id (provenance r) = Some corr
                       \<and> resolver_was_called r) recs))"

text \<open>The value itself, as the payload has it.\<close>

definition derive_as_of_projection_seq :: "event_record list \<Rightarrow> string option \<Rightarrow> json option" where
  "derive_as_of_projection_seq recs capsule =
     (case capsule_record recs capsule of
        None \<Rightarrow> None
      | Some r \<Rightarrow>
          (let raw = dget (payload r) ''as_of_projection_seq'' in
           case as_int raw of None \<Rightarrow> None | Some n \<Rightarrow> if n > 0 then Some raw else None))"

definition derive_neighborhood_concept_ids :: "event_record list \<Rightarrow> string option \<Rightarrow> string list" where
  "derive_neighborhood_concept_ids recs capsule =
     (case capsule_record recs capsule of
        None \<Rightarrow> []
      | Some r \<Rightarrow>
          (case dget (payload r) ''neighborhood_concept_ids'' of
             JArr xs \<Rightarrow> filter (\<lambda>c. c \<noteq> []) (List.map_filter as_str xs)
           | _ \<Rightarrow> []))"

section \<open>Claims from planner events\<close>

definition claim_of_event :: "event_record \<Rightarrow> (string \<times> string) option" where
  "claim_of_event r =
     (if sublist ''ReadSetClaimed'' (event_type r) then Some (''read_claim'', ''read_set'')
      else if sublist ''WriteSetClaimed'' (event_type r) then Some (''write_claim'', ''write_set'')
      else None)"

definition claimed_items :: "event_record \<Rightarrow> string \<Rightarrow> json" where
  "claimed_items r key =
     (case as_list (dget (after_state (payload r)) key) of
        Some xs \<Rightarrow> JArr xs
      | None \<Rightarrow>
          (if truthy (dget (payload r) ''claimed_entities'') then dget (payload r) ''claimed_entities''
           else if truthy (dget (payload r) ''entities'') then dget (payload r) ''entities'' else JArr []))"

definition claim_item :: "string \<Rightarrow> dict \<Rightarrow> claim_entry option" where
  "claim_item kind d =
     (case entity_ref d of
        Some (t, i) \<Rightarrow>
          if i \<noteq> [] \<and> t \<in> set write_entity_types
          then Some \<lparr>ce_entity_type = t, ce_entity_id = i, ce_claim_type = kind\<rparr> else None
      | None \<Rightarrow> None)"

definition derive_claims :: "event_record list \<Rightarrow> claim_entry list" where
  "derive_claims events =
     first_of_each (concat (map (\<lambda>r. case claim_of_event r of
         None \<Rightarrow> []
       | Some (kind, key) \<Rightarrow> List.map_filter (claim_item kind) (obj_items (claimed_items r key))) events))"

section \<open>What a commit changed\<close>

text \<open>A line cut at its tabs.\<close>

fun split_tab :: "string \<Rightarrow> string list" where
  "split_tab [] = [[]]"
| "split_tab (c # cs) =
     (if c = CHR 0x09 then [] # split_tab cs
      else (case split_tab cs of [] \<Rightarrow> [[c]] | p # ps \<Rightarrow> (c # p) # ps))"

definition status_change :: "string \<Rightarrow> string" where
  "status_change code = (if code = ''A'' then ''created'' else if code = ''D'' then ''removed'' else ''modified'')"

text \<open>The changes one line of \<open>git show --name-status\<close> reports.\<close>

definition line_changes :: "string \<Rightarrow> (string \<times> string) list" where
  "line_changes line =
     (if py_strip line = [] then []
      else (let parts = split_tab line; code = take 1 (py_strip (hd parts)) in
            if code \<in> {''R'', ''C''} \<and> length parts \<ge> 3
            then (if code = ''R'' then [(parts ! 1, ''removed'')] else []) @ [(parts ! 2, ''created'')]
            else if length parts \<ge> 2 then [(parts ! 1, status_change code)]
            else []))"

text \<open>\<open>output\<close> has the lines that git printed, or nothing if it failed.\<close>

definition derive_actual_write_set_from_commit :: "(string \<Rightarrow> string list option) \<Rightarrow> string \<Rightarrow> write_entry list" where
  "derive_actual_write_set_from_commit output sha =
     (if py_strip sha = [] then []
      else (case output (py_strip sha) of
              None \<Rightarrow> []
            | Some lines \<Rightarrow>
                map (\<lambda>(p, c). \<lparr>we_entity_type = ''file'', we_entity_id = p, we_change_type = c\<rparr>)
                  (fold note_change
                    (filter (\<lambda>(p, c). p \<noteq> []) (map (\<lambda>(p, c). (py_strip p, c)) (concat (map line_changes lines)))) [])))"

section \<open>The canonical payload\<close>

text \<open>\<open>str(v or default)\<close>\<close>

definition str_or :: "json \<Rightarrow> string \<Rightarrow> string" where
  "str_or v dflt = (if truthy v then py_str v else dflt)"

text \<open>The first of the optional texts that is not empty.\<close>

definition text_or :: "string option \<Rightarrow> string \<Rightarrow> string" where
  "text_or x dflt = (case x of Some s \<Rightarrow> if s = [] then dflt else s | None \<Rightarrow> dflt)"

abbreviation validation_error :: "verr + 'a" where
  "validation_error \<equiv> Inl (ValueError ''ValidationError'')"

text \<open>\<open>for x in raw or []\<close>\<close>

definition iterate :: "json \<Rightarrow> verr + json list" where
  "iterate v =
     (if \<not> truthy v then Inr []
      else (case v of
              JArr xs \<Rightarrow> Inr xs
            | JStr s \<Rightarrow> Inr (map (\<lambda>c. JStr [c]) s)
            | JObj d \<Rightarrow> Inr (map (JStr \<circ> fst) d)
            | _ \<Rightarrow> Inl (TypeError ''object is not iterable'')))"

definition truthy_default :: "dict \<Rightarrow> string \<Rightarrow> bool" where
  "truthy_default d k = (case map_of d k of None \<Rightarrow> True | Some v \<Rightarrow> truthy v)"

fun coerce_runs :: "json list \<Rightarrow> verr + self_check_result list" where
  "coerce_runs [] = Inr []"
| "coerce_runs (v # vs) =
     rbind (case v of
              JStr c \<Rightarrow> Inr (if c = [] then [] else [\<lparr>sc_check_type = c, sc_passed = True, sc_detail = None\<rparr>])
            | JObj d \<Rightarrow>
                (case dget d ''check_type'' of
                   JStr c \<Rightarrow>
                     if c = [] then validation_error
                     else Inr [\<lparr>sc_check_type = c, sc_passed = truthy_default d ''passed'',
                                sc_detail = as_str (dget d ''detail'')\<rparr>]
                 | _ \<Rightarrow> Inr [])
            | _ \<Rightarrow> Inr [])
       (\<lambda>xs. rbind (coerce_runs vs) (\<lambda>ys. Inr (xs @ ys)))"

definition coerce_evidence :: "json \<Rightarrow> (string \<times> string) list" where
  "coerce_evidence v =
     (case v of
        JObj d \<Rightarrow> map (\<lambda>(k, x). (k, py_str x)) d
      | _ \<Rightarrow> if truthy v then [(''summary'', py_str v)] else [])"

definition coerce_blocking_one :: "dict \<Rightarrow> verr + blocking_check list" where
  "coerce_blocking_one d =
     (case dget d ''check_id'' of
        JStr cid \<Rightarrow>
          rbind (in_names (dget d ''status'') check_statuses) (\<lambda>legal.
            if \<not> legal then Inr []
            else (let status = py_str (dget d ''status'');
                      evidence = coerce_evidence (dget d ''evidence'')
                  in if cid = [] then validation_error
                     else Inr [\<lparr>bc_check_id = cid, bc_status = status,
                                bc_evidence = (if status = ''passed'' \<and> evidence = [] then [(''check_id'', cid)]
                                               else evidence),
                                bc_detail = as_str (dget d ''detail'')\<rparr>]))
      | _ \<Rightarrow> Inr [])"

fun coerce_blocking :: "json list \<Rightarrow> verr + blocking_check list" where
  "coerce_blocking [] = Inr []"
| "coerce_blocking (v # vs) =
     rbind (case as_obj v of None \<Rightarrow> Inr [] | Some d \<Rightarrow> coerce_blocking_one d)
       (\<lambda>xs. rbind (coerce_blocking vs) (\<lambda>ys. Inr (xs @ ys)))"

definition coerce_self_check :: "json \<Rightarrow> verr + self_check" where
  "coerce_self_check raw =
     (case as_obj raw of
        None \<Rightarrow> Inr \<lparr>sc_all_passed = True, sc_checks_run = [], sc_blocking = []\<rparr>
      | Some d \<Rightarrow>
          rbind (rbind (iterate (dget d ''checks_run'')) coerce_runs) (\<lambda>runs.
          rbind (rbind (iterate (dget d ''blocking_checks'')) coerce_blocking) (\<lambda>blocking.
            Inr \<lparr>sc_all_passed = truthy_default d ''passed'', sc_checks_run = runs, sc_blocking = blocking\<rparr>)))"

text \<open>Items that do not validate are dropped.\<close>

definition coerce_model_list :: "(dict \<Rightarrow> 'a option) \<Rightarrow> json \<Rightarrow> 'a list" where
  "coerce_model_list f raw = List.map_filter f (obj_items raw)"

text \<open>The strict integer of the schema rejects a bool.\<close>

definition strict_as_of :: "json \<Rightarrow> verr + int" where
  "strict_as_of v = (case v of JInt i \<Rightarrow> Inr (if i \<ge> 0 then i else 0) | JBool b \<Rightarrow> validation_error | _ \<Rightarrow> Inr 0)"

definition build_envelope :: "envelope \<Rightarrow> verr + envelope" where
  "build_envelope e = (if envelope_ok e then Inr e else validation_error)"

text \<open>The parts that come from the payload, the caller's provenance, and the events known so far.\<close>

definition envelope_fork :: "dict \<Rightarrow> string \<Rightarrow> string option \<Rightarrow> string" where
  "envelope_fork raw session prov_fork = str_or (dget raw ''fork_id'') (text_or prov_fork (''session:'' @ session))"

definition known_capsule :: "event_record list option \<Rightarrow> string \<Rightarrow> string option" where
  "known_capsule known fork = Option.bind known (\<lambda>recs. derive_capsule_compiled_event_id recs (Some fork))"

definition envelope_as_of :: "dict \<Rightarrow> event_record list option \<Rightarrow> string option \<Rightarrow> json" where
  "envelope_as_of raw known capsule =
     (case Option.bind known (\<lambda>recs. derive_as_of_projection_seq recs capsule) of
        Some v \<Rightarrow> v | None \<Rightarrow> dget raw ''as_of_projection_seq'')"

definition envelope_writes :: "dict \<Rightarrow> event_intent list \<Rightarrow> string \<Rightarrow> write_entry list" where
  "envelope_writes raw intents task =
     (let declared = coerce_model_list write_entry_of (dget raw ''write_set'');
          ws = (if declared = [] then derive_write_set intents else declared)
      in if ws = [] then [\<lparr>we_entity_type = ''task'', we_entity_id = task, we_change_type = ''modified''\<rparr>] else ws)"

definition envelope_claims :: "dict \<Rightarrow> event_record list \<Rightarrow> claim_entry list" where
  "envelope_claims raw claim_events =
     (let claims = coerce_model_list claim_entry_of (dget raw ''claims'')
      in if claims = [] then derive_claims claim_events else claims)"

definition derived_envelope :: "lax \<Rightarrow> string \<Rightarrow> dict \<Rightarrow> event_intent list \<Rightarrow> string \<Rightarrow> string option
    \<Rightarrow> string option \<Rightarrow> string option \<Rightarrow> event_record list \<Rightarrow> event_record list option \<Rightarrow> self_check \<Rightarrow> int
    \<Rightarrow> envelope" where
  "derived_envelope lx now raw intents session prov_task prov_run prov_fork claim_events known check n =
     (let given = str_or (dget raw ''envelope_id'') [];
          task = str_or (dget raw ''task_id'') (text_or prov_task (''session:'' @ session));
          fork = envelope_fork raw session prov_fork;
          capsule = known_capsule known fork;
          capsule_id = text_or capsule (str_or (dget raw ''capsule_compiled_event_id'') ''evt-no-capsule'');
          concepts = (case known of None \<Rightarrow> [] | Some recs \<Rightarrow> derive_neighborhood_concept_ids recs capsule)
      in \<lparr>en_envelope_id = (if prefix ''env-'' given then given else ''env-'' @ (if given = [] then session else given)),
          en_task_id = task,
          en_run_id = str_or (dget raw ''run_id'') (text_or prov_run (''session:'' @ session)), en_fork_id = fork,
          en_read_set = derive_read_set task capsule_id []
            (coerce_model_list read_entry_of (dget raw ''read_set'')) concepts,
          en_write_set = envelope_writes raw intents task,
          en_declared_write_set = coerce_model_list write_entry_of (dget raw ''declared_write_set''),
          en_claims = envelope_claims raw claim_events,
          en_obligations = coerce_model_list declared_obligation_of (dget raw ''active_obligations_declared''),
          en_patches = coerce_model_list (patch_entry_of lx) (dget raw ''patches''),
          en_uncertainties = coerce_model_list uncertainty_of (dget raw ''uncertainties''),
          en_self_check = check,
          en_completion_claims = (case dget raw ''completion_claims'' of
             JArr xs \<Rightarrow> List.map_filter as_str xs | _ \<Rightarrow> []),
          en_capsule = capsule_id,
          en_resolver = (case Option.bind known (\<lambda>recs. derive_resolver_decision_event_id recs capsule) of
                           Some s \<Rightarrow> Some s | None \<Rightarrow> as_str (dget raw ''resolver_decision_event_id'')),
          en_as_of = n, en_schema_version = ''1.0.0'', en_submitted_at = now\<rparr>)"

definition canonical_envelope :: "lax \<Rightarrow> string \<Rightarrow> dict \<Rightarrow> event_intent list \<Rightarrow> string \<Rightarrow> string option
    \<Rightarrow> string option \<Rightarrow> string option \<Rightarrow> event_record list \<Rightarrow> event_record list option \<Rightarrow> verr + envelope" where
  "canonical_envelope lx now raw intents session prov_task prov_run prov_fork claim_events known =
     rbind (coerce_self_check (dget raw ''self_check'')) (\<lambda>check.
     rbind (strict_as_of (envelope_as_of raw known (known_capsule known (envelope_fork raw session prov_fork)))) (\<lambda>n.
       build_envelope
         (derived_envelope lx now raw intents session prov_task prov_run prov_fork claim_events known check n)))"

definition canonicalize_envelope_payload :: "lax \<Rightarrow> string \<Rightarrow> dict \<Rightarrow> event_intent list \<Rightarrow> string \<Rightarrow> string option
    \<Rightarrow> string option \<Rightarrow> string option \<Rightarrow> event_record list \<Rightarrow> event_record list option \<Rightarrow> verr + dict" where
  "canonicalize_envelope_payload lx now raw intents session prov_task prov_run prov_fork claim_events known =
     rbind (canonical_envelope lx now raw intents session prov_task prov_run prov_fork claim_events known)
       (Inr \<circ> envelope_dump)"

section \<open>References to events of the same batch\<close>

definition resolve_token :: "(string \<times> string) list \<Rightarrow> string \<Rightarrow> string" where
  "resolve_token ids token =
     (let body = (if prefix ''evt:'' token then drop 4 token else token) in
      if prefix ''local:'' body
      then (case map_of ids (drop 6 body) of Some real \<Rightarrow> ''evt:'' @ real | None \<Rightarrow> token)
      else token)"

definition resolve_detail_ref :: "(string \<times> string) list \<Rightarrow> string \<Rightarrow> string" where
  "resolve_detail_ref ids ref = join '','' (map (resolve_token ids) (comma_parts ref))"

definition backfill_patch :: "(string \<times> string) list \<Rightarrow> json \<Rightarrow> json" where
  "backfill_patch ids p =
     (case p of
        JObj d \<Rightarrow>
          (case dget d ''detail_ref'' of
             JStr ref \<Rightarrow> if sublist ''local:'' ref then JObj (dset ''detail_ref'' (JStr (resolve_detail_ref ids ref)) d)
                         else p
           | _ \<Rightarrow> p)
      | _ \<Rightarrow> p)"

definition backfill_patch_detail_refs :: "(string \<times> string) list \<Rightarrow> dict \<Rightarrow> dict" where
  "backfill_patch_detail_refs ids raw =
     (case dget raw ''patches'' of
        JArr ps \<Rightarrow> dset ''patches'' (JArr (map (backfill_patch ids) ps)) raw
      | _ \<Rightarrow> raw)"

text \<open>Replaces the placeholder for the envelope under one key of \<open>after_state\<close>.\<close>

definition backfill_after :: "string \<Rightarrow> string \<Rightarrow> event_record \<Rightarrow> event_record" where
  "backfill_after key eid r =
     (case dget (payload r) ''after_state'' of
        JObj after \<Rightarrow>
          if dget after key = JStr ''local:envelope''
          then r\<lparr>payload := dset ''after_state'' (JObj (dset key (JStr eid) after)) (payload r)\<rparr> else r
      | _ \<Rightarrow> r)"

definition backfill_semantic_sibling_refs :: "string \<Rightarrow> event_record list \<Rightarrow> event_record list" where
  "backfill_semantic_sibling_refs eid rs =
     map (\<lambda>r. if event_type r = ''SemanticUpgradeDeclaration'' then backfill_after ''sibling_event_id'' eid r else r) rs"

definition backfill_envelope_event_id_refs :: "string \<Rightarrow> event_record list \<Rightarrow> event_record list" where
  "backfill_envelope_event_id_refs eid rs = map (backfill_after ''envelope_event_id'' eid) rs"

section \<open>Reading envelopes\<close>

datatype read_err = No_Event | Not_Envelope string | Not_Canonical

definition reconstruct :: "lax \<Rightarrow> event_record \<Rightarrow> read_err + envelope" where
  "reconstruct lx r = (case envelope_of lx (payload r) of None \<Rightarrow> Inl Not_Canonical | Some e \<Rightarrow> Inr e)"

definition read_envelope_from_event :: "lax \<Rightarrow> event_record \<Rightarrow> read_err + envelope" where
  "read_envelope_from_event lx r =
     (if event_type r \<noteq> ''TransactionEnvelopeSubmitted'' then Inl (Not_Envelope (event_type r)) else reconstruct lx r)"

definition read_envelope :: "lax \<Rightarrow> (string \<Rightarrow> event_record option) \<Rightarrow> string \<Rightarrow> read_err + envelope" where
  "read_envelope lx get eid =
     (case get eid of
        None \<Rightarrow> Inl No_Event
      | Some r \<Rightarrow>
          if event_type r \<noteq> ''TransactionEnvelopeSubmitted'' then Inl (Not_Envelope (event_type r))
          else reconstruct lx r)"

definition list_envelopes :: "lax \<Rightarrow> index_api \<Rightarrow> (string \<times> envelope) list" where
  "list_envelopes lx api =
     List.map_filter (\<lambda>r. case reconstruct lx r of Inr e \<Rightarrow> Some (event_id r, e) | Inl _ \<Rightarrow> None)
       (get_events_by_type api ''TransactionEnvelopeSubmitted'' None None)"

section \<open>The canonical payload reads back\<close>

lemma valid_coerced: "x \<in> set (coerce_model_list f raw) \<Longrightarrow> valid_part f x"
  by (auto simp: coerce_model_list_def set_map_filter valid_part_def)

lemma set_update_subset: "set (AList.update k v al) \<subseteq> insert (k, v) (set al)"
  by (induction al) auto

lemma fold_note_change:
  "\<forall>(k, c) \<in> set kcs \<union> set best. P k \<and> Q c \<Longrightarrow> \<forall>(k, c) \<in> set (fold note_change kcs best). P k \<and> Q c"
proof (induction kcs arbitrary: best)
  case (Cons kc kcs)
  have "set (note_change kc best) \<subseteq> insert kc (set best)"
    using set_update_subset [of "fst kc" "snd kc" best]
    by (simp add: note_change_def case_prod_beta Let_def subset_insertI split: option.split)
  with Cons.prems have "\<forall>(k, c) \<in> set kcs \<union> set (note_change kc best). P k \<and> Q c" by auto
  from Cons.IH [OF this] show ?case by simp
qed simp

lemma derived_writes_valid:
  assumes "\<forall>i \<in> set intents. list_all subject_ok (i_subjects i)" and "e \<in> set (derive_write_set intents)"
  shows "valid_part write_entry_of e"
proof -
  let ?best = "fold note_change (concat (map writes_of intents)) []"
  have "\<forall>(k, c) \<in> set (concat (map writes_of intents)) \<union> set [].
      (fst k \<in> set write_entity_types \<and> snd k \<noteq> []) \<and> c \<in> set change_types"
    using assms(1) by (auto simp: writes_of_def infer_change_type_def change_types_def list_all_iff subject_ok_def)
  from fold_note_change [OF this] obtain t i c where
    "e = \<lparr>we_entity_type = t, we_entity_id = i, we_change_type = c\<rparr>"
    "t \<in> set write_entity_types" "i \<noteq> []" "c \<in> set change_types"
    using assms(2) by (fastforce simp: derive_write_set_def)
  then have "write_entry_of (write_entry_dump e) = Some e"
    by (simp add: write_entry_of_def write_entry_dump_def only_keys_def enum_field_def nonempty_field_def str_field_def)
  then show ?thesis by (auto simp: valid_part_def)
qed

lemma set_add_read: "set (fold add_read es acc) \<subseteq> set es \<union> set acc"
proof (induction es arbitrary: acc)
  case (Cons e es)
  from Cons.IH [of "add_read e acc"] show ?case by (auto simp: add_read_def split: if_splits)
qed simp

lemma valid_read_entry:
  assumes "t \<in> set read_entity_types" and "i \<noteq> []" and "v \<noteq> []"
  shows "valid_part read_entry_of \<lparr>re_entity_type = t, re_entity_id = i, re_version = v\<rparr>"
  unfolding valid_part_def
  by (rule exI [of _ "read_entry_dump \<lparr>re_entity_type = t, re_entity_id = i, re_version = v\<rparr>"])
     (simp add: read_entry_of_def read_entry_dump_def only_keys_def enum_field_def nonempty_field_def str_field_def assms)

lemma derived_reads_valid:
  assumes "task \<noteq> []" and "capsule \<noteq> []" and "\<forall>e \<in> set declared. valid_part read_entry_of e"
    and "e \<in> set (derive_read_set task capsule [] declared concepts)"
  shows "valid_part read_entry_of e"
proof -
  let ?c = "\<lambda>t i. \<lparr>re_entity_type = t, re_entity_id = i, re_version = capsule\<rparr>"
  have v: "valid_part read_entry_of (?c t i)" if "t \<in> {''task'', ''concept''}" "i \<noteq> []" for t i
    using that assms(2) by (intro valid_read_entry) (auto simp: read_entity_types_def)
  have "e = ?c ''task'' task \<or> e \<in> set declared \<or> (\<exists>c. c \<noteq> [] \<and> e = ?c ''concept'' c)"
    using assms(4) set_add_read [of "declared @ map (?c ''concept'') (filter (\<lambda>c. c \<noteq> []) concepts)" "[]"]
    by (auto simp: derive_read_set_def Let_def split: if_splits)
  with v assms(1,3) show ?thesis by auto
qed

lemma derived_reads_nonempty: "derive_read_set task capsule files declared concepts \<noteq> []"
  by (simp add: derive_read_set_def Let_def)

lemma coerce_runs_valid:
  "coerce_runs vs = Inr xs \<Longrightarrow> lax_ok lx \<Longrightarrow> x \<in> set xs \<Longrightarrow> valid_part (self_check_result_of lx) x"
proof (induction vs arbitrary: xs)
  case (Cons v vs)
  have valid: "valid_part (self_check_result_of lx) r" if "sc_check_type r \<noteq> []" for r
    unfolding valid_part_def
    by (rule exI [of _ "self_check_result_dump r"])
       (use that Cons.prems(2) in \<open>simp add: self_check_result_of_def self_check_result_dump_def only_keys_def
          nonempty_field_def str_field_def bool_field_def lax_ok_def opt_str_field_back\<close>)
  obtain as bs where "coerce_runs vs = Inr bs" "xs = as @ bs" "\<forall>r \<in> set as. sc_check_type r \<noteq> []"
    using Cons.prems(1) by (auto simp: py_simps split: json.splits if_splits)
  with Cons.IH [of bs] Cons.prems(2,3) valid show ?case by auto
qed simp

lemma coerce_blocking_valid:
  "coerce_blocking vs = Inr xs \<Longrightarrow> x \<in> set xs \<Longrightarrow> valid_part blocking_check_of x"
proof (induction vs arbitrary: xs)
  case (Cons v vs)
  have valid: "valid_part blocking_check_of b" if "bc_check_id b \<noteq> []" "bc_status b \<in> set check_statuses" "evidenced b" for b
    unfolding valid_part_def
    by (rule exI [of _ "blocking_check_dump b"])
       (use that in \<open>simp add: blocking_check_of_def blocking_check_dump_def only_keys_def enum_field_def
          nonempty_field_def str_field_def opt_str_field_back texts_field_back Let_def evidenced_def\<close>)
  have one: "valid_part blocking_check_of b" if "coerce_blocking_one d = Inr bs" "b \<in> set bs" for d b bs
    using that
    by (auto simp: coerce_blocking_one_def py_simps in_names_def Let_def evidenced_def
        split: json.splits if_splits intro!: valid)
  from Cons one show ?case by (auto simp: py_simps split: option.splits)
qed simp

lemma derive_claims_valid:
  assumes "e \<in> set (derive_claims events)"
  shows "valid_part claim_entry_of e"
proof -
  have item: "ce_entity_type c \<in> set write_entity_types \<and> ce_entity_id c \<noteq> [] \<and> ce_claim_type c = k"
    if "claim_item k d = Some c" for k d c
    using that by (auto simp: claim_item_def split: option.splits if_splits)
  obtain r k key d where "claim_of_event r = Some (k, key)" "claim_item k d = Some e"
  proof -
    obtain x where "e \<in> set (case claim_of_event x of None \<Rightarrow> []
        | Some (kind, key) \<Rightarrow> List.map_filter (claim_item kind) (obj_items (claimed_items x key)))"
      using assms by (auto simp: derive_claims_def)
    then show ?thesis
      by (cases "claim_of_event x") (auto simp: set_map_filter intro: that)
  qed
  then have "k \<in> set claim_types" and e: "ce_entity_type e \<in> set write_entity_types" "ce_entity_id e \<noteq> []"
    "ce_claim_type e = k"
    using item by (auto simp: claim_of_event_def claim_types_def split: if_splits)
  then have "claim_entry_of (claim_entry_dump e) = Some e"
    by (simp add: claim_entry_of_def claim_entry_dump_def only_keys_def enum_field_def nonempty_field_def str_field_def)
  then show ?thesis by (auto simp: valid_part_def)
qed

end
