(* ===== verification/Envelope_Properties.thy ===== *)
theory Envelope_Properties
  imports Envelope_Builder Sample_Codec
begin

text \<open>
  Every envelope the gate stores can be read back: the canonical payload is the JSON of an
  envelope, whatever the caller's payload was.
\<close>

text \<open>The parts of a canonical envelope that come from the payload and the intents.\<close>

lemma canonical_envelope_parts:
  assumes e: "canonical_envelope lx now raw intents session pt pr pf claim_events known = Inr e"
  shows "envelope_ok e" "coerce_self_check (dget raw ''self_check'') = Inr (en_self_check e)"
    "\<exists>concepts. en_read_set e = derive_read_set (en_task_id e) (en_capsule e) []
       (coerce_model_list read_entry_of (dget raw ''read_set'')) concepts"
    "en_write_set e = envelope_writes raw intents (en_task_id e)"
    "en_declared_write_set e = coerce_model_list write_entry_of (dget raw ''declared_write_set'')"
    "en_claims e = envelope_claims raw claim_events"
    "en_obligations e = coerce_model_list declared_obligation_of (dget raw ''active_obligations_declared'')"
    "en_patches e = coerce_model_list (patch_entry_of lx) (dget raw ''patches'')"
    "en_uncertainties e = coerce_model_list uncertainty_of (dget raw ''uncertainties'')" "en_submitted_at e = now"
proof -
  obtain check n where c: "coerce_self_check (dget raw ''self_check'') = Inr check"
    and b: "build_envelope (derived_envelope lx now raw intents session pt pr pf claim_events known check n) = Inr e"
    using e unfolding canonical_envelope_def rbind_eq_Inr by blast
  then have eq: "e = derived_envelope lx now raw intents session pt pr pf claim_events known check n"
    and ok: "envelope_ok e" by (auto simp only: build_envelope_def sum.inject sum.simps split: if_splits)
  show "envelope_ok e" by (rule ok)
  show "coerce_self_check (dget raw ''self_check'') = Inr (en_self_check e)"
    unfolding c eq derived_envelope_def Let_def envelope.select_convs by (rule refl)
  show "\<exists>concepts. en_read_set e = derive_read_set (en_task_id e) (en_capsule e) []
       (coerce_model_list read_entry_of (dget raw ''read_set'')) concepts"
    unfolding eq derived_envelope_def Let_def envelope.select_convs by (rule exI, rule refl)
  show "en_write_set e = envelope_writes raw intents (en_task_id e)"
    "en_declared_write_set e = coerce_model_list write_entry_of (dget raw ''declared_write_set'')"
    "en_claims e = envelope_claims raw claim_events"
    "en_obligations e = coerce_model_list declared_obligation_of (dget raw ''active_obligations_declared'')"
    "en_patches e = coerce_model_list (patch_entry_of lx) (dget raw ''patches'')"
    "en_uncertainties e = coerce_model_list uncertainty_of (dget raw ''uncertainties'')" "en_submitted_at e = now"
    unfolding eq derived_envelope_def Let_def envelope.select_convs by (rule refl)+
qed

lemma canonical_envelope_wf:
  assumes "lax_ok lx" and "\<forall>i \<in> set intents. list_all subject_ok (i_subjects i)"
    and "lax_time lx (JStr now) = Some now"
    and e: "canonical_envelope lx now raw intents session pt pr pf claim_events known = Inr e"
  shows "envelope_wf lx e"
proof -
  note parts = canonical_envelope_parts [OF e]
  obtain sc where sc: "coerce_self_check (dget raw ''self_check'') = Inr sc" "en_self_check e = sc"
    using parts(2) by blast
  have runs: "valid_part (self_check_result_of lx) r" if "r \<in> set (sc_checks_run sc)" for r
    using that sc(1) by (auto simp: coerce_self_check_def py_simps split: option.splits intro: coerce_runs_valid [OF _ assms(1)])
  have blocking: "valid_part blocking_check_of b" if "b \<in> set (sc_blocking sc)" for b
    using that sc(1) by (auto simp: coerce_self_check_def py_simps split: option.splits intro: coerce_blocking_valid)
  have "self_check_of lx (self_check_dump sc) = Some sc"
    using runs blocking assms(1)
    by (simp add: self_check_of_def self_check_dump_def only_keys_def lax_ok_def bool_field_def
        list_field_back [where g = self_check_result_dump] list_field_back [where g = blocking_check_dump]
        self_check_result_back [OF assms(1)] blocking_check_back)
  then have self: "valid_part (self_check_of lx) (en_self_check e)" by (auto simp: valid_part_def sc(2))
  have ids: "en_task_id e \<noteq> []" "en_capsule e \<noteq> []" using parts(1) by (simp_all add: envelope_ok_def)
  have task: "valid_part write_entry_of \<lparr>we_entity_type = ''task'', we_entity_id = en_task_id e, we_change_type = ''modified''\<rparr>"
    unfolding valid_part_def
    by (rule exI [of _ "write_entry_dump \<lparr>we_entity_type = ''task'', we_entity_id = en_task_id e, we_change_type = ''modified''\<rparr>"])
       (simp add: write_entry_of_def write_entry_dump_def only_keys_def enum_field_def nonempty_field_def
          str_field_def ids write_entity_types_def read_entity_types_def change_types_def)
  obtain concepts where reads: "en_read_set e = derive_read_set (en_task_id e) (en_capsule e) []
      (coerce_model_list read_entry_of (dget raw ''read_set'')) concepts" using parts(3) by blast
  have "\<forall>x \<in> set (en_write_set e). valid_part write_entry_of x"
    using derived_writes_valid [OF assms(2)] task by (auto simp: parts(4) envelope_writes_def Let_def valid_coerced)
  moreover have "\<forall>x \<in> set (en_read_set e). valid_part read_entry_of x"
    unfolding reads
  proof
    fix x
    assume "x \<in> set (derive_read_set (en_task_id e) (en_capsule e) []
      (coerce_model_list read_entry_of (dget raw ''read_set'')) concepts)"
    then show "valid_part read_entry_of x"
      by (rule derived_reads_valid [OF ids, rotated]) (simp add: valid_coerced)
  qed
  moreover have "\<forall>x \<in> set (en_claims e). valid_part claim_entry_of x"
    using derive_claims_valid by (auto simp: parts(6) envelope_claims_def Let_def valid_coerced)
  ultimately show ?thesis
    using parts(1,5,7-10) self assms(3) by (auto simp: envelope_wf_def valid_coerced)
qed

text \<open>C28: Whatever payload a caller hands in, the canonical payload the gate stores for an
  envelope is the JSON of a valid envelope: reading the record back succeeds and writing the
  result again gives the same payload.  Every malformed part of the caller's payload was
  dropped, replaced by a default, or made the whole call fail.\<close>
theorem envelope_reads_back:
  assumes "lax_ok lx" and "\<forall>i \<in> set intents. list_all subject_ok (i_subjects i)"
    and "lax_time lx (JStr now) = Some now"
    and "canonicalize_envelope_payload lx now raw intents session pt pr pf claim_events known = Inr pl"
    and "event_type r = ''TransactionEnvelopeSubmitted''" and "payload r = pl"
  shows "\<exists>e. read_envelope_from_event lx r = Inr e \<and> envelope_dump e = pl \<and> envelope_ok e"
proof -
  obtain e where e: "canonical_envelope lx now raw intents session pt pr pf claim_events known = Inr e"
    "pl = envelope_dump e"
    using assms(4) by (auto simp: canonicalize_envelope_payload_def py_simps)
  note wf = canonical_envelope_wf [OF assms(1-3) e(1)]
  have "read_envelope_from_event lx r = Inr e"
    using envelope_back [OF assms(1) wf] assms(5,6) e(2)
    by (simp add: read_envelope_from_event_def reconstruct_def)
  with e(2) wf show ?thesis by (auto simp: envelope_wf_def)
qed

definition strict_lax :: lax where
  "strict_lax = \<lparr>lax_bool = (\<lambda>v. case v of JBool b \<Rightarrow> Some b | _ \<Rightarrow> None),
     lax_int = (\<lambda>v. case v of JInt i \<Rightarrow> Some i | _ \<Rightarrow> None), lax_time = as_str\<rparr>"

lemma strict_lax_ok: "lax_ok strict_lax"
  by (simp add: lax_ok_def strict_lax_def as_str_eq_Some)

text \<open>A payload with a malformed patch and a claim of the wrong kind.\<close>

definition messy_payload :: dict where
  "messy_payload =
     [(''patches'', JArr [JStr ''x'', JObj [(''patch_id'', JStr ''p'')]]), (''task_id'', JStr ''T1''),
      (''self_check'', JObj [(''checks_run'', JStr ''ab'')])]"

definition messy_record :: "event_record" where
  "messy_record =
     (case canonicalize_envelope_payload strict_lax ''t'' messy_payload [] ''s'' None None None [] None of
        Inr pl \<Rightarrow> (sample_record ''a'' 0 ''TransactionEnvelopeSubmitted'' None)\<lparr>payload := pl\<rparr>
      | Inl _ \<Rightarrow> sample_record ''a'' 0 ''RunFailed'' None)"

theorem envelope_reads_back_witness:
  "\<exists>e. read_envelope_from_event strict_lax messy_record = Inr e \<and> envelope_dump e = payload messy_record
    \<and> envelope_ok e"
proof -
  have c: "canonicalize_envelope_payload strict_lax ''t'' messy_payload [] ''s'' None None None [] None
      = Inr (payload messy_record)"
    and t: "event_type messy_record = ''TransactionEnvelopeSubmitted''" by code_simp+
  show ?thesis
    by (rule envelope_reads_back [OF strict_lax_ok _ _ c t refl]) (simp_all add: strict_lax_def)
qed

end
