(* ===== verification/Gate_Log.thy ===== *)
theory Gate_Log
  imports Event_Log_Reads Event_Log_Writes
begin

text \<open>
  The event log as the commit gate uses it: the operations it calls, over any state, and the laws
  it relies on as a locale.  The instance is the modelled event log of one process on a disk that
  other processes write to before each of its operations.
\<close>

section \<open>The operations\<close>

text \<open>
  \<open>lo_lines\<close> are the JSON objects on the raw lines, \<open>lo_ownership\<close> the ownership projection after it
  has caught up, \<open>lo_draw\<close> is \<open>uuid4().hex\<close>, \<open>lo_name\<close> the same drawn for the
  name of a batch; stamping takes the transaction, the batch and the position.
\<close>

record 's log_ops =
  lo_index :: "'s \<Rightarrow> (verr + index_api) \<times> 's"
  lo_lines :: "'s \<Rightarrow> dict list \<times> 's"
  lo_ownership :: "'s \<Rightarrow> dict option \<times> 's"
  lo_max_seq :: "'s \<Rightarrow> int \<times> 's"
  lo_draw :: "'s \<Rightarrow> string \<times> 's"
  lo_name :: "'s \<Rightarrow> string \<times> 's"
  lo_direct :: "event_intent \<Rightarrow> 's \<Rightarrow> (verr + event_record) \<times> 's"
  lo_audit :: "event_intent \<Rightarrow> 's \<Rightarrow> (verr + event_record) \<times> 's"
  lo_stamp :: "event_intent \<Rightarrow> string \<Rightarrow> string \<Rightarrow> int \<Rightarrow> 's \<Rightarrow> (verr + event_record) \<times> 's"
  lo_normalize :: "event_record list \<Rightarrow> 's \<Rightarrow> event_record list \<times> 's"
  lo_append :: "batch \<Rightarrow> 's \<Rightarrow> (verr + event_record list) \<times> 's"

text \<open>What renumbering keeps of a record.\<close>

definition content :: "event_record \<Rightarrow> string \<times> string \<times> dict" where
  "content r = (event_id r, event_type r, payload r)"

definition batch_names :: "string \<Rightarrow> string set" where
  "batch_names x = {''b-'' @ take 12 x, ''b-recover-'' @ take 12 x, ''b-bootstrap-'' @ take 12 x}"

text \<open>
  \<open>woven old chunks new\<close>: the new stream is the old one followed by the chunks in their order, each
  in one piece, with records of others before, between and after them.
\<close>

fun woven :: "'a list \<Rightarrow> 'a list list \<Rightarrow> 'a list \<Rightarrow> bool" where
  "woven old [] new \<longleftrightarrow> prefix old new"
| "woven old (c # cs) new \<longleftrightarrow> (\<exists>ext. woven (old @ ext @ c) cs new)"

lemma woven_prefix: "woven old cs new \<Longrightarrow> prefix old new"
proof (induction cs arbitrary: old)
  case (Cons c cs)
  then obtain ext where "prefix (old @ ext @ c) new" by auto
  then show ?case by (auto simp: prefix_def)
qed simp

lemma woven_start: "prefix older old \<Longrightarrow> woven old cs new \<Longrightarrow> woven older cs new"
  by (cases cs) (auto simp: prefix_def, metis append.assoc)

lemma woven_append: "woven old cs mid \<Longrightarrow> woven mid cs' new \<Longrightarrow> woven old (cs @ cs') new"
  by (induction cs arbitrary: old) (auto intro: woven_start)

text \<open>An intent whose records every reader can read.\<close>

definition known_intent :: "event_intent \<Rightarrow> bool" where
  "known_intent i \<longleftrightarrow> is_known_schema_version (i_schema_version i)"

definition known_record :: "event_record \<Rightarrow> bool" where
  "known_record r \<longleftrightarrow> record_ok r \<and> is_known_schema_version (schema_version r)"

section \<open>The laws\<close>

text \<open>
  \<open>ready k s\<close>: the log is in order for \<open>k\<close> more operations that touch the disk; \<open>fresh s x\<close>: no
  record on disk belongs to a batch named after the drawn \<open>x\<close>.
\<close>

locale gate_log =
  fixes ops :: "'s log_ops" and ready :: "nat \<Rightarrow> 's \<Rightarrow> bool" and visible :: "'s \<Rightarrow> event_record list"
    and fresh :: "'s \<Rightarrow> string \<Rightarrow> bool"
  assumes ready_less: "ready (Suc k) s \<Longrightarrow> ready k s"
    and index: "ready (Suc k) s \<Longrightarrow> lo_index ops s = (res_i, s') \<Longrightarrow>
      ready k s' \<and> prefix (visible s) (visible s') \<and> (\<forall>x. fresh s x \<longrightarrow> fresh s' x)"
    and raw_lines: "ready (Suc k) s \<Longrightarrow> lo_lines ops s = (ls, s') \<Longrightarrow>
      ready k s' \<and> prefix (visible s) (visible s') \<and> (\<forall>x. fresh s x \<longrightarrow> fresh s' x)"
    and ownership: "ready (Suc k) s \<Longrightarrow> lo_ownership ops s = (own, s') \<Longrightarrow>
      ready k s' \<and> prefix (visible s) (visible s') \<and> (\<forall>x. fresh s x \<longrightarrow> fresh s' x)"
    and max_seq: "ready (Suc k) s \<Longrightarrow> lo_max_seq ops s = (n, s') \<Longrightarrow>
      ready k s' \<and> prefix (visible s) (visible s') \<and> (\<forall>x. fresh s x \<longrightarrow> fresh s' x)"
    and draw: "ready k s \<Longrightarrow> lo_draw ops s = (y, s') \<Longrightarrow>
      ready k s' \<and> visible s' = visible s \<and> (\<forall>x. fresh s x \<longrightarrow> fresh s' x)"
    and name: "ready (Suc k) s \<Longrightarrow> lo_name ops s = (y, s') \<Longrightarrow>
      ready k s' \<and> visible s' = visible s \<and> fresh s' y \<and> (\<forall>x. fresh s x \<longrightarrow> fresh s' x)"
    and stamp: "ready k s \<Longrightarrow> lo_stamp ops i tid bid pos s = (res_r, s') \<Longrightarrow>
      ready k s' \<and> visible s' = visible s \<and> (\<forall>x. fresh s x \<longrightarrow> fresh s' x)
      \<and> (\<forall>r. res_r = Inr r \<longrightarrow> record_ok r \<and> event_type r = i_event_type i \<and> payload r = i_payload i
            \<and> schema_version r = i_schema_version i \<and> transaction_id r = Some tid \<and> batch_id r = Some bid
            \<and> local_intent_id r = i_local_intent_id i)"
    and normalize: "ready k s \<Longrightarrow> lo_normalize ops rs s = (out, s') \<Longrightarrow>
      ready k s' \<and> visible s' = visible s \<and> (\<forall>x. fresh s x \<longrightarrow> fresh s' x)
      \<and> map content out = map content rs \<and> ((\<forall>r \<in> set rs. known_record r) \<longrightarrow> (\<forall>r \<in> set out. known_record r))"
    and direct: "ready (Suc k) s \<Longrightarrow> known_intent i \<Longrightarrow> lo_direct ops i s = (res_r, s') \<Longrightarrow>
      ready k s' \<and> (\<forall>x. fresh s x \<longrightarrow> fresh s' x)
      \<and> (case res_r of
           Inl e \<Rightarrow> prefix (visible s) (visible s')
         | Inr r \<Rightarrow> (\<exists>ext. visible s' = visible s @ ext @ [r]) \<and> event_type r = i_event_type i \<and> payload r = i_payload i)"
    and audit: "ready (Suc k) s \<Longrightarrow> known_intent i \<Longrightarrow> lo_audit ops i s = (res_r, s') \<Longrightarrow>
      ready k s' \<and> (\<forall>x. fresh s x \<longrightarrow> fresh s' x)
      \<and> (case res_r of
           Inl e \<Rightarrow> prefix (visible s) (visible s')
         | Inr r \<Rightarrow> (\<exists>ext. visible s' = visible s @ ext @ [r]) \<and> event_type r = i_event_type i \<and> payload r = i_payload i)"
    and append_batch: "ready (Suc k) s \<Longrightarrow> enforce_batch_invariants b = Inr b \<Longrightarrow>
      (\<forall>r \<in> set (b_events b). known_record r) \<Longrightarrow> fresh s x \<Longrightarrow> b_batch_id b \<in> batch_names x \<Longrightarrow>
      lo_append ops b s = (res_b, s') \<Longrightarrow>
      ready k s'
      \<and> (case res_b of
           Inl e \<Rightarrow> prefix (visible s) (visible s')
         | Inr out \<Rightarrow> (\<exists>ext. visible s' = visible s @ ext @ out) \<and> map content out = map content (b_events b))"

section \<open>One process among others\<close>

text \<open>
  \<open>w_others t\<close> is what the other processes write before the operation with number \<open>t\<close>; \<open>w_hex\<close>,
  \<open>w_names\<close> and
  \<open>w_now\<close> are the identifiers and the time stamps this process draws, \<open>w_ownership\<close> is what the
  projection store answers.
\<close>

record site =
  w_codec :: ecodec
  w_cfg :: config
  w_schema :: "string \<Rightarrow> dict \<Rightarrow> verr option"
  w_hex :: "nat \<Rightarrow> string"
  w_now :: "nat \<Rightarrow> string"
  w_others :: "nat \<Rightarrow> disk \<Rightarrow> disk"
  w_ownership :: "nat \<Rightarrow> disk \<Rightarrow> dict option"
  w_tick :: nat
  w_names :: "nat \<Rightarrow> string"
  w_named :: nat
  w_handle :: handle
  w_disk :: disk

definition next_tick :: "site \<Rightarrow> site" where
  "next_tick w = w\<lparr>w_tick := w_tick w + 1\<rparr>"

text \<open>The others write, then the operation runs on what they left.\<close>

definition wake :: "site \<Rightarrow> site" where
  "wake w = (next_tick w)\<lparr>w_disk := w_others w (w_tick w) (w_disk w)\<rparr>"

definition log_write :: "site \<Rightarrow> (handle \<Rightarrow> disk \<Rightarrow> 'a effect) \<Rightarrow> (verr + 'a) \<times> site" where
  "log_write w f = (let (r, h, d) = f (w_handle w) (w_disk w) in (r, w\<lparr>w_handle := h, w_disk := d\<rparr>))"

definition event_log_ops :: "site log_ops" where
  "event_log_ops =
     \<lparr>lo_index = (\<lambda>w. let w' = wake w; (r, h) = committed_index (w_codec w') (w_disk w') (w_handle w')
                   in (rbind r (Inr \<circ> eager_api), w'\<lparr>w_handle := h\<rparr>)),
      lo_lines = (\<lambda>w. let w' = wake w
                   in (List.map_filter (\<lambda>l. Option.bind (loads_json (w_codec w') l) as_obj) (raw_event_lines (w_disk w')), w')),
      lo_ownership = (\<lambda>w. let w' = wake w in (w_ownership w' (w_tick w') (w_disk w'), w')),
      lo_max_seq = (\<lambda>w. let w' = wake w in (read_max_seq_on_disk (w_codec w') (w_disk w'), w')),
      lo_draw = (\<lambda>w. (w_hex w (w_tick w), next_tick w)),
      lo_name = (\<lambda>w. (w_names w (w_named w), w\<lparr>w_named := w_named w + 1\<rparr>)),
      lo_direct = (\<lambda>i w. log_write (wake w)
         (write_direct (w_codec w) (w_cfg w) (w_schema w) i (w_hex w (w_tick w)) (w_now w (w_tick w)))),
      lo_audit = (\<lambda>i w. log_write (wake w)
         (write_audit_event (w_codec w) (w_cfg w) (w_schema w) i (w_hex w (w_tick w)) (w_now w (w_tick w)))),
      lo_stamp = (\<lambda>i tid bid pos w.
         let (r, h) = stamp_for_batch (w_codec w) i (w_hex w (w_tick w)) (w_now w (w_tick w)) tid bid pos (w_handle w)
         in (r, (next_tick w)\<lparr>w_handle := h\<rparr>)),
      lo_normalize = (\<lambda>rs w. let (out, h) = normalize_batch_seqs (w_codec w) rs (w_handle w)
                        in (out, w\<lparr>w_handle := h\<rparr>)),
      lo_append = (\<lambda>b w. log_write (wake w) (append_transaction_batch (w_codec w) (w_cfg w) (w_schema w) b))\<rparr>"

definition site_visible :: "site \<Rightarrow> event_record list" where
  "site_visible w = fst (committed (w_codec w) (w_disk w))"

definition batch_unused :: "ecodec \<Rightarrow> disk \<Rightarrow> string \<Rightarrow> bool" where
  "batch_unused cd d x \<longleftrightarrow> (\<forall>b \<in> batch_names x. batch_fresh cd d b)"

definition site_fresh :: "site \<Rightarrow> string \<Rightarrow> bool" where
  "site_fresh w x \<longleftrightarrow> (\<exists>t < w_named w. x = w_names w t) \<and> batch_unused (w_codec w) (w_disk w) x"

text \<open>
  The other processes only append readable records, use up at most one segment number at a time,
  and never use a batch name drawn by this process.
\<close>

definition others_ok :: "site \<Rightarrow> bool" where
  "others_ok w \<longleftrightarrow> (\<forall>t d. log_ok (w_codec w) d \<longrightarrow> known_versions (w_codec w) d \<longrightarrow>
     (let d' = w_others w t d in
        log_extends (w_codec w) d d' \<and> known_versions (w_codec w) d'
        \<and> (\<forall>k. room_for (Suc k) d \<longrightarrow> room_for k d')
        \<and> (\<forall>u. batch_unused (w_codec w) d (w_names w u) \<longrightarrow> batch_unused (w_codec w) d' (w_names w u))))"

text \<open>\<open>site_state n\<close>: this process and the disk are in order, with room for \<open>n\<close> rotations and for \<open>n\<close>
  new names of batches, which differ from each other and from the names on disk.\<close>

definition site_state :: "nat \<Rightarrow> site \<Rightarrow> bool" where
  "site_state n w \<longleftrightarrow>
     ecodec_sound (w_codec w) \<and> others_ok w
     \<and> (\<forall>t < w_named w + n. length (w_names w t) \<ge> 12)
     \<and> inj_on (\<lambda>t. take 12 (w_names w t)) {..<w_named w + n}
     \<and> log_ok (w_codec w) (w_disk w) \<and> known_versions (w_codec w) (w_disk w) \<and> room_for n (w_disk w)
     \<and> 0 \<le> h_next (w_handle w) \<and> (\<forall>t. w_named w \<le> t \<longrightarrow> t < w_named w + n \<longrightarrow> batch_unused (w_codec w) (w_disk w) (w_names w t))"

text \<open>An operation lets others write once and writes once itself.\<close>

definition site_ready :: "nat \<Rightarrow> site \<Rightarrow> bool" where
  "site_ready k w \<longleftrightarrow> site_state (2 * k) w"

section \<open>The event log keeps the laws\<close>

lemma room_for_less: "room_for n d \<Longrightarrow> m \<le> n \<Longrightarrow> room_for m d"
  by (force simp: room_for_def)

lemma site_state_less: "site_state n w \<Longrightarrow> m \<le> n \<Longrightarrow> site_state m w"
  by (auto simp: site_state_def intro: room_for_less elim!: inj_on_subset)

text \<open>Steps that leave the disk alone.\<close>

lemma site_handle:
  "site_state n w \<Longrightarrow> 0 \<le> h_next h \<Longrightarrow> site_state n (w\<lparr>w_handle := h\<rparr>)"
  "site_visible (w\<lparr>w_handle := h\<rparr>) = site_visible w"
  "site_fresh (w\<lparr>w_handle := h\<rparr>) = site_fresh w"
  by (auto simp: site_state_def others_ok_def site_visible_def site_fresh_def fun_eq_iff)

lemma site_tick:
  "site_state n w \<Longrightarrow> site_state n (next_tick w)"
  "site_visible (next_tick w) = site_visible w"
  "site_fresh w x \<Longrightarrow> site_fresh (next_tick w) x"
  "w_handle (next_tick w) = w_handle w" "w_codec (next_tick w) = w_codec w"
  by (auto simp: site_state_def others_ok_def site_visible_def site_fresh_def next_tick_def less_Suc_eq)

lemma log_extends_visible:
  assumes "log_extends cd d d'" and "known_versions cd d" and "known_versions cd d'"
  shows "prefix (fst (committed cd d)) (fst (committed cd d'))"
proof -
  obtain ls where ls: "raw_event_lines d' = raw_event_lines d @ ls"
    using assms(1) by (auto simp: log_extends_def prefix_def)
  then have "no_unknown_truth (parse_event cd) ls"
    using assms(3) by (simp add: known_versions_def no_unknown_append)
  from committed_append [OF assms(2) ls this] show ?thesis by simp
qed

lemma wake_step:
  assumes "site_state (Suc n) w"
  shows "site_state n (wake w)" "prefix (site_visible w) (site_visible (wake w))"
    "site_fresh w x \<Longrightarrow> site_fresh (wake w) x" "w_handle (wake w) = w_handle w"
proof -
  let ?d = "w_disk w" and ?d' = "w_others w (w_tick w) (w_disk w)"
  have w: "w_codec (wake w) = w_codec w" "w_disk (wake w) = ?d'" "w_tick (wake w) = Suc (w_tick w)"
    "w_handle (wake w) = w_handle w" "w_names (wake w) = w_names w" "w_named (wake w) = w_named w" "w_others (wake w) = w_others w"
    by (simp_all add: wake_def next_tick_def)
  have o: "log_extends (w_codec w) ?d ?d'" "known_versions (w_codec w) ?d'"
    "\<And>k. room_for (Suc k) ?d \<Longrightarrow> room_for k ?d'"
    "\<And>u. batch_unused (w_codec w) ?d (w_names w u) \<Longrightarrow> batch_unused (w_codec w) ?d' (w_names w u)"
    using assms by (auto simp: site_state_def others_ok_def Let_def)
  show "w_handle (wake w) = w_handle w" by (rule w(4))
  show "site_state n (wake w)"
    using assms o by (auto simp: site_state_def others_ok_def w log_extends_def elim!: inj_on_subset)
  show "prefix (site_visible w) (site_visible (wake w))"
    using log_extends_visible [OF o(1) _ o(2)] assms by (simp add: site_visible_def w site_state_def)
  show "site_fresh w x \<Longrightarrow> site_fresh (wake w) x"
    using o(4) by (auto simp: site_fresh_def w less_Suc_eq)
qed

lemma batch_names_differ:
  assumes "12 \<le> length x" and "12 \<le> length y" and "take 12 x \<noteq> take 12 y" and "b \<in> batch_names x"
  shows "b \<notin> batch_names y"
proof
  assume "b \<in> batch_names y"
  with assms(4) obtain p q where "p @ take 12 x = q @ take 12 y" by (auto simp: batch_names_def)
  with assms(1-3) show False by (simp add: append_eq_append_conv)
qed

text \<open>Writing records of one batch, or of none, leaves the other names unused.\<close>

lemma unused_append:
  assumes "log_readable cd d' = log_readable cd d @ rs" and "batch_unused cd d x"
    and "\<forall>r \<in> set rs. case batch_id r of None \<Rightarrow> True | Some b \<Rightarrow> b \<notin> batch_names x"
  shows "batch_unused cd d' x"
  using assms by (fastforce simp: batch_unused_def batch_fresh_def)


text \<open>What a successful write of this process keeps, given what it wrote.\<close>

lemma written_step:
  assumes w: "site_state (Suc n) w" and "op_ok (w_codec w) op"
    and d': "d' = apply_op (w_codec w) (w_cfg w) (w_schema w) (w_handle w) op (w_disk w)"
    and known: "known_versions (w_codec w) d'" and "0 \<le> h_next h'"
    and r: "log_readable (w_codec w) d' = log_readable (w_codec w) (w_disk w) @ rs"
    and rs: "\<forall>r \<in> set rs. \<forall>b. batch_id r = Some b \<longrightarrow> (\<forall>t. w_named w \<le> t \<longrightarrow> t < w_named w + Suc n \<longrightarrow> b \<notin> batch_names (w_names w t))"
  shows "site_state n (w\<lparr>w_handle := h', w_disk := d'\<rparr>)"
    "prefix (site_visible w) (site_visible (w\<lparr>w_handle := h', w_disk := d'\<rparr>))"
    "site_fresh w x \<Longrightarrow> \<forall>r \<in> set rs. batch_id r = None \<Longrightarrow> site_fresh (w\<lparr>w_handle := h', w_disk := d'\<rparr>) x"
proof -
  have c: "ecodec_sound (w_codec w)" "log_ok (w_codec w) (w_disk w)" "room_for (Suc n) (w_disk w)"
    "known_versions (w_codec w) (w_disk w)" using w by (simp_all add: site_state_def)
  have ext: "log_extends (w_codec w) (w_disk w) d'"
    unfolding d' using c by (intro op_extends assms(2)) (auto intro: room_for_has_room)
  have room: "room_for n d'" unfolding d' by (rule op_room [OF c(1) assms(2) c(2,3)])
  have unused: "batch_unused (w_codec w) d' (w_names w t)"
    if "w_named w \<le> t" "t < w_named w + Suc n" for t
    using unused_append [OF r, of "w_names w t"] w rs that by (auto simp: site_state_def split: option.splits)
  show "site_state n (w\<lparr>w_handle := h', w_disk := d'\<rparr>)"
    using w ext room unused known assms(5) by (auto simp: site_state_def others_ok_def log_extends_def elim!: inj_on_subset)
  show "prefix (site_visible w) (site_visible (w\<lparr>w_handle := h', w_disk := d'\<rparr>))"
    using log_extends_visible [OF ext c(4) known] by (simp add: site_visible_def)
  show "site_fresh w x \<Longrightarrow> \<forall>r \<in> set rs. batch_id r = None \<Longrightarrow> site_fresh (w\<lparr>w_handle := h', w_disk := d'\<rparr>) x"
    using unused_append [OF r] by (auto simp: site_fresh_def)
qed

lemma direct_keeps:
  assumes w: "site_state (Suc n) w" and i: "known_intent i" and "op \<in> {Direct i hex now, Audit i hex now}"
    and a: "append_direct_record (w_codec w) (w_cfg w) (w_schema w) i hex now (w_handle w) (w_disk w) = (res, h', d')"
    and d': "d' = apply_op (w_codec w) (w_cfg w) (w_schema w) (w_handle w) op (w_disk w)"
  shows "site_state n (w\<lparr>w_handle := h', w_disk := d'\<rparr>)"
    "site_fresh w x \<Longrightarrow> site_fresh (w\<lparr>w_handle := h', w_disk := d'\<rparr>) x"
    "case res of
       Inl e \<Rightarrow> prefix (site_visible w) (site_visible (w\<lparr>w_handle := h', w_disk := d'\<rparr>))
     | Inr r \<Rightarrow> site_visible (w\<lparr>w_handle := h', w_disk := d'\<rparr>) = site_visible w @ [r]
         \<and> event_type r = i_event_type i \<and> payload r = i_payload i"
proof -
  have c: "ecodec_sound (w_codec w)" "log_ok (w_codec w) (w_disk w)" "room_for (Suc n) (w_disk w)"
    "known_versions (w_codec w) (w_disk w)" "0 \<le> h_next (w_handle w)" using w by (simp_all add: site_state_def)
  have o: "op_ok (w_codec w) op" using assms(3) by auto
  have "site_state n (w\<lparr>w_handle := h', w_disk := d'\<rparr>)
    \<and> (site_fresh w x \<longrightarrow> site_fresh (w\<lparr>w_handle := h', w_disk := d'\<rparr>) x)
    \<and> (case res of
       Inl e \<Rightarrow> prefix (site_visible w) (site_visible (w\<lparr>w_handle := h', w_disk := d'\<rparr>))
     | Inr r \<Rightarrow> site_visible (w\<lparr>w_handle := h', w_disk := d'\<rparr>) = site_visible w @ [r]
         \<and> event_type r = i_event_type i \<and> payload r = i_payload i)"
  proof (cases res)
    case (Inl e)
    then have "h' = w_handle w" "d' = w_disk w" using a by (auto simp: append_direct_record_def split: sum.splits)
    then show ?thesis using Inl site_state_less [OF w, where m = n] by simp
  next
    case (Inr r)
    note d = direct_record_committed [OF c(1,2) room_for_has_room [OF c(3)] c(4) i [unfolded known_intent_def] a [unfolded Inr]]
    have "0 \<le> h_next h'" using a Inr d by (auto simp: append_direct_record_def split: sum.splits)
    moreover have "known_versions (w_codec w) d'"
      "log_readable (w_codec w) d' = log_readable (w_codec w) (w_disk w) @ [r]" "batch_id r = None"
      using d by simp_all
    ultimately show ?thesis
      using written_step [OF w o d', of h' "[r]"] d Inr by (simp add: site_visible_def)
  qed
  then show "site_state n (w\<lparr>w_handle := h', w_disk := d'\<rparr>)"
    "site_fresh w x \<Longrightarrow> site_fresh (w\<lparr>w_handle := h', w_disk := d'\<rparr>) x"
    "case res of
       Inl e \<Rightarrow> prefix (site_visible w) (site_visible (w\<lparr>w_handle := h', w_disk := d'\<rparr>))
     | Inr r \<Rightarrow> site_visible (w\<lparr>w_handle := h', w_disk := d'\<rparr>) = site_visible w @ [r]
         \<and> event_type r = i_event_type i \<and> payload r = i_payload i" by blast+
qed

lemma committed_index_handle:
  "committed_index cd d h = (res, h') \<Longrightarrow> h_next h' = h_next h"
  by (auto simp: committed_index_def catch_up_index_def rebuild_index_def set_index_baseline_def Let_def
      split: option.splits prod.splits if_splits sum.splits bool.splits)


text \<open>The laws, one by one.\<close>

lemma log_write_eq:
  "f (w_handle w) (w_disk w) = (res, h', d') \<Longrightarrow> log_write w f = (res, w\<lparr>w_handle := h', w_disk := d'\<rparr>)"
  by (simp add: log_write_def)

lemma log_write_obtain:
  assumes "log_write w f = (res, w')"
  obtains h' d' where "f (w_handle w) (w_disk w) = (res, h', d')" "w' = w\<lparr>w_handle := h', w_disk := d'\<rparr>"
  using assms by (cases "f (w_handle w) (w_disk w)") (auto simp: log_write_def)

lemma site_index:
  assumes "site_ready (Suc k) w" and "lo_index event_log_ops w = (res, w')"
  shows "site_ready k w' \<and> prefix (site_visible w) (site_visible w') \<and> (\<forall>x. site_fresh w x \<longrightarrow> site_fresh w' x)"
proof -
  have w: "site_state (Suc (Suc (2 * k))) w" using assms(1) by (simp add: site_ready_def)
  note st = wake_step [OF w]
  obtain r h where ih: "committed_index (w_codec (wake w)) (w_disk (wake w)) (w_handle (wake w)) = (r, h)"
    by force
  have w': "w' = (wake w)\<lparr>w_handle := h\<rparr>" using assms(2) ih by (simp add: event_log_ops_def)
  have "0 \<le> h_next h" using committed_index_handle [OF ih] st(1) by (simp add: site_state_def)
  with site_state_less [OF site_handle(1) [OF st(1)], where m = "2 * k"] site_handle(2,3) st show ?thesis
    by (simp add: w' site_ready_def)
qed

lemma site_wake:
  assumes "site_ready (Suc k) w"
  shows "site_ready k (wake w) \<and> prefix (site_visible w) (site_visible (wake w))
    \<and> (\<forall>x. site_fresh w x \<longrightarrow> site_fresh (wake w) x)"
proof -
  have w: "site_state (Suc (Suc (2 * k))) w" using assms(1) by (simp add: site_ready_def)
  from wake_step [OF w] show ?thesis by (auto simp: site_ready_def intro: site_state_less)
qed

lemma site_readings:
  "lo_max_seq event_log_ops w = (n, w') \<Longrightarrow> w' = wake w"
  "lo_lines event_log_ops w = (ls, w') \<Longrightarrow> w' = wake w"
  "lo_ownership event_log_ops w = (own, w') \<Longrightarrow> w' = wake w"
  by (simp_all add: event_log_ops_def Let_def)

lemma site_draw:
  assumes "site_ready k w" and "lo_draw event_log_ops w = (y, w')"
  shows "site_ready k w' \<and> site_visible w' = site_visible w \<and> (\<forall>x. site_fresh w x \<longrightarrow> site_fresh w' x)"
proof -
  have "w' = next_tick w" using assms(2) by (simp add: event_log_ops_def)
  with site_tick assms(1) show ?thesis by (simp add: site_ready_def)
qed

lemma site_name:
  assumes "site_ready (Suc k) w" and "lo_name event_log_ops w = (y, w')"
  shows "site_ready k w' \<and> site_visible w' = site_visible w \<and> site_fresh w' y \<and> (\<forall>x. site_fresh w x \<longrightarrow> site_fresh w' x)"
proof -
  have w': "w' = w\<lparr>w_named := w_named w + 1\<rparr>" "y = w_names w (w_named w)"
    using assms(2) by (simp_all add: event_log_ops_def)
  have w: "site_state (Suc (2 * k)) w" using assms(1) by (auto simp: site_ready_def intro: site_state_less)
  then have "site_state (2 * k) w'"
    by (auto simp: w' site_state_def others_ok_def intro: room_for_less)
  moreover have "site_fresh w' y" using w by (auto simp: w' site_fresh_def site_state_def)
  ultimately show ?thesis by (auto simp: w' site_ready_def site_visible_def site_fresh_def less_Suc_eq)
qed

lemma site_stamp:
  assumes "site_ready k w" and "lo_stamp event_log_ops i tid bid pos w = (res, w')"
  shows "site_ready k w' \<and> site_visible w' = site_visible w \<and> (\<forall>x. site_fresh w x \<longrightarrow> site_fresh w' x)
    \<and> (\<forall>r. res = Inr r \<longrightarrow> record_ok r \<and> event_type r = i_event_type i \<and> payload r = i_payload i
          \<and> schema_version r = i_schema_version i \<and> transaction_id r = Some tid \<and> batch_id r = Some bid
          \<and> local_intent_id r = i_local_intent_id i)"
proof -
  let ?h = "(w_handle w)\<lparr>h_next := h_next (w_handle w) + 1\<rparr>"
  have w: "site_state (2 * k) w" "0 \<le> h_next ?h" "ecodec_sound (w_codec w)"
    using assms(1) by (simp_all add: site_ready_def site_state_def)
  have eq: "w' = (next_tick w)\<lparr>w_handle := ?h\<rparr>"
    and res: "res = stamp (w_codec w) i (w_hex w (w_tick w)) (w_now w (w_tick w)) (h_next (w_handle w)) (Some (tid, bid, pos))"
    using assms(2) by (auto simp: event_log_ops_def stamp_for_batch_def)
  have "site_ready k w' \<and> site_visible w' = site_visible w \<and> (\<forall>x. site_fresh w x \<longrightarrow> site_fresh w' x)"
    using site_handle(1) [OF site_tick(1) [OF w(1)] w(2)] site_handle(2,3) site_tick(2,3) by (simp add: eq site_ready_def)
  moreover have "record_ok r \<and> event_type r = i_event_type i \<and> payload r = i_payload i
      \<and> schema_version r = i_schema_version i \<and> transaction_id r = Some tid \<and> batch_id r = Some bid
      \<and> local_intent_id r = i_local_intent_id i" if "res = Inr r" for r
    using stamp_ok [OF w(3) that [unfolded res]] that
    by (auto simp: res stamp_def rehash_def Let_def split: if_splits)
  ultimately show ?thesis by blast
qed

lemma content_reseq_from: "map content (reseq_from cd n rs) = map content rs"
  by (induction rs arbitrary: n) (simp_all add: content_def)

lemma known_reseq_from:
  "ecodec_sound cd \<Longrightarrow> 0 \<le> n \<Longrightarrow> \<forall>r \<in> set rs. known_record r \<Longrightarrow> \<forall>r \<in> set (reseq_from cd n rs). known_record r"
proof (induction rs arbitrary: n)
  case (Cons r rs)
  have "known_record (reseq cd r n)" using Cons.prems by (simp add: known_record_def reseq_ok)
  moreover have "\<forall>r \<in> set (reseq_from cd (n + 1) rs). known_record r" using Cons.prems by (intro Cons.IH) simp_all
  ultimately show ?case by simp
qed simp

lemma site_normalize:
  assumes "site_ready k w" and "lo_normalize event_log_ops rs w = (out, w')"
  shows "site_ready k w' \<and> site_visible w' = site_visible w \<and> (\<forall>x. site_fresh w x \<longrightarrow> site_fresh w' x)
    \<and> map content out = map content rs \<and> ((\<forall>r \<in> set rs. known_record r) \<longrightarrow> (\<forall>r \<in> set out. known_record r))"
proof -
  let ?h = "(w_handle w)\<lparr>h_next := h_next (w_handle w) + int (length rs)\<rparr>"
  have w: "site_state (2 * k) w" "0 \<le> h_next ?h" "ecodec_sound (w_codec w)" "0 \<le> h_next (w_handle w)"
    using assms(1) by (simp_all add: site_ready_def site_state_def)
  have "w' = w\<lparr>w_handle := ?h\<rparr>" "out = reseq_from (w_codec w) (h_next (w_handle w)) rs"
    using assms(2) by (simp_all add: event_log_ops_def normalize_batch_seqs_def)
  with site_handle(1) [OF w(1,2)] site_handle(2,3) known_reseq_from [OF w(3,4)] show ?thesis
    by (simp add: site_ready_def content_reseq_from)
qed


lemma site_direct_record:
  assumes "site_ready (Suc k) w" and "known_intent i" and "op \<in> {Direct i hex now, Audit i hex now}"
    and "append_direct_record (w_codec w) (w_cfg w) (w_schema w) i hex now (w_handle (wake w)) (w_disk (wake w)) = (res, h', d')"
    and "apply_op (w_codec w) (w_cfg w) (w_schema w) (w_handle (wake w)) op (w_disk (wake w)) = d'"
    and "w' = (wake w)\<lparr>w_handle := h', w_disk := d'\<rparr>"
  shows "site_ready k w' \<and> (\<forall>x. site_fresh w x \<longrightarrow> site_fresh w' x)
    \<and> (case res of
         Inl e \<Rightarrow> prefix (site_visible w) (site_visible w')
       | Inr r \<Rightarrow> (\<exists>ext. site_visible w' = site_visible w @ ext @ [r]) \<and> event_type r = i_event_type i \<and> payload r = i_payload i)"
proof -
  have w: "site_state (Suc (Suc (2 * k))) w" using assms(1) by (simp add: site_ready_def)
  note st = wake_step [OF w]
  have same: "w_codec (wake w) = w_codec w" "w_cfg (wake w) = w_cfg w" "w_schema (wake w) = w_schema w"
    by (simp_all add: wake_def next_tick_def)
  note a = assms(4) [folded same] and o = assms(5) [folded same, symmetric]
  note d = direct_keeps [OF st(1) assms(2,3) a o, folded assms(6)]
  have "prefix (site_visible w) xs \<Longrightarrow> prefix xs ys \<Longrightarrow> prefix (site_visible w) ys" for xs ys
    by (rule prefix_order.trans)
  then show ?thesis using d(1,3) d(2) [OF st(3)] st(2)
    by (auto simp: site_ready_def prefix_def split: sum.splits)
qed

lemma site_direct:
  assumes "site_ready (Suc k) w" and "known_intent i" and "lo_direct event_log_ops i w = (res, w')"
  shows "site_ready k w' \<and> (\<forall>x. site_fresh w x \<longrightarrow> site_fresh w' x)
    \<and> (case res of
         Inl e \<Rightarrow> prefix (site_visible w) (site_visible w')
       | Inr r \<Rightarrow> (\<exists>ext. site_visible w' = site_visible w @ ext @ [r]) \<and> event_type r = i_event_type i \<and> payload r = i_payload i)"
proof -
  let ?hex = "w_hex w (w_tick w)" and ?now = "w_now w (w_tick w)"
  have f: "log_write (wake w) (write_direct (w_codec w) (w_cfg w) (w_schema w) i ?hex ?now) = (res, w')"
    using assms(3) by (simp add: event_log_ops_def)
  show ?thesis
  proof (cases "is_path_b_allowed (i_event_type i)")
    case True
    obtain h' d' where a: "append_direct_record (w_codec w) (w_cfg w) (w_schema w) i ?hex ?now
        (w_handle (wake w)) (w_disk (wake w)) = (res, h', d')" "w' = (wake w)\<lparr>w_handle := h', w_disk := d'\<rparr>"
      using f True by (auto simp: write_direct_def elim: log_write_obtain)
    then show ?thesis
      using True by (intro site_direct_record [OF assms(1,2), of "Direct i ?hex ?now"]) (auto simp: write_direct_def)
  next
    case False
    have w: "site_state (Suc (Suc (2 * k))) w" using assms(1) by (simp add: site_ready_def)
    from False f have "w' = wake w" "\<exists>e. res = Inl e" by (auto simp: write_direct_def elim!: log_write_obtain)
    with wake_step [OF w] show ?thesis by (auto simp: site_ready_def intro: site_state_less)
  qed
qed

lemma site_audit:
  assumes "site_ready (Suc k) w" and "known_intent i" and "lo_audit event_log_ops i w = (res, w')"
  shows "site_ready k w' \<and> (\<forall>x. site_fresh w x \<longrightarrow> site_fresh w' x)
    \<and> (case res of
         Inl e \<Rightarrow> prefix (site_visible w) (site_visible w')
       | Inr r \<Rightarrow> (\<exists>ext. site_visible w' = site_visible w @ ext @ [r]) \<and> event_type r = i_event_type i \<and> payload r = i_payload i)"
proof -
  let ?hex = "w_hex w (w_tick w)" and ?now = "w_now w (w_tick w)"
  let ?bad = "i_event_type i \<notin> set audit_producer_only_types
    \<or> actor_type (i_provenance_hint i) \<noteq> ''commit_gate''
    \<or> actor_id (i_provenance_hint i) \<notin> set [''m05_audit_fork'', ''m05_commit_gate'', ''m05_audit_trigger'']"
  have f: "log_write (wake w) (write_audit_event (w_codec w) (w_cfg w) (w_schema w) i ?hex ?now) = (res, w')"
    using assms(3) by (simp add: event_log_ops_def)
  show ?thesis
  proof (cases ?bad)
    case False
    obtain h' d' where a: "append_direct_record (w_codec w) (w_cfg w) (w_schema w) i ?hex ?now
        (w_handle (wake w)) (w_disk (wake w)) = (res, h', d')" "w' = (wake w)\<lparr>w_handle := h', w_disk := d'\<rparr>"
      using f False by (auto simp: write_audit_event_def elim: log_write_obtain)
    then show ?thesis
      using False by (intro site_direct_record [OF assms(1,2), of "Audit i ?hex ?now"]) (auto simp: write_audit_event_def)
  next
    case True
    have w: "site_state (Suc (Suc (2 * k))) w" using assms(1) by (simp add: site_ready_def)
    from True f have "w' = wake w" "\<exists>e. res = Inl e"
      by (auto simp: write_audit_event_def elim!: log_write_obtain split: if_splits)
    with wake_step [OF w] show ?thesis by (auto simp: site_ready_def intro: site_state_less)
  qed
qed

lemma site_append:
  assumes "site_ready (Suc k) w" and b: "enforce_batch_invariants b = Inr b"
    and known: "\<forall>r \<in> set (b_events b). known_record r" and fresh: "site_fresh w x"
    and name: "b_batch_id b \<in> batch_names x" and "lo_append event_log_ops b w = (res, w')"
  shows "site_ready k w'
    \<and> (case res of
         Inl e \<Rightarrow> prefix (site_visible w) (site_visible w')
       | Inr out \<Rightarrow> (\<exists>ext. site_visible w' = site_visible w @ ext @ out) \<and> map content out = map content (b_events b))"
proof -
  let ?w = "wake w"
  have w: "site_state (Suc (Suc (2 * k))) w" using assms(1) by (simp add: site_ready_def)
  note st = wake_step [OF w]
  have same: "w_codec ?w = w_codec w" "w_cfg ?w = w_cfg w" "w_schema ?w = w_schema w"
    by (simp_all add: wake_def next_tick_def)
  have c: "ecodec_sound (w_codec ?w)" "log_ok (w_codec ?w) (w_disk ?w)" "has_room (w_disk ?w)"
    "known_versions (w_codec ?w) (w_disk ?w)"
    using st(1) by (auto simp: site_state_def intro: room_for_has_room)
  obtain h' d' where a: "append_transaction_batch (w_codec ?w) (w_cfg ?w) (w_schema ?w) b (w_handle ?w) (w_disk ?w) = (res, h', d')"
    and w': "w' = ?w\<lparr>w_handle := h', w_disk := d'\<rparr>"
    using assms(6) by (auto simp: event_log_ops_def same elim: log_write_obtain)
  have fr: "batch_fresh (w_codec ?w) (w_disk ?w) (b_batch_id b)"
    using st(3) [OF fresh] name by (auto simp: site_fresh_def batch_unused_def)
  note bc = batch_committed [OF c b known [unfolded known_record_def] fr a]
  show ?thesis
  proof (cases res)
    case (Inl e)
    then have "w' = ?w" using bc by (simp add: w')
    then show ?thesis using Inl st by (auto simp: site_ready_def intro: site_state_less)
  next
    case (Inr out)
    note o = bc [unfolded Inr sum.case]
    obtain t where t: "t < w_named ?w" "x = w_names ?w t" using st(3) [OF fresh] by (auto simp: site_fresh_def)
    let ?n = "w_named ?w + Suc (2 * k)"
    have unused: "\<forall>r \<in> set out. \<forall>b'. batch_id r = Some b' \<longrightarrow>
        (\<forall>u. w_named ?w \<le> u \<longrightarrow> u < ?n \<longrightarrow> b' \<notin> batch_names (w_names ?w u))"
    proof (intro ballI allI impI)
      fix r b' u assume r: "r \<in> set out" "batch_id r = Some b'" "w_named ?w \<le> u" "u < ?n"
      have inj: "inj_on (\<lambda>t. take 12 (w_names ?w t)) {..<?n}" and len: "\<forall>t < ?n. 12 \<le> length (w_names ?w t)"
        using st(1) by (simp_all add: site_state_def)
      have "take 12 x \<noteq> take 12 (w_names ?w u)"
        using inj_onD [OF inj, of t u] t r(3,4) by auto
      moreover have "12 \<le> length x" "12 \<le> length (w_names ?w u)" using len t r(3,4) by simp_all
      ultimately show "b' \<notin> batch_names (w_names ?w u)"
        using batch_names_differ [of x "w_names ?w u" b'] r o name by simp
    qed
    have op: "op_ok (w_codec ?w) (Batch b)" using known by (simp add: list_all_iff known_record_def)
    have d': "d' = apply_op (w_codec ?w) (w_cfg ?w) (w_schema ?w) (w_handle ?w) (Batch b) (w_disk ?w)"
      using a by simp
    have "site_state (2 * k) w'"
      unfolding w' by (rule written_step(1) [OF st(1) op d' _ _ _ unused]) (use o in simp_all)
    moreover have "map content out = map content (b_events b)" using o by (simp add: content_reseq_from)
    moreover have "site_visible w' = site_visible ?w @ out" using o by (simp add: site_visible_def w')
    ultimately show ?thesis using st(2) Inr by (auto simp: site_ready_def prefix_def)
  qed
qed

interpretation site_log: gate_log event_log_ops site_ready site_visible site_fresh
proof
  show "site_ready k s" if "site_ready (Suc k) s" for k s
    using that by (auto simp: site_ready_def intro: site_state_less)
qed (fact site_index site_draw site_name site_stamp site_normalize site_direct site_audit site_append
  | use site_wake site_readings in blast)+

end
