(* ===== verification/Gate_Births.thy ===== *)
theory Gate_Births
  imports Gate_Obligations
begin

text \<open>
  The gates at birth: findings must be routable and classified consistently
  (\<open>l0/commit_gate/finding_birth_gate.py, finding_classification_consistency.py\<close>), new concepts
  related to existing ones and new edges resolvable (\<open>concept_create_gate.py,
  graph_integrity_check.py\<close>).  Texts are UTF-8: a character is a byte that starts one, with its
  continuation bytes.  Explanatory texts of the evidence are left out, notices are shortened to
  their leading identifier and the concept or finding they are about.
\<close>

section \<open>Texts\<close>

definition char_code :: "char \<Rightarrow> nat" where
  "char_code c = of_char c"

definition continuation :: "char \<Rightarrow> bool" where
  "continuation c \<longleftrightarrow> 128 \<le> char_code c \<and> char_code c < 192"

text \<open>\<open>s[:n]\<close>\<close>

fun take_chars :: "nat \<Rightarrow> string \<Rightarrow> string" where
  "take_chars n [] = []"
| "take_chars n (c # cs) =
     (if continuation c then c # take_chars n cs
      else (case n of 0 \<Rightarrow> [] | Suc m \<Rightarrow> c # take_chars m cs))"

definition lower_char :: "char \<Rightarrow> char" where
  "lower_char c = (if 65 \<le> char_code c \<and> char_code c \<le> 90 then char_of (char_code c + 32) else c)"

definition lower :: "string \<Rightarrow> string" where
  "lower s = map lower_char s"

text \<open>The text behind a literal, compared without case.\<close>

definition after_literal :: "string \<Rightarrow> string \<Rightarrow> string option" where
  "after_literal l s = (if prefix (lower l) (lower s) then Some (drop (length l) s) else None)"

section \<open>Findings\<close>

text \<open>\<open>routable\<close> is the decision of the orchestrator's router on the finding.\<close>

definition is_finding :: "event_intent \<Rightarrow> bool" where
  "is_finding i \<longleftrightarrow> i_event_type i = ''FindingCreated''"

definition field_of :: "json \<Rightarrow> string \<Rightarrow> json" where
  "field_of v k = (case v of JObj d \<Rightarrow> dget d k | _ \<Rightarrow> JNull)"

text \<open>\<open>str(d.get(k, ""))\<close>\<close>

definition text_at :: "dict \<Rightarrow> string \<Rightarrow> string" where
  "text_at d k = (case map_of d k of None \<Rightarrow> [] | Some v \<Rightarrow> py_str v)"

definition check_finding_routability :: "(event_intent \<Rightarrow> bool) \<Rightarrow> event_intent list \<Rightarrow> check_result" where
  "check_finding_routability routable intents =
     (case find (\<lambda>i. is_finding i \<and> \<not> routable i) intents of
        None \<Rightarrow> check_ok
      | Some i \<Rightarrow> (let pl = i_payload i in check_fail ''finding_unroutable''
          [(''finding_id'', text_at pl ''finding_id''),
           (''finding_kind'', py_str (dget pl ''finding_kind'')),
           (''suggested_fix_layer_primary'', py_str (field_of (dget pl ''suggested_fix_layer'') ''primary'')),
           (''source_type'', py_str (field_of (dget pl ''source'') ''type''))]))"

text \<open>The alternatives of \<open>MECHANICAL_RETIREMENT_PATTERN\<close> at one position: the text behind the match.\<close>

definition reason_dashed :: "string \<Rightarrow> string option" where
  "reason_dashed s =
     Option.bind (after_literal ''--reason'' s) (\<lambda>t.
       if t \<noteq> [] \<and> is_space (hd t) then after_literal ''retired'' (dropWhile is_space t) else None)"

definition reason_assigned :: "string \<Rightarrow> string option" where
  "reason_assigned s =
     Option.bind (after_literal ''reason'' s) (\<lambda>t.
       case dropWhile is_space t of
         [] \<Rightarrow> None
       | c # u \<Rightarrow> if c = CHR ''='' \<or> c = CHR '':'' then after_literal ''retired'' (dropWhile is_space u) else None)"

text \<open>\<open>.{0,n}retired\<close>, greedy: the last place that fits.\<close>

fun retired_within :: "nat \<Rightarrow> string \<Rightarrow> string option" where
  "retired_within n [] = None"
| "retired_within n (c # cs) =
     (case (if c = LF then None
            else if continuation c then retired_within n cs
            else (case n of 0 \<Rightarrow> None | Suc m \<Rightarrow> retired_within m cs)) of
        Some t \<Rightarrow> Some t
      | None \<Rightarrow> after_literal ''retired'' (c # cs))"

definition close_retired :: "string \<Rightarrow> string option" where
  "close_retired s =
     Option.bind (after_literal ''task'' s) (\<lambda>t.
       case t of
         [] \<Rightarrow> None
       | c # u \<Rightarrow> if c = CHR ''-'' \<or> c = CHR ''_''
                  then Option.bind (after_literal ''close'' u) (retired_within 120) else None)"

definition first_some :: "('a \<Rightarrow> 'b option) list \<Rightarrow> 'a \<Rightarrow> 'b option" where
  "first_some fs x = (case List.map_filter (\<lambda>f. f x) fs of [] \<Rightarrow> None | y # _ \<Rightarrow> Some y)"

definition mechanical_here :: "string \<Rightarrow> string option" where
  "mechanical_here =
     first_some [reason_dashed, reason_assigned, after_literal ''TaskClosureReason.RETIRED'', close_retired]"

text \<open>The three phrases of \<open>NATURAL_LANGUAGE_RETIREMENT_PATTERN\<close>, as bytes.\<close>

definition retirement_phrases :: "string list" where
  "retirement_phrases = map (map char_of)
     [[229, 137, 141, 230, 143, 144, 228, 184, 186, 229, 129, 135 :: nat],
      [229, 186, 148, 233, 128, 128, 228, 188, 145],
      [229, 186, 148, 233, 128, 128, 229, 189, 185]]"

definition natural_here :: "string \<Rightarrow> string option" where
  "natural_here = first_some (map after_literal (retirement_phrases @ [''premise-false'', ''premise_false'']))"

text \<open>\<open>re.search\<close>: the text of the first match.\<close>

fun search :: "(string \<Rightarrow> string option) \<Rightarrow> string \<Rightarrow> string option" where
  "search here s =
     (case here s of
        Some t \<Rightarrow> Some (take (length s - length t) s)
      | None \<Rightarrow> (case s of [] \<Rightarrow> None | c # cs \<Rightarrow> search here cs))"

definition retirement_scan_text_limit :: nat where
  "retirement_scan_text_limit = 4096"

definition str_or_empty :: "json \<Rightarrow> string" where
  "str_or_empty v = (if truthy v then py_str v else [])"

text \<open>\<open>for x in v or []\<close>: \<open>None\<close> where iterating raises.\<close>

definition criteria_of :: "json \<Rightarrow> json list option" where
  "criteria_of v =
     (if \<not> truthy v then Some []
      else (case v of JArr xs \<Rightarrow> Some xs | JStr _ \<Rightarrow> Some [] | JObj _ \<Rightarrow> Some [] | _ \<Rightarrow> None))"

definition closure_contract_text :: "dict \<Rightarrow> string option" where
  "closure_contract_text pl =
     map_option (\<lambda>criteria.
         take_chars retirement_scan_text_limit
           (join [LF] (str_or_empty (dget pl ''description'')
              # concat (map (\<lambda>c. [str_or_empty (dget c ''condition''), str_or_empty (dget c ''expected_result'')])
                  (List.map_filter as_obj criteria)))))
       (case dget pl ''closure_contract'' of
          JObj contract \<Rightarrow> criteria_of (dget contract ''closure_criteria'')
        | _ \<Rightarrow> Some [])"

definition has_task_anchor :: "subject list \<Rightarrow> bool" where
  "has_task_anchor subs \<longleftrightarrow> (\<exists>s \<in> set subs. entity_type s = ''task'')"

text \<open>The outcome of a rule is a rejection or notices; \<open>None\<close> where the rule raises.\<close>

definition evaluate_r2 :: "bool \<Rightarrow> dict \<Rightarrow> (check_result + string list) option" where
  "evaluate_r2 enforce pl =
     (let kind = dget pl ''finding_kind'' in
      if kind = JStr ''premise_false'' then Some (Inr [])
      else map_option (\<lambda>text.
             (case (search mechanical_here text, search natural_here text) of
                (None, None) \<Rightarrow> Inr []
              | (mechanical, natural) \<Rightarrow>
                  (if kind = JStr ''concept_issue'' \<and> mechanical \<noteq> None \<and> enforce
                   then Inl (check_fail ''finding_classification_retirement_language_misrouted''
                     [(''rule'', ''R2''), (''finding_id'', text_at pl ''finding_id''), (''finding_kind'', py_str kind),
                      (''matched_pattern'', the mechanical), (''match_type'', ''mechanical'')])
                   else Inr [''[warn-only][R2] '' @ text_at pl ''finding_id''])))
             (closure_contract_text pl))"

definition evaluate_r3 :: "bool \<Rightarrow> dict \<Rightarrow> subject list \<Rightarrow> check_result + string list" where
  "evaluate_r3 enforce pl subs =
     (if dget pl ''finding_kind'' \<noteq> JStr ''premise_false'' \<or> has_task_anchor subs then Inr []
      else if enforce
      then Inl (check_fail ''finding_classification_premise_false_missing_task_anchor''
        [(''rule'', ''R3''), (''finding_id'', text_at pl ''finding_id''), (''finding_kind'', ''premise_false'')])
      else Inr [''[warn-only][R3] '' @ text_at pl ''finding_id''])"

text \<open>One finding: an exception in a rule skips the finding.\<close>

definition classify_finding :: "bool \<Rightarrow> bool \<Rightarrow> event_intent \<Rightarrow> check_result + string list" where
  "classify_finding r2 r3 i =
     (case evaluate_r2 r2 (i_payload i) of
        None \<Rightarrow> Inr []
      | Some (Inl e) \<Rightarrow> Inl e
      | Some (Inr notices) \<Rightarrow> map_sum id (\<lambda>n. notices @ n) (evaluate_r3 r3 (i_payload i) (i_subjects i)))"

fun classify_findings :: "bool \<Rightarrow> bool \<Rightarrow> event_intent list \<Rightarrow> string list \<Rightarrow> check_result" where
  "classify_findings r2 r3 [] notices = check_ok\<lparr>cr_notices := notices\<rparr>"
| "classify_findings r2 r3 (i # is) notices =
     (case classify_finding r2 r3 i of
        Inl e \<Rightarrow> e
      | Inr n \<Rightarrow> classify_findings r2 r3 is (notices @ n))"

definition check_finding_classification_consistency :: "bool \<Rightarrow> bool \<Rightarrow> event_intent list \<Rightarrow> check_result" where
  "check_finding_classification_consistency r2 r3 intents = classify_findings r2 r3 (filter is_finding intents) []"

end
