(* ===== verification/Gate_Concepts.thy ===== *)
theory Gate_Concepts
  imports Complex_Main Gate_Births
begin

text \<open>
  New concepts must be related to existing ones, new edges must lead somewhere
  (\<open>l0/commit_gate/concept_create_gate.py, graph_integrity_check.py\<close>).  The gate passes no mining
  result for couplings and the default lexical scorer; scores are exact fractions.
\<close>

section \<open>Lexical relatedness\<close>

definition word_start :: "char \<Rightarrow> bool" where
  "word_start c \<longleftrightarrow> 97 \<le> char_code c \<and> char_code c \<le> 122"

definition word_char :: "char \<Rightarrow> bool" where
  "word_char c \<longleftrightarrow> word_start c \<or> is_digit c \<or> c = CHR ''_'' \<or> c = CHR ''-''"

text \<open>\<open>findall\<close> of a letter with at least two word characters behind it.\<close>

function ascii_words :: "string \<Rightarrow> string list" where
  "ascii_words [] = []"
| "ascii_words (c # cs) =
     (if word_start c \<and> 2 \<le> length (takeWhile word_char cs)
      then (c # takeWhile word_char cs) # ascii_words (dropWhile word_char cs)
      else ascii_words cs)"
  by pat_completeness auto
termination
  by (relation "measure length") (auto simp: le_imp_less_Suc length_dropWhile_le)

text \<open>The characters of a text, each with its bytes.\<close>

fun characters :: "string \<Rightarrow> string list" where
  "characters [] = []"
| "characters (c # cs) =
     (case characters cs of
        [] \<Rightarrow> [[c]]
      | x # xs \<Rightarrow> if continuation (hd x) then (c # x) # xs else [c] # x # xs)"

text \<open>The code point of a character of three bytes; the range of \<open>_CJK_RUN\<close> has no others.\<close>

definition is_cjk :: "string \<Rightarrow> bool" where
  "is_cjk x =
     (case map char_code x of
        [a, b, c] \<Rightarrow> (let p = (a - 224) * 4096 + (b - 128) * 64 + (c - 128)
                     in 224 \<le> a \<and> a < 240 \<and> 0x4E00 \<le> p \<and> p \<le> 0x9FFF)
      | _ \<Rightarrow> False)"

function runs :: "('a \<Rightarrow> bool) \<Rightarrow> 'a list \<Rightarrow> 'a list list" where
  "runs P [] = []"
| "runs P (x # xs) =
     (if P x then (x # takeWhile P xs) # runs P (dropWhile P xs) else runs P xs)"
  by pat_completeness auto
termination
  by (relation "measure (length \<circ> snd)") (auto simp: le_imp_less_Suc length_dropWhile_le)

fun bigrams :: "string list \<Rightarrow> string list" where
  "bigrams (x # y # xs) = (x @ y) # bigrams (y # xs)"
| "bigrams _ = []"

definition run_tokens :: "string list \<Rightarrow> string list" where
  "run_tokens run = (case run of [x] \<Rightarrow> [x] | _ \<Rightarrow> bigrams run)"

definition semantic_tokens :: "string \<Rightarrow> string set" where
  "semantic_tokens text =
     set (ascii_words (lower text))
     \<union> set (concat (map run_tokens (runs is_cjk (characters (lower text)))))"

definition jaccard :: "string set \<Rightarrow> string set \<Rightarrow> rat" where
  "jaccard a b = (if a = {} \<or> b = {} then 0 else of_nat (card (a \<inter> b)) / of_nat (card (a \<union> b)))"

definition relatedness :: "string \<Rightarrow> string \<Rightarrow> rat" where
  "relatedness a b = jaccard (semantic_tokens a) (semantic_tokens b)"

section \<open>Concepts\<close>

record concept =
  co_id :: string
  co_name :: string
  co_definition :: string

definition corpus :: "string \<Rightarrow> string \<Rightarrow> string" where
  "corpus name definition = py_strip (name @ '' '' @ definition)"

record new_concept =
  nc_id :: string
  nc_name :: string
  nc_definition :: string
  nc_affected :: "string set"
  nc_relationship :: json

definition concept_src :: "dict \<Rightarrow> dict" where
  "concept_src pl = (case dget pl ''after_state'' of JObj (kv # d) \<Rightarrow> kv # d | _ \<Rightarrow> pl)"

definition concept_id_of :: "dict \<Rightarrow> string" where
  "concept_id_of src = (case dget src ''concept_id'' of JStr s \<Rightarrow> s | _ \<Rightarrow> [])"

definition concept_name_of :: "dict \<Rightarrow> string" where
  "concept_name_of src = (if has_key src ''name'' then text_at src ''name'' else text_at src ''concept_name'')"

definition new_concept_of :: "event_intent \<Rightarrow> new_concept option" where
  "new_concept_of i =
     (let pl = i_payload i; src = concept_src pl in
      if i_event_type i \<noteq> ''ConceptCreated'' \<or> concept_id_of src = [] then None
      else (let note = (case dget pl ''semantic_annotation'' of JObj d \<Rightarrow> d | _ \<Rightarrow> [])
            in Some \<lparr>nc_id = concept_id_of src, nc_name = concept_name_of src,
                     nc_definition = text_at src ''definition'',
                     nc_affected = (case dget note ''affected_concept_ids'' of
                        JArr xs \<Rightarrow> set (map py_str xs) | _ \<Rightarrow> {}),
                     nc_relationship = dget note ''relationship_type''\<rparr>))"

definition extract_new_concepts :: "event_intent list \<Rightarrow> new_concept list" where
  "extract_new_concepts intents = List.map_filter new_concept_of intents"

definition genuinely_new_markers :: "string list" where
  "genuinely_new_markers =
     [''genuinely_new'', ''genuinely-new'', ''net_new'', ''net-new'', ''brand_new'', ''brand-new'']
     @ map (map char_of) [[229, 133, 168, 230, 150, 176 :: nat], [231, 156, 159, 229, 133, 168, 230, 150, 176]]"

text \<open>A value that is true and no string has no \<open>strip\<close>.\<close>

definition asserts_genuinely_new :: "new_concept \<Rightarrow> verr + bool" where
  "asserts_genuinely_new nc =
     (if \<not> truthy (nc_relationship nc) then Inr False
      else (case nc_relationship nc of
              JStr s \<Rightarrow> Inr (lower (py_strip s) \<in> set genuinely_new_markers)
            | _ \<Rightarrow> Inl (AttributeError ''strip'')))"

definition edge_ends :: "event_intent \<Rightarrow> string list" where
  "edge_ends i =
     (if i_event_type i \<noteq> ''ConceptEdgeAdded'' then []
      else (case dget (i_payload i) ''after_state'' of
              JObj after \<Rightarrow> map py_str (filter truthy
                [dget after ''source_concept_id'', dget after ''target_concept_id''])
            | _ \<Rightarrow> []))"

definition extract_edge_linked_concepts :: "event_intent list \<Rightarrow> string set" where
  "extract_edge_linked_concepts intents = set (concat (map edge_ends intents))"

section \<open>Existing concepts\<close>

text \<open>\<open>str(x or "")\<close> of an optional text.\<close>

definition text_or_empty :: "string option \<Rightarrow> string" where
  "text_or_empty x = (case x of None \<Rightarrow> [] | Some s \<Rightarrow> s)"

text \<open>The concepts that a record replaces by others.\<close>

definition proposal_retires :: "json \<Rightarrow> string option" where
  "proposal_retires ch =
     (case ch of
        JObj c \<Rightarrow>
          (let old = str_or_empty (dget c ''entity_id'');
               fresh = (case dget c ''new_value'' of JObj nv \<Rightarrow> str_or_empty (dget nv ''replacement_concept_id'') | _ \<Rightarrow> [])
           in if str_or_empty (dget c ''entity_type'') \<in> set ['''', ''concept''] \<and> old \<noteq> [] \<and> fresh \<noteq> [] \<and> fresh \<noteq> old
              then Some old else None)
      | _ \<Rightarrow> None)"

definition created_concepts :: "event_record list \<Rightarrow> (string \<times> string) list" where
  "created_concepts recs =
     List.map_filter (\<lambda>r. if event_type r = ''ConceptCreated'' \<and> event_id r \<noteq> []
                            \<and> concept_id_of (concept_src (payload r)) \<noteq> []
                         then Some (event_id r, concept_id_of (concept_src (payload r))) else None) recs"

definition retires :: "event_record list \<Rightarrow> event_record \<Rightarrow> string list" where
  "retires recs r =
     (if event_type r = ''ConceptCreated'' \<and> is_supersede (supersede r)
      then (case map_of (rev (created_concepts recs)) (text_or_empty (superseded_event_id (supersede r))) of
              Some old \<Rightarrow> if old \<noteq> concept_id_of (concept_src (payload r)) then [old] else []
            | None \<Rightarrow> [])
      else if event_type r = ''ConceptGraphProposal''
              \<and> (is_supersede (supersede r) \<or> str_or_empty (dget (payload r) ''transition_type'') = ''superseded'')
      then (case field_of (dget (payload r) ''after_state'') ''proposed_changes'' of
              JArr chs \<Rightarrow> List.map_filter proposal_retires chs
            | _ \<Rightarrow> [])
      else [])"

definition retired_concept_ids :: "event_record list \<Rightarrow> string set" where
  "retired_concept_ids recs = set (concat (map (retires recs) recs))"

definition existing_concepts_from_records :: "event_record list \<Rightarrow> string list \<Rightarrow> bool \<Rightarrow> concept list" where
  "existing_concepts_from_records recs exclude include_retired =
     (let excluded = set exclude \<union> (if include_retired then {} else retired_concept_ids recs)
      in map snd (fold (\<lambda>r by_id.
           let src = concept_src (payload r); cid = concept_id_of src in
           if event_type r \<noteq> ''ConceptCreated'' \<or> cid = [] \<or> cid \<in> excluded then by_id
           else AList.update cid \<lparr>co_id = cid, co_name = concept_name_of src,
                  co_definition = text_at src ''definition''\<rparr> by_id) recs []))"


section \<open>Relatedness of new concepts\<close>

definition default_maturity_threshold :: nat where
  "default_maturity_threshold = 24"

definition default_semantic_min_overlap :: rat where
  "default_semantic_min_overlap = 1 / 10"

datatype signal = Declared | Semantic | Isolated_Early | Isolated_Justified | Isolated_Violation

definition related_signal :: "signal \<Rightarrow> bool" where
  "related_signal s \<longleftrightarrow> s = Declared \<or> s = Semantic"

fun signal_text :: "signal \<Rightarrow> string" where
  "signal_text Declared = ''declared''"
| "signal_text Semantic = ''semantic''"
| "signal_text Isolated_Early = ''isolated_allowed_early''"
| "signal_text Isolated_Justified = ''isolated_allowed_justified''"
| "signal_text Isolated_Violation = ''isolated_violation''"

definition best_score :: "string \<Rightarrow> concept list \<Rightarrow> rat" where
  "best_score text existing =
     (if text = [] then 0
      else fold (\<lambda>c best. max best (relatedness text (corpus (co_name c) (co_definition c)))) existing 0)"

definition classify_one :: "concept list \<Rightarrow> string set \<Rightarrow> string set \<Rightarrow> nat \<Rightarrow> rat \<Rightarrow> new_concept
    \<Rightarrow> verr + signal" where
  "classify_one existing targets edge_linked maturity min_overlap nc =
     (if (nc_affected nc \<inter> targets) - {nc_id nc} \<noteq> {} \<or> nc_id nc \<in> edge_linked then Inr Declared
      else if best_score (corpus (nc_name nc) (nc_definition nc)) existing \<ge> min_overlap then Inr Semantic
      else if length existing < maturity then Inr Isolated_Early
      else rbind (asserts_genuinely_new nc) (\<lambda>new.
             Inr (if new then Isolated_Justified else Isolated_Violation)))"

fun classify_concepts :: "(new_concept \<Rightarrow> verr + signal) \<Rightarrow> new_concept list \<Rightarrow> verr + (string \<times> signal) list" where
  "classify_concepts f [] = Inr []"
| "classify_concepts f (nc # ncs) =
     rbind (f nc) (\<lambda>s. rbind (classify_concepts f ncs) (\<lambda>rest. Inr ((nc_id nc, s) # rest)))"

definition check_concept_create_relatedness :: "event_intent list \<Rightarrow> concept list \<Rightarrow> verr + check_result" where
  "check_concept_create_relatedness intents existing =
     (let fresh = extract_new_concepts intents;
          targets = co_id ` set existing \<union> nc_id ` set fresh
      in if fresh = [] then Inr (check_skip [])
         else rbind (classify_concepts (classify_one existing targets (extract_edge_linked_concepts intents)
                       default_maturity_threshold default_semantic_min_overlap) fresh) (\<lambda>signals.
           let violations = map fst (filter (\<lambda>(i, s). s = Isolated_Violation) signals);
               notices = map (\<lambda>(i, s). ''concept_relatedness: '' @ i @ '' ('' @ signal_text s @ '')'')
                 (filter (\<lambda>(i, s). \<not> related_signal s \<and> s \<noteq> Isolated_Violation) signals)
           in Inr (if violations \<noteq> []
                   then (check_fail ''concept_isolated_no_relatedness''
                     [(''isolated_concepts'', join '','' violations),
                      (''existing_concept_count'', nat_str (length existing)),
                      (''maturity_threshold'', nat_str default_maturity_threshold)])\<lparr>cr_notices := notices\<rparr>
                   else check_ok\<lparr>cr_notices := notices\<rparr>)))"

text \<open>As the gate calls it.\<close>

definition concept_create_gate :: "event_intent list \<Rightarrow> event_record list \<Rightarrow> verr + check_result" where
  "concept_create_gate intents recs =
     check_concept_create_relatedness intents
       (existing_concepts_from_records recs (map nc_id (extract_new_concepts intents)) False)"

section \<open>Targets of new edges\<close>

definition is_external_anchor :: "string \<Rightarrow> bool" where
  "is_external_anchor t \<longleftrightarrow>
     prefix ''http://'' t \<or> prefix ''https://'' t \<or> CHR ''/'' \<in> set t \<or> suffix ''.md'' t"

definition concept_edge_of :: "event_intent \<Rightarrow> (string \<times> string \<times> string) option" where
  "concept_edge_of i =
     (if i_event_type i \<noteq> ''ConceptEdgeAdded'' then None
      else (case dget (i_payload i) ''after_state'' of
              JObj after \<Rightarrow>
                (case (nonempty (dget after ''source_concept_id''), nonempty (dget after ''target_concept_id'')) of
                   (Some s, Some t) \<Rightarrow>
                     Some (case dget after ''edge_id'' of JStr e \<Rightarrow> e | _ \<Rightarrow> [], s, t)
                 | _ \<Rightarrow> None)
            | _ \<Rightarrow> None))"

definition extract_concept_edges :: "event_intent list \<Rightarrow> (string \<times> string \<times> string) list" where
  "extract_concept_edges intents = List.map_filter concept_edge_of intents"

definition check_graph_edge_integrity :: "event_intent list \<Rightarrow> event_record list \<Rightarrow> check_result" where
  "check_graph_edge_integrity intents recs =
     (let edges = extract_concept_edges intents;
          nodes = co_id ` set (existing_concepts_from_records recs [] True) \<union> nc_id ` set (extract_new_concepts intents)
      in if edges = [] then check_skip []
         else (case find (\<lambda>(e, s, t). t \<notin> nodes \<and> \<not> is_external_anchor t) edges of
                 Some (e, s, t) \<Rightarrow> check_fail ''edge_target_unresolvable''
                   [(''edge_id'', e), (''source_concept_id'', s), (''target_concept_id'', t)]
               | None \<Rightarrow> check_ok\<lparr>cr_notices := [''graph_edge_integrity'']\<rparr>))"

end
