(* ===== verification/Gate_Retire.thy ===== *)
theory Gate_Retire
  imports Gate_Concepts
begin

text \<open>
  Retiring a concept (\<open>l0/commit_gate/concept_retire_gate.py\<close>) and the references to it
  (\<open>l1/consensus_invalidation.py\<close>).  The log is read as its raw lines, each as the JSON object it
  holds; \<open>event_at\<close> finds a committed record, \<open>impact\<close> is the candidate impact set of a concept.
\<close>

section \<open>References\<close>

definition line_after :: "dict \<Rightarrow> dict" where
  "line_after line = (case field_of (dget line ''payload'') ''after_state'' of JObj d \<Rightarrow> d | _ \<Rightarrow> [])"

definition without_prefix :: "string \<Rightarrow> string \<Rightarrow> string" where
  "without_prefix p s = (if prefix p s then drop (length p) s else s)"

definition concept_base :: "string \<Rightarrow> string" where
  "concept_base cid = takeWhile (\<lambda>c. c \<noteq> CHR ''@'') cid"

definition names_of_concept :: "string \<Rightarrow> string list" where
  "names_of_concept cid = [cid, concept_base cid, concept_base (without_prefix ''concept-'' cid)]"

definition target_resolves :: "json \<Rightarrow> string \<Rightarrow> bool" where
  "target_resolves name cid = (case nonempty name of None \<Rightarrow> False | Some s \<Rightarrow> s \<in> set (names_of_concept cid))"

definition adds_reference_to :: "string \<Rightarrow> dict \<Rightarrow> bool" where
  "adds_reference_to cid line \<longleftrightarrow>
     dget line ''event_type'' = JStr ''AtReferenceAdded''
     \<and> target_resolves (dget (line_after line) ''target_concept_name'') cid"

definition removed_reference :: "dict \<Rightarrow> string option" where
  "removed_reference line =
     (if dget line ''event_type'' = JStr ''AtReferenceRemoved''
      then as_str (dget (line_after line) ''at_reference'') else None)"

text \<open>A filter whose test may raise.\<close>

fun rfilter :: "('a \<Rightarrow> 'e + bool) \<Rightarrow> 'a list \<Rightarrow> 'e + 'a list" where
  "rfilter P [] = Inr []"
| "rfilter P (x # xs) = rbind (P x) (\<lambda>keep. rbind (rfilter P xs) (\<lambda>rest. Inr (if keep then x # rest else rest)))"

definition active_references_to :: "dict list \<Rightarrow> string \<Rightarrow> verr + dict list" where
  "active_references_to lines cid =
     (let added = map (\<lambda>l. dset ''_event_id'' (dget l ''event_id'') (line_after l)) (filter (adds_reference_to cid) lines);
          removed = List.map_filter removed_reference lines
      in rfilter (\<lambda>r. map_sum id Not (in_names (dget r ''at_reference'') removed)) added)"

definition locking_policies :: "string list" where
  "locking_policies = [''pin_to_snapshot'', ''auto_accept_latest'', ''explicit_decision_required'']"

definition policy_of :: "dict \<Rightarrow> string" where
  "policy_of r =
     (case dget r ''on_target_supersede_policy'' of
        JStr p \<Rightarrow> if p \<in> set locking_policies then p else ''explicit_decision_required''
      | _ \<Rightarrow> ''explicit_decision_required'')"

text \<open>The response to a superseded concept: one event for each reference to it.\<close>

definition aux_event :: "string \<Rightarrow> string \<Rightarrow> string option \<Rightarrow> dict \<Rightarrow> string \<times> dict" where
  "aux_event cid new_event new_hash r =
     (let ref = text_at r ''at_reference'';
          old_lock = (if truthy (dget r ''lock_event_id'') then py_str (dget r ''lock_event_id'')
                      else str_or_empty (dget r ''_event_id''));
          superseded = (\<lambda>status blocks.
            (''AtReferenceTargetSuperseded'',
             [(''reference_id'', JStr ref), (''old_lock_event_id'', JStr old_lock),
              (''new_target_event_id'', JStr new_event),
              (''locked_at_state_hash'', dget r ''locked_at_state_hash''),
              (''new_target_state_hash'', jopt new_hash), (''target_concept_name'', JStr cid),
              (''status'', JStr status), (''blocks_commit_for_referer'', JBool blocks)]))
      in if policy_of r = ''auto_accept_latest''
         then (''AtReferenceAutoUpdated'',
               [(''reference_id'', JStr ref), (''old_lock_event_id'', JStr old_lock),
                (''new_lock_event_id'', JStr new_event),
                (''old_locked_at_state_hash'', dget r ''locked_at_state_hash''),
                (''locked_at_state_hash'', jopt new_hash), (''target_concept_name'', JStr cid)])
         else if policy_of r = ''pin_to_snapshot'' then superseded ''pinned_to_old'' False
         else superseded ''awaiting_decision'' True)"

definition plan_aux_events :: "(string \<Rightarrow> event_record option) \<Rightarrow> dict list \<Rightarrow> string \<Rightarrow> string
    \<Rightarrow> verr + (string \<times> dict) list" where
  "plan_aux_events event_at lines cid new_event =
     rbind (active_references_to lines cid) (\<lambda>links.
       Inr (map (aux_event cid new_event (map_option record_hash (event_at new_event))) links))"

definition stale_keys :: "string list" where
  "stale_keys = [''reference_id'', ''source_concept_id'', ''target_concept_name'', ''locked_event_id'',
     ''target_superseded_at_event_id'', ''staleness_status'', ''on_target_supersede_policy'']"

definition detect_stale_references :: "dict option \<Rightarrow> dict list" where
  "detect_stale_references graph =
     map (\<lambda>r. map (\<lambda>k. (k, dget r k)) stale_keys)
       (filter (\<lambda>r. dget r ''is_active'' \<noteq> JBool False \<and> truthy (dget r ''is_stale''))
         (obj_items (dget (case graph of None \<Rightarrow> [] | Some g \<Rightarrow> g) ''references'')))"

section \<open>What a batch retires\<close>

record retiring_concept =
  rc_old :: string
  rc_new :: string

definition proposal_concept_changes :: "dict \<Rightarrow> dict list" where
  "proposal_concept_changes pl =
     filter (\<lambda>c. str_or_empty (dget c ''entity_type'') \<in> set ['''', ''concept''])
       (obj_items (field_of (dget pl ''after_state'') ''proposed_changes''))"

text \<open>The first text that is not empty.\<close>

definition first_text :: "string list \<Rightarrow> string" where
  "first_text xs = (case filter (\<lambda>s. s \<noteq> []) xs of [] \<Rightarrow> [] | x # _ \<Rightarrow> x)"

definition subject_concept :: "subject list \<Rightarrow> string" where
  "subject_concept subs = first_text (map entity_id (filter (\<lambda>s. entity_type s = ''concept'') subs))"

text \<open>What one intent retires: nothing, an identifier that does not resolve, or a concept.\<close>

definition retiring_of :: "(string \<Rightarrow> string option) \<Rightarrow> event_intent \<Rightarrow> (string + retiring_concept) option" where
  "retiring_of resolve i =
     (let pl = i_payload i; sup = is_supersede (i_supersede i);
          sup_event = text_or_empty (superseded_event_id (i_supersede i)) in
      if i_event_type i = ''ConceptCreated'' \<and> sup
      then (case (if sup_event = [] then None else resolve sup_event) of
              None \<Rightarrow> Some (Inl (if sup_event = [] then ''<missing-superseded_event_id>'' else sup_event))
            | Some old \<Rightarrow>
                (let fresh = text_at (after_state pl) ''concept_id''
                 in Some (Inr \<lparr>rc_old = old, rc_new = (if fresh = [] then old else fresh)\<rparr>)))
      else if i_event_type i = ''ConceptGraphProposal''
              \<and> (sup \<or> str_or_empty (dget pl ''transition_type'') = ''superseded'')
      then (let changes = proposal_concept_changes pl;
                named = first_text (map (\<lambda>c. str_or_empty (dget c ''entity_id'')) changes);
                fresh = first_text (map (\<lambda>c. str_or_empty (field_of (dget c ''new_value'') ''replacement_concept_id'')) changes);
                old = (if named = [] then subject_concept (i_subjects i) else named)
            in if old = []
               then Some (Inl (if sup_event = [] then ''<proposal-no-concept-entity>'' else sup_event))
               else Some (Inr \<lparr>rc_old = old, rc_new = (if fresh = [] then old else fresh)\<rparr>))
      else None)"

section \<open>What a batch migrates\<close>

definition ref_field :: "dict \<Rightarrow> string list \<Rightarrow> string" where
  "ref_field r names = first_text (map (\<lambda>n. str_or_empty (dget r n)) names)"

text \<open>A reference that points at one of the new versions: its source.\<close>

definition repointed_source :: "string set \<Rightarrow> dict \<Rightarrow> string option" where
  "repointed_source fresh after =
     (let target = ref_field after [''target_concept_name'']; source = ref_field after [''source_concept_id'']
      in if source \<noteq> [] \<and> target \<noteq> [] \<and> (\<exists>nv \<in> fresh. nv \<noteq> [] \<and> target \<in> set (names_of_concept nv))
         then Some source else None)"

definition batch_removed :: "event_intent list \<Rightarrow> string set" where
  "batch_removed intents =
     set (filter (\<lambda>s. s \<noteq> [])
       (map (\<lambda>i. ref_field (after_state (i_payload i)) [''at_reference'', ''reference_id''])
         (filter (\<lambda>i. i_event_type i = ''AtReferenceRemoved'') intents)))"

definition batch_repointed :: "string set \<Rightarrow> event_intent list \<Rightarrow> string set" where
  "batch_repointed fresh intents =
     set (List.map_filter (repointed_source fresh \<circ> after_state \<circ> i_payload)
       (filter (\<lambda>i. i_event_type i = ''AtReferenceAdded'') intents))"

definition batch_concepts :: "event_intent list \<Rightarrow> string set" where
  "batch_concepts intents =
     set (filter (\<lambda>s. s \<noteq> []) (concat (map (\<lambda>i.
       if i_event_type i = ''ConceptCreated'' then [text_at (after_state (i_payload i)) ''concept_id'']
       else if i_event_type i = ''ConceptGraphProposal''
       then map (\<lambda>c. str_or_empty (dget c ''entity_id'')) (proposal_concept_changes (i_payload i))
       else []) intents)))"

text \<open>Sources that earlier lines of the log point at a new version.\<close>

definition committed_repointed_sources :: "dict list \<Rightarrow> string set \<Rightarrow> string set" where
  "committed_repointed_sources lines fresh =
     set (List.map_filter (repointed_source fresh)
       (List.map_filter (\<lambda>l. case field_of (dget l ''payload'') ''after_state'' of JObj a \<Rightarrow> Some a | _ \<Rightarrow> None)
         (filter (\<lambda>l. dget l ''event_type'' = JStr ''AtReferenceAdded'') lines)))"


section \<open>The check\<close>

record migrations =
  mi_removed :: "string set"
  mi_repointed :: "string set"
  mi_committed :: "string set"
  mi_concepts :: "string set"

text \<open>What the intent itself declares as migrated decides nothing.\<close>

definition migrated :: "migrations \<Rightarrow> string \<Rightarrow> string \<Rightarrow> bool" where
  "migrated m source ref \<longleftrightarrow>
     ref \<noteq> [] \<and> ref \<in> mi_removed m
     \<or> source \<noteq> [] \<and> source \<in> mi_repointed m \<union> mi_committed m \<union> mi_concepts m"

definition ref_ids :: "dict \<Rightarrow> string \<times> string" where
  "ref_ids r = (ref_field r [''source_concept_id''], ref_field r [''at_reference'', ''reference_id''])"

definition blocking_refs :: "dict list \<Rightarrow> dict list" where
  "blocking_refs links = filter (\<lambda>r. policy_of r = ''explicit_decision_required'') links"

text \<open>The sources and the references of one concept that are left behind, and the notices.\<close>

definition left_behind :: "migrations \<Rightarrow> (string \<Rightarrow> string set) \<Rightarrow> retiring_concept \<Rightarrow> dict list
    \<Rightarrow> (string \<times> string) list \<times> string list" where
  "left_behind m impact rc links =
     (let blocking = map ref_ids (blocking_refs links);
          untracked = impact (rc_old rc) - fst ` set blocking - {rc_old rc, rc_new rc}
      in (filter (\<lambda>(source, ref). \<not> migrated m source ref) blocking,
          (if untracked = {} then [] else [''concept_retire: '' @ rc_old rc @ '' untracked''])
          @ [''concept_retire: '' @ rc_old rc @ '' blocking'']))"

fun retire_all :: "migrations \<Rightarrow> (string \<Rightarrow> string set) \<Rightarrow> (string \<Rightarrow> verr + dict list) \<Rightarrow> retiring_concept list
    \<Rightarrow> verr + ((string \<times> string) list \<times> string list)" where
  "retire_all m impact refs_for [] = Inr ([], [])"
| "retire_all m impact refs_for (rc # rcs) =
     rbind (refs_for (rc_old rc)) (\<lambda>links.
     rbind (retire_all m impact refs_for rcs) (\<lambda>(left, notices).
       let (l, n) = left_behind m impact rc links in Inr (l @ left, n @ notices)))"

definition sorted_texts :: "string list \<Rightarrow> string list" where
  "sorted_texts xs = sort (remdups (filter (\<lambda>s. s \<noteq> []) xs))"

definition rights :: "('a + 'b) list \<Rightarrow> 'b list" where
  "rights xs = List.map_filter (\<lambda>x. case x of Inl _ \<Rightarrow> None | Inr b \<Rightarrow> Some b) xs"

definition lefts :: "('a + 'b) list \<Rightarrow> 'a list" where
  "lefts xs = List.map_filter (\<lambda>x. case x of Inl a \<Rightarrow> Some a | Inr _ \<Rightarrow> None) xs"

definition fresh_versions :: "retiring_concept list \<Rightarrow> string set" where
  "fresh_versions rcs = rc_new ` {rc \<in> set rcs. rc_new rc \<noteq> [] \<and> rc_new rc \<noteq> rc_old rc}"

definition migrations_of :: "event_intent list \<Rightarrow> (string set \<Rightarrow> string set) \<Rightarrow> string set \<Rightarrow> migrations" where
  "migrations_of intents committed_for fresh =
     \<lparr>mi_removed = batch_removed intents, mi_repointed = batch_repointed fresh intents,
      mi_committed = (if fresh = {} then {} else committed_for fresh), mi_concepts = batch_concepts intents\<rparr>"

definition check_concept_retire_migration :: "event_intent list \<Rightarrow> (string \<Rightarrow> string option)
    \<Rightarrow> (string \<Rightarrow> verr + dict list) \<Rightarrow> (string \<Rightarrow> string set) \<Rightarrow> (string set \<Rightarrow> string set) \<Rightarrow> verr + check_result" where
  "check_concept_retire_migration intents resolve refs_for impact committed_for =
     (let found = List.map_filter (retiring_of resolve) intents;
          m = migrations_of intents committed_for (fresh_versions (rights found))
      in if found = [] then Inr (check_skip [])
         else if lefts found \<noteq> []
         then Inr (check_fail ''concept_retire_superseded_target_unresolvable''
                [(''unresolvable_superseded_event_ids'', join '','' (lefts found))])
         else rbind (retire_all m impact refs_for (rights found)) (\<lambda>(left, notices).
           Inr (if \<exists>(source, ref) \<in> set left. source \<noteq> [] \<or> ref \<noteq> []
                then (check_fail ''concept_retire_unmigrated_dependents''
                  [(''retiring_concepts'', join '','' (sorted_texts (map rc_old (rights found)))),
                   (''unmigrated_dependents'', join '','' (sorted_texts (map fst left))),
                   (''unmigrated_references'', join '','' (sorted_texts (map snd left)))])\<lparr>cr_notices := notices\<rparr>
                else check_ok\<lparr>cr_notices := notices\<rparr>)))"

definition superseded_concept :: "(string \<Rightarrow> event_record option) \<Rightarrow> string \<Rightarrow> string option" where
  "superseded_concept event_at eid =
     Option.bind (event_at eid) (\<lambda>r.
       let cid = dget (after_state (payload r)) ''concept_id'' in if truthy cid then Some (py_str cid) else None)"

text \<open>As the gate calls it.\<close>

definition concept_retire_gate :: "(string \<Rightarrow> event_record option) \<Rightarrow> dict list \<Rightarrow> (string \<Rightarrow> string set)
    \<Rightarrow> event_intent list \<Rightarrow> verr + check_result" where
  "concept_retire_gate event_at lines impact intents =
     check_concept_retire_migration intents (superseded_concept event_at) (active_references_to lines) impact
       (committed_repointed_sources lines)"

section \<open>What a passed check means\<close>

lemma in_names_False: "in_names v names = Inr False \<Longrightarrow> v \<notin> JStr ` set names"
  by (auto simp: in_names_def split: json.splits)

lemma rfilter_set: "rfilter P xs = Inr ys \<Longrightarrow> x \<in> set xs \<Longrightarrow> P x = Inr True \<Longrightarrow> x \<in> set ys"
  by (induction xs arbitrary: ys) (auto simp: py_simps split: if_splits)

lemma rfilter_total: "rfilter P xs = Inr ys \<Longrightarrow> x \<in> set xs \<Longrightarrow> \<exists>b. P x = Inr b"
  by (induction xs arbitrary: ys) (auto simp: py_simps split: if_splits)

text \<open>A reference is listed unless some line removes it.\<close>

lemma active_referencesI:
  assumes "active_references_to lines cid = Inr links" and "l \<in> set lines" and "adds_reference_to cid l"
    and "dget (line_after l) ''at_reference'' \<notin> JStr ` set (List.map_filter removed_reference lines)"
  shows "dset ''_event_id'' (dget l ''event_id'') (line_after l) \<in> set links"
proof -
  let ?r = "dset ''_event_id'' (dget l ''event_id'') (line_after l)"
  let ?removed = "List.map_filter removed_reference lines"
  have at: "dget ?r ''at_reference'' = dget (line_after l) ''at_reference''" by (simp add: py_simps)
  obtain b where "map_sum id Not (in_names (dget ?r ''at_reference'') ?removed) = Inr b"
    using rfilter_total [OF assms(1) [unfolded active_references_to_def Let_def], of ?r] assms(2,3) by auto
  then have "in_names (dget ?r ''at_reference'') ?removed = Inr False"
    using assms(4) unfolding at by (auto simp: in_names_def split: json.splits)
  then show ?thesis
    using rfilter_set [OF assms(1) [unfolded active_references_to_def Let_def], of ?r] assms(2,3) by auto
qed

lemma retire_all_left:
  assumes "retire_all m impact refs_for rcs = Inr (left, notices)" and "rc \<in> set rcs" and "refs_for (rc_old rc) = Inr links"
    and "r \<in> set (blocking_refs links)" and "\<not> migrated m (fst (ref_ids r)) (snd (ref_ids r))"
  shows "ref_ids r \<in> set left"
  using assms
proof (induction rcs arbitrary: left notices)
  case (Cons x rcs)
  then show ?case by (auto simp: py_simps left_behind_def Let_def split: prod.splits)
qed simp

lemma retire_all_refs:
  "retire_all m impact refs_for rcs = Inr out \<Longrightarrow> rc \<in> set rcs \<Longrightarrow> \<exists>links. refs_for (rc_old rc) = Inr links"
  by (induction rcs arbitrary: out) (auto simp: py_simps case_prod_beta Let_def)

end
