(* ===== verification/Commit_Gate.thy ===== *)
theory Commit_Gate
  imports Gate_Log Gate_Retire Review_Verdict Envelope_Builder
begin

text \<open>
  The commit gate (\<open>l0/commit_gate/gate.py\<close>): the checks in their order, the decision on an
  envelope with the batch it appends, the second phase after an audit, the recovery of abandoned
  envelopes and the bootstrap.  Everything is over any state with the operations \<open>log_ops\<close>.
  Refreshing the views after an accepted commit touches no part of that state and cannot raise.
\<close>

section \<open>Actions\<close>

text \<open>An action reads and changes the state and returns an exception or a value.\<close>

type_synonym ('s, 'a) act = "'s \<Rightarrow> (verr + 'a) \<times> 's"

definition ret :: "'a \<Rightarrow> ('s, 'a) act" where
  "ret x = (\<lambda>s. (Inr x, s))"

definition fail :: "verr \<Rightarrow> ('s, 'a) act" where
  "fail e = (\<lambda>s. (Inl e, s))"

definition bind :: "('s, 'a) act \<Rightarrow> ('a \<Rightarrow> ('s, 'b) act) \<Rightarrow> ('s, 'b) act" where
  "bind m f = (\<lambda>s. case m s of (Inl e, s') \<Rightarrow> (Inl e, s') | (Inr x, s') \<Rightarrow> f x s')"

definition total :: "('s \<Rightarrow> 'a \<times> 's) \<Rightarrow> ('s, 'a) act" where
  "total m = (\<lambda>s. let (x, s') = m s in (Inr x, s'))"

definition lift :: "verr + 'a \<Rightarrow> ('s, 'a) act" where
  "lift r = (\<lambda>s. (r, s))"

fun bind_all :: "('a \<Rightarrow> ('s, 'b) act) \<Rightarrow> 'a list \<Rightarrow> ('s, 'b list) act" where
  "bind_all f [] = ret []"
| "bind_all f (x # xs) = bind (f x) (\<lambda>y. bind (bind_all f xs) (\<lambda>ys. ret (y # ys)))"

lemma bind_simps [simp]:
  "bind (ret x) f s = f x s" "bind (fail e) f s = (Inl e, s)" "bind (lift (Inr x)) f s = f x s"
  "bind (lift (Inl e)) f s = (Inl e, s)" "ret x s = (Inr x, s)" "fail e s = (Inl e, s)" "lift r s = (r, s)"
  by (simp_all add: bind_def ret_def fail_def lift_def)

lemma bind_Inr:
  "bind m f s = (Inr y, s'') \<longleftrightarrow> (\<exists>x s'. m s = (Inr x, s') \<and> f x s' = (Inr y, s''))"
  by (auto simp: bind_def split: prod.splits sum.splits)

section \<open>The environment of a gate\<close>

text \<open>
  What the gate is given besides the log: the lax readers of pydantic, the clock, the audit sampler
  and the window of its oscillation check, the regular expression engine, the fence files and whether
  they are enforced, the flags of the two classification rules, the router of findings, the impact
  set of a concept, and the checks that are arguments.
\<close>

record gate_env =
  ge_lax :: lax
  ge_now :: string
  ge_sample :: "string \<Rightarrow> nat \<Rightarrow> bool"
  ge_recent :: "string \<Rightarrow> bool"
  ge_re_search :: "string \<Rightarrow> string \<Rightarrow> bool option"
  ge_fence :: "string \<Rightarrow> string option"
  ge_enforce_fence :: bool
  ge_r2 :: bool
  ge_r3 :: bool
  ge_routable :: "event_intent \<Rightarrow> bool"
  ge_impact :: "string \<Rightarrow> string set"
  ge_cold :: "string \<Rightarrow> event_record option"
  ge_consolidation :: "index_api \<Rightarrow> dict \<Rightarrow> check_result"
  ge_closure_evidence :: "event_intent list \<Rightarrow> index_api \<Rightarrow> event_record list \<Rightarrow> check_result"
  ge_live_target :: "event_intent list \<Rightarrow> event_record list \<Rightarrow> check_result"

section \<open>Outcomes\<close>

record drift_info =
  di_drift_nodes :: "(string \<times> string) list"
  di_relevant_subjects :: "(string \<times> string) list"
  di_invalidating_event_ids :: "string list"
  di_capsule :: string
  di_type :: string

type_synonym texts = "(string \<times> string) list"

record outcome =
  oc_rejection :: "string option"
  oc_reason :: "string option"
  oc_evidence :: texts
  oc_notices :: "string list"
  oc_violations :: "obligation_violation list"
  oc_drift :: "drift_info option"
  oc_performed :: "texts list"

definition rejected :: "string \<Rightarrow> string option \<Rightarrow> texts \<Rightarrow> outcome" where
  "rejected type reason evidence =
     \<lparr>oc_rejection = Some type, oc_reason = reason, oc_evidence = evidence, oc_notices = [],
      oc_violations = [], oc_drift = None, oc_performed = []\<rparr>"

text \<open>What the checks so far have noticed and performed.\<close>

record progress =
  pg_notices :: "string list"
  pg_performed :: "texts list"

definition performed :: "string \<Rightarrow> string \<Rightarrow> texts" where
  "performed name result = [(''check_type'', name), (''result'', result)]"

definition passed_or_na :: "bool \<Rightarrow> string" where
  "passed_or_na b = (if b then ''passed'' else ''not_applicable'')"

definition pass_check :: "string \<Rightarrow> string \<Rightarrow> string list \<Rightarrow> progress \<Rightarrow> progress" where
  "pass_check name result notices pg =
     pg\<lparr>pg_notices := pg_notices pg @ notices, pg_performed := pg_performed pg @ [performed name result]\<rparr>"

text \<open>A check stops with an outcome or passes the progress on.\<close>

type_synonym 's check = "progress \<Rightarrow> ('s, outcome + progress) act"

definition judge :: "string \<Rightarrow> string \<Rightarrow> (check_result \<Rightarrow> string) \<Rightarrow> check_result \<Rightarrow> 's check" where
  "judge type name label res = (\<lambda>pg.
     if cr_passed res then ret (Inr (pass_check name (label res) (cr_notices res) pg))
     else ret (Inl (rejected type (cr_reason res) (cr_evidence res))))"

definition always_passed :: "check_result \<Rightarrow> string" where
  "always_passed res = ''passed''"

definition if_applicable :: "check_result \<Rightarrow> string" where
  "if_applicable res = passed_or_na (cr_applicable res)"

fun run_in_order :: "'s check list \<Rightarrow> 's check" where
  "run_in_order [] pg = ret (Inr pg)"
| "run_in_order (c # cs) pg =
     bind (c pg) (\<lambda>r. case r of Inl out \<Rightarrow> ret (Inl out) | Inr pg' \<Rightarrow> run_in_order cs pg')"

section \<open>The checks on the payload and the intents\<close>

definition violation_type :: string where
  "violation_type = ''obligation_violation''"

definition obligation_match_content :: "dict \<Rightarrow> string" where
  "obligation_match_content pl =
     join [LF] (concat (map (\<lambda>p. List.map_filter (\<lambda>k. nonempty (dget p k))
                  [''summary'', ''content'', ''detail'', ''after_content'', ''description'']) (obj_items (dget pl ''patches'')))
                @ List.map_filter (\<lambda>k. nonempty (dget pl k)) [''change_summary'', ''content'', ''diff'', ''definition''])"

definition as_of_of :: "dict \<Rightarrow> int" where
  "as_of_of pl = (case as_int (dget pl ''as_of_projection_seq'') of Some n \<Rightarrow> n | None \<Rightarrow> 0)"

definition write_set_of :: "dict \<Rightarrow> json" where
  "write_set_of pl = (case dget pl ''write_set'' of JArr xs \<Rightarrow> JArr xs | _ \<Rightarrow> JArr [])"

definition capsule_ref_of :: "dict \<Rightarrow> string" where
  "capsule_ref_of pl = str_or (dget pl ''capsule_compiled_event_id'') ''evt-no-capsule''"

definition finding_label :: "event_intent list \<Rightarrow> check_result \<Rightarrow> string" where
  "finding_label intents res = passed_or_na (list_ex is_finding intents)"

definition envelope_checks :: "gate_env \<Rightarrow> event_intent list \<Rightarrow> dict \<Rightarrow> 's check list" where
  "envelope_checks env intents pl =
     [\<lambda>pg. bind (lift (check_envelope_integrity pl)) (\<lambda>res.
        judge violation_type ''envelope_integrity'' always_passed res pg),
      judge violation_type ''obligation_capture_provenance'' always_passed
        (check_obligation_capture_provenance intents),
      judge violation_type ''finding_routability_birth_gate'' (finding_label intents)
        (check_finding_routability (ge_routable env) intents),
      judge violation_type ''finding_classification_consistency'' (finding_label intents)
        (check_finding_classification_consistency (ge_r2 env) (ge_r3 env) intents)]"

text \<open>Version, write, ownership and the two drifts.\<close>

definition version_check :: "index_api \<Rightarrow> dict \<Rightarrow> 's check" where
  "version_check api pl =
     (let res = check_version_consistency api (text_at pl ''capsule_compiled_event_id'')
      in judge (if cr_reason res = Some ''capsule_superseded'' then ''version_conflict'' else violation_type)
           ''version_consistency'' always_passed res)"

definition ownership_check :: "'s log_ops \<Rightarrow> dict \<Rightarrow> 's check" where
  "ownership_check ops pl = (\<lambda>pg.
     let run = as_str (dget pl ''run_id''); ws = write_set_of pl
     in bind (if (case run of Some r \<Rightarrow> r \<noteq> [] | None \<Rightarrow> False) \<and> truthy ws then total (lo_ownership ops) else ret None)
          (\<lambda>projection. judge ''write_conflict'' ''ownership_conflict'' always_passed
             (check_ownership_conflict projection ws run) pg))"

definition pair_texts :: "(string \<times> string) list \<Rightarrow> string" where
  "pair_texts ks = join '';'' (map colon_ref ks)"

definition scope_check :: "index_api \<Rightarrow> dict \<Rightarrow> 's check" where
  "scope_check api pl = (\<lambda>pg.
     let res = check_scope_drift api (capsule_ref_of pl) (scope_touched_from_payload pl)
     in if so_passed res
        then ret (Inr (pass_check ''scope_drift'' ''passed'' (case so_notice res of Some n \<Rightarrow> [n] | None \<Rightarrow> []) pg))
        else ret (Inl ((rejected ''drift_detected'' (Some ''scope_exceeded'')
               [(''drift_set'', pair_texts (so_drift_nodes res)), (''capsule_scope'', join '','' (so_capsule_scope res))])
             \<lparr>oc_drift := Some \<lparr>di_drift_nodes = so_drift_nodes res,
                di_relevant_subjects = map (Pair ''concept'') (so_capsule_scope res),
                di_invalidating_event_ids = [], di_capsule = capsule_ref_of pl, di_type = ''scope''\<rparr>\<rparr>)))"

definition freshness_of :: "index_api \<Rightarrow> dict \<Rightarrow> freshness_result" where
  "freshness_of api pl =
     check_freshness_drift api (freshness_relevant_subjects api (capsule_ref_of pl) pl) (as_of_of pl)"

definition freshness_drift :: "index_api \<Rightarrow> dict \<Rightarrow> drift_info" where
  "freshness_drift api pl =
     \<lparr>di_drift_nodes = fr_drift_nodes (freshness_of api pl),
      di_relevant_subjects = sorted_list_of_set (freshness_relevant_subjects api (capsule_ref_of pl) pl),
      di_invalidating_event_ids = fr_invalidating_event_ids (freshness_of api pl),
      di_capsule = capsule_ref_of pl, di_type = ''freshness''\<rparr>"

definition drift_evidence :: "drift_info \<Rightarrow> texts" where
  "drift_evidence di =
     [(''invalidating_event_ids'', join '','' (di_invalidating_event_ids di)),
      (''drift_nodes'', pair_texts (di_drift_nodes di))]"

definition freshness_check :: "index_api \<Rightarrow> dict \<Rightarrow> 's check" where
  "freshness_check api pl = (\<lambda>pg.
     let res = freshness_of api pl
     in if fr_passed res
        then ret (Inr (pass_check ''freshness_drift'' ''passed'' (case fr_notice res of Some n \<Rightarrow> [n] | None \<Rightarrow> []) pg))
        else ret (Inl ((rejected ''drift_detected'' (Some ''freshness_drift'') (drift_evidence (freshness_drift api pl)))
             \<lparr>oc_drift := Some (freshness_drift api pl)\<rparr>)))"

definition conflict_checks :: "'s log_ops \<Rightarrow> index_api \<Rightarrow> dict \<Rightarrow> 's check list" where
  "conflict_checks ops api pl =
     [version_check api pl,
      judge ''write_conflict'' ''write_conflict'' always_passed
        (check_write_conflict api (write_set_of pl) (as_of_of pl)),
      ownership_check ops pl, scope_check api pl, freshness_check api pl]"


text \<open>Self check, claims, novelty, obligations.\<close>

definition self_check_gate :: "dict \<Rightarrow> 's check" where
  "self_check_gate pl = (\<lambda>pg.
     let checks = blocking_checks (dget pl ''self_check'')
     in case find (\<lambda>c. dget c ''status'' \<noteq> JStr ''passed'') checks of
          Some c \<Rightarrow> ret (Inl (rejected violation_type (Some ''blocking_check_failed'')
                      [(''check_id'', text_at c ''check_id'')]))
        | None \<Rightarrow> ret (Inr (pass_check ''skill_artifact_self_check'' (passed_or_na (checks \<noteq> [])) [] pg)))"

definition claims_gate :: "dict \<Rightarrow> 's check" where
  "claims_gate pl = judge ''claim_boundary_exceeded'' ''claims_boundary''
     (\<lambda>res. passed_or_na (cr_notices res = [])) (check_claims_boundary pl)"

definition superseding_intents :: "event_intent list \<Rightarrow> event_intent list" where
  "superseding_intents intents =
     filter (\<lambda>i. i_event_type i \<noteq> ''InvalidationCascade'' \<and> is_supersede (i_supersede i)) intents"

definition novelty_gate :: "event_intent list \<Rightarrow> 's check" where
  "novelty_gate intents = (\<lambda>pg.
     let sups = superseding_intents intents
     in if list_ex (\<lambda>i. py_strip (text_or_empty (novelty (i_supersede i))) = []) sups
        then ret (Inl (rejected ''novelty_missing'' (Some ''novelty_missing'') []))
        else ret (Inr (pass_check ''novelty'' (passed_or_na (sups \<noteq> [])) [] pg)))"

definition obligation_gate :: "gate_env \<Rightarrow> index_api \<Rightarrow> dict \<Rightarrow> 's check" where
  "obligation_gate env api pl = (\<lambda>pg.
     let declared = (case dget pl ''active_obligations_declared'' of JArr xs \<Rightarrow> xs | _ \<Rightarrow> []);
         res = check_obligations (ge_re_search env) api (text_at pl ''capsule_compiled_event_id'') declared
                 (obligation_match_content pl)
     in if or_passed res
        then ret (Inr (pass_check ''obligation_check'' ''passed'' (or_notices res) pg))
        else ret (Inl ((rejected violation_type (Some ''obligation_violated'')
               [(''violated_obligation_ids'', join '','' (map ov_obligation_id (or_violations res)))])
             \<lparr>oc_violations := or_violations res\<rparr>)))"

definition payload_checks :: "gate_env \<Rightarrow> event_intent list \<Rightarrow> index_api \<Rightarrow> dict \<Rightarrow> 's check list" where
  "payload_checks env intents api pl =
     [self_check_gate pl,
      judge violation_type ''completeness_requirements'' always_passed
        (check_completeness_requirements (map i_event_type intents) (dget pl ''self_check'')),
      claims_gate pl, novelty_gate intents, obligation_gate env api pl]"

section \<open>The checks on completions and on the graph\<close>

definition consolidation_patch :: "dict \<Rightarrow> bool" where
  "consolidation_patch pl \<longleftrightarrow>
     list_ex (\<lambda>p. dget p ''patch_type'' = JStr ''consolidation_event'') (obj_items (dget pl ''patches''))"

text \<open>The invariants of a consolidation are only computed for one; they read the log again.\<close>

definition consolidation_gate :: "gate_env \<Rightarrow> 's log_ops \<Rightarrow> dict \<Rightarrow> 's check" where
  "consolidation_gate env ops pl = (\<lambda>pg.
     bind (if \<not> consolidation_patch pl then ret (check_skip [])
           else (case dget pl ''consolidation_envelope'' of
                   JObj ce \<Rightarrow> bind (lo_index ops) (\<lambda>api. ret (ge_consolidation env api ce))
                 | v \<Rightarrow> ret (check_fail ''consolidation_event patch present but no consolidation_envelope payload''
                           [(''has_consolidation_envelope'', py_str (JBool (v \<noteq> JNull)))])))
       (\<lambda>res. judge ''consolidation_invariant_violated'' ''consolidation_invariants'' if_applicable res pg))"

definition fencing_gate :: "gate_env \<Rightarrow> event_intent list \<Rightarrow> 's check" where
  "fencing_gate env intents = (\<lambda>pg.
     let res = check_fencing_token (ge_enforce_fence env) (ge_fence env) intents
     in if fe_passed res
        then ret (Inr (pg\<lparr>pg_performed := pg_performed pg
               @ [[(''check_type'', ''fencing_token''),
                   (''result'', if fe_would_reject res then ''would_reject_observed'' else ''passed''),
                   (''enforce'', if fe_enforce res then ''on'' else ''off'')]]\<rparr>))
        else ret (Inl (rejected violation_type (Some ''fencing_token_stale'') (fe_evidence res))))"

text \<open>The records that new concepts replace, each looked up on its own.\<close>

definition superseded_events :: "event_intent list \<Rightarrow> string list" where
  "superseded_events intents =
     filter (\<lambda>e. e \<noteq> []) (map (\<lambda>i. text_or_empty (superseded_event_id (i_supersede i)))
       (filter (\<lambda>i. i_event_type i = ''ConceptCreated'' \<and> is_supersede (i_supersede i)) intents))"

definition look_up :: "gate_env \<Rightarrow> 's log_ops \<Rightarrow> string \<Rightarrow> ('s, event_record option) act" where
  "look_up env ops eid = bind (lo_index ops) (\<lambda>api. ret (get_event api (ge_cold env) eid))"

definition retire_gate :: "gate_env \<Rightarrow> 's log_ops \<Rightarrow> event_intent list \<Rightarrow> 's check" where
  "retire_gate env ops intents = (\<lambda>pg.
     bind (bind_all (\<lambda>e. bind (look_up env ops e) (\<lambda>r. ret (e, r))) (superseded_events intents)) (\<lambda>found.
     bind (if list_ex (\<lambda>i. retiring_of (\<lambda>e. None) i \<noteq> None) intents then total (lo_lines ops) else ret []) (\<lambda>lines.
     bind (lift (concept_retire_gate (\<lambda>e. Option.bind (map_of found e) id) lines (ge_impact env) intents)) (\<lambda>res.
       judge violation_type ''concept_retire_migration'' if_applicable res pg))))"

definition completion_checks :: "gate_env \<Rightarrow> 's log_ops \<Rightarrow> event_intent list \<Rightarrow> index_api \<Rightarrow> dict \<Rightarrow> 's check list" where
  "completion_checks env ops intents api pl =
     [consolidation_gate env ops pl,
      judge violation_type ''completion_claims'' always_passed (check_completion_claims api pl),
      judge violation_type ''review_verdict_gated_completion'' always_passed
        (check_review_verdict_gated_completion intents api (api_records api)),
      judge violation_type ''closure_evidence_verification'' if_applicable
        (ge_closure_evidence env intents api (api_records api)),
      judge violation_type ''activation_acceptance'' if_applicable
        (check_activation_acceptance intents (api_records api)),
      judge violation_type ''live_target_reconciled'' if_applicable (ge_live_target env intents (api_records api)),
      fencing_gate env intents]"

definition graph_checks :: "gate_env \<Rightarrow> 's log_ops \<Rightarrow> event_intent list \<Rightarrow> index_api \<Rightarrow> 's check list" where
  "graph_checks env ops intents api =
     [\<lambda>pg. bind (lift (concept_create_gate intents (api_records api))) (\<lambda>res.
        judge violation_type ''concept_create_relatedness'' if_applicable res pg),
      retire_gate env ops intents,
      judge violation_type ''graph_edge_integrity'' if_applicable (check_graph_edge_integrity intents (api_records api))]"

definition all_checks :: "gate_env \<Rightarrow> 's log_ops \<Rightarrow> event_intent list \<Rightarrow> index_api \<Rightarrow> dict \<Rightarrow> 's check list" where
  "all_checks env ops intents api pl =
     envelope_checks env intents pl @ conflict_checks ops api pl @ payload_checks env intents api pl
     @ completion_checks env ops intents api pl @ graph_checks env ops intents api"

definition run_checks :: "gate_env \<Rightarrow> 's log_ops \<Rightarrow> event_intent list \<Rightarrow> index_api \<Rightarrow> dict \<Rightarrow> string list
    \<Rightarrow> ('s, outcome) act" where
  "run_checks env ops intents api pl notices =
     bind (run_in_order (all_checks env ops intents api pl) \<lparr>pg_notices = notices, pg_performed = []\<rparr>) (\<lambda>r.
       case r of
         Inl out \<Rightarrow> ret out
       | Inr pg \<Rightarrow> ret \<lparr>oc_rejection = None, oc_reason = None, oc_evidence = [], oc_notices = pg_notices pg,
                      oc_violations = [], oc_drift = None, oc_performed = pg_performed pg\<rparr>)"


section \<open>The payload the checks see\<close>

definition default_key :: "string \<Rightarrow> json \<Rightarrow> dict \<Rightarrow> dict" where
  "default_key k v pl = (if truthy (dget pl k) then pl else dset k v pl)"

definition normalize_envelope_payload :: "event_record \<Rightarrow> dict \<Rightarrow> event_intent list \<Rightarrow> dict \<times> string list" where
  "normalize_envelope_payload r raw intents =
     (let prov = provenance r;
          p1 = default_key ''schema_version'' (JStr (schema_version r)) raw;
          p2 = default_key ''envelope_id'' (JStr (if local_intent_id r = [] then event_id r else local_intent_id r)) p1;
          session = (if truthy (dget p2 ''session_id'') then py_str (dget p2 ''session_id'')
                     else text_or (session_id prov) (str_or (dget p2 ''envelope_id'') ''unknown''));
          p3 = default_key ''task_id'' (JStr (text_or (task_id prov) (''session:'' @ session))) p2;
          p4 = default_key ''run_id'' (JStr (text_or (run_id prov) (''session:'' @ session))) p3;
          p5 = default_key ''fork_id'' (JStr (text_or (fork_name prov) (actor_id prov))) p4;
          p6 = (if has_key p5 ''active_obligations_declared'' then p5
                else dset ''active_obligations_declared'' (JArr []) p5);
          capsule = str_or (dget p6 ''capsule_compiled_event_id'') [];
          task = py_str (dget p6 ''task_id'');
          ws = map (JObj \<circ> write_entry_dump) (derive_write_set intents);
          ws' = (if ws = [] \<and> intents \<noteq> []
                 then [JObj [(''entity_type'', JStr ''task''), (''entity_id'', JStr task), (''change_type'', JStr ''modified'')]]
                 else ws);
          p7 = default_key ''write_set'' (JArr ws') p6;
          rs = map (JObj \<circ> read_entry_dump)
                 (derive_read_set task (if capsule = [] then ''evt-no-capsule'' else capsule) [] [] []);
          p8 = default_key ''read_set'' (JArr rs) p7;
          derived = filter (\<lambda>k. \<not> truthy (dget raw k)) [''task_id'', ''run_id'', ''fork_id'']
            @ (if \<not> truthy (dget p6 ''write_set'') \<and> ws' \<noteq> [] then [''write_set''] else [])
            @ (if truthy (dget p7 ''read_set'') then [] else [''read_set''])
      in (p8, if derived = [] then [] else [''gate_derived_boundaries: '' @ join '','' derived]))"

section \<open>The events the gate writes\<close>

definition draw12 :: "'s log_ops \<Rightarrow> string \<Rightarrow> ('s, string) act" where
  "draw12 ops pre = bind (total (lo_draw ops)) (\<lambda>hex. ret (pre @ take 12 hex))"

definition entity_type_or_task :: "string \<Rightarrow> string" where
  "entity_type_or_task t = (if t \<in> set subject_entity_types then t else ''task'')"

definition primary :: "string \<Rightarrow> string \<Rightarrow> subject" where
  "primary t i = \<lparr>entity_type = t, entity_id = i, role = ''primary''\<rparr>"

text \<open>The same for the name of a batch.\<close>

definition name12 :: "'s log_ops \<Rightarrow> string \<Rightarrow> ('s, string) act" where
  "name12 ops pre = bind (total (lo_name ops)) (\<lambda>hex. ret (pre @ take 12 hex))"

text \<open>An intent of the gate; building one validates it.\<close>

definition gate_intent :: "'s log_ops \<Rightarrow> string \<Rightarrow> string \<Rightarrow> string \<Rightarrow> dict \<Rightarrow> base_class \<Rightarrow> subject list
    \<Rightarrow> ('s, event_intent) act" where
  "gate_intent ops pre type category pl base subs =
     bind (draw12 ops pre) (\<lambda>lid.
       let i = \<lparr>i_local_intent_id = lid, i_event_type = type, i_event_category = category, i_payload = pl,
             i_provenance_hint = system_prov ''commit_gate'' ''m05_commit_gate'', i_base_classification = base,
             i_supersede = plain_supersede, i_subjects = subs, i_schema_version = ''1.0.0''\<rparr>
       in if intent_ok i then ret i else fail (ValueError ''EventIntent validation failed''))"

definition texts_json :: "texts \<Rightarrow> json" where
  "texts_json xs = JObj (map (\<lambda>(k, v). (k, JStr v)) xs)"

definition commit_accepted_intent :: "'s log_ops \<Rightarrow> string \<Rightarrow> string \<Rightarrow> string \<Rightarrow> nat \<Rightarrow> (string \<times> string) list
    \<Rightarrow> texts list \<Rightarrow> string list \<Rightarrow> texts list \<Rightarrow> ('s, event_intent) act" where
  "commit_accepted_intent ops env_eid capsule gate_run count mapping checks notices audit_chain =
     gate_intent ops ''ca-'' ''CommitAccepted'' ''commit''
       [(''envelope_event_id'', JStr env_eid), (''capsule_compiled_event_id'', JStr capsule),
        (''verdict'', JStr ''accepted''), (''gate_run_id'', JStr gate_run),
        (''accepted_domain_event_count'', JInt (int count)),
        (''local_to_event_id_mapping'', JArr (map (\<lambda>(l, e).
           texts_json [(''local_intent_id'', l), (''event_id'', e)]) mapping)),
        (''checks_passed'', JArr (map texts_json checks)), (''audit_chain'', JArr (map texts_json audit_chain)),
        (''informational_notices'', JArr (map JStr notices))]
       IMMUTABLE_TRUTH [primary ''concept'' ''commit_gate'']"

definition rebase_types :: "string list" where
  "rebase_types = [''version_conflict'', ''write_conflict'']"

definition commit_rejected_intent :: "'s log_ops \<Rightarrow> string \<Rightarrow> string \<Rightarrow> string \<Rightarrow> string \<Rightarrow> bool \<Rightarrow> string option
    \<Rightarrow> string option \<Rightarrow> texts \<Rightarrow> string list \<Rightarrow> string option \<Rightarrow> texts list \<Rightarrow> ('s, event_intent) act" where
  "commit_rejected_intent ops env_eid capsule type gate_run abandoned lock_ref reason evidence violations drift_ref
      audit_chain =
     gate_intent ops ''cr-'' ''CommitRejected'' ''commit''
       [(''envelope_event_id'', JStr env_eid), (''capsule_compiled_event_id'', JStr capsule),
        (''verdict'', JStr ''rejected''), (''rejection_type'', JStr type), (''gate_run_id'', JStr gate_run),
        (''recovery_of_abandoned'', JBool abandoned),
        (''rejection_reasons'', JArr [JObj [(''check_type'', JStr (text_or reason type)),
           (''failure_reason'', JStr (text_or reason (type @ '' detected''))), (''evidence'', texts_json evidence)]]),
        (''rejected_local_intent_ids'', JArr []),
        (''detected_violation_event_refs'', JArr (map JStr violations)),
        (''drift_detected_event_ref'', jopt drift_ref), (''audit_chain'', JArr (map texts_json audit_chain)),
        (''lock_release_event_ref'', jopt lock_ref), (''rebase_allowed'', JBool (type \<in> set rebase_types))]
       IMMUTABLE_TRUTH [primary ''concept'' ''commit_gate'']"

definition text_at_or :: "dict \<Rightarrow> string \<Rightarrow> string \<Rightarrow> string" where
  "text_at_or d k dflt = (if has_key d k then text_at d k else dflt)"

definition get_or :: "dict \<Rightarrow> string \<Rightarrow> json \<Rightarrow> json" where
  "get_or d k v = (if has_key d k then dget d k else v)"

definition lock_released_intent :: "'s log_ops \<Rightarrow> event_record \<Rightarrow> string \<Rightarrow> ('s, event_intent) act" where
  "lock_released_intent ops r reason =
     (let pl = payload r in
      gate_intent ops ''lr-'' ''LockReleased'' ''state_transition''
        [(''target_entity_type'', JStr ''task''), (''target_entity_id'', get_or pl ''task_id'' (JStr ''unknown'')),
         (''transition_type'', JStr ''modified''),
         (''after_state'', JObj [(''task_id'', JStr (text_at_or pl ''task_id'' ''unknown'')),
            (''run_id'', JStr (text_at_or pl ''run_id'' ''unknown'')), (''entities'', get_or pl ''write_set'' (JArr [])),
            (''release_reason'', JStr reason)])]
        IMMUTABLE_TRUTH [primary ''task'' (text_at_or pl ''task_id'' ''unknown'')])"

definition obligation_violated_intent :: "'s log_ops \<Rightarrow> event_record \<Rightarrow> obligation_violation
    \<Rightarrow> ('s, event_intent) act" where
  "obligation_violated_intent ops r v =
     gate_intent ops ''ov-'' ''ObligationViolated'' ''obligation''
       [(''obligation_id'', JStr (ov_obligation_id v)), (''obligation_lifecycle_state'', JStr ''violated''),
        (''violated_in_envelope_event_id'', JStr (event_id r)),
        (''violation_description'', JStr (ov_reason v @ '': '' @ ov_description v)),
        (''recommended_action'', JStr ''fix'')]
       IMMUTABLE_TRUTH [primary ''obligation'' (ov_obligation_id v)]"

text \<open>The declared obligations that an accepted envelope has checked.\<close>

definition checked_declarations :: "dict \<Rightarrow> (string \<times> string) list" where
  "checked_declarations pl =
     List.map_filter (\<lambda>d. case (nonempty (dget d ''obligation_id''), dget d ''status'') of
         (Some oid, JStr st) \<Rightarrow> if st \<in> set [''maintained'', ''not_applicable''] then Some (oid, st) else None
       | _ \<Rightarrow> None) (obj_items (dget pl ''active_obligations_declared''))"

definition obligation_checked_intent :: "'s log_ops \<Rightarrow> string \<Rightarrow> string \<times> string \<Rightarrow> ('s, event_intent) act" where
  "obligation_checked_intent ops env_eid decl =
     (let (oid, status) = decl in
      gate_intent ops ''oc-'' ''ObligationChecked'' ''obligation''
        [(''obligation_id'', JStr oid), (''obligation_lifecycle_state'', JStr ''checked''),
         (''checked_in_envelope_event_id'', JStr env_eid), (''check_method'', JStr ''self_declared_only''),
         (''check_outcome'', JStr status), (''check_result'', JStr status)]
        ABSTRACTABLE_PROCESS [primary ''obligation'' oid])"

definition nodes_json :: "(string \<times> string) list \<Rightarrow> json" where
  "nodes_json ks = JArr (map (\<lambda>(t, i).
     JObj [(''entity_type'', JStr (entity_type_or_task t)), (''entity_id'', JStr i)]) ks)"

definition drift_detected_intent :: "'s log_ops \<Rightarrow> event_record \<Rightarrow> drift_info \<Rightarrow> ('s, event_intent) act" where
  "drift_detected_intent ops r di =
     gate_intent ops ''dd-'' ''DriftDetected'' ''commit''
       [(''envelope_event_id'', JStr (event_id r)), (''drift_nodes'', nodes_json (di_drift_nodes di)),
        (''original_touched_nodes'', nodes_json (di_relevant_subjects di)),
        (''original_assembly_event_id'', JStr (di_capsule di)), (''drift_type'', JStr (di_type di)),
        (''invalidating_event_ids'', JArr (map JStr (di_invalidating_event_ids di)))]
       IMMUTABLE_TRUTH
       (if di_drift_nodes di = [] then [primary ''task'' (text_at_or (payload r) ''task_id'' ''unknown'')]
        else map (\<lambda>(t, i). primary (entity_type_or_task t) i) (di_drift_nodes di))"

definition audit_triggered_intent :: "'s log_ops \<Rightarrow> event_record \<Rightarrow> dict \<Rightarrow> audit_trigger list
    \<Rightarrow> ('s, event_intent) act" where
  "audit_triggered_intent ops r pl ts =
     gate_intent ops ''at-'' ''AuditTriggered'' ''semantic_judgment''
       [(''judgment_type'', JStr ''audit_trigger''),
        (''after_state'', JObj [(''trigger_reason'', JStr (headline_reason ts)),
           (''envelope_event_id'', JStr (event_id r)), (''audit_scope'', JStr (audit_scope_summary ts))]),
        (''confidence'', JNull)]
       ABSTRACTABLE_PROCESS
       (primary ''task'' (text_at_or pl ''task_id'' ''unknown'')
        # map (\<lambda>t. \<lparr>entity_type = entity_type_or_task (at_entity_type t), entity_id = at_target_ref t,
                     role = ''affected''\<rparr>) ts)"


section \<open>Rejecting and accepting\<close>

definition stamp_at :: "'s log_ops \<Rightarrow> string \<Rightarrow> string \<Rightarrow> nat \<Rightarrow> event_intent \<Rightarrow> ('s, event_record) act" where
  "stamp_at ops tid bid pos i = lo_stamp ops i tid bid (int pos)"

text \<open>Stamps intents at the positions from \<open>pos\<close> on.\<close>

fun stamp_from :: "'s log_ops \<Rightarrow> string \<Rightarrow> string \<Rightarrow> nat \<Rightarrow> event_intent list \<Rightarrow> ('s, event_record list) act" where
  "stamp_from ops tid bid pos [] = ret []"
| "stamp_from ops tid bid pos (i # is) =
     bind (stamp_at ops tid bid pos i) (\<lambda>r. bind (stamp_from ops tid bid (Suc pos) is) (\<lambda>rs. ret (r # rs)))"

text \<open>Builds an intent, stamps it, and goes on at the next position.\<close>

fun stamp_built :: "'s log_ops \<Rightarrow> string \<Rightarrow> string \<Rightarrow> nat \<Rightarrow> ('s, event_intent) act list
    \<Rightarrow> ('s, event_record list) act" where
  "stamp_built ops tid bid pos [] = ret []"
| "stamp_built ops tid bid pos (build # builds) =
     bind build (\<lambda>i. bind (stamp_at ops tid bid pos i) (\<lambda>r.
     bind (stamp_built ops tid bid (Suc pos) builds) (\<lambda>rs. ret (r # rs))))"

definition lock_release_types :: "string list" where
  "lock_release_types = [''obligation_violation'', ''claim_boundary_exceeded'']"

definition releases_locks :: "bool \<Rightarrow> string \<Rightarrow> string option \<Rightarrow> bool" where
  "releases_locks abandoned type reason \<longleftrightarrow>
     abandoned \<or> type \<in> set lock_release_types \<or> reason = Some ''scope_exceeded''"

definition build_and_append_rejected :: "'s log_ops \<Rightarrow> event_record \<Rightarrow> string \<Rightarrow> string \<Rightarrow> string \<Rightarrow> string \<Rightarrow> bool
    \<Rightarrow> string option \<Rightarrow> texts \<Rightarrow> obligation_violation list \<Rightarrow> string option \<Rightarrow> texts list
    \<Rightarrow> ('s, event_record list) act" where
  "build_and_append_rejected ops r tid bid gate_run type abandoned reason evidence violations drift_ref audit_chain =
     bind (if releases_locks abandoned type reason
           then stamp_built ops tid bid 0 [lock_released_intent ops r
                  (if abandoned then ''abandoned_envelope_timeout'' else ''rejection_default_strategy'')]
           else ret []) (\<lambda>locks.
     bind (stamp_built ops tid bid (length locks) (map (obligation_violated_intent ops r) violations)) (\<lambda>ovs.
     bind (commit_rejected_intent ops (event_id r) (str_or (dget (payload r) ''capsule_compiled_event_id'') ''evt-no-capsule'')
             type gate_run abandoned (case locks of [] \<Rightarrow> None | l # _ \<Rightarrow> Some (event_id l)) reason evidence
             (map event_id ovs) drift_ref audit_chain) (\<lambda>i.
     bind (stamp_at ops tid bid (length (locks @ ovs)) i) (\<lambda>sentinel.
     bind (lift (build_rejected_batch bid tid (locks @ ovs) sentinel)) (\<lambda>b.
     bind (lo_append ops b) (\<lambda>written. ret (r # written)))))))"

definition drift_reference :: "'s log_ops \<Rightarrow> event_record \<Rightarrow> drift_info option \<Rightarrow> ('s, string option) act" where
  "drift_reference ops r drift =
     (case drift of
        None \<Rightarrow> ret None
      | Some di \<Rightarrow> bind (drift_detected_intent ops r di) (\<lambda>i. bind (lo_direct ops i) (\<lambda>d. ret (Some (event_id d)))))"

definition reject_from_outcome :: "'s log_ops \<Rightarrow> event_record \<Rightarrow> string \<Rightarrow> string \<Rightarrow> string \<Rightarrow> outcome
    \<Rightarrow> ('s, event_record list) act" where
  "reject_from_outcome ops r tid bid gate_run out =
     bind (drift_reference ops r (oc_drift out)) (\<lambda>ref.
       build_and_append_rejected ops r tid bid gate_run (case oc_rejection out of Some t \<Rightarrow> t | None \<Rightarrow> []) False
         (oc_reason out) (oc_evidence out) (oc_violations out) ref [])"

text \<open>Before the batch is written only the freshness is checked again, if the log has grown.\<close>

definition recheck_freshness_before_write :: "'s log_ops \<Rightarrow> dict \<Rightarrow> int \<Rightarrow> ('s, drift_info option) act" where
  "recheck_freshness_before_write ops pl seq =
     bind (total (lo_max_seq ops)) (\<lambda>now.
       if now = seq then ret None
       else bind (lo_index ops) (\<lambda>api.
              ret (if fr_passed (freshness_of api pl) then None else Some (freshness_drift api pl))))"

definition accept_write :: "'s log_ops \<Rightarrow> event_record \<Rightarrow> event_record list \<Rightarrow> event_intent list \<Rightarrow> string \<Rightarrow> string
    \<Rightarrow> string \<Rightarrow> outcome \<Rightarrow> texts list \<Rightarrow> ('s, event_record list) act" where
  "accept_write ops r domain intents gate_run tid bid out audit_chain =
     bind (stamp_built ops tid bid (length domain)
             (map (obligation_checked_intent ops (event_id r)) (checked_declarations (payload r)))) (\<lambda>checked.
     bind (commit_accepted_intent ops (event_id r)
             (text_at_or (payload r) ''capsule_compiled_event_id'' ''evt-no-capsule'') gate_run
             (length (domain @ checked))
             (zip (map i_local_intent_id intents @ map local_intent_id checked) (map event_id (domain @ checked)))
             (oc_performed out) (oc_notices out) audit_chain) (\<lambda>i.
     bind (stamp_at ops tid bid (length (domain @ checked)) i) (\<lambda>sentinel.
     bind (total (lo_normalize ops (domain @ checked @ [sentinel]))) (\<lambda>rs.
     bind (lift (build_accepted_batch bid tid (butlast rs) (last rs))) (\<lambda>b.
     bind (lo_append ops b) (\<lambda>written. ret (r # written)))))))"

definition finalize_accept :: "'s log_ops \<Rightarrow> event_record \<Rightarrow> event_record list \<Rightarrow> event_intent list \<Rightarrow> string \<Rightarrow> string
    \<Rightarrow> string \<Rightarrow> outcome \<Rightarrow> dict \<Rightarrow> int \<Rightarrow> texts list \<Rightarrow> ('s, event_record list) act" where
  "finalize_accept ops r domain intents gate_run tid bid out pl seq audit_chain =
     bind (recheck_freshness_before_write ops pl seq) (\<lambda>recheck.
       case recheck of
         Some di \<Rightarrow>
           bind (drift_reference ops r (Some di)) (\<lambda>ref.
             build_and_append_rejected ops r tid bid gate_run ''drift_detected'' False (Some ''freshness_drift_toctou'')
               (drift_evidence di @ [(''toctou'', ''write-pre re-check'')]) [] ref [])
       | None \<Rightarrow> accept_write ops r domain intents gate_run tid bid out audit_chain)"

section \<open>One attempt\<close>

definition obligation_capture_source :: "index_api \<Rightarrow> string \<Rightarrow> string option" where
  "obligation_capture_source api oid =
     latest (\<lambda>r. if dget (payload r) ''obligation_id'' = JStr oid then as_str (dget (payload r) ''capture_source'') else None)
       (get_events_by_type api ''ObligationCaptured'' None None)"

definition check_retire_allowed :: "string \<Rightarrow> verr + unit" where
  "check_retire_allowed source =
     (if source = ''system_bootstrap'' then Inl (ImmutabilityError ''Cannot retire a system_bootstrap obligation'')
      else Inr ())"

definition retired_obligations :: "event_intent list \<Rightarrow> string list" where
  "retired_obligations intents =
     List.map_filter (\<lambda>i. nonempty (dget (i_payload i) ''obligation_id''))
       (filter (\<lambda>i. i_event_type i = ''ObligationRetired'') intents)"

definition assert_no_protocol_invariant_retire :: "'s log_ops \<Rightarrow> event_intent list \<Rightarrow> ('s, unit list) act" where
  "assert_no_protocol_invariant_retire ops intents =
     bind_all (\<lambda>oid. bind (lo_index ops) (\<lambda>api.
       case obligation_capture_source api oid of
         None \<Rightarrow> ret ()
       | Some source \<Rightarrow> lift (check_retire_allowed source))) (retired_obligations intents)"

record pending_audit =
  pa_envelope :: event_record
  pa_domain :: "event_record list"
  pa_intents :: "event_intent list"
  pa_gate_run :: string
  pa_transaction :: string
  pa_batch :: string
  pa_outcome :: outcome
  pa_payload :: dict
  pa_triggered :: string
  pa_subjects :: "(string \<times> string) list"
  pa_scope :: string
  pa_reason :: string

datatype attempt_status = Accepted | Rejected | Wait_For_Audit

record attempt_result =
  ar_status :: attempt_status
  ar_records :: "event_record list"
  ar_pending :: "pending_audit option"

definition dict_of :: "('k \<times> 'v) list \<Rightarrow> ('k \<times> 'v) list" where
  "dict_of kvs = fold (\<lambda>(k, v). AList.update k v) kvs []"

definition set_if :: "string \<Rightarrow> json option \<Rightarrow> dict \<Rightarrow> dict" where
  "set_if k v d = (case v of None \<Rightarrow> d | Some x \<Rightarrow> dset k x d)"

definition detect_triggers :: "gate_env \<Rightarrow> index_api \<Rightarrow> dict \<Rightarrow> event_intent list \<Rightarrow> audit_trigger list" where
  "detect_triggers env = detect_audit_triggers (ge_sample env) (ge_recent env)"

definition emit_audit_triggered :: "'s log_ops \<Rightarrow> event_record \<Rightarrow> dict \<Rightarrow> audit_trigger list
    \<Rightarrow> ('s, string option) act" where
  "emit_audit_triggered ops r pl ts =
     (if ts = [] then ret None
      else bind (audit_triggered_intent ops r pl ts) (\<lambda>i. bind (lo_audit ops i) (\<lambda>a. ret (Some (event_id a)))))"

text \<open>
  The first half: the records of the intents are stamped, the envelope is written, and what the checks
  see is derived.  Without a list of patches nothing is copied, so the derived fields show in the
  payload that is made canonical as well.
\<close>

record submitted =
  su_gate_run :: string
  su_transaction :: string
  su_batch :: string
  su_envelope :: event_record
  su_domain :: "event_record list"
  su_raw :: dict

definition submit_envelope :: "gate_env \<Rightarrow> 's log_ops \<Rightarrow> event_intent \<Rightarrow> event_intent list \<Rightarrow> ('s, submitted) act" where
  "submit_envelope env ops envelope intents =
     bind (draw12 ops ''gr-'') (\<lambda>gate_run. bind (draw12 ops ''tx-'') (\<lambda>tid. bind (name12 ops ''b-'') (\<lambda>bid.
     let prov = i_provenance_hint envelope; raw = i_payload envelope;
         session = text_or (session_id prov) (str_or (dget raw ''session_id'') (i_local_intent_id envelope));
         fork = text_or (fork_name prov) (actor_id prov)
     in bind (stamp_from ops tid bid 0 intents) (\<lambda>domain.
        bind (lo_index ops) (\<lambda>api.
          let known = api_records api;
              capsule = derive_capsule_compiled_event_id known (Some fork);
              raw' = set_if ''as_of_projection_seq'' (derive_as_of_projection_seq known capsule)
                       (set_if ''capsule_compiled_event_id'' (map_option JStr capsule) raw);
              ids = dict_of (zip (map i_local_intent_id intents) (map event_id domain));
              filled = (if as_list (dget raw ''patches'') = None then raw' else backfill_patch_detail_refs ids raw)
          in bind (lift (canonicalize_envelope_payload (ge_lax env) (ge_now env) filled intents session
                     (task_id prov) (run_id prov) (Some fork) [] (Some known))) (\<lambda>canonical.
             bind (lo_direct ops (envelope\<lparr>i_payload := canonical\<rparr>)) (\<lambda>r.
               ret \<lparr>su_gate_run = gate_run, su_transaction = tid, su_batch = bid, su_envelope = r,
                    su_domain = backfill_envelope_event_id_refs (event_id r)
                                  (backfill_semantic_sibling_refs (event_id r) domain),
                    su_raw = raw'\<rparr>)))))))"

definition with_notice :: "string option \<Rightarrow> outcome \<Rightarrow> outcome" where
  "with_notice n out = (case n of None \<Rightarrow> out | Some t \<Rightarrow> out\<lparr>oc_notices := oc_notices out @ [t]\<rparr>)"

text \<open>
  The second half: checks, audit triggers, and the decision.  An attempt that blocks for audits and is
  not rejected by the checks calls itself accepted, whatever \<open>finalize_accept\<close> has written.
\<close>

definition pending_of :: "event_intent list \<Rightarrow> submitted \<Rightarrow> dict \<Rightarrow> audit_trigger list \<Rightarrow> outcome \<Rightarrow> string
    \<Rightarrow> pending_audit" where
  "pending_of intents su pl ts out ref =
     \<lparr>pa_envelope = su_envelope su, pa_domain = su_domain su, pa_intents = intents, pa_gate_run = su_gate_run su,
      pa_transaction = su_transaction su, pa_batch = su_batch su, pa_outcome = out, pa_payload = pl,
      pa_triggered = ref, pa_subjects = map (\<lambda>t. (at_subject_type t, at_target_ref t)) ts,
      pa_scope = audit_scope_summary ts, pa_reason = headline_reason ts\<rparr>"

definition settle :: "'s log_ops \<Rightarrow> bool \<Rightarrow> event_intent list \<Rightarrow> submitted \<Rightarrow> dict \<Rightarrow> int \<Rightarrow> audit_trigger list
    \<Rightarrow> outcome \<Rightarrow> string option \<Rightarrow> ('s, attempt_result) act" where
  "settle ops blocking intents su pl seq ts out audit_ref =
     (if oc_rejection out \<noteq> None
      then bind (reject_from_outcome ops (su_envelope su) (su_transaction su) (su_batch su) (su_gate_run su) out)
             (\<lambda>rs. ret \<lparr>ar_status = Rejected, ar_records = rs, ar_pending = None\<rparr>)
      else if blocking \<and> audit_ref \<noteq> None
      then ret \<lparr>ar_status = Wait_For_Audit, ar_records = [su_envelope su],
             ar_pending = map_option (pending_of intents su pl ts out) audit_ref\<rparr>
      else bind (finalize_accept ops (su_envelope su) (su_domain su) intents (su_gate_run su) (su_transaction su)
                   (su_batch su) (with_notice (map_option (\<lambda>ref. ''audit_triggered: '' @ ref) audit_ref) out) pl seq [])
             (\<lambda>rs. ret \<lparr>ar_status = Accepted, ar_records = rs, ar_pending = None\<rparr>))"

definition decide_envelope :: "gate_env \<Rightarrow> 's log_ops \<Rightarrow> bool \<Rightarrow> event_intent list \<Rightarrow> submitted
    \<Rightarrow> ('s, attempt_result) act" where
  "decide_envelope env ops blocking intents su =
     bind (lo_index ops) (\<lambda>api. bind (total (lo_max_seq ops)) (\<lambda>seq.
     let (pl, notices) = normalize_envelope_payload (su_envelope su) (su_raw su) intents
     in bind (run_checks env ops intents api pl notices) (\<lambda>out.
        let ts = detect_triggers env api pl intents
        in bind (emit_audit_triggered ops (su_envelope su) pl ts) (settle ops blocking intents su pl seq ts out))))"

definition attempt_commit :: "gate_env \<Rightarrow> 's log_ops \<Rightarrow> bool \<Rightarrow> event_intent \<Rightarrow> event_intent list
    \<Rightarrow> ('s, attempt_result) act" where
  "attempt_commit env ops blocking envelope intents =
     bind (assert_no_protocol_invariant_retire ops intents) (\<lambda>u.
     bind (submit_envelope env ops envelope intents) (decide_envelope env ops blocking intents))"

section \<open>After an audit\<close>

definition read_audit_verdict :: "event_record option \<Rightarrow> string" where
  "read_audit_verdict r =
     (case r of
        None \<Rightarrow> ''fail''
      | Some r \<Rightarrow>
          (case nonempty (dget (after_state (payload r)) ''verdict'') of Some v \<Rightarrow> v | None \<Rightarrow> ''fail''))"

definition audit_violations :: "string \<Rightarrow> (string \<times> string) list \<Rightarrow> obligation_violation list" where
  "audit_violations verdict_eid subs =
     map (\<lambda>(t, ref). \<lparr>ov_obligation_id = ref, ov_reason = ''audit_failed'',
         ov_description = ''independent audit verdict=fail on '' @ t @ '':'' @ ref @ '' (audit_verdict='' @ verdict_eid @ '')''\<rparr>)
       (filter (\<lambda>(t, ref). t = ''obligation_declaration'') subs)"

definition continue_attempt :: "gate_env \<Rightarrow> 's log_ops \<Rightarrow> pending_audit \<Rightarrow> string \<Rightarrow> ('s, attempt_result) act" where
  "continue_attempt env ops p verdict_eid =
     bind (look_up env ops verdict_eid) (\<lambda>rec.
     let verdict = read_audit_verdict rec;
         chain = [[(''audit_triggered_event_id'', pa_triggered p), (''audit_verdict_event_id'', verdict_eid),
                   (''overall_outcome'', if verdict = ''fail'' then ''reject'' else verdict)]]
     in if verdict = ''fail''
        then bind (build_and_append_rejected ops (pa_envelope p) (pa_transaction p) (pa_batch p) (pa_gate_run p)
               ''audit_failed'' False (Some ''audit_failed'')
               [(''audit_verdict_event_id'', verdict_eid), (''audit_triggered_event_id'', pa_triggered p),
                (''audit_scope'', pa_scope p)]
               (audit_violations verdict_eid (pa_subjects p)) None chain)
             (\<lambda>rs. ret \<lparr>ar_status = Rejected, ar_records = rs, ar_pending = None\<rparr>)
        else bind (total (lo_max_seq ops)) (\<lambda>seq.
             bind (finalize_accept ops (pa_envelope p) (pa_domain p) (pa_intents p) (pa_gate_run p)
                     (pa_transaction p) (pa_batch p)
                     (with_notice (Some ((if verdict = ''conditional_pass'' then ''audit_conditional_pass: ''
                                          else ''audit_pass: '') @ verdict_eid)) (pa_outcome p))
                     (pa_payload p) seq chain)
               (\<lambda>rs. ret \<lparr>ar_status = (if event_type (last rs) = ''CommitAccepted'' then Accepted else Rejected),
                          ar_records = rs, ar_pending = None\<rparr>)))"

section \<open>Abandoned envelopes\<close>

definition envelope_outcomes :: "event_record list \<Rightarrow> string set" where
  "envelope_outcomes recs =
     set (List.map_filter (\<lambda>r. as_str (dget (payload r) ''envelope_event_id''))
       (filter (\<lambda>r. event_type r \<in> set [''CommitAccepted'', ''CommitRejected'']) recs))"

definition collect_envelope_outcomes :: "'s log_ops \<Rightarrow> ('s, string set) act" where
  "collect_envelope_outcomes ops = bind (lo_index ops) (\<lambda>api. ret (envelope_outcomes (api_records api)))"

text \<open>Recovers one envelope unless an outcome has appeared; the result says whether it did.\<close>

definition recover_envelope :: "'s log_ops \<Rightarrow> event_record \<Rightarrow> ('s, bool) act" where
  "recover_envelope ops r =
     bind (collect_envelope_outcomes ops) (\<lambda>outcomes.
       if event_id r \<in> outcomes then ret False
       else bind (draw12 ops ''gr-recover-'') (\<lambda>gate_run. bind (draw12 ops ''tx-recover-'') (\<lambda>tid.
            bind (name12 ops ''b-recover-'') (\<lambda>bid.
            bind (build_and_append_rejected ops r tid bid gate_run violation_type True None [] [] None [])
              (\<lambda>rs. ret True)))))"

text \<open>\<open>old\<close> says that an envelope's age has reached the timeout.\<close>

definition scan_abandoned :: "'s log_ops \<Rightarrow> (string \<Rightarrow> bool) \<Rightarrow> ('s, nat) act" where
  "scan_abandoned ops old =
     bind (lo_index ops) (\<lambda>api.
     bind (collect_envelope_outcomes ops) (\<lambda>snapshot.
     bind (bind_all (recover_envelope ops)
            (filter (\<lambda>r. event_id r \<notin> snapshot \<and> old (timestamp r))
              (get_events_by_type api ''TransactionEnvelopeSubmitted'' None None)))
       (\<lambda>recovered. ret (length (filter id recovered)))))"

section \<open>Bootstrap\<close>

definition bootstrap_patch :: "event_intent \<Rightarrow> json" where
  "bootstrap_patch i =
     JObj [(''patch_id'', JStr (''p-'' @ i_local_intent_id i)), (''patch_type'', JStr ''obligation_event''),
       (''target'', get_or (i_payload i) ''obligation_id'' (JStr [])),
       (''summary'', JStr (''bootstrap capture obligation '' @ py_str (dget (i_payload i) ''obligation_id'')))]"

definition bootstrap_envelope_intent :: "'s log_ops \<Rightarrow> event_intent list \<Rightarrow> ('s, event_intent) act" where
  "bootstrap_envelope_intent ops intents =
     bind (draw12 ops ''env-bootstrap-'') (\<lambda>lid.
       let i = \<lparr>i_local_intent_id = lid, i_event_type = ''TransactionEnvelopeSubmitted'', i_event_category = ''envelope'',
             i_payload = [(''envelope_kind'', JStr ''bootstrap''), (''active_obligations_declared'', JArr []),
               (''patches'', JArr (map bootstrap_patch intents)), (''uncertainties'', JArr []),
               (''self_check'', JObj [(''passed'', JBool True), (''checks_run'', JArr [JStr ''bootstrap_special_path''])]),
               (''capsule_compiled_event_id'', JStr ''evt-bootstrap-no-capsule''), (''as_of_projection_seq'', JInt 0)],
             i_provenance_hint = system_prov ''system'' ''m05_bootstrap_commit'', i_base_classification = IMMUTABLE_TRUTH,
             i_supersede = plain_supersede,
             i_subjects = map (\<lambda>i. primary ''obligation'' (text_at (i_payload i) ''obligation_id'')) intents,
             i_schema_version = ''1.0.0''\<rparr>
       in if intent_ok i then ret i else fail (ValueError ''EventIntent validation failed''))"

definition bootstrap_commit :: "gate_env \<Rightarrow> 's log_ops \<Rightarrow> event_intent list \<Rightarrow> ('s, event_record list) act" where
  "bootstrap_commit env ops intents =
     bind (draw12 ops ''gr-bootstrap-'') (\<lambda>gate_run. bind (draw12 ops ''tx-bootstrap-'') (\<lambda>tid.
     bind (name12 ops ''b-bootstrap-'') (\<lambda>bid.
     bind (bootstrap_envelope_intent ops intents) (\<lambda>envelope.
     bind (lift (canonicalize_envelope_payload (ge_lax env) (ge_now env) (i_payload envelope) intents
             (i_local_intent_id envelope) None None (Some ''m05_bootstrap_commit'') [] None)) (\<lambda>canonical.
     bind (lo_direct ops (envelope\<lparr>i_payload := canonical\<rparr>)) (\<lambda>r.
     bind (stamp_from ops tid bid 0 intents) (\<lambda>domain.
     bind (commit_accepted_intent ops (event_id r) ''evt-bootstrap-no-capsule'' gate_run (length domain)
             (zip (map i_local_intent_id intents) (map event_id domain))
             [performed ''envelope_integrity'' ''passed'', performed ''schema'' ''passed'',
              performed ''batch_atomicity'' ''passed''] [''bootstrap_commit special path''] []) (\<lambda>i.
     bind (stamp_at ops tid bid (length intents) i) (\<lambda>sentinel.
     bind (lift (build_accepted_batch bid tid domain sentinel)) (\<lambda>b.
     bind (lo_append ops b) (\<lambda>written. ret (r # written))))))))))))"

end
