(* ===== verification/Commit_Gate_Safety.thy ===== *)
theory Commit_Gate_Safety
  imports Commit_Gate
begin

text \<open>
  What the actions of the commit gate leave on the log, for any log with the laws of \<open>gate_log\<close>.
  \<open>calm c m Q\<close>: with \<open>c\<close> operations to spare, \<open>m\<close> keeps every drawn batch name unused and adds
  chunks that \<open>Q\<close> describes.  \<open>closing c P m Q\<close> is the same for actions that may use up a batch name.
\<close>

section \<open>Chunks\<close>

text \<open>What the gate may write besides its decision: one audit signal or drift report.\<close>

definition gate_side :: "event_record list \<Rightarrow> bool" where
  "gate_side c \<longleftrightarrow> (\<exists>r. c = [r] \<and> event_type r \<in> {''AuditTriggered'', ''DriftDetected''})"

text \<open>The decisions on the envelope with identifier \<open>eid\<close>.\<close>

definition rejected_chunk :: "string \<Rightarrow> event_record list \<Rightarrow> bool" where
  "rejected_chunk eid out \<longleftrightarrow>
     (\<exists>gate sentinel. out = gate @ [sentinel] \<and> event_type sentinel = ''CommitRejected''
        \<and> dget (payload sentinel) ''envelope_event_id'' = JStr eid
        \<and> event_type ` set gate \<subseteq> {''LockReleased'', ''ObligationViolated''})"

definition accepted_chunk :: "string \<Rightarrow> event_record list \<Rightarrow> event_record list \<Rightarrow> bool" where
  "accepted_chunk eid domain out \<longleftrightarrow>
     (\<exists>ds checked sentinel. out = ds @ checked @ [sentinel] \<and> map content ds = map content domain
        \<and> event_type ` set checked \<subseteq> {''ObligationChecked''} \<and> event_type sentinel = ''CommitAccepted''
        \<and> dget (payload sentinel) ''envelope_event_id'' = JStr eid)"

definition decided :: "event_record \<Rightarrow> event_record list \<Rightarrow> event_record list \<Rightarrow> bool" where
  "decided r domain out \<longleftrightarrow> accepted_chunk (event_id r) domain out \<or> rejected_chunk (event_id r) out"

section \<open>A calculus for actions\<close>

context gate_log
begin

definition calm :: "nat \<Rightarrow> ('s, 'b) act \<Rightarrow> (verr + 'b \<Rightarrow> event_record list list \<Rightarrow> (string \<Rightarrow> bool) \<Rightarrow> bool) \<Rightarrow> bool" where
  "calm c m Q \<longleftrightarrow> (\<forall>k s r s'. ready (k + c) s \<longrightarrow> m s = (r, s') \<longrightarrow>
     ready k s' \<and> (\<forall>x. fresh s x \<longrightarrow> fresh s' x) \<and> (\<exists>ch. woven (visible s) ch (visible s') \<and> Q r ch (fresh s')))"

definition closing :: "nat \<Rightarrow> ((string \<Rightarrow> bool) \<Rightarrow> bool) \<Rightarrow> ('s, 'b) act
    \<Rightarrow> (verr + 'b \<Rightarrow> event_record list list \<Rightarrow> bool) \<Rightarrow> bool" where
  "closing c P m Q \<longleftrightarrow> (\<forall>k s r s'. ready (k + c) s \<longrightarrow> P (fresh s) \<longrightarrow> m s = (r, s') \<longrightarrow>
     ready k s' \<and> (\<exists>ch. woven (visible s) ch (visible s') \<and> Q r ch))"

lemma ready_add: "ready (k + c) s \<Longrightarrow> ready k s"
  by (induction c) (auto dest: ready_less)

lemma woven_refl: "woven xs [] xs"
  by simp

lemma calm_weaken:
  assumes "calm c m Q" and "c \<le> c'" and "\<And>r ch F. Q r ch F \<Longrightarrow> Q' r ch F"
  shows "calm c' m Q'"
proof -
  obtain d where "c' = d + c" using assms(2) by (metis le_Suc_ex add.commute)
  then show ?thesis
    using assms(1,3) unfolding calm_def by (metis add.assoc ready_add)
qed

lemma closing_weaken:
  assumes "closing c P m Q" and "c \<le> c'" and "\<And>F. P' F \<Longrightarrow> P F" and "\<And>r ch. Q r ch \<Longrightarrow> Q' r ch"
  shows "closing c' P' m Q'"
proof -
  obtain d where "c' = d + c" using assms(2) by (metis le_Suc_ex add.commute)
  then show ?thesis
    using assms(1,3,4) unfolding closing_def by (metis add.assoc ready_add)
qed

lemma calm_closing: "calm c m Q \<Longrightarrow> closing c P m (\<lambda>r ch. \<exists>F. Q r ch F)"
  unfolding calm_def closing_def by blast

lemma calm_ret: "calm 0 (ret x) (\<lambda>r ch F. r = Inr x \<and> ch = [])"
  unfolding calm_def using woven_refl by auto

lemma calm_fail: "calm 0 (fail e) (\<lambda>r ch F. r = Inl e \<and> ch = [])"
  unfolding calm_def using woven_refl by auto

lemma calm_lift: "calm 0 (lift v) (\<lambda>r ch F. r = v \<and> ch = [])"
  unfolding calm_def using woven_refl by auto

lemma calm_bind:
  assumes m: "calm c1 m Q1" and f: "\<And>x ch F. Q1 (Inr x) ch F \<Longrightarrow> calm c2 (f x) (Q2 x)"
  shows "calm (c1 + c2) (bind m f) (\<lambda>r ch F. (\<exists>e F'. r = Inl e \<and> Q1 (Inl e) ch F')
     \<or> (\<exists>x ch1 ch2 F'. Q1 (Inr x) ch1 F' \<and> (\<forall>y. F' y \<longrightarrow> F y) \<and> Q2 x r ch2 F \<and> ch = ch1 @ ch2))"
  unfolding calm_def
proof (intro allI impI)
  fix k s r s'
  assume rd: "ready (k + (c1 + c2)) s" and b: "bind m f s = (r, s')"
  obtain r1 s1 where m1: "m s = (r1, s1)" by (cases "m s")
  from rd have "ready ((k + c2) + c1) s" by (simp add: ac_simps)
  with m m1 obtain ch1 where h: "ready (k + c2) s1" "\<forall>x. fresh s x \<longrightarrow> fresh s1 x"
    "woven (visible s) ch1 (visible s1)" "Q1 r1 ch1 (fresh s1)" unfolding calm_def by meson
  show "ready k s' \<and> (\<forall>x. fresh s x \<longrightarrow> fresh s' x) \<and> (\<exists>ch. woven (visible s) ch (visible s') \<and>
      ((\<exists>e F'. r = Inl e \<and> Q1 (Inl e) ch F')
       \<or> (\<exists>x ch1 ch2 F'. Q1 (Inr x) ch1 F' \<and> (\<forall>y. F' y \<longrightarrow> fresh s' y) \<and> Q2 x r ch2 (fresh s') \<and> ch = ch1 @ ch2)))"
  proof (cases r1)
    case (Inl e)
    with b m1 have "r = Inl e" "s' = s1" by (simp_all add: bind_def)
    with h Inl ready_add show ?thesis by blast
  next
    case (Inr x)
    with b m1 have "f x s1 = (r, s')" by (simp add: bind_def)
    moreover from h(4) Inr f have "calm c2 (f x) (Q2 x)" by blast
    ultimately obtain ch2 where "ready k s'" "\<forall>x. fresh s1 x \<longrightarrow> fresh s' x"
      "woven (visible s1) ch2 (visible s')" "Q2 x r ch2 (fresh s')" using h(1) unfolding calm_def by meson
    moreover then have "woven (visible s) (ch1 @ ch2) (visible s')" using woven_append [OF h(3)] by blast
    ultimately show ?thesis using h(2,4) Inr by blast
  qed
qed

lemma closing_bind:
  assumes m: "calm c1 m Q1" and mono: "\<And>F F'. P F \<Longrightarrow> \<forall>y. F y \<longrightarrow> F' y \<Longrightarrow> P F'"
    and f: "\<And>x ch F. P F \<Longrightarrow> Q1 (Inr x) ch F \<Longrightarrow> closing c2 (\<lambda>F'. F' = F) (f x) (Q2 x)"
  shows "closing (c1 + c2) P (bind m f) (\<lambda>r ch. (\<exists>e F. r = Inl e \<and> Q1 (Inl e) ch F)
     \<or> (\<exists>x ch1 ch2 F. Q1 (Inr x) ch1 F \<and> Q2 x r ch2 \<and> ch = ch1 @ ch2))"
  unfolding closing_def
proof (intro allI impI)
  fix k s r s'
  assume rd: "ready (k + (c1 + c2)) s" and p: "P (fresh s)" and b: "bind m f s = (r, s')"
  obtain r1 s1 where m1: "m s = (r1, s1)" by (cases "m s")
  from rd have "ready ((k + c2) + c1) s" by (simp add: ac_simps)
  with m m1 obtain ch1 where h: "ready (k + c2) s1" "\<forall>x. fresh s x \<longrightarrow> fresh s1 x"
    "woven (visible s) ch1 (visible s1)" "Q1 r1 ch1 (fresh s1)" unfolding calm_def by meson
  show "ready k s' \<and> (\<exists>ch. woven (visible s) ch (visible s') \<and> ((\<exists>e F. r = Inl e \<and> Q1 (Inl e) ch F)
      \<or> (\<exists>x ch1 ch2 F. Q1 (Inr x) ch1 F \<and> Q2 x r ch2 \<and> ch = ch1 @ ch2)))"
  proof (cases r1)
    case (Inl e)
    with b m1 have "r = Inl e" "s' = s1" by (simp_all add: bind_def)
    with h Inl ready_add show ?thesis by blast
  next
    case (Inr x)
    with b m1 have fx: "f x s1 = (r, s')" by (simp add: bind_def)
    from p h(2) have "P (fresh s1)" by (rule mono)
    with h(4) Inr f have "closing c2 (\<lambda>F'. F' = fresh s1) (f x) (Q2 x)" by blast
    then have "ready k s' \<and> (\<exists>ch. woven (visible s1) ch (visible s') \<and> Q2 x r ch)"
      using h(1) fx unfolding closing_def by simp
    then obtain ch2 where "ready k s'" "woven (visible s1) ch2 (visible s')" "Q2 x r ch2" by blast
    moreover then have "woven (visible s) (ch1 @ ch2) (visible s')" using woven_append [OF h(3)] by blast
    ultimately show ?thesis using h(4) Inr by blast
  qed
qed

text \<open>The operations.\<close>

lemma calm_index: "calm 1 (lo_index ops) (\<lambda>r ch F. ch = [])"
  unfolding calm_def using index by (fastforce)

lemma calm_total:
  assumes "\<And>k s x s'. ready (k + c) s \<Longrightarrow> m s = (x, s') \<Longrightarrow>
    ready k s' \<and> prefix (visible s) (visible s') \<and> (\<forall>y. fresh s y \<longrightarrow> fresh s' y) \<and> Q x (fresh s')"
  shows "calm c (total m) (\<lambda>r ch F. ch = [] \<and> (\<exists>x. r = Inr x \<and> Q x F))"
  unfolding calm_def
proof (intro allI impI)
  fix k s r s'
  assume rd: "ready (k + c) s" and m: "total m s = (r, s')"
  obtain x t where x: "m s = (x, t)" by (cases "m s")
  with m have "r = Inr x" "s' = t" by (simp_all add: total_def)
  with assms [OF rd x] show "ready k s' \<and> (\<forall>x. fresh s x \<longrightarrow> fresh s' x)
      \<and> (\<exists>ch. woven (visible s) ch (visible s') \<and> ch = [] \<and> (\<exists>x. r = Inr x \<and> Q x (fresh s')))" by simp
qed

lemma calm_max_seq: "calm 1 (total (lo_max_seq ops)) (\<lambda>r ch F. ch = [] \<and> (\<exists>n. r = Inr n \<and> True))"
proof (rule calm_total)
  fix k s n s' assume "ready (k + 1) s" and "lo_max_seq ops s = (n, s')"
  then show "ready k s' \<and> prefix (visible s) (visible s') \<and> (\<forall>y. fresh s y \<longrightarrow> fresh s' y) \<and> True"
    using max_seq [of k s n s'] by simp
qed

lemma calm_lines: "calm 1 (total (lo_lines ops)) (\<lambda>r ch F. ch = [] \<and> (\<exists>ls. r = Inr ls \<and> True))"
proof (rule calm_total)
  fix k s ls s' assume "ready (k + 1) s" and "lo_lines ops s = (ls, s')"
  then show "ready k s' \<and> prefix (visible s) (visible s') \<and> (\<forall>y. fresh s y \<longrightarrow> fresh s' y) \<and> True"
    using raw_lines [of k s ls s'] by simp
qed

lemma calm_ownership: "calm 1 (total (lo_ownership ops)) (\<lambda>r ch F. ch = [] \<and> (\<exists>own. r = Inr own \<and> True))"
proof (rule calm_total)
  fix k s own s' assume "ready (k + 1) s" and "lo_ownership ops s = (own, s')"
  then show "ready k s' \<and> prefix (visible s) (visible s') \<and> (\<forall>y. fresh s y \<longrightarrow> fresh s' y) \<and> True"
    using ownership [of k s own s'] by simp
qed

lemma calm_draw: "calm 0 (total (lo_draw ops)) (\<lambda>r ch F. ch = [] \<and> (\<exists>y. r = Inr y \<and> True))"
  by (rule calm_total) (use draw in auto)

lemma calm_name: "calm 1 (total (lo_name ops)) (\<lambda>r ch F. ch = [] \<and> (\<exists>y. r = Inr y \<and> F y))"
proof (rule calm_total)
  fix k s y s' assume "ready (k + 1) s" and "lo_name ops s = (y, s')"
  with name [of k s y s'] show "ready k s' \<and> prefix (visible s) (visible s') \<and> (\<forall>x. fresh s x \<longrightarrow> fresh s' x) \<and> fresh s' y"
    by simp
qed

lemma calm_normalize:
  "calm 0 (total (lo_normalize ops rs)) (\<lambda>r ch F. ch = [] \<and> (\<exists>out. r = Inr out \<and> map content out = map content rs
     \<and> ((\<forall>r \<in> set rs. known_record r) \<longrightarrow> (\<forall>r \<in> set out. known_record r))))"
  by (rule calm_total) (use normalize in auto)

lemma calm_stamp:
  "calm 0 (lo_stamp ops i tid bid pos) (\<lambda>res ch F. ch = [] \<and> (\<forall>r. res = Inr r \<longrightarrow> record_ok r
     \<and> event_type r = i_event_type i \<and> payload r = i_payload i \<and> schema_version r = i_schema_version i
     \<and> transaction_id r = Some tid \<and> batch_id r = Some bid \<and> local_intent_id r = i_local_intent_id i))"
  unfolding calm_def
proof (intro allI impI)
  fix k s r s'
  assume "ready (k + 0) s" and m: "lo_stamp ops i tid bid pos s = (r, s')"
  from stamp [OF this(1) m] show "ready k s' \<and> (\<forall>x. fresh s x \<longrightarrow> fresh s' x) \<and>
    (\<exists>ch. woven (visible s) ch (visible s') \<and> ch = [] \<and> (\<forall>ra. r = Inr ra \<longrightarrow> record_ok ra
     \<and> event_type ra = i_event_type i \<and> payload ra = i_payload i \<and> schema_version ra = i_schema_version i
     \<and> transaction_id ra = Some tid \<and> batch_id ra = Some bid \<and> local_intent_id ra = i_local_intent_id i))"
    by simp
qed

text \<open>A write adds one record, or nothing if it fails.\<close>

definition written_one :: "event_intent \<Rightarrow> verr + event_record \<Rightarrow> event_record list list \<Rightarrow> bool" where
  "written_one i res ch \<longleftrightarrow>
     (case res of Inl e \<Rightarrow> ch = []
      | Inr r \<Rightarrow> ch = [[r]] \<and> event_type r = i_event_type i \<and> payload r = i_payload i)"

lemma one_record:
  assumes "case res of Inl e \<Rightarrow> prefix v v'
    | Inr r \<Rightarrow> (\<exists>ext. v' = v @ ext @ [r]) \<and> event_type r = i_event_type i \<and> payload r = i_payload i"
  shows "\<exists>ch. woven v ch v' \<and> written_one i res ch"
proof (cases res)
  case (Inl e)
  with assms show ?thesis by (auto simp: written_one_def)
next
  case (Inr r)
  with assms have "woven v [[r]] v'" by auto
  with Inr assms show ?thesis by (auto simp: written_one_def)
qed

lemma calm_one:
  assumes "\<And>k s r s'. ready (Suc k) s \<Longrightarrow> m s = (r, s') \<Longrightarrow> ready k s' \<and> (\<forall>x. fresh s x \<longrightarrow> fresh s' x)
    \<and> (case r of Inl e \<Rightarrow> prefix (visible s) (visible s')
       | Inr a \<Rightarrow> (\<exists>ext. visible s' = visible s @ ext @ [a]) \<and> event_type a = i_event_type i \<and> payload a = i_payload i)"
  shows "calm 1 m (\<lambda>res ch F. written_one i res ch)"
  unfolding calm_def
proof (intro allI impI)
  fix k s r s' assume "ready (k + 1) s" and m: "m s = (r, s')"
  then have "ready (Suc k) s" by simp
  from assms [OF this m] one_record [where res = r and v = "visible s" and v' = "visible s'" and i = i]
  show "ready k s' \<and> (\<forall>x. fresh s x \<longrightarrow> fresh s' x) \<and> (\<exists>ch. woven (visible s) ch (visible s') \<and> written_one i r ch)"
    by blast
qed

lemma calm_direct: "known_intent i \<Longrightarrow> calm 1 (lo_direct ops i) (\<lambda>res ch F. written_one i res ch)"
  by (rule calm_one) (rule direct)

lemma calm_audit: "known_intent i \<Longrightarrow> calm 1 (lo_audit ops i) (\<lambda>res ch F. written_one i res ch)"
  by (rule calm_one) (rule audit)

lemma closing_append:
  assumes "enforce_batch_invariants b = Inr b" and "\<forall>r \<in> set (b_events b). known_record r"
    and "b_batch_id b \<in> batch_names x"
  shows "closing 1 (\<lambda>F. F x) (lo_append ops b) (\<lambda>res ch. case res of Inl e \<Rightarrow> ch = []
    | Inr out \<Rightarrow> ch = [out] \<and> map content out = map content (b_events b))"
  unfolding closing_def
proof (intro allI impI)
  fix k s r s'
  assume "ready (k + 1) s" and x: "fresh s x" and m: "lo_append ops b s = (r, s')"
  then have "ready (Suc k) s" by simp
  note h = append_batch [OF this assms(1,2) x assms(3) m]
  show "ready k s' \<and> (\<exists>ch. woven (visible s) ch (visible s') \<and> (case r of Inl e \<Rightarrow> ch = []
    | Inr out \<Rightarrow> ch = [out] \<and> map content out = map content (b_events b)))"
  proof (cases r)
    case (Inl e)
    with h show ?thesis by auto
  next
    case (Inr out)
    with h have "woven (visible s) [out] (visible s')" by auto
    with h Inr show ?thesis by auto
  qed
qed

text \<open>\<open>adds S c m P\<close>: every chunk that \<open>m\<close> adds is an \<open>S\<close>, its result is a \<open>P\<close>.\<close>

definition adds :: "(event_record list \<Rightarrow> bool) \<Rightarrow> nat \<Rightarrow> ('s, 'b) act \<Rightarrow> ('b \<Rightarrow> bool) \<Rightarrow> bool" where
  "adds S c m P \<longleftrightarrow> calm c m (\<lambda>r ch F. (\<forall>a \<in> set ch. S a) \<and> (\<forall>x. r = Inr x \<longrightarrow> P x))"

lemma adds_weaken:
  "adds S c m P \<Longrightarrow> c \<le> c' \<Longrightarrow> (\<And>x. P x \<Longrightarrow> P' x) \<Longrightarrow> adds S c' m P'"
  unfolding adds_def by (erule calm_weaken) auto

lemma adds_ret: "P x \<Longrightarrow> adds S 0 (ret x) P"
  unfolding adds_def by (rule calm_weaken [OF calm_ret]) auto

lemma adds_fail: "adds S 0 (fail e) P"
  unfolding adds_def by (rule calm_weaken [OF calm_fail]) auto

lemma adds_lift: "(\<And>x. v = Inr x \<Longrightarrow> P x) \<Longrightarrow> adds S 0 (lift v) P"
  unfolding adds_def by (rule calm_weaken [OF calm_lift]) auto

lemma adds_bind:
  assumes "adds S c1 m P1" and "\<And>x. P1 x \<Longrightarrow> adds S c2 (f x) P2"
  shows "adds S (c1 + c2) (bind m f) P2"
  unfolding adds_def
  by (rule calm_weaken, rule calm_bind [OF assms(1) [unfolded adds_def]])
     (use assms(2) in \<open>auto simp: adds_def\<close>)

lemma adds_then:
  assumes "adds S 0 m P1" and "\<And>x. P1 x \<Longrightarrow> adds S c (f x) P2"
  shows "adds S c (bind m f) P2"
  using adds_bind [OF assms(1), of c f P2] assms(2) by simp

lemma adds_index: "adds S 1 (lo_index ops) (\<lambda>api. True)"
  unfolding adds_def by (rule calm_weaken [OF calm_index]) auto

lemma adds_reads:
  "adds S 1 (total (lo_max_seq ops)) (\<lambda>n. True)" "adds S 1 (total (lo_lines ops)) (\<lambda>ls. True)"
  "adds S 1 (total (lo_ownership ops)) (\<lambda>own. True)"
  unfolding adds_def
  by (rule calm_weaken [OF calm_max_seq] calm_weaken [OF calm_lines] calm_weaken [OF calm_ownership]; auto)+

lemma adds_hex: "adds S 0 (total (lo_draw ops)) (\<lambda>x. True)"
  unfolding adds_def by (rule calm_weaken [OF calm_draw]) auto

lemma adds_draw: "adds S 0 (draw12 ops pre) (\<lambda>x. True)"
  unfolding draw12_def by (rule adds_then [OF adds_hex]) (simp add: adds_ret)

lemma adds_stamp:
  "adds S 0 (stamp_at ops tid bid pos i) (\<lambda>r. event_type r = i_event_type i \<and> payload r = i_payload i
     \<and> (known_intent i \<longrightarrow> known_record r))"
  unfolding adds_def stamp_at_def
  by (rule calm_weaken [OF calm_stamp]) (auto simp: known_intent_def known_record_def)

lemma adds_direct:
  "known_intent i \<Longrightarrow> (\<And>r. event_type r = i_event_type i \<Longrightarrow> S [r]) \<Longrightarrow>
     adds S 1 (lo_direct ops i) (\<lambda>r. event_type r = i_event_type i \<and> payload r = i_payload i)"
  unfolding adds_def
  by (rule calm_weaken [OF calm_direct]) (auto simp: written_one_def split: sum.splits)

lemma adds_audit:
  "known_intent i \<Longrightarrow> (\<And>r. event_type r = i_event_type i \<Longrightarrow> S [r]) \<Longrightarrow>
     adds S 1 (lo_audit ops i) (\<lambda>r. event_type r = i_event_type i)"
  unfolding adds_def
  by (rule calm_weaken [OF calm_audit]) (auto simp: written_one_def split: sum.splits)

text \<open>\<open>ends S c x m Q\<close>: after chunks that are \<open>S\<close>, what \<open>Q\<close> says; a batch may be named after \<open>x\<close>.\<close>

definition ends :: "(event_record list \<Rightarrow> bool) \<Rightarrow> nat \<Rightarrow> string \<Rightarrow> ('s, 'b) act
    \<Rightarrow> (verr + 'b \<Rightarrow> event_record list list \<Rightarrow> bool) \<Rightarrow> bool" where
  "ends S c x m Q \<longleftrightarrow>
     closing c (\<lambda>F. F x) m (\<lambda>r ch. \<exists>side rest. ch = side @ rest \<and> (\<forall>a \<in> set side. S a) \<and> Q r rest)"

lemma ends_weaken:
  assumes "ends S c x m Q" and "c \<le> c'" and "\<And>r ch. Q r ch \<Longrightarrow> Q' r ch"
  shows "ends S c' x m Q'"
  using assms(1) unfolding ends_def by (rule closing_weaken) (use assms(2,3) in blast)+

lemma ends_bind:
  assumes "adds S c1 m P1" and "\<And>y. P1 y \<Longrightarrow> ends S c2 x (f y) Q" and "\<And>e. Q (Inl e) []"
  shows "ends S (c1 + c2) x (bind m f) Q"
  unfolding ends_def
proof (rule closing_weaken [OF closing_bind [where P = "\<lambda>F. F x" and ?c2.0 = c2
      and ?Q2.0 = "\<lambda>y r ch. \<exists>side rest. ch = side @ rest \<and> (\<forall>a \<in> set side. S a) \<and> Q r rest"]])
  show "calm c1 m (\<lambda>r ch F. (\<forall>a \<in> set ch. S a) \<and> (\<forall>x. r = Inr x \<longrightarrow> P1 x))"
    using assms(1) by (simp add: adds_def)
  fix y ch F assume F: "F x" and "(\<forall>a \<in> set ch. S a) \<and> (\<forall>z. (Inr y :: verr + _) = Inr z \<longrightarrow> P1 z)"
  then have "ends S c2 x (f y) Q" using assms(2) by blast
  then show "closing c2 (\<lambda>F'. F' = F) (f y) (\<lambda>r ch. \<exists>side rest. ch = side @ rest \<and> (\<forall>a \<in> set side. S a) \<and> Q r rest)"
    unfolding ends_def by (rule closing_weaken) (use F in auto)
next
  fix r ch
  assume "(\<exists>e F. r = Inl e \<and> (\<forall>a \<in> set ch. S a) \<and> (\<forall>z. Inl e = Inr z \<longrightarrow> P1 z))
     \<or> (\<exists>y ch1 ch2 F. ((\<forall>a \<in> set ch1. S a) \<and> (\<forall>z. (Inr y :: verr + _) = Inr z \<longrightarrow> P1 z))
        \<and> (\<exists>side rest. ch2 = side @ rest \<and> (\<forall>a \<in> set side. S a) \<and> Q r rest) \<and> ch = ch1 @ ch2)"
  then show "\<exists>side rest. ch = side @ rest \<and> (\<forall>a \<in> set side. S a) \<and> Q r rest"
  proof (elim disjE exE conjE)
    fix e assume "r = Inl e" "\<forall>a \<in> set ch. S a"
    then show ?thesis using assms(3) by (intro exI [of _ ch] exI [of _ "[]"]) simp
  next
    fix y ch1 ch2 F side rest
    assume "\<forall>a \<in> set ch1. S a" "ch2 = side @ rest" "\<forall>a \<in> set side. S a" "Q r rest" "ch = ch1 @ ch2"
    then show ?thesis by (intro exI [of _ "ch1 @ side"] exI [of _ rest]) auto
  qed
qed auto

lemma ends_then:
  assumes "adds S 0 m P1" and "\<And>y. P1 y \<Longrightarrow> ends S c x (f y) Q" and "\<And>e. Q (Inl e) []"
  shows "ends S c x (bind m f) Q"
  using ends_bind [OF assms(1), of c x f Q] assms(2,3) by simp

lemma ends_lift:
  assumes "\<And>y. v = Inr y \<Longrightarrow> ends S c x (f y) Q" and "\<And>e. Q (Inl e) []"
  shows "ends S c x (bind (lift v) f) Q"
  by (rule ends_then [OF adds_lift [where P = "\<lambda>y. v = Inr y"]]) (use assms in auto)

section \<open>Intents and stamps\<close>

lemma known_gate_version: "is_known_schema_version ''1.0.0''"
  by code_simp

definition built :: "string \<Rightarrow> dict \<Rightarrow> event_intent \<Rightarrow> bool" where
  "built type pl i \<longleftrightarrow> i_event_type i = type \<and> i_payload i = pl \<and> known_intent i"

lemma adds_intent: "adds S 0 (gate_intent ops pre type cat pl base subs) (built type pl)"
  unfolding gate_intent_def
proof (rule adds_then [OF adds_draw])
  fix lid :: string
  show "adds S 0 (let i = \<lparr>i_local_intent_id = lid, i_event_type = type, i_event_category = cat, i_payload = pl,
             i_provenance_hint = system_prov ''commit_gate'' ''m05_commit_gate'', i_base_classification = base,
             i_supersede = plain_supersede, i_subjects = subs, i_schema_version = ''1.0.0''\<rparr>
       in if intent_ok i then ret i else fail (ValueError ''EventIntent validation failed'')) (built type pl)"
    by (auto simp: Let_def built_def known_intent_def known_gate_version intro!: adds_ret adds_fail)
qed

lemma adds_stamp_built:
  assumes "\<forall>b \<in> set builds. adds S 0 b (\<lambda>i. known_intent i \<and> i_event_type i \<in> T)"
  shows "adds S 0 (stamp_built ops tid bid pos builds) (\<lambda>rs. \<forall>r \<in> set rs. known_record r \<and> event_type r \<in> T)"
  using assms
proof (induction builds arbitrary: pos)
  case Nil
  show ?case unfolding stamp_built.simps by (rule adds_ret) simp
next
  case (Cons b builds)
  have b: "adds S 0 b (\<lambda>i. known_intent i \<and> i_event_type i \<in> T)" using Cons.prems by simp
  have rest: "adds S 0 (stamp_built ops tid bid (Suc pos) builds) (\<lambda>rs. \<forall>r \<in> set rs. known_record r \<and> event_type r \<in> T)"
    using Cons by simp
  show ?case unfolding stamp_built.simps
    by (rule adds_then [OF b], rule adds_then [OF adds_stamp], rule adds_then [OF rest], rule adds_ret) auto
qed

lemma adds_stamp_from:
  assumes "\<forall>i \<in> set intents. known_intent i"
  shows "adds S 0 (stamp_from ops tid bid pos intents) (\<lambda>rs. (\<forall>r \<in> set rs. known_record r)
    \<and> map event_type rs = map i_event_type intents \<and> map payload rs = map i_payload intents)"
  using assms
proof (induction intents arbitrary: pos)
  case Nil
  show ?case unfolding stamp_from.simps by (rule adds_ret) simp
next
  case (Cons i intents)
  have rest: "adds S 0 (stamp_from ops tid bid (Suc pos) intents) (\<lambda>rs. (\<forall>r \<in> set rs. known_record r)
    \<and> map event_type rs = map i_event_type intents \<and> map payload rs = map i_payload intents)"
    using Cons by simp
  show ?case unfolding stamp_from.simps
    by (rule adds_then [OF adds_stamp], rule adds_then [OF rest], rule adds_ret) (use Cons.prems in auto)
qed

section \<open>Decisions\<close>

text \<open>The result is the envelope and the batch, and the batch is the last chunk.\<close>

definition decides :: "event_record \<Rightarrow> (event_record list \<Rightarrow> bool) \<Rightarrow> verr + event_record list
    \<Rightarrow> event_record list list \<Rightarrow> bool" where
  "decides r D res rest \<longleftrightarrow>
     (case res of Inl e \<Rightarrow> rest = [] | Inr rs \<Rightarrow> (\<exists>out. rest = [out] \<and> rs = r # out \<and> D out))"

lemma decides_Inl [simp]: "decides r D (Inl e) []"
  by (simp add: decides_def)

lemma ends_append:
  assumes "enforce_batch_invariants b = Inr b" and "\<forall>r \<in> set (b_events b). known_record r"
    and "b_batch_id b \<in> batch_names x" and "\<And>out. map content out = map content (b_events b) \<Longrightarrow> D out"
  shows "ends S 1 x (bind (lo_append ops b) (\<lambda>written. ret (r # written))) (decides r D)"
  unfolding ends_def closing_def
proof (intro allI impI)
  fix k s res s'
  assume rd: "ready (k + 1) s" and f: "fresh s x" and m: "bind (lo_append ops b) (\<lambda>written. ret (r # written)) s = (res, s')"
  obtain res1 s1 where a: "lo_append ops b s = (res1, s1)" by (cases "lo_append ops b s")
  from closing_append [OF assms(1-3)] rd f a obtain ch where ch: "ready k s1" "woven (visible s) ch (visible s1)"
    "case res1 of Inl e \<Rightarrow> ch = [] | Inr out \<Rightarrow> ch = [out] \<and> map content out = map content (b_events b)"
    unfolding closing_def by meson
  have "s' = s1" "res = (case res1 of Inl e \<Rightarrow> Inl e | Inr w \<Rightarrow> Inr (r # w))"
    using m a by (auto simp: bind_def ret_def split: sum.splits)
  with ch assms(4) have "ready k s'" "woven (visible s) ch (visible s')" "decides r D res ch"
    by (auto simp: decides_def split: sum.splits)
  then show "ready k s' \<and> (\<exists>ch. woven (visible s) ch (visible s') \<and>
      (\<exists>side rest. ch = side @ rest \<and> (\<forall>a \<in> set side. S a) \<and> decides r D res rest))"
    by (intro conjI exI [of _ ch] exI [of _ "[]"]) simp_all
qed

lemma content_split:
  assumes "map content out = map content (xs @ [y])"
  shows "\<exists>us v. out = us @ [v] \<and> map content us = map content xs \<and> content v = content y"
proof -
  have "out \<noteq> []" using assms by auto
  then obtain us v where "out = us @ [v]" by (meson rev_exhaust)
  with assms show ?thesis by auto
qed

lemma content_types: "map content us = map content xs \<Longrightarrow> event_type ` set us = event_type ` set xs"
proof -
  assume "map content us = map content xs"
  then have "map (fst \<circ> snd \<circ> content) us = map (fst \<circ> snd \<circ> content) xs" by (metis map_map)
  then have "map event_type us = map event_type xs" by (simp add: content_def comp_def)
  then show ?thesis by (metis image_set)
qed

lemma ends_rejected:
  assumes "bid \<in> batch_names x"
  shows "ends S 1 x (build_and_append_rejected ops r tid bid gate_run type abandoned reason evidence violations drift_ref chain)
    (decides r (rejected_chunk (event_id r)))"
proof -
  have locks: "adds S 0 (if releases_locks abandoned type reason
      then stamp_built ops tid bid 0 [lock_released_intent ops r
             (if abandoned then ''abandoned_envelope_timeout'' else ''rejection_default_strategy'')]
      else ret []) (\<lambda>rs. \<forall>q \<in> set rs. known_record q \<and> event_type q \<in> {''LockReleased'', ''ObligationViolated''})"
  proof (cases "releases_locks abandoned type reason")
    case True
    have "adds S 0 (lock_released_intent ops r why)
        (\<lambda>i. known_intent i \<and> i_event_type i \<in> {''LockReleased'', ''ObligationViolated''})" for why
      unfolding lock_released_intent_def Let_def by (rule adds_weaken [OF adds_intent]) (auto simp: built_def)
    then show ?thesis unfolding if_P [OF True] by (intro adds_stamp_built) simp
  next
    case False
    show ?thesis unfolding if_not_P [OF False] by (rule adds_ret) simp
  qed
  have ovs: "adds S 0 (stamp_built ops tid bid n (map (obligation_violated_intent ops r) violations))
      (\<lambda>rs. \<forall>q \<in> set rs. known_record q \<and> event_type q \<in> {''LockReleased'', ''ObligationViolated''})" for n
    by (intro adds_stamp_built) (auto intro!: adds_weaken [OF adds_intent] simp: obligation_violated_intent_def built_def)
  have intent: "adds S 0 (commit_rejected_intent ops (event_id r) capsule type gate_run abandoned l reason evidence vs drift_ref chain)
      (\<lambda>i. known_intent i \<and> i_event_type i = ''CommitRejected'' \<and> dget (i_payload i) ''envelope_event_id'' = JStr (event_id r))"
    for capsule l vs
    unfolding commit_rejected_intent_def by (rule adds_weaken [OF adds_intent]) (auto simp: built_def py_simps)
  show ?thesis
    unfolding build_and_append_rejected_def
  proof (rule ends_then [OF locks], rule ends_then [OF ovs], rule ends_then [OF intent], rule ends_then [OF adds_stamp],
      rule ends_lift)
    fix locks' ovs' i sentinel b
    assume k: "\<forall>q \<in> set locks'. known_record q \<and> event_type q \<in> {''LockReleased'', ''ObligationViolated''}"
        "\<forall>q \<in> set ovs'. known_record q \<and> event_type q \<in> {''LockReleased'', ''ObligationViolated''}"
      and i: "known_intent i \<and> i_event_type i = ''CommitRejected'' \<and> dget (i_payload i) ''envelope_event_id'' = JStr (event_id r)"
      and s: "event_type sentinel = i_event_type i \<and> payload sentinel = i_payload i \<and> (known_intent i \<longrightarrow> known_record sentinel)"
      and b: "build_rejected_batch bid tid (locks' @ ovs') sentinel = Inr b"
    have eq: "b_events b = (locks' @ ovs') @ [sentinel]" "b_batch_id b = bid" "enforce_batch_invariants b = Inr b"
      using b by (auto simp: build_rejected_batch_def enforce_batch_invariants_def split: if_splits)
    show "ends S 1 x (bind (lo_append ops b) (\<lambda>written. ret (r # written))) (decides r (rejected_chunk (event_id r)))"
    proof (rule ends_append)
      fix out assume "map content out = map content (b_events b)"
      then obtain us v where o: "out = us @ [v]" "map content us = map content (locks' @ ovs')" "content v = content sentinel"
        using content_split [of out "locks' @ ovs'" sentinel] unfolding eq(1) by blast
      moreover have "event_type ` set us \<subseteq> {''LockReleased'', ''ObligationViolated''}"
        using content_types [OF o(2)] k by auto
      ultimately show "rejected_chunk (event_id r) out" using s i by (auto simp: rejected_chunk_def content_def)
    qed (use eq k i s assms in auto)
  qed simp_all
qed

lemma adds_checked:
  "adds S 0 (stamp_built ops tid bid n (map (obligation_checked_intent ops eid) decls))
     (\<lambda>rs. \<forall>q \<in> set rs. known_record q \<and> event_type q \<in> {''ObligationChecked''})"
proof (rule adds_stamp_built, rule ballI)
  fix b assume "b \<in> set (map (obligation_checked_intent ops eid) decls)"
  then obtain oid st where b: "b = obligation_checked_intent ops eid (oid, st)" by auto
  show "adds S 0 b (\<lambda>i. known_intent i \<and> i_event_type i \<in> {''ObligationChecked''})"
    unfolding b obligation_checked_intent_def Let_def prod.case by (rule adds_weaken [OF adds_intent]) (auto simp: built_def)
qed

lemma adds_normalize:
  "adds S 0 (total (lo_normalize ops rs)) (\<lambda>out. map content out = map content rs
     \<and> ((\<forall>r \<in> set rs. known_record r) \<longrightarrow> (\<forall>r \<in> set out. known_record r)))"
  unfolding adds_def by (rule calm_weaken [OF calm_normalize]) auto

lemma ends_accept:
  assumes "bid \<in> batch_names x" and "\<forall>d \<in> set domain. known_record d"
  shows "ends S 1 x (accept_write ops r domain intents gate_run tid bid out chain)
    (decides r (accepted_chunk (event_id r) domain))"
proof -
  have intent: "adds S 0 (commit_accepted_intent ops (event_id r) capsule gate_run n mapping checks notices chain)
      (\<lambda>i. known_intent i \<and> i_event_type i = ''CommitAccepted'' \<and> dget (i_payload i) ''envelope_event_id'' = JStr (event_id r))"
    for capsule n mapping checks notices
    unfolding commit_accepted_intent_def by (rule adds_weaken [OF adds_intent]) (auto simp: built_def py_simps)
  show ?thesis
    unfolding accept_write_def
  proof (rule ends_then [OF adds_checked], rule ends_then [OF intent], rule ends_then [OF adds_stamp],
      rule ends_then [OF adds_normalize], rule ends_lift)
    fix checked i sentinel rs b
    assume k: "\<forall>q \<in> set checked. known_record q \<and> event_type q \<in> {''ObligationChecked''}"
      and i: "known_intent i \<and> i_event_type i = ''CommitAccepted'' \<and> dget (i_payload i) ''envelope_event_id'' = JStr (event_id r)"
      and s: "event_type sentinel = i_event_type i \<and> payload sentinel = i_payload i \<and> (known_intent i \<longrightarrow> known_record sentinel)"
      and rs: "map content rs = map content (domain @ checked @ [sentinel])
        \<and> ((\<forall>r \<in> set (domain @ checked @ [sentinel]). known_record r) \<longrightarrow> (\<forall>r \<in> set rs. known_record r))"
      and b: "build_accepted_batch bid tid (butlast rs) (last rs) = Inr b"
    have kn: "\<forall>q \<in> set rs. known_record q" using rs k i s assms(2) by auto
    have "rs \<noteq> []" using rs by auto
    then have eq: "b_events b = rs" "b_batch_id b = bid" "enforce_batch_invariants b = Inr b"
      using b by (auto simp: build_accepted_batch_def enforce_batch_invariants_def split: if_splits)
    show "ends S 1 x (bind (lo_append ops b) (\<lambda>written. ret (r # written))) (decides r (accepted_chunk (event_id r) domain))"
    proof (rule ends_append)
      fix out assume "map content out = map content (b_events b)"
      then have "map content out = map content domain @ map content (checked @ [sentinel])" using rs eq(1) by simp
      from map_eq_append_conv [THEN iffD1, OF this]
      obtain ds zs where z: "out = ds @ zs" "map content ds = map content domain"
        "map content zs = map content (checked @ [sentinel])" by metis
      from content_split [OF z(3)] obtain us v
        where u: "zs = us @ [v]" "map content us = map content checked" "content v = content sentinel" by blast
      have "event_type ` set us \<subseteq> {''ObligationChecked''}" using content_types [OF u(2)] k by auto
      with z u s i show "accepted_chunk (event_id r) domain out" by (auto simp: accepted_chunk_def content_def)
    qed (use eq kn assms(1) in simp_all)
  qed (rule decides_Inl)+
qed

lemma adds_drift:
  "adds gate_side 1 (drift_reference ops r drift) (\<lambda>ref. True)"
proof (cases drift)
  case None
  show ?thesis unfolding drift_reference_def None option.case by (rule adds_weaken [OF adds_ret]) auto
next
  case (Some di)
  have i: "adds gate_side 0 (drift_detected_intent ops r di) (\<lambda>i. known_intent i \<and> i_event_type i = ''DriftDetected'')"
    unfolding drift_detected_intent_def by (rule adds_weaken [OF adds_intent]) (auto simp: built_def)
  have d: "adds gate_side (1 + 0) (bind (lo_direct ops i) (\<lambda>d. ret (Some (event_id d)))) (\<lambda>ref. True)"
    if "known_intent i \<and> i_event_type i = ''DriftDetected''" for i
    by (rule adds_bind [OF adds_direct]) (use that in \<open>auto simp: gate_side_def simp del: bind_simps intro!: adds_ret\<close>)
  show ?thesis unfolding drift_reference_def Some option.case by (rule adds_then [OF i]) (use d in simp)
qed

lemma adds_recheck: "adds S 2 (recheck_freshness_before_write ops pl seq) (\<lambda>di. True)"
proof -
  have 1: "adds S 1 (if now = seq then ret None
       else bind (lo_index ops) (\<lambda>api. ret (if fr_passed (freshness_of api pl) then None else Some (freshness_drift api pl))))
       (\<lambda>di. True)" for now
  proof (cases "now = seq")
    case True
    show ?thesis unfolding if_P [OF True] by (rule adds_weaken [OF adds_ret]) auto
  next
    case False
    have "adds S (1 + 0) (bind (lo_index ops) (\<lambda>api. ret (if fr_passed (freshness_of api pl) then None else Some (freshness_drift api pl))))
       (\<lambda>di. True)" by (rule adds_bind [OF adds_index]) (rule adds_ret, simp)
    then show ?thesis unfolding if_not_P [OF False] by simp
  qed
  show ?thesis unfolding recheck_freshness_before_write_def
    using adds_bind [OF adds_reads(1) 1] by (simp add: numeral_2_eq_2)
qed

lemma decides_weaken: "decides r D res ch \<Longrightarrow> (\<And>out. D out \<Longrightarrow> D' out) \<Longrightarrow> decides r D' res ch"
  by (auto simp: decides_def split: sum.splits)

lemma ends_reject_drift:
  assumes "bid \<in> batch_names x"
  shows "ends gate_side 2 x (bind (drift_reference ops r drift) (\<lambda>ref.
    build_and_append_rejected ops r tid bid gate_run type abandoned reason evidence violations ref chain))
    (decides r (rejected_chunk (event_id r)))"
proof -
  have "ends gate_side (1 + 1) x (bind (drift_reference ops r drift) (\<lambda>ref.
    build_and_append_rejected ops r tid bid gate_run type abandoned reason evidence violations ref chain))
    (decides r (rejected_chunk (event_id r)))"
    by (rule ends_bind [OF adds_drift], rule ends_rejected [OF assms]) simp
  then show ?thesis by (simp add: numeral_2_eq_2)
qed

lemma ends_finalize:
  assumes "bid \<in> batch_names x" and "\<forall>d \<in> set domain. known_record d"
  shows "ends gate_side 4 x (finalize_accept ops r domain intents gate_run tid bid out pl seq chain)
    (decides r (decided r domain))"
proof -
  have "ends gate_side (2 + 2) x (finalize_accept ops r domain intents gate_run tid bid out pl seq chain)
    (decides r (decided r domain))"
    unfolding finalize_accept_def
  proof (rule ends_bind [OF adds_recheck])
    fix recheck :: "drift_info option"
    show "ends gate_side 2 x (case recheck of
         Some di \<Rightarrow>
           bind (drift_reference ops r (Some di)) (\<lambda>ref.
             build_and_append_rejected ops r tid bid gate_run ''drift_detected'' False (Some ''freshness_drift_toctou'')
               (drift_evidence di @ [(''toctou'', ''write-pre re-check'')]) [] ref [])
       | None \<Rightarrow> accept_write ops r domain intents gate_run tid bid out chain) (decides r (decided r domain))"
    proof (cases recheck)
      case None
      show ?thesis unfolding None option.case
        by (rule ends_weaken [OF ends_accept [OF assms]]) (auto simp: decided_def elim: decides_weaken)
    next
      case (Some di)
      show ?thesis unfolding Some option.case
        by (rule ends_weaken [OF ends_reject_drift [OF assms(1)]]) (auto simp: decided_def elim: decides_weaken)
    qed
  qed simp
  then show ?thesis by simp
qed

end

end
