(* ===== verification/Commit_Gate_Effects.thy ===== *)
theory Commit_Gate_Effects
  imports Commit_Gate_Safety
begin

text \<open>
  What an attempt, its continuation after an audit, the recovery of abandoned envelopes and the
  bootstrap add to the log: chunks in which every decision is one batch.
\<close>

section \<open>What the operations may add\<close>

text \<open>The records of the intents, with references to the envelope filled in.\<close>

definition domain_of :: "string \<Rightarrow> event_intent list \<Rightarrow> event_record list \<Rightarrow> bool" where
  "domain_of eid intents domain \<longleftrightarrow>
     (\<exists>stamped. domain = backfill_envelope_event_id_refs eid (backfill_semantic_sibling_refs eid stamped)
        \<and> map event_type stamped = map i_event_type intents \<and> map payload stamped = map i_payload intents
        \<and> (\<forall>d \<in> set stamped. known_record d))"

definition concluded :: "event_record \<Rightarrow> event_record list \<Rightarrow> verr + attempt_result \<Rightarrow> event_record list list \<Rightarrow> bool" where
  "concluded r domain res rest \<longleftrightarrow>
     (case res of
        Inl e \<Rightarrow> rest = []
      | Inr ar \<Rightarrow>
          if ar_status ar = Wait_For_Audit then rest = [] \<and> ar_records ar = [r]
          else (\<exists>out. rest = [out] \<and> ar_records ar = r # out \<and> decided r domain out
                 \<and> (ar_status ar = Rejected \<longrightarrow> rejected_chunk (event_id r) out)))"

text \<open>
  What an attempt adds: nothing but an error, or the envelope, signals and reports, and the decision.
\<close>

definition attempted :: "event_intent \<Rightarrow> event_intent list \<Rightarrow> verr + attempt_result \<Rightarrow> event_record list list \<Rightarrow> bool" where
  "attempted envelope intents res ch \<longleftrightarrow>
     (ch = [] \<and> \<not> is_ok res)
     \<or> (\<exists>r domain side rest. ch = [r] # side @ rest \<and> event_type r = i_event_type envelope
          \<and> domain_of (event_id r) intents domain \<and> (\<forall>c \<in> set side. gate_side c) \<and> concluded r domain res rest)"

text \<open>Unlike an attempt, the second phase says what it wrote.\<close>

definition continued :: "event_record \<Rightarrow> event_record list \<Rightarrow> verr + attempt_result \<Rightarrow> event_record list list \<Rightarrow> bool" where
  "continued r domain res rest \<longleftrightarrow>
     (case res of
        Inl e \<Rightarrow> rest = []
      | Inr ar \<Rightarrow> (\<exists>out. rest = [out] \<and> ar_records ar = r # out
          \<and> (case ar_status ar of Accepted \<Rightarrow> accepted_chunk (event_id r) domain out
             | Rejected \<Rightarrow> rejected_chunk (event_id r) out | Wait_For_Audit \<Rightarrow> False)))"

definition abandoned_envelopes :: "(string \<Rightarrow> bool) \<Rightarrow> index_api \<Rightarrow> string set \<Rightarrow> event_record list" where
  "abandoned_envelopes old api snapshot =
     filter (\<lambda>r. event_id r \<notin> snapshot \<and> old (timestamp r))
       (get_events_by_type api ''TransactionEnvelopeSubmitted'' None None)"

definition bootstrapped :: "event_intent list \<Rightarrow> verr + event_record list \<Rightarrow> event_record list list \<Rightarrow> bool" where
  "bootstrapped intents res ch \<longleftrightarrow>
     (ch = [] \<and> \<not> is_ok res)
     \<or> (\<exists>r. event_type r = ''TransactionEnvelopeSubmitted'' \<and>
          (ch = [[r]] \<and> \<not> is_ok res
           \<or> (\<exists>domain out. ch = [[r], out] \<and> res = Inr (r # out) \<and> accepted_chunk (event_id r) domain out
                \<and> map event_type domain = map i_event_type intents \<and> map payload domain = map i_payload intents)))"

context gate_log
begin

section \<open>The checks write nothing\<close>

lemma adds_any: "adds S c m P \<Longrightarrow> adds S c m (\<lambda>x. True)"
  by (rule adds_weaken) auto

lemma adds_return: "adds S 0 (ret x) (\<lambda>x. True)"
  by (rule adds_ret) simp

lemma adds_judge: "adds S 0 (judge type name label res pg) (\<lambda>x. True)"
proof (cases "cr_passed res")
  case True
  show ?thesis unfolding judge_def if_P [OF True] by (rule adds_return)
next
  case False
  show ?thesis unfolding judge_def if_not_P [OF False] by (rule adds_return)
qed

lemma adds_if: "adds S c m P \<Longrightarrow> adds S c m' P \<Longrightarrow> adds S c (if b then m else m') P"
  by simp

lemma adds_run_in_order:
  "list_all2 (\<lambda>c n. \<forall>pg. adds S n (c pg) (\<lambda>x. True)) cs ns \<Longrightarrow>
   adds S (sum_list ns) (run_in_order cs pg) (\<lambda>x. True)"
proof (induction cs ns arbitrary: pg rule: list_all2_induct)
  case Nil
  show ?case unfolding run_in_order.simps sum_list.Nil by (rule adds_return)
next
  case (Cons c cs n ns)
  have rest: "adds S (sum_list ns) (case r of Inl out \<Rightarrow> ret (Inl out) | Inr pg' \<Rightarrow> run_in_order cs pg') (\<lambda>x. True)"
    for r :: "outcome + progress"
  proof (cases r)
    case (Inl out)
    show ?thesis unfolding Inl sum.case by (rule adds_weaken [OF adds_return]) auto
  next
    case (Inr pg')
    show ?thesis unfolding Inr sum.case by (rule Cons.IH)
  qed
  have c: "adds S n (c pg) (\<lambda>x. True)" using Cons.hyps(1) by blast
  from adds_bind [OF c rest] show ?case unfolding run_in_order.simps sum_list.Cons .
qed

lemma adds_lift_judge:
  "adds S 0 (bind (lift v) (\<lambda>res. judge type name (label res) (f res) pg)) (\<lambda>x. True)"
  by (rule adds_then [OF adds_lift [where P = "\<lambda>x. True"]]) (simp_all add: adds_judge)

lemma adds_zero_checks:
  "adds S 0 (scope_check api pl pg) (\<lambda>x. True)" "adds S 0 (freshness_check api pl pg) (\<lambda>x. True)"
  "adds S 0 (self_check_gate pl pg) (\<lambda>x. True)" "adds S 0 (novelty_gate intents pg) (\<lambda>x. True)"
  "adds S 0 (obligation_gate env api pl pg) (\<lambda>x. True)" "adds S 0 (fencing_gate env intents pg) (\<lambda>x. True)"
  "adds S 0 (claims_gate pl pg) (\<lambda>x. True)" "adds S 0 (version_check api pl pg) (\<lambda>x. True)"
proof -
  show "adds S 0 (scope_check api pl pg) (\<lambda>x. True)" "adds S 0 (freshness_check api pl pg) (\<lambda>x. True)"
    "adds S 0 (novelty_gate intents pg) (\<lambda>x. True)" "adds S 0 (obligation_gate env api pl pg) (\<lambda>x. True)"
    "adds S 0 (fencing_gate env intents pg) (\<lambda>x. True)"
    unfolding scope_check_def freshness_check_def novelty_gate_def obligation_gate_def fencing_gate_def Let_def
    by (rule adds_if; rule adds_return)+
  show "adds S 0 (self_check_gate pl pg) (\<lambda>x. True)"
    unfolding self_check_gate_def Let_def
    by (cases "find (\<lambda>c. dget c ''status'' \<noteq> JStr ''passed'') (blocking_checks (dget pl ''self_check''))")
       (simp_all only: option.case adds_return)
  show "adds S 0 (claims_gate pl pg) (\<lambda>x. True)" "adds S 0 (version_check api pl pg) (\<lambda>x. True)"
    unfolding claims_gate_def version_check_def Let_def by (rule adds_judge)+
qed

lemma adds_ownership_check: "adds S 1 (ownership_check ops pl pg) (\<lambda>x. True)"
proof -
  have "adds S (1 + 0) (ownership_check ops pl pg) (\<lambda>x. True)"
    unfolding ownership_check_def Let_def
    by (rule adds_bind, rule adds_if [OF adds_reads(3)], rule adds_weaken [OF adds_return], simp, simp, rule adds_judge)
  then show ?thesis by simp
qed

lemma adds_consolidation: "adds S 1 (consolidation_gate env ops pl pg) (\<lambda>x. True)"
proof -
  have one: "adds S 1 (ret x) (\<lambda>x. True)" for x :: check_result
    by (rule adds_weaken [OF adds_return]) auto
  have "adds S (1 + 0) (bind (lo_index ops) (\<lambda>api. ret (ge_consolidation env api ce))) (\<lambda>x. True)" for ce
    by (rule adds_bind [OF adds_index]) (rule adds_return)
  then have idx: "adds S 1 (bind (lo_index ops) (\<lambda>api. ret (ge_consolidation env api ce))) (\<lambda>x. True)" for ce by simp
  have "adds S (1 + 0) (consolidation_gate env ops pl pg) (\<lambda>x. True)"
    unfolding consolidation_gate_def
  proof (rule adds_bind [OF adds_if [OF one]])
    show "adds S 1 (case dget pl ''consolidation_envelope'' of
        JObj ce \<Rightarrow> bind (lo_index ops) (\<lambda>api. ret (ge_consolidation env api ce))
      | v \<Rightarrow> ret (check_fail ''consolidation_event patch present but no consolidation_envelope payload''
                [(''has_consolidation_envelope'', py_str (JBool (v \<noteq> JNull)))])) (\<lambda>x. True)"
      by (cases "dget pl ''consolidation_envelope''") (simp_all only: json.case one idx)
  qed (rule adds_judge)
  then show ?thesis by simp
qed

lemma adds_look_up: "adds S 1 (look_up env ops eid) (\<lambda>x. True)"
proof -
  have "adds S (1 + 0) (look_up env ops eid) (\<lambda>x. True)"
    unfolding look_up_def by (rule adds_bind [OF adds_index]) (rule adds_return)
  then show ?thesis by simp
qed

lemma adds_bind_all:
  "(\<And>x. adds S n (f x) (\<lambda>y. True)) \<Longrightarrow> adds S (n * length xs) (bind_all f xs) (\<lambda>ys. True)"
proof (induction xs)
  case Nil
  show ?case unfolding bind_all.simps list.size mult_0_right by (rule adds_return)
next
  case (Cons x xs)
  have "adds S (n + (n * length xs + 0)) (bind_all f (x # xs)) (\<lambda>ys. True)"
    unfolding bind_all.simps
    by (rule adds_bind [OF Cons.prems], rule adds_bind [OF Cons.IH], rule Cons.prems, rule adds_return)
  then show ?case by (simp add: algebra_simps)
qed

lemma adds_retire_gate: "adds S (length (superseded_events intents) + 1) (retire_gate env ops intents pg) (\<lambda>x. True)"
proof -
  have 1: "adds S (1 + 0) (bind (look_up env ops e) (\<lambda>r. ret (e, r))) (\<lambda>x. True)" for e
    by (rule adds_bind [OF adds_look_up]) (rule adds_return)
  have "adds S (1 * length (superseded_events intents) + (1 + 0)) (retire_gate env ops intents pg) (\<lambda>x. True)"
    unfolding retire_gate_def
    by (rule adds_bind, rule adds_bind_all, use 1 in simp, rule adds_bind, rule adds_if [OF adds_reads(2)],
        rule adds_weaken [OF adds_return], simp, simp, rule adds_lift_judge)
  then show ?thesis by simp
qed

lemma adds_run_checks:
  "adds S (length intents + 3) (run_checks env ops intents api pl notices) (\<lambda>out. True)"
proof -
  let ?costs = "[0, 0, 0, 0] @ [0, 0, 1, 0, 0] @ [0, 0, 0, 0, 0] @ [1, 0, 0, 0, 0, 0, 0] @ [0, length (superseded_events intents) + 1, 0]"
  have 1: "list_all2 (\<lambda>c n. \<forall>pg. adds S n (c pg) (\<lambda>x. True)) (all_checks env ops intents api pl) ?costs"
    unfolding all_checks_def envelope_checks_def conflict_checks_def payload_checks_def completion_checks_def graph_checks_def
    by (intro list_all2_appendI; simp only: list.rel_inject list.rel_intros(1) simp_thms adds_lift_judge adds_judge
        adds_zero_checks adds_ownership_check adds_consolidation adds_retire_gate)
  have "length (superseded_events intents) \<le> length intents"
    unfolding superseded_events_def by (rule le_trans [OF length_filter_le]) simp
  then have c: "sum_list ?costs \<le> length intents + 3" by simp
  have "adds S (sum_list ?costs + 0) (run_checks env ops intents api pl notices) (\<lambda>out. True)"
    unfolding run_checks_def
  proof (rule adds_bind [OF adds_run_in_order [OF 1]])
    fix r :: "outcome + progress"
    show "adds S 0 (case r of Inl out \<Rightarrow> ret out
       | Inr pg \<Rightarrow> ret \<lparr>oc_rejection = None, oc_reason = None, oc_evidence = [], oc_notices = pg_notices pg,
                      oc_violations = [], oc_drift = None, oc_performed = pg_performed pg\<rparr>) (\<lambda>out. True)"
      by (cases r) (simp_all only: sum.case adds_return)
  qed
  with c show ?thesis by (elim adds_weaken) auto
qed

section \<open>Deciding\<close>

lemma adds_emit: "adds gate_side 1 (emit_audit_triggered ops r pl ts) (\<lambda>ref. True)"
proof (cases "ts = []")
  case True
  show ?thesis unfolding emit_audit_triggered_def if_P [OF True] by (rule adds_weaken [OF adds_return]) auto
next
  case False
  have i: "adds gate_side 0 (audit_triggered_intent ops r pl ts) (\<lambda>i. known_intent i \<and> i_event_type i = ''AuditTriggered'')"
    unfolding audit_triggered_intent_def by (rule adds_weaken [OF adds_intent]) (auto simp: built_def)
  have a: "adds gate_side (1 + 0) (bind (lo_audit ops i) (\<lambda>a. ret (Some (event_id a)))) (\<lambda>ref. True)"
    if "known_intent i \<and> i_event_type i = ''AuditTriggered''" for i
    by (rule adds_bind [OF adds_audit]) (use that in \<open>auto simp: gate_side_def simp del: bind_simps intro!: adds_return\<close>)
  show ?thesis unfolding emit_audit_triggered_def if_not_P [OF False] by (rule adds_then [OF i]) (use a in simp)
qed

lemma concluded_Inl [simp]: "concluded r domain (Inl e) []"
  by (simp add: concluded_def)

lemma ends_map:
  assumes "ends S c x m (decides r D)" and "\<And>out. D out \<Longrightarrow> Q (Inr (g (r # out))) [out]" and "\<And>e. Q (Inl e) []"
  shows "ends S c x (bind m (\<lambda>rs. ret (g rs))) Q"
  unfolding ends_def closing_def
proof (intro allI impI)
  fix k s res s'
  assume rd: "ready (k + c) s" and f: "fresh s x" and b: "bind m (\<lambda>rs. ret (g rs)) s = (res, s')"
  obtain res1 s1 where m: "m s = (res1, s1)" by (cases "m s")
  from assms(1) rd f m obtain ch side rest where h: "ready k s1" "woven (visible s) ch (visible s1)"
    "ch = side @ rest" "\<forall>a \<in> set side. S a" "decides r D res1 rest" unfolding ends_def closing_def by meson
  have "s' = s1" "res = (case res1 of Inl e \<Rightarrow> Inl e | Inr rs \<Rightarrow> Inr (g rs))"
    using b m by (auto simp: bind_def ret_def split: sum.splits)
  with h assms(2,3) have "Q res rest" "ready k s'" "woven (visible s) ch (visible s')"
    by (auto simp: decides_def split: sum.splits)
  with h(3,4) show "ready k s' \<and> (\<exists>ch. woven (visible s) ch (visible s') \<and>
      (\<exists>side rest. ch = side @ rest \<and> (\<forall>a \<in> set side. S a) \<and> Q res rest))" by blast
qed

lemma ends_result:
  assumes "ends S c x m (decides r D)" and "\<And>out. D out \<Longrightarrow> concluded r domain (Inr (g (r # out))) [out]"
  shows "ends S c x (bind m (\<lambda>rs. ret (g rs))) (concluded r domain)"
  by (rule ends_map [OF assms concluded_Inl])

lemma ends_return:
  assumes "Q (Inr v) []"
  shows "ends S 0 x (ret v) Q"
  unfolding ends_def closing_def
proof (intro allI impI)
  fix k s r s' assume "ready (k + 0) s" and "ret v s = (r, s')"
  then have "ready k s'" "s' = s" "r = Inr v" by simp_all
  with assms have "ready k s'" "woven (visible s) [] (visible s')" "Q r []" by simp_all
  then show "ready k s' \<and> (\<exists>ch. woven (visible s) ch (visible s')
      \<and> (\<exists>side rest. ch = side @ rest \<and> (\<forall>a \<in> set side. S a) \<and> Q r rest))"
    by (intro conjI exI [of _ "[]"]) simp_all
qed

lemma ends_if: "ends S c x m Q \<Longrightarrow> ends S c x m' Q \<Longrightarrow> ends S c x (if b then m else m') Q"
  by simp

lemma ends_decide:
  assumes "su_batch su \<in> batch_names x" and "\<forall>d \<in> set (su_domain su). known_record d"
  shows "ends gate_side (length intents + 10) x (decide_envelope env ops blocking intents su)
    (concluded (su_envelope su) (su_domain su))"
proof -
  let ?r = "su_envelope su" and ?d = "su_domain su"
  have accept: "ends gate_side 4 x (bind (finalize_accept ops ?r ?d intents (su_gate_run su) (su_transaction su)
        (su_batch su) out pl seq []) (\<lambda>rs. ret \<lparr>ar_status = Accepted, ar_records = rs, ar_pending = None\<rparr>))
      (concluded ?r ?d)" for out pl seq
    by (rule ends_result [OF ends_finalize [OF assms]]) (simp add: concluded_def)
  have reject: "ends gate_side 4 x (bind (reject_from_outcome ops ?r (su_transaction su) (su_batch su) (su_gate_run su) out)
        (\<lambda>rs. ret \<lparr>ar_status = Rejected, ar_records = rs, ar_pending = None\<rparr>)) (concluded ?r ?d)" for out
    unfolding reject_from_outcome_def
    by (rule ends_weaken [where c = 2], rule ends_result [OF ends_reject_drift [OF assms(1)]])
       (simp_all add: concluded_def decided_def)
  have wait: "ends gate_side 4 x (ret \<lparr>ar_status = Wait_For_Audit, ar_records = [?r], ar_pending = p\<rparr>)
      (concluded ?r ?d)" for p
    by (rule ends_weaken [OF ends_return]) (simp_all add: concluded_def)
  have settle: "ends gate_side 4 x (settle ops blocking intents su pl seq ts out ref) (concluded ?r ?d)"
    for pl seq ts out ref
    unfolding settle_def by (rule ends_if [OF reject ends_if [OF wait accept]])
  have after: "ends gate_side (length intents + 3 + (1 + 4)) x (bind (run_checks env ops intents api pl notices) (\<lambda>out.
      bind (emit_audit_triggered ops ?r pl ts) (settle ops blocking intents su pl seq ts out))) (concluded ?r ?d)"
    for api pl notices seq ts
    by (rule ends_bind [OF adds_run_checks], rule ends_bind [OF adds_emit settle]) (rule concluded_Inl)+
  have "ends gate_side (1 + (1 + (length intents + 3 + (1 + 4)))) x (decide_envelope env ops blocking intents su) (concluded ?r ?d)"
    unfolding decide_envelope_def Let_def case_prod_beta
    by (rule ends_bind [OF adds_index], rule ends_bind [OF adds_reads(1)], rule after) (rule concluded_Inl)+
  then show ?thesis by (simp add: numeral_eq_Suc)
qed

section \<open>An attempt\<close>

lemma calm_after:
  assumes "adds (\<lambda>c. False) c1 m P1" and "\<And>x. P1 x \<Longrightarrow> calm c2 (f x) Q" and "\<And>e F. Q (Inl e) [] F"
  shows "calm (c1 + c2) (bind m f) Q"
proof (rule calm_weaken [OF calm_bind])
  show "calm c1 m (\<lambda>r ch F. ch = [] \<and> (\<forall>x. r = Inr x \<longrightarrow> P1 x))"
    using assms(1) unfolding adds_def by (rule calm_weaken) auto
  fix x ch F assume "ch = [] \<and> (\<forall>y. (Inr x :: verr + _) = Inr y \<longrightarrow> P1 y)"
  then show "calm c2 (f x) Q" using assms(2) by simp
qed (use assms(3) in auto)

lemma calm_named:
  "calm 1 (name12 ops pre) (\<lambda>r ch F. ch = [] \<and> (\<forall>y. r = Inr y \<longrightarrow> (\<exists>x. F x \<and> y = pre @ take 12 x)))"
proof -
  have "calm (1 + 0) (name12 ops pre) (\<lambda>r ch F. ch = [] \<and> (\<forall>y. r = Inr y \<longrightarrow> (\<exists>x. F x \<and> y = pre @ take 12 x)))"
    unfolding name12_def by (rule calm_weaken [OF calm_bind [OF calm_name calm_ret]]) auto
  then show ?thesis by simp
qed

lemma backfill_after_known [simp]: "known_record (backfill_after key eid r) = known_record r"
  by (auto simp: backfill_after_def known_record_def record_ok_def enforce_path_consistency_def Let_def split: json.split)

lemma domain_of_known: "domain_of eid intents domain \<Longrightarrow> \<forall>d \<in> set domain. known_record d"
  by (auto simp: domain_of_def backfill_envelope_event_id_refs_def backfill_semantic_sibling_refs_def)

definition submits :: "event_intent \<Rightarrow> event_intent list \<Rightarrow> string \<Rightarrow> verr + submitted \<Rightarrow> event_record list list \<Rightarrow> bool" where
  "submits envelope intents bid res ch \<longleftrightarrow>
     (case res of Inl e \<Rightarrow> ch = []
      | Inr su \<Rightarrow> ch = [[su_envelope su]] \<and> event_type (su_envelope su) = i_event_type envelope \<and> su_batch su = bid
          \<and> domain_of (event_id (su_envelope su)) intents (su_domain su))"

lemma calm_submit:
  assumes "known_intent envelope" and "\<forall>i \<in> set intents. known_intent i"
  shows "calm 3 (submit_envelope env ops envelope intents)
    (\<lambda>res ch F. \<exists>bid. submits envelope intents bid res ch \<and> (is_ok res \<longrightarrow> (\<exists>x. F x \<and> bid \<in> batch_names x)))"
proof -
  let ?prov = "i_provenance_hint envelope" and ?raw = "i_payload envelope"
  let ?session = "text_or (session_id ?prov) (str_or (dget ?raw ''session_id'') (i_local_intent_id envelope))"
  let ?fork = "text_or (fork_name ?prov) (actor_id ?prov)"
  have writing: "calm 1 (bind (lo_direct ops (envelope\<lparr>i_payload := canonical\<rparr>)) (\<lambda>r.
      ret \<lparr>su_gate_run = gate_run, su_transaction = tid, su_batch = bid, su_envelope = r,
           su_domain = backfill_envelope_event_id_refs (event_id r) (backfill_semantic_sibling_refs (event_id r) domain),
           su_raw = raw\<rparr>)) (\<lambda>res ch F. submits envelope intents bid res ch)"
    if d: "(\<forall>r \<in> set domain. known_record r) \<and> map event_type domain = map i_event_type intents
        \<and> map payload domain = map i_payload intents" for canonical gate_run tid bid domain raw
  proof -
    have "known_intent (envelope\<lparr>i_payload := canonical\<rparr>)" using assms(1) by (simp add: known_intent_def)
    from calm_bind [OF calm_direct [OF this] calm_ret]
    have "calm (1 + 0) (bind (lo_direct ops (envelope\<lparr>i_payload := canonical\<rparr>)) (\<lambda>r.
      ret \<lparr>su_gate_run = gate_run, su_transaction = tid, su_batch = bid, su_envelope = r,
           su_domain = backfill_envelope_event_id_refs (event_id r) (backfill_semantic_sibling_refs (event_id r) domain),
           su_raw = raw\<rparr>)) (\<lambda>res ch F. submits envelope intents bid res ch)"
    proof (rule calm_weaken, goal_cases)
      case (2 r ch F)
      then show ?case using d
        by (auto simp: written_one_def submits_def domain_of_def)
    qed simp
    then show ?thesis by simp
  qed
  have rest: "calm (0 + (1 + (0 + 1))) (bind (stamp_from ops tid bid 0 intents) (\<lambda>domain. bind (lo_index ops) (\<lambda>api.
      bind (lift (canon api domain)) (\<lambda>canonical. bind (lo_direct ops (envelope\<lparr>i_payload := canonical\<rparr>)) (\<lambda>r.
        ret \<lparr>su_gate_run = gate_run, su_transaction = tid, su_batch = bid, su_envelope = r,
             su_domain = backfill_envelope_event_id_refs (event_id r) (backfill_semantic_sibling_refs (event_id r) domain),
             su_raw = raw api\<rparr>))))) (\<lambda>res ch F. submits envelope intents bid res ch)" for gate_run tid bid canon raw
    by (rule calm_after [OF adds_stamp_from [OF assms(2)]], rule calm_after [OF adds_index],
        rule calm_after [OF adds_lift [where P = "\<lambda>x. True"]], rule TrueI, rule writing, assumption)
       (simp_all add: submits_def)
  have "calm (0 + (0 + (1 + (0 + (1 + (0 + 1)))))) (submit_envelope env ops envelope intents)
    (\<lambda>res ch F. \<exists>bid. submits envelope intents bid res ch \<and> (is_ok res \<longrightarrow> (\<exists>x. F x \<and> bid \<in> batch_names x)))"
    unfolding submit_envelope_def Let_def
  proof (rule calm_after [OF adds_draw], rule calm_after [OF adds_draw], rule calm_weaken [OF calm_bind [OF calm_named rest]],
      goal_cases)
    case (2 gate_run tid r ch F)
    then show ?case
    proof (elim disjE exE conjE)
      fix bid ch1 ch2 F' assume "ch1 = []" "submits envelope intents bid r ch2" "ch = ch1 @ ch2" "\<forall>y. F' y \<longrightarrow> F y"
        "\<forall>y. (Inr bid :: verr + string) = Inr y \<longrightarrow> (\<exists>x. F' x \<and> y = ''b-'' @ take 12 x)"
      then obtain x where "F x" "bid = ''b-'' @ take 12 x" "submits envelope intents bid r ch" by auto
      then have "F x" "bid \<in> batch_names x" "submits envelope intents bid r ch" by (simp_all add: batch_names_def)
      then show ?thesis by blast
    qed (auto simp: submits_def)
  qed (auto simp: submits_def)
  then show ?thesis by (simp add: numeral_eq_Suc)
qed

lemma adds_retire_guard: "adds (\<lambda>c. False) (length intents) (assert_no_protocol_invariant_retire ops intents) (\<lambda>x. True)"
proof -
  have 1: "adds (\<lambda>c. False) (1 + 0) (bind (lo_index ops) (\<lambda>api. case obligation_capture_source api oid of
         None \<Rightarrow> ret () | Some source \<Rightarrow> lift (check_retire_allowed source))) (\<lambda>x. True)" for oid
  proof (rule adds_bind [OF adds_index])
    fix api
    show "adds (\<lambda>c. False) 0 (case obligation_capture_source api oid of None \<Rightarrow> ret ()
      | Some source \<Rightarrow> lift (check_retire_allowed source)) (\<lambda>x. True)"
      by (cases "obligation_capture_source api oid") (simp_all only: option.case adds_return, rule adds_lift, rule TrueI)
  qed
  have "adds (\<lambda>c. False) (1 * length (retired_obligations intents)) (assert_no_protocol_invariant_retire ops intents) (\<lambda>x. True)"
    unfolding assert_no_protocol_invariant_retire_def by (rule adds_bind_all) (use 1 in simp)
  moreover have "length (retired_obligations intents) \<le> length intents"
    unfolding retired_obligations_def
    by (simp add: map_filter_def)
  ultimately show ?thesis by (elim adds_weaken) simp_all
qed

lemma closing_attempt:
  assumes "known_intent envelope" and "\<forall>i \<in> set intents. known_intent i"
  shows "closing (2 * length intents + 13) (\<lambda>F. True) (attempt_commit env ops blocking envelope intents)
    (attempted envelope intents)"
proof -
  have decide: "closing (length intents + 10) (\<lambda>F'. F' = F) (decide_envelope env ops blocking intents su)
      (\<lambda>r ch. \<exists>side rest. ch = side @ rest \<and> (\<forall>a \<in> set side. gate_side a)
          \<and> concluded (su_envelope su) (su_domain su) r rest)"
    if s: "submits envelope intents bid (Inr su) ch" and x: "F x" "bid \<in> batch_names x" for su ch F bid x
  proof -
    have "su_batch su \<in> batch_names x" "\<forall>d \<in> set (su_domain su). known_record d"
      using s x domain_of_known by (auto simp: submits_def)
    from ends_decide [OF this] show ?thesis
      unfolding ends_def by (rule closing_weaken) (use x in auto)
  qed
  have run: "closing (3 + (length intents + 10)) (\<lambda>F. True) (bind (submit_envelope env ops envelope intents)
      (decide_envelope env ops blocking intents)) (attempted envelope intents)"
  proof (rule closing_weaken [OF closing_bind [OF calm_submit [OF assms], where P = "\<lambda>F. True"]])
    fix su ch and F :: "string \<Rightarrow> bool"
    assume "\<exists>bid. submits envelope intents bid (Inr su) ch \<and> (is_ok (Inr su :: verr + submitted) \<longrightarrow> (\<exists>x. F x \<and> bid \<in> batch_names x))"
    then obtain bid x where "submits envelope intents bid (Inr su) ch" "F x" "bid \<in> batch_names x" by auto
    then show "closing (length intents + 10) (\<lambda>F'. F' = F) (decide_envelope env ops blocking intents su)
      (\<lambda>r ch. \<exists>side rest. ch = side @ rest \<and> (\<forall>a \<in> set side. gate_side a)
          \<and> concluded (su_envelope su) (su_domain su) r rest)" by (rule decide)
  next
    fix r ch
    assume "(\<exists>e F. r = Inl e \<and> (\<exists>bid. submits envelope intents bid (Inl e) ch
          \<and> (is_ok (Inl e :: verr + submitted) \<longrightarrow> (\<exists>x. F x \<and> bid \<in> batch_names x))))
      \<or> (\<exists>su ch1 ch2 F. (\<exists>bid. submits envelope intents bid (Inr su) ch1
          \<and> (is_ok (Inr su :: verr + submitted) \<longrightarrow> (\<exists>x. F x \<and> bid \<in> batch_names x)))
        \<and> (\<exists>side rest. ch2 = side @ rest \<and> (\<forall>a \<in> set side. gate_side a)
             \<and> concluded (su_envelope su) (su_domain su) r rest) \<and> ch = ch1 @ ch2)"
    then show "attempted envelope intents r ch"
    proof (elim disjE exE conjE)
      fix su ch1 ch2 F bid side rest
      assume "submits envelope intents bid (Inr su) ch1" "ch = ch1 @ ch2" "ch2 = side @ rest"
        "\<forall>a \<in> set side. gate_side a" "concluded (su_envelope su) (su_domain su) r rest"
      then show ?thesis unfolding attempted_def submits_def sum.case
        by (intro disjI2 exI [of _ "su_envelope su"] exI [of _ "su_domain su"] exI [of _ side] exI [of _ rest]) simp
    qed (auto simp: submits_def attempted_def)
  qed simp_all
  have "closing (length intents + (3 + (length intents + 10))) (\<lambda>F. True) (attempt_commit env ops blocking envelope intents)
    (attempted envelope intents)"
    unfolding attempt_commit_def
  proof (rule closing_weaken [OF closing_bind [OF adds_retire_guard [unfolded adds_def], where P = "\<lambda>F. True"]])
    fix u :: "unit list" and ch and F :: "string \<Rightarrow> bool"
    show "closing (3 + (length intents + 10)) (\<lambda>F'. F' = F) (bind (submit_envelope env ops envelope intents)
      (decide_envelope env ops blocking intents)) (attempted envelope intents)" by (rule closing_weaken [OF run]) auto
  qed (auto simp: attempted_def)
  then show ?thesis by (simp add: numeral_eq_Suc)
qed

section \<open>After an audit\<close>

lemma continued_Inl [simp]: "continued r domain (Inl e) []"
  by (simp add: continued_def)

lemma decided_last:
  assumes "decided r domain out"
  shows "if event_type (last (r # out)) = ''CommitAccepted'' then accepted_chunk (event_id r) domain out
    else rejected_chunk (event_id r) out"
  using assms by (auto simp: decided_def accepted_chunk_def rejected_chunk_def)

lemma ends_continue:
  assumes "pa_batch p \<in> batch_names x" and "\<forall>d \<in> set (pa_domain p). known_record d"
  shows "ends gate_side 6 x (continue_attempt env ops p verdict) (continued (pa_envelope p) (pa_domain p))"
proof -
  let ?r = "pa_envelope p" and ?d = "pa_domain p"
  have reject: "ends gate_side 5 x (bind (build_and_append_rejected ops ?r (pa_transaction p) (pa_batch p) (pa_gate_run p)
        ''audit_failed'' False (Some ''audit_failed'') ev vs None chain)
      (\<lambda>rs. ret \<lparr>ar_status = Rejected, ar_records = rs, ar_pending = None\<rparr>)) (continued ?r ?d)" for ev vs chain
    by (rule ends_weaken [where c = 1], rule ends_map [OF ends_rejected [OF assms(1)]]) (simp_all add: continued_def)
  have finalize: "ends gate_side 4 x (bind (finalize_accept ops ?r ?d (pa_intents p) (pa_gate_run p) (pa_transaction p)
        (pa_batch p) out (pa_payload p) seq chain)
      (\<lambda>rs. ret \<lparr>ar_status = (if event_type (last rs) = ''CommitAccepted'' then Accepted else Rejected),
                 ar_records = rs, ar_pending = None\<rparr>)) (continued ?r ?d)" for out seq chain
  proof (rule ends_map [OF ends_finalize [OF assms]])
    fix bt assume "decided ?r ?d bt"
    from decided_last [OF this] show "continued ?r ?d (Inr \<lparr>ar_status =
       (if event_type (last (?r # bt)) = ''CommitAccepted'' then Accepted else Rejected),
       ar_records = ?r # bt, ar_pending = None\<rparr>) [bt]"
      by (simp add: continued_def split: if_splits)
  qed simp
  have accept: "ends gate_side (1 + 4) x (bind (total (lo_max_seq ops)) (\<lambda>seq. bind (finalize_accept ops ?r ?d
        (pa_intents p) (pa_gate_run p) (pa_transaction p) (pa_batch p) out (pa_payload p) seq chain)
      (\<lambda>rs. ret \<lparr>ar_status = (if event_type (last rs) = ''CommitAccepted'' then Accepted else Rejected),
                 ar_records = rs, ar_pending = None\<rparr>))) (continued ?r ?d)" for out chain
    by (rule ends_bind [OF adds_reads(1) finalize]) simp
  have "ends gate_side (1 + 5) x (continue_attempt env ops p verdict) (continued ?r ?d)"
    unfolding continue_attempt_def Let_def
    by (rule ends_bind [OF adds_look_up], rule ends_if [OF reject], use accept in simp) (rule continued_Inl)
  then show ?thesis by simp
qed

section \<open>Abandoned envelopes\<close>

lemma closing_then:
  assumes m: "closing c1 P m Q1" and f: "\<And>x ch. Q1 (Inr x) ch \<Longrightarrow> closing c2 (\<lambda>F. True) (f x) (Q2 x)"
    and err: "\<And>e ch. Q1 (Inl e) ch \<Longrightarrow> Q (Inl e) ch"
    and ok: "\<And>x ch1 r ch2. Q1 (Inr x) ch1 \<Longrightarrow> Q2 x r ch2 \<Longrightarrow> Q r (ch1 @ ch2)"
  shows "closing (c1 + c2) P (bind m f) Q"
  unfolding closing_def
proof (intro allI impI)
  fix k s r s'
  assume rd: "ready (k + (c1 + c2)) s" and p: "P (fresh s)" and b: "bind m f s = (r, s')"
  obtain r1 s1 where m1: "m s = (r1, s1)" by (cases "m s")
  from rd have "ready ((k + c2) + c1) s" by (simp add: ac_simps)
  with m p m1 obtain ch1 where h: "ready (k + c2) s1" "woven (visible s) ch1 (visible s1)" "Q1 r1 ch1"
    unfolding closing_def by meson
  show "ready k s' \<and> (\<exists>ch. woven (visible s) ch (visible s') \<and> Q r ch)"
  proof (cases r1)
    case (Inl e)
    with b m1 have "r = Inl e" "s' = s1" by (simp_all add: bind_def)
    with h Inl ready_add err show ?thesis by blast
  next
    case (Inr x)
    with b m1 have "f x s1 = (r, s')" by (simp add: bind_def)
    with f [of x ch1] h Inr obtain ch2 where "ready k s'" "woven (visible s1) ch2 (visible s')" "Q2 x r ch2"
      unfolding closing_def by blast
    with h Inr ok woven_append show ?thesis by blast
  qed
qed

definition recovered_one :: "event_record \<Rightarrow> verr + bool \<Rightarrow> event_record list list \<Rightarrow> bool" where
  "recovered_one r res ch \<longleftrightarrow>
     (if res = Inr True then (\<exists>out. ch = [out] \<and> rejected_chunk (event_id r) out) else ch = [])"

lemma closing_after:
  assumes "adds (\<lambda>c. False) c1 m P1" and "\<And>x. P1 x \<Longrightarrow> closing c2 (\<lambda>F. True) (f x) Q" and "\<And>e. Q (Inl e) []"
  shows "closing (c1 + c2) (\<lambda>F. True) (bind m f) Q"
proof (rule closing_then [OF calm_closing [OF assms(1) [unfolded adds_def], where P = "\<lambda>F. True"], where ?Q2.0 = "\<lambda>x. Q"])
  fix x ch assume "\<exists>F :: string \<Rightarrow> bool. (\<forall>a \<in> set ch. False) \<and> (\<forall>y. (Inr x :: verr + _) = Inr y \<longrightarrow> P1 y)"
  then show "closing c2 (\<lambda>F. True) (f x) Q" using assms(2) by simp
qed (use assms(3) in auto)

lemma closing_named:
  assumes "\<And>x F. F x \<Longrightarrow> closing c (\<lambda>F'. F' = F) (f (pre @ take 12 x)) Q" and "\<And>e. Q (Inl e) []"
  shows "closing (1 + c) (\<lambda>F. True) (bind (name12 ops pre) f) Q"
proof (rule closing_weaken [OF closing_bind [OF calm_named, where P = "\<lambda>F. True" and ?Q2.0 = "\<lambda>y. Q" and pre1 = pre]])
    fix y ch and F :: "string \<Rightarrow> bool"
    assume "ch = [] \<and> (\<forall>z. (Inr y :: verr + string) = Inr z \<longrightarrow> (\<exists>x. F x \<and> z = pre @ take 12 x))"
    then obtain x where "F x" "y = pre @ take 12 x" by auto
    with assms(1) show "closing c (\<lambda>F'. F' = F) (f y) Q" by blast
qed (use assms(2) in auto)

lemma calm_outcomes: "adds S 1 (collect_envelope_outcomes ops) (\<lambda>out. True)"
proof -
  have "adds S (1 + 0) (collect_envelope_outcomes ops) (\<lambda>out. True)"
    unfolding collect_envelope_outcomes_def by (rule adds_bind [OF adds_index adds_return])
  then show ?thesis by simp
qed

lemma closing_recover: "closing 3 (\<lambda>F. True) (recover_envelope ops r) (recovered_one r)"
proof -
  have writing: "closing 1 (\<lambda>F'. F' = F) (bind (build_and_append_rejected ops r tid bid gr violation_type True None [] [] None [])
      (\<lambda>rs. ret True)) (recovered_one r)" if "F x" "bid \<in> batch_names x" for F x bid gr tid
  proof -
    have "ends (\<lambda>c. False) 1 x (bind (build_and_append_rejected ops r tid bid gr violation_type True None [] [] None [])
      (\<lambda>rs. ret True)) (recovered_one r)"
      by (rule ends_map [OF ends_rejected [OF that(2)], where g = "\<lambda>rs. True"]) (simp_all add: recovered_one_def)
    then show ?thesis unfolding ends_def by (rule closing_weaken) (use that(1) in auto)
  qed
  have draws: "closing 2 (\<lambda>F. True) (bind (draw12 ops ''gr-recover-'') (\<lambda>gate_run. bind (draw12 ops ''tx-recover-'') (\<lambda>tid.
            bind (name12 ops ''b-recover-'') (\<lambda>bid.
            bind (build_and_append_rejected ops r tid bid gate_run violation_type True None [] [] None [])
              (\<lambda>rs. ret True))))) (recovered_one r)"
  proof -
    have "closing (0 + (0 + (1 + 1))) (\<lambda>F. True) (bind (draw12 ops ''gr-recover-'') (\<lambda>gate_run. bind (draw12 ops ''tx-recover-'') (\<lambda>tid.
            bind (name12 ops ''b-recover-'') (\<lambda>bid.
            bind (build_and_append_rejected ops r tid bid gate_run violation_type True None [] [] None [])
              (\<lambda>rs. ret True))))) (recovered_one r)"
      by (rule closing_after [OF adds_draw], rule closing_after [OF adds_draw], rule closing_named, rule writing)
         (auto simp: recovered_one_def batch_names_def)
    then show ?thesis by (simp add: numeral_2_eq_2)
  qed
  have known: "closing 2 (\<lambda>F. True) (ret False) (recovered_one r)"
    by (rule closing_weaken [OF calm_closing [OF calm_ret]]) (auto simp: recovered_one_def)
  have "closing (1 + 2) (\<lambda>F. True) (recover_envelope ops r) (recovered_one r)"
    unfolding recover_envelope_def
  proof (rule closing_after [OF calm_outcomes])
    fix outs
    show "closing 2 (\<lambda>F. True) (if event_id r \<in> outs then ret False
      else bind (draw12 ops ''gr-recover-'') (\<lambda>gate_run. bind (draw12 ops ''tx-recover-'') (\<lambda>tid.
            bind (name12 ops ''b-recover-'') (\<lambda>bid.
            bind (build_and_append_rejected ops r tid bid gate_run violation_type True None [] [] None [])
              (\<lambda>rs. ret True))))) (recovered_one r)"
      by (cases "event_id r \<in> outs") (simp_all only: if_P if_not_P known draws not_False_eq_True)
  qed (simp add: recovered_one_def)
  then show ?thesis by (simp add: numeral_eq_Suc)
qed

text \<open>The recovered envelopes, in the order of the scan, each with one decision.\<close>

definition recovers :: "event_record list \<Rightarrow> verr + bool list \<Rightarrow> event_record list list \<Rightarrow> bool" where
  "recovers rs res ch \<longleftrightarrow>
     (\<exists>done. subseq done rs \<and> list_all2 (\<lambda>r. rejected_chunk (event_id r)) done ch
        \<and> (\<forall>bs. res = Inr bs \<longrightarrow> length bs = length rs \<and> done = map snd (filter fst (zip bs rs))))"

lemma closing_recover_all: "closing (3 * length rs) (\<lambda>F. True) (bind_all (recover_envelope ops) rs) (recovers rs)"
proof (induction rs)
  case Nil
  show ?case unfolding bind_all.simps list.size mult_0_right
    by (rule closing_weaken [OF calm_closing [OF calm_ret]]) (auto simp: recovers_def)
next
  case (Cons r rs)
  have tail: "closing (3 * length rs + 0) (\<lambda>F. True) (bind (bind_all (recover_envelope ops) rs) (\<lambda>bs. ret (b # bs)))
      (\<lambda>res ch. (\<exists>e. res = Inl e \<and> recovers rs (Inl e) ch) \<or> (\<exists>bs. res = Inr (b # bs) \<and> recovers rs (Inr bs) ch))" for b
    by (rule closing_then [OF Cons.IH, where ?Q2.0 = "\<lambda>bs res ch. res = Inr (b # bs) \<and> ch = []"])
       (rule closing_weaken [OF calm_closing [OF calm_ret]], auto)
  have "closing (3 + (3 * length rs + 0)) (\<lambda>F. True) (bind_all (recover_envelope ops) (r # rs)) (recovers (r # rs))"
    unfolding bind_all.simps
  proof (rule closing_then [OF closing_recover tail])
    fix e ch assume "recovered_one r (Inl e) ch"
    then have "ch = []" by (simp add: recovered_one_def)
    then show "recovers (r # rs) (Inl e) ch" by (auto simp: recovers_def intro!: exI [of _ "[]"])
  next
    fix b ch1 res ch2
    assume 1: "recovered_one r (Inr b) ch1"
      and 2: "(\<exists>e. res = Inl e \<and> recovers rs (Inl e) ch2) \<or> (\<exists>bs. res = Inr (b # bs) \<and> recovers rs (Inr bs) ch2)"
    from 2 obtain rest where rest: "subseq rest rs" "list_all2 (\<lambda>r. rejected_chunk (event_id r)) rest ch2"
      "\<And>bs. res = Inr (b # bs) \<Longrightarrow> length bs = length rs \<and> rest = map snd (filter fst (zip bs rs))"
      "\<And>bs. res = Inr bs \<Longrightarrow> \<exists>bs'. bs = b # bs'"
      unfolding recovers_def by (elim disjE exE conjE) auto
    from 1 have "list_all2 (\<lambda>r. rejected_chunk (event_id r)) ((if b then [r] else []) @ rest) (ch1 @ ch2)"
      using rest(2) by (auto simp: recovered_one_def)
    moreover have "subseq ((if b then [r] else []) @ rest) (r # rs)" using rest(1) by (cases b) (simp_all add: list_emb_Cons)
    moreover have "\<forall>bs. res = Inr bs \<longrightarrow> length bs = length (r # rs)
        \<and> (if b then [r] else []) @ rest = map snd (filter fst (zip bs (r # rs)))"
      using rest(3,4) by fastforce
    ultimately show "recovers (r # rs) res (ch1 @ ch2)" unfolding recovers_def by blast
  qed
  then show ?case by simp
qed

lemma scan_recovers:
  assumes "lo_index ops s = (Inr api, s1)" and "collect_envelope_outcomes ops s1 = (Inr snapshot, s2)"
    and "ready (k + (3 * length (abandoned_envelopes old api snapshot) + 2)) s"
    and "scan_abandoned ops old s = (res, s')"
  shows "\<exists>ch done. woven (visible s) ch (visible s') \<and> subseq done (abandoned_envelopes old api snapshot)
    \<and> list_all2 (\<lambda>r. rejected_chunk (event_id r)) done ch \<and> (\<forall>n. res = Inr n \<longrightarrow> n = length ch)"
proof -
  let ?rs = "abandoned_envelopes old api snapshot"
  have "ready ((k + (3 * length ?rs + 1)) + 1) s" using assms(3) by (simp add: numeral_2_eq_2)
  then have 1: "ready ((k + 3 * length ?rs) + 1) s1" "prefix (visible s) (visible s1)"
    using index [of _ s "Inr api" s1] assms(1) by fastforce+
  obtain ch0 where "woven (visible s1) ch0 (visible s2)" "\<forall>a \<in> set ch0. False" "ready (k + 3 * length ?rs) s2"
    using calm_outcomes [of "\<lambda>c. False"] 1(1) assms(2) unfolding adds_def calm_def by meson
  then have 2: "prefix (visible s1) (visible s2)" "ready (k + 3 * length ?rs) s2" by (cases ch0; simp)+
  obtain r3 s3 where all: "bind_all (recover_envelope ops) ?rs s2 = (r3, s3)"
    by (cases "bind_all (recover_envelope ops) ?rs s2")
  with closing_recover_all [of ?rs] 2(2) obtain ch where ch: "woven (visible s2) ch (visible s3)" "recovers ?rs r3 ch"
    unfolding closing_def by meson
  have s': "s' = s3" "res = (case r3 of Inl e \<Rightarrow> Inl e | Inr bs \<Rightarrow> Inr (length (filter id bs)))"
    using assms(4,1,2) all
    by (auto simp: scan_abandoned_def bind_def ret_def abandoned_envelopes_def split: sum.splits)
  have w: "woven (visible s) ch (visible s')"
    using woven_start [OF prefix_order.trans [OF 1(2) 2(1)] ch(1)] s'(1) by simp
  obtain don where d: "subseq don ?rs" "list_all2 (\<lambda>r. rejected_chunk (event_id r)) don ch"
    "\<forall>bs. r3 = Inr bs \<longrightarrow> length bs = length ?rs \<and> don = map snd (filter fst (zip bs ?rs))"
    using ch(2) unfolding recovers_def by blast
  have count: "length (filter fst (zip bs xs)) = length (filter id bs)" if "length bs = length xs" for bs and xs :: "event_record list"
    using that by (induction bs xs rule: list_induct2) simp_all
  have "n = length ch" if "res = Inr n" for n
    using that s'(2) d(3) count list_all2_lengthD [OF d(2)] by (auto split: sum.splits)
  with w d(1,2) show ?thesis by blast
qed

section \<open>Bootstrap\<close>

lemma adds_bootstrap_intent:
  "adds S 0 (bootstrap_envelope_intent ops intents)
     (\<lambda>i. known_intent i \<and> i_event_type i = ''TransactionEnvelopeSubmitted'')"
  unfolding bootstrap_envelope_intent_def
  by (rule adds_then [OF adds_draw]) (auto simp: Let_def known_intent_def known_gate_version intro!: adds_ret adds_fail)

lemma ends_bootstrap:
  assumes "bid \<in> batch_names x" and "\<forall>i \<in> set intents. known_intent i"
  shows "ends (\<lambda>c. False) 1 x (bind (stamp_from ops tid bid 0 intents) (\<lambda>domain.
     bind (commit_accepted_intent ops (event_id r) capsule gate_run (length domain) (mapping domain) checks notices chain) (\<lambda>i.
     bind (stamp_at ops tid bid (length intents) i) (\<lambda>sentinel.
     bind (lift (build_accepted_batch bid tid domain sentinel)) (\<lambda>b.
     bind (lo_append ops b) (\<lambda>written. ret (r # written)))))))
    (decides r (\<lambda>out. \<exists>domain. accepted_chunk (event_id r) domain out
       \<and> map event_type domain = map i_event_type intents \<and> map payload domain = map i_payload intents))"
proof (rule ends_then [OF adds_stamp_from [OF assms(2)]], rule ends_then [where ?P1.0 = "\<lambda>i. known_intent i
      \<and> i_event_type i = ''CommitAccepted'' \<and> dget (i_payload i) ''envelope_event_id'' = JStr (event_id r)"])
  show "adds (\<lambda>c. False) 0 (commit_accepted_intent ops (event_id r) capsule gate_run n m checks notices chain)
      (\<lambda>i. known_intent i \<and> i_event_type i = ''CommitAccepted'' \<and> dget (i_payload i) ''envelope_event_id'' = JStr (event_id r))" for n m
    unfolding commit_accepted_intent_def by (rule adds_weaken [OF adds_intent]) (auto simp: built_def py_simps)
next
  fix domain i
  assume d: "(\<forall>r \<in> set domain. known_record r) \<and> map event_type domain = map i_event_type intents
      \<and> map payload domain = map i_payload intents"
    and i: "known_intent i \<and> i_event_type i = ''CommitAccepted'' \<and> dget (i_payload i) ''envelope_event_id'' = JStr (event_id r)"
  show "ends (\<lambda>c. False) 1 x (bind (stamp_at ops tid bid (length intents) i) (\<lambda>sentinel.
     bind (lift (build_accepted_batch bid tid domain sentinel)) (\<lambda>b.
     bind (lo_append ops b) (\<lambda>written. ret (r # written)))))
    (decides r (\<lambda>out. \<exists>domain. accepted_chunk (event_id r) domain out
       \<and> map event_type domain = map i_event_type intents \<and> map payload domain = map i_payload intents))"
  proof (rule ends_then [OF adds_stamp], rule ends_lift)
    fix sentinel b
    assume s: "event_type sentinel = i_event_type i \<and> payload sentinel = i_payload i \<and> (known_intent i \<longrightarrow> known_record sentinel)"
      and b: "build_accepted_batch bid tid domain sentinel = Inr b"
    have eq: "b_events b = domain @ [sentinel]" "b_batch_id b = bid" "enforce_batch_invariants b = Inr b"
      using b by (auto simp: build_accepted_batch_def enforce_batch_invariants_def split: if_splits)
    show "ends (\<lambda>c. False) 1 x (bind (lo_append ops b) (\<lambda>written. ret (r # written)))
      (decides r (\<lambda>out. \<exists>domain. accepted_chunk (event_id r) domain out
       \<and> map event_type domain = map i_event_type intents \<and> map payload domain = map i_payload intents))"
    proof (rule ends_append)
      fix out assume "map content out = map content (b_events b)"
      then obtain us v where "out = us @ [v]" "map content us = map content domain" "content v = content sentinel"
        using content_split [of out domain sentinel] unfolding eq(1) by blast
      then have "accepted_chunk (event_id r) domain out"
        using s i unfolding accepted_chunk_def by (intro exI [of _ us] exI [of _ "[]"] exI [of _ v]) (auto simp: content_def)
      with d show "\<exists>domain. accepted_chunk (event_id r) domain out
        \<and> map event_type domain = map i_event_type intents \<and> map payload domain = map i_payload intents" by blast
    qed (use eq d s i assms in auto)
  qed (rule decides_Inl)+
qed (rule decides_Inl)+

lemma closing_fresh:
  assumes "adds (\<lambda>c. False) 0 m P1" and "\<And>y. P1 y \<Longrightarrow> closing c (\<lambda>F. F x) (f y) Q" and "\<And>e. Q (Inl e) []"
  shows "closing c (\<lambda>F. F x) (bind m f) Q"
proof -
  have "closing (0 + c) (\<lambda>F. F x) (bind m f) Q"
  proof (rule closing_weaken [OF closing_bind [OF assms(1) [unfolded adds_def], where P = "\<lambda>F. F x" and ?Q2.0 = "\<lambda>y. Q"]])
    fix y ch and F :: "string \<Rightarrow> bool"
    assume F: "F x" and "(\<forall>a \<in> set ch. False) \<and> (\<forall>z. (Inr y :: verr + _) = Inr z \<longrightarrow> P1 z)"
    then have "P1 y" by simp
    from assms(2) [OF this] show "closing c (\<lambda>F'. F' = F) (f y) Q" by (rule closing_weaken) (use F in auto)
  qed (use assms(3) in auto)
  then show ?thesis by simp
qed

lemma closing_bootstrap:
  assumes "\<forall>i \<in> set intents. known_intent i"
  shows "closing 3 (\<lambda>F. True) (bootstrap_commit env ops intents) (bootstrapped intents)"
proof -
  let ?D = "\<lambda>r out. \<exists>domain. accepted_chunk (event_id r) domain out
       \<and> map event_type domain = map i_event_type intents \<and> map payload domain = map i_payload intents"
  have written: "closing (1 + 1) (\<lambda>F. F x) (bind (lo_direct ops i) (\<lambda>r.
     bind (stamp_from ops tid bid 0 intents) (\<lambda>domain.
     bind (commit_accepted_intent ops (event_id r) capsule gate_run (length domain) (mapping domain) checks notices chain) (\<lambda>i.
     bind (stamp_at ops tid bid (length intents) i) (\<lambda>sentinel.
     bind (lift (build_accepted_batch bid tid domain sentinel)) (\<lambda>b.
     bind (lo_append ops b) (\<lambda>written. ret (r # written)))))))) (bootstrapped intents)"
    if i: "known_intent i" "i_event_type i = ''TransactionEnvelopeSubmitted''" and x: "bid \<in> batch_names x"
    for i x bid tid capsule gate_run mapping checks notices chain
  proof (rule closing_weaken [OF closing_bind [OF calm_direct [OF i(1)], where P = "\<lambda>F. F x"
        and ?Q2.0 = "\<lambda>r res ch. \<exists>side rest. ch = side @ rest \<and> (\<forall>a \<in> set side. False) \<and> decides r (?D r) res rest"]])
    fix r ch and G :: "string \<Rightarrow> bool" assume G: "G x"
    show "closing 1 (\<lambda>F'. F' = G) (bind (stamp_from ops tid bid 0 intents) (\<lambda>domain.
     bind (commit_accepted_intent ops (event_id r) capsule gate_run (length domain) (mapping domain) checks notices chain) (\<lambda>i.
     bind (stamp_at ops tid bid (length intents) i) (\<lambda>sentinel.
     bind (lift (build_accepted_batch bid tid domain sentinel)) (\<lambda>b.
     bind (lo_append ops b) (\<lambda>written. ret (r # written)))))))
      (\<lambda>res ch. \<exists>side rest. ch = side @ rest \<and> (\<forall>a \<in> set side. False) \<and> decides r (?D r) res rest)"
      by (rule closing_weaken [OF ends_bootstrap [OF x assms, unfolded ends_def]]) (use G in auto)
  next
    fix res ch
    assume "(\<exists>e F. res = Inl e \<and> written_one i (Inl e) ch)
      \<or> (\<exists>r ch1 ch2 F. written_one i (Inr r) ch1
          \<and> (\<exists>side rest. ch2 = side @ rest \<and> (\<forall>a \<in> set side. False) \<and> decides r (?D r) res rest) \<and> ch = ch1 @ ch2)"
    then show "bootstrapped intents res ch"
    proof (elim disjE exE conjE)
      fix r ch1 ch2 side rest
      assume w: "written_one i (Inr r) ch1" and "ch2 = side @ rest" "\<forall>a \<in> set side. False" "ch = ch1 @ ch2"
        and d: "decides r (?D r) res rest"
      then have "ch = [r] # rest" "event_type r = ''TransactionEnvelopeSubmitted''"
        using i(2) by (auto simp: written_one_def)
      with d show ?thesis
        unfolding bootstrapped_def decides_def by (intro disjI2 exI [of _ r]) (auto split: sum.splits)
    qed (auto simp: written_one_def bootstrapped_def)
  qed (use x in auto)
  have err: "bootstrapped intents (Inl e) []" for e by (simp add: bootstrapped_def)
  have canonical: "known_intent (i\<lparr>i_payload := c\<rparr>)" "i_event_type (i\<lparr>i_payload := c\<rparr>) = i_event_type i"
    if "known_intent i" for i c using that by (simp_all add: known_intent_def)
  have go: "closing (1 + 1) (\<lambda>F. F x) (bind (bootstrap_envelope_intent ops intents) (\<lambda>envelope.
     bind (lift (canon envelope)) (\<lambda>canonical.
     bind (lo_direct ops (envelope\<lparr>i_payload := canonical\<rparr>)) (\<lambda>r.
     bind (stamp_from ops tid bid 0 intents) (\<lambda>domain.
     bind (commit_accepted_intent ops (event_id r) capsule gate_run (length domain) (mapping domain) checks notices chain) (\<lambda>i.
     bind (stamp_at ops tid bid (length intents) i) (\<lambda>sentinel.
     bind (lift (build_accepted_batch bid tid domain sentinel)) (\<lambda>b.
     bind (lo_append ops b) (\<lambda>written. ret (r # written)))))))))) (bootstrapped intents)"
    if "bid \<in> batch_names x" for x bid tid canon capsule gate_run mapping checks notices chain
    by (rule closing_fresh [OF adds_bootstrap_intent], rule closing_fresh [OF adds_lift [where P = "\<lambda>c. True"]],
        rule TrueI, rule written) (use that canonical err in auto)
  have named: "closing (1 + 1) (\<lambda>F'. F' = F) m Q"
    if "F x" "closing (1 + 1) (\<lambda>F. F x) m Q" for F x and m :: "('s, event_record list) act" and Q
    using that(2) by (rule closing_weaken) (use that(1) in auto)
  have "closing (0 + (0 + (1 + (1 + 1)))) (\<lambda>F. True) (bootstrap_commit env ops intents) (bootstrapped intents)"
    unfolding bootstrap_commit_def
    by (rule closing_after [OF adds_draw], rule closing_after [OF adds_draw], rule closing_named,
        rule named, assumption, rule go)
       (auto simp: err batch_names_def)
  then show ?thesis by (simp add: numeral_eq_Suc)
qed

end

end
