(* ===== verification/Commit_Gate_Properties.thy ===== *)
theory Commit_Gate_Properties
  imports Commit_Gate_Effects Index_Properties Envelope_Properties
begin

text \<open>
  The commit gate on the event log: what an attempt, its continuation, the recovery and the bootstrap
  leave there while other processes write, what the retirement check ensures, and two surprises.
\<close>

section \<open>Runs in memory\<close>

text \<open>
  A log in memory for concrete runs: \<open>m_later\<close> is what others add before each of the next operations.
\<close>

record memory =
  m_log :: "event_record list"
  m_later :: "event_record list list"
  m_next :: nat

definition others_first :: "memory \<Rightarrow> memory" where
  "others_first m = m\<lparr>m_log := m_log m @ (case m_later m of [] \<Rightarrow> [] | rs # _ \<Rightarrow> rs), m_later := tl (m_later m)\<rparr>"

definition memory_name :: "nat \<Rightarrow> string" where
  "memory_name n = replicate 11 (CHR ''0'') @ [char_of (97 + n)]"

definition memory_record :: "event_intent \<Rightarrow> memory \<Rightarrow> (string \<times> string \<times> int) option \<Rightarrow> event_record" where
  "memory_record i m path =
     \<lparr>event_id = hex_id (memory_name (m_next m)), sequence_number = int (m_next m), timestamp = ''t'',
      transaction_id = map_option fst path, batch_id = map_option (fst \<circ> snd) path,
      batch_position = map_option (snd \<circ> snd) path, record_hash = ''0'', local_intent_id = i_local_intent_id i,
      event_type = i_event_type i, event_category = i_event_category i, payload = i_payload i,
      provenance = i_provenance_hint i, base_classification = i_base_classification i, supersede = i_supersede i,
      subjects = i_subjects i, schema_version = i_schema_version i\<rparr>"

definition memory_add :: "event_record \<Rightarrow> memory \<Rightarrow> memory" where
  "memory_add r m = m\<lparr>m_log := m_log m @ [r], m_next := m_next m + 1\<rparr>"

definition memory_write :: "event_intent \<Rightarrow> memory \<Rightarrow> (verr + event_record) \<times> memory" where
  "memory_write i m0 = (let m = others_first m0; r = memory_record i m None in (Inr r, memory_add r m))"

definition memory_draw :: "memory \<Rightarrow> string \<times> memory" where
  "memory_draw m = (memory_name (m_next m), m\<lparr>m_next := m_next m + 1\<rparr>)"

definition memory_log :: "memory log_ops" where
  "memory_log =
     \<lparr>lo_index = (\<lambda>m0. let m = others_first m0 in (Inr (eager_api (event_index_of (m_log m))), m)),
      lo_lines = (\<lambda>m0. ([], others_first m0)), lo_ownership = (\<lambda>m0. (None, others_first m0)),
      lo_max_seq = (\<lambda>m0. let m = others_first m0 in (foldl max (-1) (map sequence_number (m_log m)), m)),
      lo_draw = memory_draw, lo_name = memory_draw, lo_direct = memory_write, lo_audit = memory_write,
      lo_stamp = (\<lambda>i tid bid pos m. (Inr (memory_record i m (Some (tid, bid, pos))), m\<lparr>m_next := m_next m + 1\<rparr>)),
      lo_normalize = Pair,
      lo_append = (\<lambda>b m0. let m = others_first m0 in (Inr (b_events b), m\<lparr>m_log := m_log m @ b_events b\<rparr>))\<rparr>"

text \<open>A gate without fences, with checks of closures that pass.\<close>

definition plain_gate :: gate_env where
  "plain_gate =
     \<lparr>ge_lax = strict_lax, ge_now = ''t'', ge_sample = (\<lambda>r n. False), ge_recent = (\<lambda>t. False),
      ge_re_search = (\<lambda>p t. Some False), ge_fence = (\<lambda>n. None), ge_enforce_fence = False, ge_r2 = False, ge_r3 = False,
      ge_routable = (\<lambda>i. True), ge_impact = (\<lambda>c. {}), ge_cold = (\<lambda>e. None),
      ge_consolidation = (\<lambda>api e. check_skip []), ge_closure_evidence = (\<lambda>is api rs. check_skip []),
      ge_live_target = (\<lambda>is rs. check_skip [])\<rparr>"














section \<open>On the event log\<close>

text \<open>A site on which nobody else writes, with names for 256 batches.\<close>

definition site_name_at :: "nat \<Rightarrow> string" where
  "site_name_at t = char_of t # replicate 31 (CHR ''0'')"

definition quiet_site :: site where
  "quiet_site =
     \<lparr>w_codec = sample_codec, w_cfg = sample_cfg, w_schema = no_schema, w_hex = site_name_at, w_now = (\<lambda>t. ''t''),
      w_others = (\<lambda>t d. d), w_ownership = (\<lambda>t d. None), w_tick = 0, w_names = site_name_at, w_named = 0,
      w_handle = new_handle, w_disk = empty_disk\<rparr>"

lemma quiet_others: "others_ok quiet_site"
  by (auto simp: others_ok_def quiet_site_def log_extends_def room_for_def)

lemma quiet_names: "n \<le> 256 \<Longrightarrow> inj_on (\<lambda>t. take 12 (site_name_at t)) {..<n}"
  by (rule inj_onI) (auto simp: site_name_at_def char_of_eq_iff take_bit_eq_mod)




text \<open>A site with an old envelope that nobody has decided.\<close>

definition old_envelope :: event_record where
  "old_envelope = sample_record ''a'' 0 ''TransactionEnvelopeSubmitted'' None"

definition crashed_site :: site where
  "crashed_site = quiet_site\<lparr>w_disk := single_disk old_envelope\<rparr>"

lemma old_envelope_single: "single_ok old_envelope"
  by (simp add: single_ok_def old_envelope_def) (code_simp)

lemma crashed_ready:
  assumes "2 * k \<le> 256"
  shows "site_ready k crashed_site"
proof -
  note d = single_disk_props [OF old_envelope_single]
  have one: "record_ok old_envelope" "is_known_schema_version (schema_version old_envelope)" "batch_id old_envelope = None"
    using old_envelope_single by (simp_all add: single_ok_def)
  have "hot_keys (single_disk old_envelope) = {}"
    by (simp add: single_disk_def append_text_def empty_disk_def hot_keys_def)
  then have "room_for (2 * k) (single_disk old_envelope)" using assms by (simp add: room_for_def)
  moreover have "known_versions sample_codec (single_disk old_envelope)"
    by (simp add: known_versions_def d(2) no_unknown_truth_def one)
  moreover have "batch_fresh sample_codec (single_disk old_envelope) b" for b
    by (simp add: batch_fresh_def d(4) one)
  moreover have "0 \<le> h_next new_handle" by (simp add: new_handle_def)
  moreover have "12 \<le> length (site_name_at t)" for t by (simp add: site_name_at_def)
  ultimately show ?thesis
    using quiet_others quiet_names [OF assms] sample_sound d(1)
    by (simp add: crashed_site_def site_ready_def site_state_def quiet_site_def batch_unused_def others_ok_def)
qed







text \<open>The bootstrap is atomic in the same way: it leaves the envelope and then one accepted batch
  with the records of all intents, or no batch at all.\<close>
theorem bootstrap_is_atomic:
  assumes "site_ready 3 w" and "\<forall>i \<in> set intents. known_intent i"
    and "bootstrap_commit env event_log_ops intents w = (res, w')"
  shows "\<exists>chunks. woven (site_visible w) chunks (site_visible w') \<and> bootstrapped intents res chunks"
  using site_log.closing_bootstrap [OF assms(2), of env] assms(1,3)
  unfolding site_log.closing_def by (metis add_0)

theorem bootstrap_is_atomic_witness:
  "\<exists>chunks. woven [old_envelope] chunks (site_visible (snd (bootstrap_commit plain_gate event_log_ops
       [sample_intent ''ObligationCaptured''] crashed_site)))
    \<and> bootstrapped [sample_intent ''ObligationCaptured'']
        (fst (bootstrap_commit plain_gate event_log_ops [sample_intent ''ObligationCaptured''] crashed_site)) chunks"
proof -
  have v: "site_visible crashed_site = [old_envelope]"
    using committed_closed [OF single_disk_props(5) [OF old_envelope_single]] single_disk_props(4) [OF old_envelope_single]
    by (simp add: site_visible_def crashed_site_def quiet_site_def)
  have "known_intent (sample_intent type)" for type by (simp add: known_intent_def sample_intent_def sample_schema)
  then show ?thesis
    using bootstrap_is_atomic [OF crashed_ready, of "[sample_intent ''ObligationCaptured'']" plain_gate
        "fst (bootstrap_commit plain_gate event_log_ops [sample_intent ''ObligationCaptured''] crashed_site)"
        "snd (bootstrap_commit plain_gate event_log_ops [sample_intent ''ObligationCaptured''] crashed_site)"]
    by (simp add: v)
qed

section \<open>Obligations of the bootstrap\<close>

lemma bind_all_fails:
  assumes "x \<in> set xs" and "\<And>y s r s'. P s \<Longrightarrow> f y s = (r, s') \<Longrightarrow> P s'" and "\<And>s r s'. P s \<Longrightarrow> f x s = (r, s') \<Longrightarrow> \<not> is_ok r"
    and "P s" and "bind_all f xs s = (r, s')"
  shows "\<not> is_ok r \<and> P s'"
  using assms(1,4,5)
proof (induction xs arbitrary: s r s')
  case (Cons y ys)
  obtain r1 s1 where y: "f y s = (r1, s1)" by (cases "f y s")
  with assms(2) Cons.prems(2) have s1: "P s1" by blast
  show ?case
  proof (cases r1)
    case (Inl e)
    with y s1 Cons.prems(3) show ?thesis by (auto simp: bind_def)
  next
    case (Inr v)
    with y assms(3) Cons.prems(1,2) have "x \<in> set ys" by (metis is_ok_simps(2) set_ConsD)
    obtain r2 s2 where ys: "bind_all f ys s1 = (r2, s2)" by (cases "bind_all f ys s1")
    from Cons.IH [OF \<open>x \<in> set ys\<close> s1 ys] ys y Inr Cons.prems(3) show ?thesis
      by (cases r2) (auto simp: bind_def)
  qed
qed simp

text \<open>C25: An obligation of the bootstrap is never retired through the gate.  As long as every read of
  the index finds it captured by the bootstrap, an attempt with an intent that retires it fails before
  it has written anything: whatever index reads preserve still holds of the log.\<close>
theorem bootstrap_obligation_never_retired:
  assumes "oid \<in> set (retired_obligations intents)" and "P s"
    and "\<And>t r t'. P t \<Longrightarrow> lo_index ops t = (r, t') \<Longrightarrow>
      P t' \<and> (\<forall>api. r = Inr api \<longrightarrow> obligation_capture_source api oid = Some ''system_bootstrap'')"
    and "attempt_commit env ops blocking envelope intents s = (res, s')"
  shows "\<not> is_ok res \<and> P s'"
proof -
  let ?f = "\<lambda>oid. bind (lo_index ops) (\<lambda>api. case obligation_capture_source api oid of
         None \<Rightarrow> ret () | Some source \<Rightarrow> lift (check_retire_allowed source))"
  have run: "(\<exists>e. r = Inl e \<and> lo_index ops t = (Inl e, t')) \<or> (\<exists>api. lo_index ops t = (Inr api, t')
      \<and> r = (case obligation_capture_source api y of None \<Rightarrow> Inr () | Some source \<Rightarrow> check_retire_allowed source))"
    if "?f y t = (r, t')" for y t r t'
    using that by (auto simp: bind_def ret_def lift_def split: prod.splits sum.splits option.splits)
  obtain r1 s1 where g: "bind_all ?f (retired_obligations intents) s = (r1, s1)"
    by (cases "bind_all ?f (retired_obligations intents) s")
  have "\<not> is_ok r1 \<and> P s1"
  proof (rule bind_all_fails [where f = ?f and x = oid and P = P])
    show "oid \<in> set (retired_obligations intents)" "P s" "bind_all ?f (retired_obligations intents) s = (r1, s1)"
      using assms(1,2) g by simp_all
    show "P t'" if "P t" "?f y t = (r, t')" for y t r t'
      using run [OF that(2)] assms(3) [OF that(1)] by blast
    show "\<not> is_ok r" if "P t" "?f oid t = (r, t')" for t r t'
      using run [OF that(2)] assms(3) [OF that(1)] by (auto simp: check_retire_allowed_def)
  qed
  then show ?thesis
    using g assms(4) unfolding attempt_commit_def assert_no_protocol_invariant_retire_def
    by (cases r1) (auto simp: bind_def)
qed

definition protected :: event_record where
  "protected = (sample_record ''a'' 0 ''ObligationCaptured'' None)
     \<lparr>payload := [(''obligation_id'', JStr ''ob-1''), (''capture_source'', JStr ''system_bootstrap'')]\<rparr>"

definition retiring :: event_intent where
  "retiring = (sample_intent ''ObligationRetired'')\<lparr>i_payload := [(''obligation_id'', JStr ''ob-1'')]\<rparr>"

theorem bootstrap_obligation_never_retired_witness:
  "\<not> is_ok (fst (attempt_commit plain_gate memory_log False (sample_intent ''TransactionEnvelopeSubmitted'') [retiring] \<lparr>m_log = [protected], m_later = [], m_next = 0\<rparr>))
    \<and> m_log (snd (attempt_commit plain_gate memory_log False (sample_intent ''TransactionEnvelopeSubmitted'') [retiring] \<lparr>m_log = [protected], m_later = [], m_next = 0\<rparr>)) = [protected]"
proof -
  let ?s = "\<lparr>m_log = [protected], m_later = [], m_next = 0\<rparr>"
  have o: "''ob-1'' \<in> set (retired_obligations [retiring])" by code_simp
  have c: "obligation_capture_source (eager_api (event_index_of [protected])) ''ob-1'' = Some ''system_bootstrap''" by code_simp
  have i: "(m_log t' = [protected] \<and> m_later t' = [])
      \<and> (\<forall>api. r = Inr api \<longrightarrow> obligation_capture_source api ''ob-1'' = Some ''system_bootstrap'')"
    if "m_log t = [protected] \<and> m_later t = []" "lo_index memory_log t = (r, t')" for t r t'
    using that c by (auto simp: memory_log_def others_first_def Let_def)
  show ?thesis
    using bootstrap_obligation_never_retired [where P = "\<lambda>t. m_log t = [protected] \<and> m_later t = []" and s = ?s
        and ops = memory_log and oid = "''ob-1''" and intents = "[retiring]" and env = plain_gate and blocking = False
        and envelope = "sample_intent ''TransactionEnvelopeSubmitted''" and res = "fst r" and s' = "snd r" for r, OF o _ i] by simp
qed

end
