(* ===== verification/Concept_Properties.thy ===== *)
theory Concept_Properties
  imports Gate_Retire Event_Log_Properties
begin

text \<open>
  What the commit gate's checks on the concept graph ensure: edges lead somewhere, new concepts of a
  mature graph are related, a retired concept leaves no reference behind - and where the last one fails.
\<close>

section \<open>Edges and new concepts\<close>

lemma concepts_fold_ids:
  "fst ` set (fold (\<lambda>r by_id. if P r then by_id else AList.update (k r) (v r) by_id) recs acc)
     = fst ` set acc \<union> {k r | r. r \<in> set recs \<and> \<not> P r}"
proof (induction recs arbitrary: acc)
  case (Cons r recs)
  have "fst ` set (AList.update (k r) (v r) acc) = insert (k r) (fst ` set acc)"
    using dom_update [of "k r" "v r" acc] by (simp add: dom_map_of_conv_image_fst)
  then show ?case by (auto simp: Cons.IH)
qed simp

lemma concepts_fold_key:
  assumes "\<forall>(k', c) \<in> set acc. co_id c = k'" and "\<And>r. co_id (v r) = k r"
  shows "\<forall>(k', c) \<in> set (fold (\<lambda>r by_id. if P r then by_id else AList.update (k r) (v r) by_id) recs acc). co_id c = k'"
  using assms(1)
proof (induction recs arbitrary: acc)
  case (Cons r recs)
  have "set (AList.update (k r) (v r) acc) \<subseteq> insert (k r, v r) (set acc)"
    by (induction acc) auto
  with Cons.prems assms(2) have "\<forall>(k', c) \<in> set (AList.update (k r) (v r) acc). co_id c = k'" by auto
  with Cons show ?case by simp
qed simp

lemma existing_concept_ids:
  "co_id ` set (existing_concepts_from_records recs [] True)
     = {cid. cid \<noteq> [] \<and> (\<exists>r \<in> set recs. event_type r = ''ConceptCreated'' \<and> concept_id_of (concept_src (payload r)) = cid)}"
proof -
  let ?k = "\<lambda>r. concept_id_of (concept_src (payload r))"
  let ?v = "\<lambda>r. \<lparr>co_id = ?k r, co_name = concept_name_of (concept_src (payload r)),
      co_definition = text_at (concept_src (payload r)) ''definition''\<rparr>"
  let ?P = "\<lambda>r. event_type r \<noteq> ''ConceptCreated'' \<or> ?k r = []"
  let ?f = "fold (\<lambda>r by_id. if ?P r then by_id else AList.update (?k r) (?v r) by_id) recs []"
  have eq: "existing_concepts_from_records recs [] True = map snd ?f"
    by (simp add: existing_concepts_from_records_def Let_def)
  have "\<forall>(k', c) \<in> set ?f. co_id c = k'" by (rule concepts_fold_key) simp_all
  then have "co_id ` snd ` set ?f = fst ` set ?f" by (force simp: image_iff)
  with concepts_fold_ids [of ?P ?k ?v recs "[]"] show ?thesis by (auto simp: eq)
qed

text \<open>An edge leads somewhere.  The check on new edges passes exactly when the target of each of
  them is the identifier of a concept that some record of the log has created, whether or not it was
  retired since, or of a concept that the same batch creates, or looks like an external anchor.\<close>
theorem edge_targets_resolve:
  "cr_passed (check_graph_edge_integrity intents recs) \<longleftrightarrow>
     (\<forall>(e, s, t) \<in> set (extract_concept_edges intents).
        (t \<noteq> [] \<and> (\<exists>r \<in> set recs. event_type r = ''ConceptCreated'' \<and> concept_id_of (concept_src (payload r)) = t))
        \<or> (\<exists>nc \<in> set (extract_new_concepts intents). nc_id nc = t) \<or> is_external_anchor t)"
proof -
  let ?nodes = "co_id ` set (existing_concepts_from_records recs [] True) \<union> nc_id ` set (extract_new_concepts intents)"
  let ?bad = "\<lambda>(e :: string, s :: string, t). t \<notin> ?nodes \<and> \<not> is_external_anchor t"
  have mem: "t \<in> ?nodes \<longleftrightarrow> (t \<noteq> [] \<and> (\<exists>r \<in> set recs. event_type r = ''ConceptCreated''
        \<and> concept_id_of (concept_src (payload r)) = t)) \<or> (\<exists>nc \<in> set (extract_new_concepts intents). nc_id nc = t)" for t
    by (auto simp: existing_concept_ids)
  have "cr_passed (check_graph_edge_integrity intents recs) \<longleftrightarrow> find ?bad (extract_concept_edges intents) = None"
    by (auto simp: check_graph_edge_integrity_def Let_def check_skip_def check_ok_def check_fail_def split: option.splits)
  also have "\<dots> \<longleftrightarrow> (\<forall>(e, s, t) \<in> set (extract_concept_edges intents). t \<in> ?nodes \<or> is_external_anchor t)"
    by (auto simp: find_None_iff simp del: Un_iff)
  finally show ?thesis unfolding mem disj_assoc .
qed

definition some_edge :: event_intent where
  "some_edge = (sample_intent ''ConceptEdgeAdded'')\<lparr>i_payload :=
     [(''after_state'', JObj [(''edge_id'', JStr ''e1''), (''source_concept_id'', JStr ''c1''),
        (''target_concept_id'', JStr ''c2'')])]\<rparr>"

theorem edge_targets_resolve_witness:
  "\<not> cr_passed (check_graph_edge_integrity [some_edge] [])"
proof -
  have "extract_concept_edges [some_edge] = [(''e1'', ''c1'', ''c2'')]" "extract_new_concepts [some_edge] = []"
    "\<not> is_external_anchor ''c2''" by code_simp+
  then show ?thesis by (simp add: edge_targets_resolve)
qed

lemma fold_max_ge:
  fixes f :: "'a \<Rightarrow> 'b :: linorder"
  shows "b \<le> fold (\<lambda>c best. max best (f c)) xs a \<longleftrightarrow> b \<le> a \<or> (\<exists>c \<in> set xs. b \<le> f c)"
  by (induction xs arbitrary: a) (auto simp: le_max_iff_disj)

lemma classify_concepts_in:
  assumes "classify_concepts f ncs = Inr signals" and "nc \<in> set ncs"
  shows "\<exists>s. f nc = Inr s \<and> (nc_id nc, s) \<in> set signals"
  using assms
proof (induction ncs arbitrary: signals)
  case (Cons x xs)
  then show ?case by (cases "nc = x") (auto simp: py_simps)
qed simp

lemma best_score_ge:
  assumes "b \<le> best_score text existing" and "0 < b"
  shows "\<exists>c \<in> set existing. b \<le> relatedness text (corpus (co_name c) (co_definition c))"
  using assms by (auto simp: best_score_def fold_max_ge split: if_splits)

text \<open>C24: In a mature graph no concept is born isolated.  If the relatedness check passes while at
  least twenty-four concepts exist, every new concept names another concept of the graph or of the
  batch as affected, or is an end of an edge of the batch, or shares at least a tenth of its words
  with an existing concept, or is declared genuinely new.\<close>
theorem mature_graph_has_no_isolated_birth:
  assumes "check_concept_create_relatedness intents existing = Inr res" and "cr_passed res"
    and "24 \<le> length existing" and "nc \<in> set (extract_new_concepts intents)"
  shows "(\<exists>other \<in> nc_affected nc. other \<noteq> nc_id nc
           \<and> (other \<in> co_id ` set existing \<or> other \<in> nc_id ` set (extract_new_concepts intents)))
    \<or> nc_id nc \<in> extract_edge_linked_concepts intents
    \<or> (\<exists>c \<in> set existing. 1 / 10 \<le> relatedness (corpus (nc_name nc) (nc_definition nc)) (corpus (co_name c) (co_definition c)))
    \<or> asserts_genuinely_new nc = Inr True"
proof -
  let ?fresh = "extract_new_concepts intents"
  let ?targets = "co_id ` set existing \<union> nc_id ` set ?fresh"
  let ?f = "classify_one existing ?targets (extract_edge_linked_concepts intents)
      default_maturity_threshold default_semantic_min_overlap"
  have "?fresh \<noteq> []" using assms(4) by auto
  with assms(1) obtain signals where s: "classify_concepts ?f ?fresh = Inr signals"
    and res: "res = (let violations = map fst (filter (\<lambda>(i, s). s = Isolated_Violation) signals);
               notices = map (\<lambda>(i, s). ''concept_relatedness: '' @ i @ '' ('' @ signal_text s @ '')'')
                 (filter (\<lambda>(i, s). \<not> related_signal s \<and> s \<noteq> Isolated_Violation) signals)
           in if violations \<noteq> []
              then (check_fail ''concept_isolated_no_relatedness''
                     [(''isolated_concepts'', join '','' violations),
                      (''existing_concept_count'', nat_str (length existing)),
                      (''maturity_threshold'', nat_str default_maturity_threshold)])\<lparr>cr_notices := notices\<rparr>
              else check_ok\<lparr>cr_notices := notices\<rparr>)"
    by (auto simp: check_concept_create_relatedness_def Let_def py_simps)
  from classify_concepts_in [OF s assms(4)] obtain sg where sg: "?f nc = Inr sg" "(nc_id nc, sg) \<in> set signals" by blast
  have "sg \<noteq> Isolated_Violation"
  proof
    assume "sg = Isolated_Violation"
    with sg(2) have "map fst (filter (\<lambda>(i, s). s = Isolated_Violation) signals) \<noteq> []" by (auto simp: filter_empty_conv)
    with assms(2) show False by (simp add: res Let_def check_fail_def)
  qed
  let ?score = "best_score (corpus (nc_name nc) (nc_definition nc)) existing"
  from sg(1) \<open>sg \<noteq> Isolated_Violation\<close> assms(3)
  consider "(nc_affected nc \<inter> ?targets) - {nc_id nc} \<noteq> {}" | "nc_id nc \<in> extract_edge_linked_concepts intents"
    | "1 / 10 \<le> ?score" | "asserts_genuinely_new nc = Inr True"
    by (auto simp: classify_one_def default_maturity_threshold_def default_semantic_min_overlap_def py_simps split: if_splits)
  then show ?thesis
  proof cases
    case 3
    from best_score_ge [OF this] show ?thesis by simp
  qed auto
qed

text \<open>A graph of twenty-four concepts, and a new one that names one of them as affected.\<close>

definition mature_graph :: "concept list" where
  "mature_graph = replicate 24 \<lparr>co_id = ''c'', co_name = ''ledger'', co_definition = ''''\<rparr>"

definition new_ledger :: event_intent where
  "new_ledger = (sample_intent ''ConceptCreated'')\<lparr>i_payload :=
     [(''semantic_annotation'', JObj [(''affected_concept_ids'', JArr [JStr ''c''])]),
      (''after_state'', JObj [(''concept_id'', JStr ''n''), (''name'', JStr ''journal'')])]\<rparr>"

theorem mature_graph_has_no_isolated_birth_witness:
  "\<exists>nc \<in> set (extract_new_concepts [new_ledger]). nc_id nc = ''n'' \<and> nc_affected nc = {''c''}
    \<and> (\<exists>other \<in> nc_affected nc. other \<in> co_id ` set mature_graph)"
proof -
  let ?nc = "\<lparr>nc_id = ''n'', nc_name = ''journal'', nc_definition = '''', nc_affected = {''c''}, nc_relationship = JNull\<rparr>"
  have n: "extract_new_concepts [new_ledger] = [?nc]" by code_simp
  have e: "extract_edge_linked_concepts [new_ledger] = {}" by code_simp
  have "case check_concept_create_relatedness [new_ledger] mature_graph of Inl e \<Rightarrow> False | Inr res \<Rightarrow> cr_passed res"
    by code_simp
  then obtain res where "check_concept_create_relatedness [new_ledger] mature_graph = Inr res" "cr_passed res"
    by (cases "check_concept_create_relatedness [new_ledger] mature_graph") auto
  from mature_graph_has_no_isolated_birth [OF this, of ?nc] show ?thesis
    by (simp add: n e mature_graph_def)
qed

section \<open>Retiring concepts\<close>

text \<open>C6: A retired concept leaves no reference behind.  If the retirement check passes, then for
  every intent that retires a concept the log could resolve, each reference to that concept on the log
  that asks for an explicit decision and that no line removes is taken care of: the batch removes it,
  or its source is a concept the batch creates or changes, or some reference - of the batch or on the
  log - points that source at one of the new versions.\<close>
theorem retired_concept_leaves_no_reference:
  assumes "concept_retire_gate event_at lines impact intents = Inr res" and "cr_passed res"
    and "i \<in> set intents" and "retiring_of (superseded_concept event_at) i = Some (Inr rc)"
    and "l \<in> set lines" and "adds_reference_to (rc_old rc) l"
    and "policy_of (line_after l) = ''explicit_decision_required''"
    and "dget (line_after l) ''at_reference'' \<notin> JStr ` set (List.map_filter removed_reference lines)"
    and "ref_ids (line_after l) = (source, ref)" and "source \<noteq> [] \<or> ref \<noteq> []"
  shows "migrated (migrations_of intents (committed_repointed_sources lines)
    (fresh_versions (rights (List.map_filter (retiring_of (superseded_concept event_at)) intents)))) source ref"
proof (rule ccontr)
  let ?found = "List.map_filter (retiring_of (superseded_concept event_at)) intents"
  let ?m = "migrations_of intents (committed_repointed_sources lines) (fresh_versions (rights ?found))"
  let ?r = "dset ''_event_id'' (dget l ''event_id'') (line_after l)"
  assume not: "\<not> migrated ?m source ref"
  have f: "Inr rc \<in> set ?found" using assms(3,4) by (force simp: map_filter_def)
  then have rc: "rc \<in> set (rights ?found)" by (force simp: rights_def map_filter_def)
  obtain left notices where all: "retire_all ?m impact (active_references_to lines) (rights ?found) = Inr (left, notices)"
    and none: "\<forall>(s, r) \<in> set left. s = [] \<and> r = []"
    using assms(1,2) f
    by (auto simp: concept_retire_gate_def check_concept_retire_migration_def Let_def py_simps check_fail_def
        split: if_splits prod.splits)
  obtain links where links: "active_references_to lines (rc_old rc) = Inr links" using retire_all_refs [OF all rc] by blast
  have r: "?r \<in> set links" by (rule active_referencesI [OF links assms(5,6,8)])
  have same: "policy_of ?r = policy_of (line_after l)" "ref_ids ?r = ref_ids (line_after l)"
    by (simp_all add: policy_of_def ref_ids_def ref_field_def py_simps)
  with r assms(7) have "?r \<in> set (blocking_refs links)" by (simp add: blocking_refs_def)
  from retire_all_left [OF all rc links this] not same assms(9) have "(source, ref) \<in> set left" by simp
  with none assms(10) show False by auto
qed

definition reference_line :: "string \<Rightarrow> string \<Rightarrow> dict" where
  "reference_line eid type =
     [(''event_id'', JStr eid), (''event_type'', JStr type),
      (''payload'', JObj [(''after_state'', JObj [(''at_reference'', JStr ''r1''), (''source_concept_id'', JStr ''d''),
         (''target_concept_name'', JStr ''c''), (''on_target_supersede_policy'', JStr ''explicit_decision_required'')])])]"

definition concept_event :: event_record where
  "concept_event = (sample_record ''a'' 0 ''ConceptCreated'' None)
     \<lparr>payload := [(''after_state'', JObj [(''concept_id'', JStr ''c'')])]\<rparr>"

text \<open>A new version of \<open>c\<close> under another name, together with the removal of the reference to \<open>c\<close>.\<close>

definition new_version :: event_intent where
  "new_version = (sample_intent ''ConceptCreated'')
     \<lparr>i_payload := [(''after_state'', JObj [(''concept_id'', JStr ''c2'')])],
      i_supersede := \<lparr>is_supersede = True, superseded_event_id = Some (event_id concept_event), novelty = Some ''n'',
        novelty_type = None\<rparr>\<rparr>"

definition removal :: event_intent where
  "removal = (sample_intent ''AtReferenceRemoved'')
     \<lparr>i_payload := [(''after_state'', JObj [(''at_reference'', JStr ''r1'')])]\<rparr>"

definition concept_log :: "string \<Rightarrow> event_record option" where
  "concept_log eid = (if eid = event_id concept_event then Some concept_event else None)"

theorem retired_concept_leaves_no_reference_witness:
  "migrated (migrations_of [new_version, removal] (committed_repointed_sources [reference_line ''e1'' ''AtReferenceAdded''])
     {''c2''}) ''d'' ''r1''"
proof -
  let ?lines = "[reference_line ''e1'' ''AtReferenceAdded'']" and ?intents = "[new_version, removal]"
  let ?l = "reference_line ''e1'' ''AtReferenceAdded''" and ?rc = "\<lparr>rc_old = ''c'', rc_new = ''c2''\<rparr>"
  have "case concept_retire_gate concept_log ?lines (\<lambda>c. {}) ?intents of Inl e \<Rightarrow> False | Inr res \<Rightarrow> cr_passed res" by code_simp
  then obtain res where g: "concept_retire_gate concept_log ?lines (\<lambda>c. {}) ?intents = Inr res" "cr_passed res"
    by (cases "concept_retire_gate concept_log ?lines (\<lambda>c. {}) ?intents") auto
  have i: "new_version \<in> set ?intents" "?l \<in> set ?lines" by simp_all
  have r: "retiring_of (superseded_concept concept_log) new_version = Some (Inr ?rc)" by code_simp
  have l: "adds_reference_to ''c'' ?l" "policy_of (line_after ?l) = ''explicit_decision_required''"
    "ref_ids (line_after ?l) = (''d'', ''r1'')"
    "dget (line_after ?l) ''at_reference'' \<notin> JStr ` set (List.map_filter removed_reference ?lines)" by code_simp+
  have f: "fresh_versions (rights (List.map_filter (retiring_of (superseded_concept concept_log)) ?intents)) = {''c2''}"
    by code_simp
  have "migrated (migrations_of ?intents (committed_repointed_sources ?lines)
      (fresh_versions (rights (List.map_filter (retiring_of (superseded_concept concept_log)) ?intents)))) ''d'' ''r1''"
    by (rule retired_concept_leaves_no_reference [OF g i(1) r i(2)]) (use l in simp_all)
  then show ?thesis unfolding f .
qed


end
