(* ===== verification/Projection_Reducers.thy ===== *)
theory Projection_Reducers
  imports Gate_Obligations
begin

text \<open>
  The reducers of the projection store (\<open>l0/projection/projection.py\<close>), first part: lifecycles and
  registers.  A projection is a JSON document; a reducer reads the document of its projection, applies
  one event and says what to write, or writes nothing.  Nodes are dictionaries in a list; the loops
  that look for a node raise on an entry that is no dictionary, as \<open>entry.get\<close> does.
\<close>

section \<open>Documents and their nodes\<close>

type_synonym reduced = "verr + dict option"

definition list_of :: "json \<Rightarrow> json list" where
  "list_of v = (case v of JArr xs \<Rightarrow> xs | _ \<Rightarrow> [])"

definition obj_of :: "json \<Rightarrow> dict" where
  "obj_of v = (case v of JObj d \<Rightarrow> d | _ \<Rightarrow> [])"

text \<open>The document that is read, \<open>{}\<close> without one.\<close>

definition doc_of :: "dict option \<Rightarrow> dict" where
  "doc_of cur = (case cur of None \<Rightarrow> [] | Some d \<Rightarrow> d)"

text \<open>\<open>d.get(k, v)\<close>, \<open>d.update(e)\<close>, \<open>d.setdefault(k, v)\<close>.\<close>

definition field_or :: "dict \<Rightarrow> string \<Rightarrow> json \<Rightarrow> json" where
  "field_or d k v = (case map_of d k of None \<Rightarrow> v | Some x \<Rightarrow> x)"

definition dict_update :: "dict \<Rightarrow> dict \<Rightarrow> dict" where
  "dict_update e d = fold (\<lambda>(k, v). dset k v) e d"

definition set_default :: "string \<Rightarrow> json \<Rightarrow> dict \<Rightarrow> dict" where
  "set_default k v d = (if has_key d k then d else dset k v d)"

definition keyed :: "string \<Rightarrow> string \<Rightarrow> dict \<Rightarrow> bool" where
  "keyed k i d \<longleftrightarrow> dget d k = JStr i"

text \<open>
  \<open>next((n for n in nodes if p(n)), None)\<close>, and then either the found node is changed in place or, if
  there is none, a new node is appended.
\<close>

fun upsert :: "(dict \<Rightarrow> bool) \<Rightarrow> (dict \<Rightarrow> dict) \<Rightarrow> dict option \<Rightarrow> json list \<Rightarrow> verr + json list" where
  "upsert p f new [] = Inr (case new of None \<Rightarrow> [] | Some d \<Rightarrow> [JObj d])"
| "upsert p f new (n # ns) =
     (case n of
        JObj d \<Rightarrow> if p d then Inr (JObj (f d) # ns) else rbind (upsert p f new ns) (\<lambda>ns'. Inr (n # ns'))
      | _ \<Rightarrow> Inl (AttributeError ''get''))"

text \<open>\<open>for n in nodes: if p(n): ...\<close>\<close>

fun change_all :: "(dict \<Rightarrow> bool) \<Rightarrow> (dict \<Rightarrow> dict) \<Rightarrow> json list \<Rightarrow> verr + json list" where
  "change_all p f [] = Inr []"
| "change_all p f (n # ns) =
     (case n of
        JObj d \<Rightarrow> rbind (change_all p f ns) (\<lambda>ns'. Inr (JObj (if p d then f d else d) # ns'))
      | _ \<Rightarrow> Inl (AttributeError ''get''))"

text \<open>The same on lists that only hold dictionaries.\<close>

fun upsert_dict :: "(dict \<Rightarrow> bool) \<Rightarrow> (dict \<Rightarrow> dict) \<Rightarrow> dict option \<Rightarrow> dict list \<Rightarrow> dict list" where
  "upsert_dict p f new [] = (case new of None \<Rightarrow> [] | Some d \<Rightarrow> [d])"
| "upsert_dict p f new (d # ds) = (if p d then f d # ds else d # upsert_dict p f new ds)"

definition change_dicts :: "(dict \<Rightarrow> bool) \<Rightarrow> (dict \<Rightarrow> dict) \<Rightarrow> dict list \<Rightarrow> dict list" where
  "change_dicts p f ds = map (\<lambda>d. if p d then f d else d) ds"

definition dicts_json :: "dict list \<Rightarrow> json" where
  "dicts_json ds = JArr (map JObj ds)"

definition written :: "string \<Rightarrow> verr + json list \<Rightarrow> reduced" where
  "written k ns = rbind ns (\<lambda>ns. Inr (Some [(k, JArr ns)]))"

text \<open>The event's fields: those of \<open>after_state\<close> if there is one, else those of the payload.\<close>

definition fields_of :: "event_record \<Rightarrow> dict" where
  "fields_of r = (case dget (payload r) ''after_state'' of JObj d \<Rightarrow> d | _ \<Rightarrow> payload r)"

section \<open>Obligations\<close>

definition attached_refs :: "json \<Rightarrow> json" where
  "attached_refs v = dicts_json (map (\<lambda>e. [(''entity_type'', dget e ''entity_type''), (''entity_id'', dget e ''entity_id'')]) (obj_items v))"

definition captured_node :: "event_record \<Rightarrow> string \<Rightarrow> dict" where
  "captured_node r oid =
     (let pl = payload r; eid = JStr (event_id r) in
      [(''obligation_id'', JStr oid), (''lifecycle_state'', JStr ''captured''),
       (''last_observed_lifecycle_event_type'', JStr ''captured''), (''canonical_state'', JStr ''active''),
       (''attached_to'', attached_refs (dget pl ''attached_to'')),
       (''scope_rule'', field_or pl ''scope_rule'' (JStr [])),
       (''scope_type'', field_or pl ''scope_type'' (JStr ''global'')),
       (''severity'', field_or pl ''severity'' (JStr ''normal'')),
       (''nature'', field_or pl ''nature'' (JStr ''invariant'')),
       (''definition'', field_or pl ''definition'' (JStr [])), (''created_at_event_id'', eid),
       (''last_state_change_event_id'', eid), (''last_activation_event_id'', JNull),
       (''last_check_event_id'', JNull), (''last_violation_event_id'', JNull), (''superseded_by'', JNull)]
      @ (case dget pl ''scope_hint'' of JObj d \<Rightarrow> [(''scope_hint'', JObj d)] | _ \<Rightarrow> []))"

definition canonical_states :: "string list" where
  "canonical_states = [''active'', ''superseded'', ''retired'']"

definition is_legal_canonical_transition :: "string \<Rightarrow> string \<Rightarrow> bool" where
  "is_legal_canonical_transition current target \<longleftrightarrow>
     current = target \<or> (current, target) \<in> set [(''active'', ''superseded''), (''active'', ''retired'')]"

definition canonical_of :: "dict \<Rightarrow> string" where
  "canonical_of node =
     (let s = py_str (dget node ''canonical_state'') in if s \<in> set canonical_states then s else ''active'')"

definition apply_canonical_transition :: "string \<Rightarrow> dict \<Rightarrow> dict" where
  "apply_canonical_transition target node =
     (if is_legal_canonical_transition (canonical_of node) target
      then dset ''canonical_state'' (JStr target) node else node)"

definition enter_state :: "string \<Rightarrow> dict \<Rightarrow> dict" where
  "enter_state s node = dset ''lifecycle_state'' (JStr s) node"

definition update_obligation_node_state :: "event_record \<Rightarrow> dict \<Rightarrow> dict" where
  "update_obligation_node_state r node0 =
     (let eid = JStr (event_id r);
          node = dset ''last_state_change_event_id'' eid node0;
          type = event_type r;
          node' =
            (if type = ''ObligationActivated''
             then dset ''last_activation_event_id'' eid (enter_state ''activated'' node)
             else if type = ''ObligationChecked'' then dset ''last_check_event_id'' eid (enter_state ''checked'' node)
             else if type = ''ObligationViolated'' then dset ''last_violation_event_id'' eid (enter_state ''violated'' node)
             else if type = ''ObligationEvolved'' then apply_canonical_transition ''superseded'' (enter_state ''evolved'' node)
             else if type = ''ObligationRetired'' then apply_canonical_transition ''retired'' (enter_state ''retired'' node)
             else node)
      in dset ''last_observed_lifecycle_event_type'' (dget node' ''lifecycle_state'') node')"

definition reduce_obligation_lifecycle :: "dict option \<Rightarrow> event_record \<Rightarrow> reduced" where
  "reduce_obligation_lifecycle cur r =
     (case as_str (dget (payload r) ''obligation_id'') of
        None \<Rightarrow> Inr None
      | Some oid \<Rightarrow>
          (let captured = (event_type r = ''ObligationCaptured'')
           in written ''obligations''
                (upsert (keyed ''obligation_id'' oid) (if captured then id else update_obligation_node_state r)
                   (if captured then Some (captured_node r oid) else None) (list_of (dget (doc_of cur) ''obligations'')))))"

section \<open>Commits\<close>

definition reduce_commit_history :: "string \<Rightarrow> dict option \<Rightarrow> event_record \<Rightarrow> reduced" where
  "reduce_commit_history verdict cur r =
     Inr (Some [(''commits'', JArr (list_of (dget (doc_of cur) ''commits'')
       @ [JObj [(''commit_event_id'', JStr (event_id r)),
                (''envelope_event_id'', field_or (payload r) ''envelope_event_id'' (JStr [])),
                (''verdict'', JStr verdict), (''occurred_at_event_id'', JStr (event_id r))]]))])"

text \<open>\<open>d[k] = int(d.get(k, 0)) + 1\<close>\<close>

definition count_up :: "string \<Rightarrow> dict \<Rightarrow> verr + dict" where
  "count_up k d =
     (case to_int (field_or d k (JInt 0)) of
        None \<Rightarrow> Inl (ValueError ''int'')
      | Some n \<Rightarrow> Inr (dset k (JInt (n + 1)) d))"

definition count_check :: "dict \<Rightarrow> json \<Rightarrow> verr + dict" where
  "count_check by_type c =
     (case c of
        JObj d \<Rightarrow>
          (case (dget d ''check_type'', dget d ''result'') of
             (JStr ct, JStr res) \<Rightarrow>
               rbind (count_up res (obj_of (dget by_type ct))) (\<lambda>b. Inr (dset ct (JObj b) by_type))
           | _ \<Rightarrow> Inr by_type)
      | _ \<Rightarrow> Inr by_type)"

text \<open>\<open>item.get("failure_reason") or item.get("check_type")\<close>, if that is a text.\<close>

definition reason_of :: "json \<Rightarrow> string option" where
  "reason_of item =
     (case item of
        JObj d \<Rightarrow> nonempty (if truthy (dget d ''failure_reason'') then dget d ''failure_reason'' else dget d ''check_type'')
      | _ \<Rightarrow> None)"

text \<open>A list in the payload, else in \<open>after_state\<close>.\<close>

definition list_here_or_after :: "event_record \<Rightarrow> string \<Rightarrow> json list" where
  "list_here_or_after r k =
     (case dget (payload r) k of JArr xs \<Rightarrow> xs | _ \<Rightarrow> list_of (dget (after_state (payload r)) k))"

definition reduce_gate_check_firing :: "string \<Rightarrow> dict option \<Rightarrow> event_record \<Rightarrow> reduced" where
  "reduce_gate_check_firing verdict cur r =
     (let by_type = obj_of (dget (doc_of cur) ''by_check_type'');
          by_reason = obj_of (dget (doc_of cur) ''rejections_by_reason'');
          reasons = List.map_filter reason_of (list_here_or_after r ''rejection_reasons'')
      in rbind (if verdict = ''accepted''
                then rbind (rfold count_check by_type (list_here_or_after r ''checks_passed'')) (\<lambda>b. Inr (b, by_reason))
                else rbind (rfold (\<lambda>d k. count_up k d) by_reason (if reasons = [] then [''<unspecified>''] else reasons))
                       (\<lambda>b. Inr (by_type, b)))
           (\<lambda>(b1, b2). Inr (Some [(''by_check_type'', JObj b1), (''rejections_by_reason'', JObj b2)])))"

section \<open>Debts\<close>

definition registered_debt :: "event_record \<Rightarrow> string \<Rightarrow> dict" where
  "registered_debt r did =
     (let pl = payload r in
      [(''debt_id'', JStr did), (''debt_type'', dget pl ''debt_type''), (''severity'', dget pl ''severity''),
       (''title'', dget pl ''title''), (''description'', dget pl ''description''),
       (''against_capability'', dget pl ''against_capability''), (''depends_on'', field_or pl ''depends_on'' (JArr [])),
       (''resolution_criteria'', dget pl ''resolution_criteria''),
       (''state'', if truthy (dget pl ''state'') then dget pl ''state'' else JStr ''open''),
       (''gap_type'', dget pl ''gap_type''), (''expiry'', dget pl ''expiry''),
       (''root_cause_key'', dget pl ''root_cause_key''), (''registered_by_task'', dget pl ''registered_by_task''),
       (''registered_by_event_id'', JStr (event_id r)), (''resolved_by_event_id'', JNull),
       (''resolution_evidence'', JNull), (''state_transitioned_by_event_id'', JNull)])"

text \<open>An activation debt keeps the event that registered it first.\<close>

definition reregister_debt :: "event_record \<Rightarrow> string \<Rightarrow> dict \<Rightarrow> dict" where
  "reregister_debt r did node =
     (let reg = registered_debt r did;
          first = dget node ''registered_by_event_id'';
          reg' = (if dget (payload r) ''debt_type'' = JStr ''activation''
                  then dset ''state_transitioned_by_event_id'' (JStr (event_id r))
                         (dset ''registered_by_event_id'' (if truthy first then first else JStr (event_id r)) reg)
                  else reg)
      in dict_update reg' node)"

definition resolve_debt_node :: "event_record \<Rightarrow> dict \<Rightarrow> dict" where
  "resolve_debt_node r node =
     dset ''resolution_evidence'' (dget (payload r) ''resolution_evidence'')
       (dset ''resolved_by_event_id'' (JStr (event_id r)) (dset ''state'' (JStr ''resolved'') node))"

definition reduce_debt_registry :: "dict option \<Rightarrow> event_record \<Rightarrow> reduced" where
  "reduce_debt_registry cur r =
     (case nonempty (dget (payload r) ''debt_id'') of
        None \<Rightarrow> Inr None
      | Some did \<Rightarrow>
          (let debts = list_of (dget (doc_of cur) ''debts'');
               here = keyed ''debt_id'' did;
               tombstone = [(''debt_id'', JStr did), (''state'', JStr ''resolved'')]
           in written ''debts''
                (if event_type r = ''DebtRegistered''
                 then upsert here (reregister_debt r did) (Some (registered_debt r did)) debts
                 else upsert here (resolve_debt_node r) (Some (resolve_debt_node r tombstone)) debts)))"

section \<open>Consumers, consensus batches, capabilities\<close>

definition reduce_consumer_relation :: "dict option \<Rightarrow> event_record \<Rightarrow> reduced" where
  "reduce_consumer_relation cur r =
     (let after = after_state (payload r) in
      case nonempty (dget after ''concept_id'') of
        None \<Rightarrow> Inr None
      | Some cid \<Rightarrow>
          (let consumers = dicts_json (obj_items (dget after ''consumers''))
           in Inr (Some [(''relations'', dicts_json
                (upsert_dict (keyed ''concept_id'' cid)
                   (\<lambda>n. dset ''concept_id'' (JStr cid) (dset ''consumers'' consumers n))
                   (Some [(''concept_id'', JStr cid), (''consumers'', consumers)])
                   (obj_items (dget (doc_of cur) ''relations''))))])))"

text \<open>\<open>isinstance(v, (str, int))\<close>\<close>

definition str_or_int :: "json \<Rightarrow> string option" where
  "str_or_int v = (case v of JStr s \<Rightarrow> Some s | JInt n \<Rightarrow> Some (int_str n) | JBool b \<Rightarrow> Some (py_str (JBool b)) | _ \<Rightarrow> None)"

text \<open>\<open>for c in v\<close> over a list, a text or a dictionary; everything else is not iterable.\<close>

definition items_of :: "json \<Rightarrow> json list option" where
  "items_of v =
     (case v of JArr xs \<Rightarrow> Some xs | JStr s \<Rightarrow> Some (map (\<lambda>c. JStr [c]) s) | JObj d \<Rightarrow> Some (map (JStr \<circ> fst) d)
      | _ \<Rightarrow> None)"

definition batch_number_of :: "dict \<Rightarrow> int" where
  "batch_number_of b = (case as_int (dget b ''batch_number'') of Some n \<Rightarrow> n | None \<Rightarrow> 0)"

definition same_batch :: "json \<Rightarrow> dict \<Rightarrow> bool" where
  "same_batch n b \<longleftrightarrow> (case (as_int n, as_int (dget b ''batch_number'')) of (Some i, Some j) \<Rightarrow> i = j | _ \<Rightarrow> False)"

definition frozen_batch :: "event_record \<Rightarrow> dict \<Rightarrow> json list \<Rightarrow> json \<Rightarrow> dict" where
  "frozen_batch r after frozen number =
     (let info = obj_of (dget after ''batch_info'') in
      [(''batch_number'', number), (''is_final_batch'', JBool (truthy (dget info ''is_final_batch''))),
       (''batch_scope'', field_or info ''batch_scope'' (JStr [])),
       (''frozen_concept_ids'', JArr (map JStr (List.map_filter str_or_int frozen))),
       (''invariants'', dicts_json (obj_items (dget after ''invariants''))),
       (''concept_graph_snapshot_hash'', field_or after ''concept_graph_snapshot_hash'' (JStr [])),
       (''freezed_at_event_offset'', dget after ''freezed_at_event_offset''),
       (''consensus_session_id'', field_or after ''consensus_session_id'' (JStr [])),
       (''frozen_at_event_id'', JStr (event_id r))])"

definition add_batch :: "event_record \<Rightarrow> dict \<Rightarrow> json list \<Rightarrow> dict \<Rightarrow> dict" where
  "add_batch r after frozen plan =
     (let number = (case as_int (dget (obj_of (dget after ''batch_info'')) ''batch_number'') of
                      Some _ \<Rightarrow> dget (obj_of (dget after ''batch_info'')) ''batch_number'' | None \<Rightarrow> JInt 1);
          batches = sort_key batch_number_of
            (filter (\<lambda>b. \<not> same_batch number b) (obj_items (dget plan ''batches'')) @ [frozen_batch r after frozen number])
      in dset ''is_consensus_complete'' (JBool (list_ex (\<lambda>b. truthy (dget b ''is_final_batch'')) batches))
           (dset ''latest_batch_number'' (JInt (Max (set (map batch_number_of batches))))
              (dset ''batches'' (dicts_json batches) plan)))"

definition reduce_engineering_consensus_index :: "dict option \<Rightarrow> event_record \<Rightarrow> reduced" where
  "reduce_engineering_consensus_index cur r =
     (let after = after_state (payload r) in
      case nonempty (dget after ''plan_id'') of
        None \<Rightarrow> Inr None
      | Some pid \<Rightarrow>
          (case items_of (field_or after ''frozen_concept_ids'' (JArr [])) of
             None \<Rightarrow> Inl (TypeError ''not iterable'')
           | Some frozen \<Rightarrow> Inr (Some [(''plans'', dicts_json
               (upsert_dict (keyed ''plan_id'' pid) (add_batch r after frozen)
                  (Some (add_batch r after frozen [(''plan_id'', JStr pid), (''batches'', JArr [])]))
                  (obj_items (dget (doc_of cur) ''plans''))))])))"

text \<open>A dictionary by identifier keeps the last node of that identifier; a list or dictionary is no key.\<close>

definition update_last :: "(dict \<Rightarrow> bool) \<Rightarrow> (dict \<Rightarrow> dict) \<Rightarrow> dict \<Rightarrow> dict list \<Rightarrow> dict list" where
  "update_last p f new ds = (if list_ex p ds then rev (upsert_dict p f None (rev ds)) else ds @ [new])"

definition find_last :: "(dict \<Rightarrow> bool) \<Rightarrow> dict list \<Rightarrow> dict option" where
  "find_last p ds = find p (rev ds)"

definition hashable :: "json \<Rightarrow> bool" where
  "hashable v = (case v of JArr xs \<Rightarrow> False | JObj d \<Rightarrow> False | _ \<Rightarrow> True)"

definition seeded_capability :: "event_record \<Rightarrow> string \<Rightarrow> dict \<Rightarrow> dict option \<Rightarrow> dict" where
  "seeded_capability r cid entry prior =
     (let p = doc_of prior; baseline = dget entry ''classification'' in
      [(''capability_id'', JStr cid), (''module'', dget entry ''module''), (''name'', dget entry ''name''),
       (''baseline_classification'', baseline),
       (''current_classification'', if truthy (dget p ''advanced_by_event_id'') then dget p ''current_classification'' else baseline),
       (''linked_debts'', field_or entry ''linked_debts'' (JArr [])),
       (''baseline_ingested_by_event_id'', JStr (event_id r)), (''advanced_by'', dget p ''advanced_by''),
       (''advanced_by_event_id'', dget p ''advanced_by_event_id''), (''advance_evidence'', dget p ''advance_evidence''),
       (''enforcement_level'', dget p ''enforcement_level'')])"

definition seed_capability :: "event_record \<Rightarrow> dict \<Rightarrow> dict list \<Rightarrow> dict list" where
  "seed_capability r entry caps =
     (case nonempty (dget entry ''capability_id'') of
        None \<Rightarrow> caps
      | Some cid \<Rightarrow>
          (let seeded = seeded_capability r cid entry (find_last (keyed ''capability_id'' cid) caps)
           in update_last (keyed ''capability_id'' cid) (dict_update seeded) seeded caps))"

definition advance_node :: "event_record \<Rightarrow> dict \<Rightarrow> dict" where
  "advance_node r node =
     (let pl = payload r;
          node' = dset ''advance_evidence'' (dget pl ''evidence_ref'') (dset ''advanced_by_event_id'' (JStr (event_id r))
                    (dset ''advanced_by'' (dget pl ''advanced_by'')
                      (dset ''current_classification'' (dget pl ''to_classification'') node)));
          level = dget pl ''enforcement_level''
      in if level \<noteq> JNull then dset ''enforcement_level'' level node' else set_default ''enforcement_level'' JNull node')"

definition unknown_capability :: "event_record \<Rightarrow> string \<Rightarrow> dict" where
  "unknown_capability r cid =
     [(''capability_id'', JStr cid), (''module'', JNull), (''name'', JNull),
      (''baseline_classification'', dget (payload r) ''from_classification''), (''linked_debts'', JArr []),
      (''baseline_ingested_by_event_id'', JNull)]"

definition reduce_capability_status :: "dict option \<Rightarrow> event_record \<Rightarrow> reduced" where
  "reduce_capability_status cur r =
     (let caps = obj_items (dget (doc_of cur) ''capabilities''); pl = payload r
      in if \<not> list_all (\<lambda>c. hashable (dget c ''capability_id'')) caps then Inl (TypeError ''unhashable'')
         else if event_type r = ''CapabilityBaselineIngested''
         then Inr (Some [(''capabilities'', dicts_json (fold (seed_capability r) (obj_items (dget pl ''capabilities'')) caps))])
         else (case nonempty (dget pl ''capability_id'') of
                 None \<Rightarrow> Inr None
               | Some cid \<Rightarrow> Inr (Some [(''capabilities'', dicts_json
                   (update_last (keyed ''capability_id'' cid) (advance_node r)
                      (advance_node r (unknown_capability r cid)) caps))])))"

section \<open>Findings and detection rules\<close>

definition review_unit_of :: "event_record \<Rightarrow> dict \<Rightarrow> json" where
  "review_unit_of r src =
     (case nonempty (dget src ''review_unit_id'') of
        Some u \<Rightarrow> JStr u
      | None \<Rightarrow>
          (if dget (obj_of (dget src ''source'')) ''type'' = JStr ''model_review''
           then (case session_id (provenance r) of None \<Rightarrow> JNull | Some s \<Rightarrow> if s = [] then JNull else JStr s)
           else JNull))"

definition created_finding :: "event_record \<Rightarrow> dict \<Rightarrow> string \<Rightarrow> dict" where
  "created_finding r src fid =
     (let eid = JStr (event_id r) in
      [(''finding_id'', JStr fid), (''lifecycle_state'', JStr ''created''), (''severity'', dget src ''severity''),
       (''risk_surface'', dget src ''risk_surface''), (''target'', dget src ''target''),
       (''review_unit_id'', review_unit_of r src), (''detection_method'', dget src ''detection_method''),
       (''review_dimension'', dget src ''review_dimension''), (''is_preexisting'', dget src ''is_preexisting''),
       (''created_at_event_id'', eid), (''last_state_change_event_id'', eid),
       (''related_patch_event_id'', dget src ''related_patch_event_id''), (''verification_state'', JNull),
       (''resolution'', JNull), (''closure_state'', JNull)])"

definition recreate_finding :: "dict \<Rightarrow> dict \<Rightarrow> dict" where
  "recreate_finding created node =
     dict_update (if \<not> truthy (dget created ''review_unit_id'') \<and> truthy (dget node ''review_unit_id'')
                  then dset ''review_unit_id'' (dget node ''review_unit_id'') created else created) node"

definition changed_by :: "event_record \<Rightarrow> dict \<Rightarrow> dict" where
  "changed_by r node = dset ''last_state_change_event_id'' (JStr (event_id r)) node"

definition resolved_finding :: "dict \<Rightarrow> dict \<Rightarrow> dict" where
  "resolved_finding src node =
     (let node' = dset ''resolution'' (dget src ''resolution'') (enter_state ''resolved'' node)
      in case dget src ''closure_verification'' of
           JObj c \<Rightarrow> dset ''closure_state'' (dget c ''closure_state'') node'
         | _ \<Rightarrow> node')"

definition accepted_finding :: "dict \<Rightarrow> dict \<Rightarrow> dict" where
  "accepted_finding src node =
     dset ''accepted_signature'' (dget src ''accepted_signature'')
       (dset ''immutable_baseline'' (dget src ''immutable_baseline'')
         (dset ''accepted_reason'' (dget src ''accepted_reason'') (enter_state ''accepted'' node)))"

definition amended_finding :: "event_record \<Rightarrow> dict \<Rightarrow> dict" where
  "amended_finding r node =
     dset ''closure_contract_amend_count''
       (JInt (case as_int (dget node ''closure_contract_amend_count'') of Some n \<Rightarrow> n + 1 | None \<Rightarrow> 1))
       (dset ''closure_contract_amended_event_id'' (JStr (event_id r)) node)"

definition finding_entry_step :: "event_record \<Rightarrow> dict \<Rightarrow> dict \<Rightarrow> dict" where
  "finding_entry_step r src node =
     (let type = event_type r in
      if type = ''FindingVerified''
      then changed_by r (dset ''verification_state'' (dget src ''verification_state'') (enter_state ''verified'' node))
      else if type = ''FindingDisputed'' then changed_by r (enter_state ''disputed'' node)
      else if type = ''FindingResolved'' then changed_by r (resolved_finding src node)
      else if type = ''FindingAccepted'' then changed_by r (accepted_finding src node)
      else amended_finding r node)"

definition unseen_finding :: "event_record \<Rightarrow> dict \<Rightarrow> string \<Rightarrow> dict" where
  "unseen_finding r src fid =
     (if event_type r = ''FindingClosureContractAmended''
      then [(''finding_id'', JStr fid), (''review_unit_id'', review_unit_of r src)]
      else [(''finding_id'', JStr fid), (''created_at_event_id'', JStr (event_id r)),
            (''review_unit_id'', review_unit_of r src)])"

definition reduce_finding_lifecycle :: "dict option \<Rightarrow> event_record \<Rightarrow> reduced" where
  "reduce_finding_lifecycle cur r =
     (let src = fields_of r in
      case nonempty (dget src ''finding_id'') of
        None \<Rightarrow> Inr None
      | Some fid \<Rightarrow>
          (let nodes = list_of (dget (doc_of cur) ''findings''); here = keyed ''finding_id'' fid
           in written ''findings''
                (if event_type r = ''FindingCreated''
                 then upsert here (recreate_finding (created_finding r src fid)) (Some (created_finding r src fid)) nodes
                 else upsert here (finding_entry_step r src) (Some (finding_entry_step r src (unseen_finding r src fid))) nodes)))"

definition rule_step :: "event_record \<Rightarrow> dict \<Rightarrow> dict \<Rightarrow> dict" where
  "rule_step r src node =
     (let node' = (if event_type r = ''DetectionRuleProposed'' \<and> truthy (dget src ''rule_definition'')
                   then dset ''rule_definition'' (dget src ''rule_definition'') node else node);
          state = dget src ''rule_lifecycle_state''
      in changed_by r (if state \<noteq> JNull then dset ''lifecycle_state'' state node' else node'))"

definition reduce_detection_rule :: "dict option \<Rightarrow> event_record \<Rightarrow> reduced" where
  "reduce_detection_rule cur r =
     (let src = fields_of r in
      case nonempty (dget src ''rule_id'') of
        None \<Rightarrow> Inr None
      | Some rid \<Rightarrow>
          written ''rules''
            (upsert (keyed ''rule_id'' rid) (rule_step r src)
               (Some (rule_step r src
                  [(''rule_id'', JStr rid), (''rule_definition'', field_or src ''rule_definition'' (JStr [])),
                   (''shadow_stats'', JObj []), (''created_at_event_id'', JStr (event_id r))]))
               (list_of (dget (doc_of cur) ''rules''))))"

section \<open>Judgments and review plans\<close>

definition judgment_record :: "event_record \<Rightarrow> dict" where
  "judgment_record r =
     (let pl = payload r; after = after_state pl in
      [(''judgment_event_id'', JStr (event_id r)), (''judgment_type'', JStr (event_type r)),
       (''subject_ids'', dicts_json (map (\<lambda>s. [(''entity_type'', JStr (entity_type s)), (''entity_id'', JStr (entity_id s))])
          (subjects r))),
       (''current_validity'', JStr ''active''), (''superseded_by_event_id'', JNull),
       (''evidence_summary'', case (dget after ''evidence_summary'', dget pl ''evidence_summary'') of
          (JStr s, _) \<Rightarrow> JStr s | (_, JStr s) \<Rightarrow> JStr s | _ \<Rightarrow> JStr []),
       (''uncertainty'', case (if dget pl ''uncertainty'' = JNull then dget after ''uncertainty'' else dget pl ''uncertainty'') of
          JStr s \<Rightarrow> JStr s | _ \<Rightarrow> JNull)])"

definition rejudge :: "event_record \<Rightarrow> dict \<Rightarrow> dict" where
  "rejudge r node =
     dset ''superseded_by_event_id'' (dget node ''superseded_by_event_id'')
       (dset ''current_validity'' (field_or node ''current_validity'' (JStr ''active'')) (dict_update (judgment_record r) node))"

definition supersede_judgment :: "event_record \<Rightarrow> dict \<Rightarrow> dict" where
  "supersede_judgment r node =
     dset ''superseded_by_event_id'' (JStr (event_id r)) (dset ''current_validity'' (JStr ''superseded'') node)"

definition reduce_decision :: "dict option \<Rightarrow> event_record \<Rightarrow> reduced" where
  "reduce_decision cur r =
     written ''judgments''
       (rbind (upsert (keyed ''judgment_event_id'' (event_id r)) (rejudge r) (Some (judgment_record r))
                 (list_of (dget (doc_of cur) ''judgments''))) (\<lambda>nodes.
          case (if is_supersede (supersede r) then superseded_event_id (supersede r) else None) of
            None \<Rightarrow> Inr nodes
          | Some old \<Rightarrow> if old = [] then Inr nodes
                        else change_all (keyed ''judgment_event_id'' old) (supersede_judgment r) nodes))"

definition review_plan_record :: "event_record \<Rightarrow> dict \<Rightarrow> string \<Rightarrow> dict" where
  "review_plan_record r src pid =
     [(''review_plan_id'', JStr pid), (''associated_consensus_id'', dget src ''associated_consensus_id''),
      (''associated_brief_id'', dget src ''associated_brief_id''),
      (''dimensions'', field_or src ''dimensions'' (JArr [])), (''voi_criteria'', field_or src ''voi_criteria'' (JArr [])),
      (''historical_failures_feed'', field_or src ''historical_failures_feed'' (JArr [])),
      (''batch_info'', dget src ''batch_info''), (''canonical_state'', JStr ''active''), (''superseded_by'', JNull),
      (''created_by_event_id'', JStr (event_id r))]"

definition supersede_plan :: "event_record \<Rightarrow> dict \<Rightarrow> dict" where
  "supersede_plan r p = dset ''superseded_by'' (JStr (event_id r)) (dset ''canonical_state'' (JStr ''superseded'') p)"

definition reduce_review_plan :: "dict option \<Rightarrow> event_record \<Rightarrow> reduced" where
  "reduce_review_plan cur r =
     (let src = fields_of r; plans = list_of (dget (doc_of cur) ''review_plans'') in
      case nonempty (dget src ''review_plan_id'') of
        None \<Rightarrow> Inr None
      | Some pid \<Rightarrow>
          written ''review_plans''
            (rbind (case superseded_event_id (supersede r) of
                      None \<Rightarrow> Inr plans
                    | Some old \<Rightarrow> if old = [] then Inr plans
                                  else change_all (keyed ''created_by_event_id'' old) (supersede_plan r) plans)
              (upsert (keyed ''review_plan_id'' pid) (dict_update (review_plan_record r src pid))
                 (Some (review_plan_record r src pid)))))"

end
