(* ===== verification/Projection_Graphs.thy ===== *)
theory Projection_Graphs
  imports Projection_Reducers
begin

text \<open>
  The reducers of the projection store, second part: escalations with the schema their entries are
  checked against, tasks with their dependencies, and ownership.
\<close>

definition json_opt :: "string option \<Rightarrow> json" where
  "json_opt x = (case x of None \<Rightarrow> JNull | Some s \<Rightarrow> JStr s)"

definition same :: "string \<Rightarrow> json \<Rightarrow> dict \<Rightarrow> bool" where
  "same k v d \<longleftrightarrow> dget d k = v"

text \<open>The fields under \<open>before_state\<close>.\<close>

definition before_state :: "dict \<Rightarrow> dict" where
  "before_state pl = obj_of (dget pl ''before_state'')"

definition nodes_and_edges :: "dict list \<Rightarrow> dict list \<Rightarrow> dict" where
  "nodes_and_edges nodes edges = [(''nodes'', dicts_json nodes), (''edges'', dicts_json edges)]"

section \<open>Escalations\<close>

text \<open>The schema of an entry: known fields only, the required texts, the five states, lists of texts.\<close>

definition escalation_states :: "string list" where
  "escalation_states = [''raised'', ''triaged'', ''resolved'', ''post_resolved_learning_captured'']"

definition optional_texts :: "string list" where
  "optional_texts = [''triage_category'', ''triage_reasoning'', ''triaged_at'', ''resolution'',
     ''nature_judgment_event_id'', ''resolved_at'', ''learning_type'', ''seed_for_event_id'', ''learning_captured_at'']"

definition related_lists :: "string list" where
  "related_lists = [''related_finding_ids'', ''related_concept_ids'', ''related_task_ids'', ''related_obligation_ids'']"

definition escalation_entry_ok :: "dict \<Rightarrow> bool" where
  "escalation_entry_ok d \<longleftrightarrow>
     list_all (\<lambda>k. k \<in> set ([''escalation_id'', ''lifecycle_state'', ''raised_at'', ''raised_by_skill'', ''escalation_kind'']
                        @ optional_texts @ related_lists)) (map fst d)
     \<and> list_all (\<lambda>k. nonempty (dget d k) \<noteq> None) [''escalation_id'', ''raised_by_skill'', ''escalation_kind'']
     \<and> as_str (dget d ''raised_at'') \<noteq> None
     \<and> dget d ''lifecycle_state'' \<in> JStr ` set escalation_states
     \<and> list_all (\<lambda>k. dget d k = JNull \<or> as_str (dget d k) \<noteq> None) optional_texts
     \<and> list_all (\<lambda>k. has_key d k \<longrightarrow>
          (case dget d k of JArr xs \<Rightarrow> list_all (\<lambda>x. as_str x \<noteq> None) xs | _ \<Rightarrow> False)) related_lists"

definition raised_node :: "string \<Rightarrow> event_record \<Rightarrow> dict" where
  "raised_node eid r =
     [(''escalation_id'', JStr eid), (''lifecycle_state'', JStr ''raised''), (''raised_at'', JStr (timestamp r)),
      (''raised_by_skill'', JStr ''unknown''), (''escalation_kind'', JStr ''unspecified'')]"

text \<open>A text that is not blank.\<close>

definition unblank :: "string option \<Rightarrow> string option" where
  "unblank x = (case x of None \<Rightarrow> None | Some s \<Rightarrow> if py_strip s = [] then None else Some s)"

definition copy_present :: "dict \<Rightarrow> string \<Rightarrow> dict \<Rightarrow> dict" where
  "copy_present src k node = (if has_key src k then dset k (dget src k) node else node)"

definition copy_list :: "dict \<Rightarrow> string \<Rightarrow> dict \<Rightarrow> dict" where
  "copy_list src k node = (case dget src k of JArr xs \<Rightarrow> dset k (JArr xs) node | _ \<Rightarrow> node)"

definition link_one :: "string \<Rightarrow> string option \<Rightarrow> dict \<Rightarrow> dict" where
  "link_one k x node = (case x of None \<Rightarrow> node | Some s \<Rightarrow> dset k (JArr [JStr s]) node)"

definition state_or :: "dict \<Rightarrow> string \<Rightarrow> json" where
  "state_or after s = (if truthy (dget after ''lifecycle_state'') then dget after ''lifecycle_state'' else JStr s)"

definition escalation_step :: "event_record \<Rightarrow> dict \<Rightarrow> dict \<Rightarrow> dict" where
  "escalation_step r after node =
     (let type = event_type r; now = JStr (timestamp r) in
      if type = ''EscalationRaised''
      then link_one ''related_task_ids'' (nonempty (dget after ''task_id''))
             (link_one ''related_finding_ids'' (nonempty (dget after ''finding_id''))
               (set_default ''escalation_kind'' (JStr ''unspecified'')
                 (dset ''raised_by_skill'' (JStr (case unblank (skill_id (provenance r)) of Some s \<Rightarrow> s | None \<Rightarrow> ''unknown''))
                   (dset ''raised_at'' now (enter_state ''raised'' node)))))
      else if type = ''EscalationTriaged''
      then fold (copy_list after) related_lists
             (fold (copy_present after) [''triage_category'', ''triage_reasoning'']
               (dset ''triaged_at'' now (dset ''lifecycle_state'' (state_or after ''triaged'') node)))
      else if type = ''EscalationResolved''
      then fold (copy_present after) [''resolution'', ''nature_judgment_event_id'']
             (dset ''resolved_at'' now (dset ''lifecycle_state'' (state_or after ''resolved'') node))
      else if type = ''EscalationLearningCaptured''
      then fold (copy_present after) [''learning_type'', ''seed_for_event_id'']
             (dset ''learning_captured_at'' now (enter_state ''post_resolved_learning_captured'' node))
      else node)"

text \<open>Writing is refused when the changed node does not fit the schema.\<close>

definition validated :: "string \<Rightarrow> verr + json list \<Rightarrow> reduced" where
  "validated eid nodes =
     written ''escalations'' (rbind nodes (\<lambda>ns.
       if list_all (\<lambda>d. keyed ''escalation_id'' eid d \<longrightarrow> escalation_entry_ok d) (take 1 (filter (keyed ''escalation_id'' eid) (obj_items (JArr ns))))
       then Inr ns else Inl (ValueError ''EscalationLifecycleEntry'')))"

definition first_truthy :: "json list \<Rightarrow> json" where
  "first_truthy vs = (case find truthy vs of Some v \<Rightarrow> v | None \<Rightarrow> last vs)"

definition native_escalation :: "dict option \<Rightarrow> event_record \<Rightarrow> reduced" where
  "native_escalation cur r =
     (let pl = payload r; after = after_state pl in
      case nonempty (first_truthy [dget after ''escalation_id'', dget pl ''target_entity_id'', dget pl ''escalation_id'']) of
        None \<Rightarrow> Inr None
      | Some eid \<Rightarrow>
          validated eid (upsert (keyed ''escalation_id'' eid) (escalation_step r after)
            (Some (escalation_step r after (raised_node eid r))) (list_of (dget (doc_of cur) ''escalations''))))"

text \<open>The two kinds of events that raise and answer an escalation of a goal, plain or as a stub.\<close>

definition world_b_escalation_event :: "event_record \<Rightarrow> (string \<times> dict) option" where
  "world_b_escalation_event r =
     (let pl = payload r; kinds = [''GoalEscalationRaised'', ''NatureJudgmentCaptured''] in
      if event_type r = ''NodeTouched''
      then (case (dget pl ''kind'', dget pl ''stub_original_payload'') of
              (JStr k, JObj orig) \<Rightarrow> if k \<in> set kinds then Some (k, orig) else None
            | _ \<Rightarrow> None)
      else if event_type r \<in> set kinds then Some (event_type r, fields_of r) else None)"

definition world_b_escalation_kind :: "dict \<Rightarrow> string" where
  "world_b_escalation_kind src =
     (case unblank (as_str (dget src ''escalation_kind'')) of
        Some k \<Rightarrow> k
      | None \<Rightarrow> (if truthy (dget src ''dead_letter_entry_id'') then ''dead_letter''
                 else if truthy (dget src ''owner_gate_task_id'') then ''owner_gate'' else ''goal''))"

definition dead_letter_ref :: "string \<Rightarrow> dict \<Rightarrow> string option" where
  "dead_letter_ref kind src =
     (if dget src ''dead_letter_source_type'' = JStr kind then nonempty (dget src ''dead_letter_source_ref'') else None)"

definition world_b_related_task :: "dict \<Rightarrow> string option" where
  "world_b_related_task src =
     (case List.map_filter (\<lambda>k. nonempty (dget src k)) [''owner_gate_task_id'', ''dead_letter_task_id'', ''task_id''] of
        t # _ \<Rightarrow> Some t
      | [] \<Rightarrow> dead_letter_ref ''task'' src)"

definition world_b_related_finding :: "dict \<Rightarrow> string option" where
  "world_b_related_finding src =
     (case nonempty (dget src ''finding_id'') of Some f \<Rightarrow> Some f | None \<Rightarrow> dead_letter_ref ''finding'' src)"

definition world_b_step :: "event_record \<Rightarrow> dict \<Rightarrow> dict \<Rightarrow> dict" where
  "world_b_step r src node =
     link_one ''related_finding_ids'' (world_b_related_finding src)
       (link_one ''related_task_ids'' (world_b_related_task src)
         (dset ''escalation_kind'' (JStr (world_b_escalation_kind src))
           (dset ''raised_by_skill'' (JStr (case unblank (skill_id (provenance r)) of
                Some s \<Rightarrow> s
              | None \<Rightarrow> (case unblank (Some (actor_id (provenance r))) of Some a \<Rightarrow> a | None \<Rightarrow> ''unknown'')))
             (dset ''raised_at'' (JStr (case nonempty (dget src ''raised_at'') of Some t \<Rightarrow> t | None \<Rightarrow> timestamp r))
               (enter_state ''raised'' node)))))"

definition materialize_world_b_escalation_raised :: "dict option \<Rightarrow> event_record \<Rightarrow> dict \<Rightarrow> reduced" where
  "materialize_world_b_escalation_raised cur r src =
     validated (event_id r)
       (upsert (keyed ''escalation_id'' (event_id r)) (world_b_step r src)
          (Some (world_b_step r src (raised_node (event_id r) r))) (list_of (dget (doc_of cur) ''escalations'')))"

definition answered_node :: "event_record \<Rightarrow> dict \<Rightarrow> dict" where
  "answered_node r node =
     dset ''nature_judgment_event_id'' (JStr (event_id r)) (dset ''resolved_at'' (JStr (timestamp r)) (enter_state ''resolved'' node))"

text \<open>An answer to an escalation that is not there writes nothing.\<close>

definition apply_world_b_escalation_answer :: "dict option \<Rightarrow> event_record \<Rightarrow> dict \<Rightarrow> reduced" where
  "apply_world_b_escalation_answer cur r src =
     (case nonempty (dget src ''responds_to_escalation_event_id'') of
        None \<Rightarrow> Inr None
      | Some eid \<Rightarrow>
          (let nodes = list_of (dget (doc_of cur) ''escalations''); here = keyed ''escalation_id'' eid in
           rbind (upsert here (answered_node r) None nodes) (\<lambda>ns.
             if list_ex here (obj_items (JArr nodes)) then validated eid (Inr ns) else Inr None)))"

definition reduce_escalation_lifecycle :: "dict option \<Rightarrow> event_record \<Rightarrow> reduced" where
  "reduce_escalation_lifecycle cur r =
     (case world_b_escalation_event r of
        None \<Rightarrow> native_escalation cur r
      | Some (kind, src) \<Rightarrow>
          (if kind = ''GoalEscalationRaised'' then materialize_world_b_escalation_raised cur r src
           else apply_world_b_escalation_answer cur r src))"

section \<open>Tasks\<close>

definition created_task :: "event_record \<Rightarrow> dict \<Rightarrow> dict" where
  "created_task r after =
     [(''task_id'', dget after ''task_id''), (''task_type'', field_or after ''task_type'' (JStr [])),
      (''phase'', dget after ''phase''), (''parent_task_id'', dget after ''parent_task_id''),
      (''plan_id'', dget after ''plan_id''), (''description'', field_or after ''description'' (JStr [])),
      (''target_artifacts'', field_or after ''target_artifacts'' (JArr [])), (''status'', JStr ''created''),
      (''model_tier'', JNull), (''read_set'', JArr []), (''write_set'', JArr []), (''package_hash'', JNull),
      (''is_self_contained'', JNull), (''last_run_outcome'', JNull), (''created_at_event_id'', JStr (event_id r)),
      (''requires_owner_gate'', JBool (dget after ''requires_owner_gate'' = JBool True)),
      (''owner_gate_reason'', json_opt (as_str (dget after ''owner_gate_reason'')))]"

text \<open>A dependency is known by its ends and its kind.\<close>

definition edge_key :: "dict \<Rightarrow> json \<times> json \<times> json" where
  "edge_key e = (field_or e ''source_task_id'' (JStr []), field_or e ''target_task_id'' (JStr []),
     field_or e ''dependency_type'' (JStr []))"

definition dependency_edge :: "dict \<Rightarrow> dict" where
  "dependency_edge after =
     (case edge_key after of (s, t, k) \<Rightarrow>
        [(''source_task_id'', s), (''target_task_id'', t), (''dependency_type'', k), (''is_active'', JBool True)])"

definition task_run_status :: "json \<Rightarrow> string" where
  "task_run_status outcome =
     (case as_str outcome of
        None \<Rightarrow> ''in_progress''
      | Some o' \<Rightarrow> (case map_of [(''success'', ''completed''), (''aborted_for_replan'', ''in_progress''),
            (''aborted_unrecoverable'', ''failed''), (''aborted_external'', ''failed''),
            (''aborted_advisor_decision'', ''escalated''), (''failure'', ''failed''), (''escalated'', ''escalated''),
            (''partial'', ''in_progress'')] o' of Some s \<Rightarrow> s | None \<Rightarrow> ''in_progress''))"

definition update_task_node :: "event_record \<Rightarrow> dict \<Rightarrow> dict \<Rightarrow> dict" where
  "update_task_node r after node =
     (let type = event_type r in
      if type = ''TaskReadSetClaimed'' then dset ''read_set'' (field_or after ''read_set'' (JArr [])) node
      else if type = ''TaskWriteSetClaimed'' then dset ''write_set'' (field_or after ''write_set'' (JArr [])) node
      else if type = ''TaskModelTierAssigned'' then dset ''model_tier'' (dget after ''model_tier'') node
      else if type = ''TaskPackagePublished''
      then dset ''status'' (JStr ''planned'') (dset ''is_self_contained'' (dget after ''is_self_contained'')
             (dset ''package_hash'' (dget after ''package_hash'') node))
      else if type = ''TaskRunCompleted''
      then dset ''status'' (JStr (task_run_status (dget after ''outcome'')))
             (dset ''last_run_outcome'' (dget after ''outcome'') node)
      else if type = ''TaskNodeClosed'' then dset ''status'' (JStr ''closed'') node
      else dset ''owner_gate_reason'' JNull (dset ''requires_owner_gate'' (JBool False) node))"

definition activate :: "bool \<Rightarrow> dict \<Rightarrow> dict" where
  "activate b e = dset ''is_active'' (JBool b) e"

definition reduce_task_graph :: "dict option \<Rightarrow> event_record \<Rightarrow> reduced" where
  "reduce_task_graph cur r =
     (let nodes = obj_items (dget (doc_of cur) ''nodes''); edges = obj_items (dget (doc_of cur) ''edges'');
          after = after_state (payload r); type = event_type r
      in Inr (Some (
        if type = ''TaskNodeCreated''
        then nodes_and_edges
               (case as_str (dget after ''task_id'') of
                  None \<Rightarrow> nodes
                | Some t \<Rightarrow> upsert_dict (keyed ''task_id'' t) id (Some (created_task r after)) nodes) edges
        else if type = ''TaskDependencyEdgeAdded''
        then nodes_and_edges nodes
               (upsert_dict (\<lambda>e. edge_key e = edge_key after) (activate True) (Some (dependency_edge after)) edges)
        else if type = ''TaskDependencyEdgeRemoved''
        then nodes_and_edges nodes
               (change_dicts (\<lambda>e. edge_key e = edge_key (before_state (payload r))) (activate False) edges)
        else nodes_and_edges (upsert_dict (same ''task_id'' (dget after ''task_id'')) (update_task_node r after) None nodes)
               edges)))"

section \<open>Ownership\<close>

text \<open>\<open>envelope_at\<close> is the log's lookup of a record, while a catch-up runs.\<close>

definition entity_at :: "string \<Rightarrow> string \<Rightarrow> dict \<Rightarrow> bool" where
  "entity_at t i e \<longleftrightarrow> dget e ''entity_type'' = JStr t \<and> dget e ''entity_id'' = JStr i"

definition set_lock :: "json \<Rightarrow> json \<Rightarrow> dict \<Rightarrow> dict list \<Rightarrow> dict list" where
  "set_lock task run w entities =
     (case (dget w ''entity_type'', dget w ''entity_id'') of
        (JStr t, JStr i) \<Rightarrow>
          (let lock = [(''entity_type'', JStr t), (''entity_id'', JStr i), (''owner_task_id'', task),
                (''write_locked'', JBool True), (''lock_holder_run_id'', run)]
           in upsert_dict (entity_at t i) (dict_update lock) (Some lock) entities)
      | _ \<Rightarrow> entities)"

definition release_lock :: "dict \<Rightarrow> dict list \<Rightarrow> dict list" where
  "release_lock w entities =
     change_dicts (\<lambda>e. dget e ''entity_type'' = dget w ''entity_type'' \<and> dget e ''entity_id'' = dget w ''entity_id'')
       (\<lambda>e. dset ''lock_holder_run_id'' JNull (dset ''write_locked'' (JBool False) e)) entities"

definition release_committed_locks :: "(string \<Rightarrow> event_record option) \<Rightarrow> dict \<Rightarrow> dict list \<Rightarrow> dict list" where
  "release_committed_locks envelope_at pl entities =
     (case as_str (dget pl ''envelope_event_id'') of
        None \<Rightarrow> entities
      | Some i \<Rightarrow>
          (case envelope_at i of
             None \<Rightarrow> entities
           | Some env \<Rightarrow> fold release_lock (obj_items (dget (payload env) ''write_set'')) entities))"

definition reduce_ownership :: "(string \<Rightarrow> event_record option) \<Rightarrow> dict option \<Rightarrow> event_record \<Rightarrow> reduced" where
  "reduce_ownership envelope_at cur r =
     (let entities = obj_items (dget (doc_of cur) ''entities''); after = after_state (payload r)
      in Inr (Some [(''entities'', dicts_json (
        if event_type r = ''TaskWriteSetClaimed''
        then fold (set_lock (dget after ''task_id'') (json_opt (run_id (provenance r))))
               (obj_items (dget after ''write_set'')) entities
        else if event_type r = ''CommitAccepted'' then release_committed_locks envelope_at (payload r) entities
        else if event_type r = ''LockReleased'' then fold release_lock (obj_items (dget after ''entities'')) entities
        else entities))]))"

end
