(* ===== verification/Projection_Concepts.thy ===== *)
theory Projection_Concepts
  imports Projection_Graphs
begin

text \<open>
  The reducers of the projection store, third part: references, concepts, information needs and
  interviews, the projections that are computed from other ones (\<open>impact_graph\<close>,
  \<open>interview_progress\<close>), and the graphs of sessions and locks, which \<open>node_reducers.py\<close> folds from all
  their events each time.
\<close>

section \<open>References\<close>

definition endpoint :: "json \<Rightarrow> json" where
  "endpoint raw =
     (case raw of
        JObj d \<Rightarrow> JObj [(''entity_type'', field_or d ''type'' (dget d ''entity_type'')),
                   (''entity_id'', field_or d ''id'' (dget d ''entity_id'')), (''field_path'', dget d ''field_path'')]
      | _ \<Rightarrow> JObj [(''entity_type'', JNull), (''entity_id'', JNull), (''field_path'', JNull)])"

definition plain_reference :: "event_record \<Rightarrow> dict \<Rightarrow> string \<Rightarrow> dict" where
  "plain_reference r after i =
     [(''reference_id'', JStr i), (''source'', endpoint (dget after ''source_entity'')),
      (''target'', endpoint (dget after ''target_entity'')),
      (''reference_type'', field_or after ''reference_type'' (JStr [])), (''is_active'', JBool True),
      (''created_at_event_id'', JStr (event_id r))]"

definition typed_reference :: "event_record \<Rightarrow> dict \<Rightarrow> string \<Rightarrow> dict" where
  "typed_reference r after i =
     [(''reference_id'', JStr i), (''source_concept_id'', field_or after ''source_concept_id'' (JStr [])),
      (''target_concept_name'', field_or after ''target_concept_name'' (JStr [])),
      (''locator_type'', field_or after ''locator_type'' (JStr [])), (''field_path'', dget after ''field_path''),
      (''state_anchor'', dget after ''state_anchor''),
      (''locked_event_id'', if truthy (dget after ''lock_event_id'') then dget after ''lock_event_id'' else JStr (event_id r)),
      (''on_target_supersede_policy'', dget after ''on_target_supersede_policy''), (''is_active'', JBool True),
      (''is_stale'', JBool False), (''created_at_event_id'', JStr (event_id r))]"

definition add_reference :: "event_record \<Rightarrow> dict \<Rightarrow> dict list \<Rightarrow> dict list" where
  "add_reference r after links =
     (case as_str (dget after ''reference_id'') of
        Some i \<Rightarrow> upsert_dict (keyed ''reference_id'' i) id (Some (plain_reference r after i)) links
      | None \<Rightarrow>
          (case as_str (dget after ''at_reference'') of
             Some i \<Rightarrow> upsert_dict (keyed ''reference_id'' i) id (Some (typed_reference r after i)) links
           | None \<Rightarrow> links))"

definition follow_target :: "dict \<Rightarrow> dict \<Rightarrow> dict" where
  "follow_target after n =
     dset ''is_stale'' (JBool False)
       (dset ''locked_event_id'' (if truthy (dget after ''new_lock_event_id'') then dget after ''new_lock_event_id''
                                  else dget n ''locked_event_id'') n)"

definition mark_stale :: "dict \<Rightarrow> dict \<Rightarrow> dict" where
  "mark_stale after n =
     (let n' = dset ''staleness_status'' (dget after ''status'')
                 (dset ''target_superseded_at_event_id'' (dget after ''new_target_event_id'') (dset ''is_stale'' (JBool True) n))
      in case nonempty (dget after ''target_concept_name'') of
           Some t \<Rightarrow> dset ''target_concept_name'' (JStr t) n'
         | None \<Rightarrow> n')"

definition reduce_at_reference_graph :: "dict option \<Rightarrow> event_record \<Rightarrow> reduced" where
  "reduce_at_reference_graph cur r =
     (let links = obj_items (dget (doc_of cur) ''references''); pl = payload r; after = after_state pl;
          here = same ''reference_id'' (dget after ''reference_id''); type = event_type r
      in Inr (Some [(''references'', dicts_json (
        if type = ''AtReferenceAdded'' then add_reference r after links
        else if type = ''AtReferenceRemoved''
        then change_dicts (same ''reference_id'' (if truthy (dget after ''reference_id'') then dget after ''reference_id''
                                             else dget (before_state pl) ''reference_id'')) (activate False) links
        else if type = ''AtReferenceAutoUpdated'' then change_dicts here (follow_target after) links
        else if type = ''AtReferenceTargetSuperseded'' then change_dicts here (mark_stale after) links
        else links))]))"

section \<open>Concepts\<close>

text \<open>The index of proposals by the concept they change: lists of texts under each key.\<close>

definition supersede_index_of :: "json \<Rightarrow> (string \<times> string list) list" where
  "supersede_index_of v =
     List.map_filter (\<lambda>(k, x). case x of JArr xs \<Rightarrow> Some (k, map py_str xs) | _ \<Rightarrow> None) (obj_of v)"

definition created_concept :: "event_record \<Rightarrow> dict \<Rightarrow> string \<Rightarrow> dict" where
  "created_concept r src cid =
     [(''concept_id'', JStr cid), (''name'', field_or src ''name'' (field_or src ''concept_name'' (JStr []))),
      (''definition'', field_or src ''definition'' (JStr [])), (''saga_state'', JNull),
      (''created_by_stage'', field_or src ''created_by_stage'' (JStr [])), (''created_at_event_id'', JStr (event_id r)),
      (''seed_origin'', JBool (truthy (dget src ''seed_origin''))), (''source_brief_id'', dget src ''source_brief_id'')]"

definition created_edge :: "event_record \<Rightarrow> dict \<Rightarrow> string \<Rightarrow> dict" where
  "created_edge r after i =
     [(''edge_id'', JStr i), (''source_concept_id'', field_or after ''source_concept_id'' (JStr [])),
      (''target_concept_id'', field_or after ''target_concept_id'' (JStr [])),
      (''edge_type'', field_or after ''edge_type'' (JStr [])), (''direction'', field_or after ''direction'' (JStr [])),
      (''created_at_event_id'', JStr (event_id r)), (''is_active'', JBool True)]"

definition state_machine_of :: "event_record \<Rightarrow> dict \<Rightarrow> json" where
  "state_machine_of r after =
     JObj [(''states'', dicts_json (obj_items (dget after ''states''))),
       (''transitions'', dicts_json (obj_items (dget after ''transitions''))),
       (''saga_pattern'', JBool (truthy (field_or after ''saga_pattern'' (JBool True)))),
       (''defined_at_event_id'', JStr (event_id r))]"

definition record_proposal :: "string \<Rightarrow> string \<Rightarrow> (string \<times> string list) list \<Rightarrow> (string \<times> string list) list" where
  "record_proposal eid cid idx =
     (let seen = (case map_of idx cid of None \<Rightarrow> [] | Some xs \<Rightarrow> xs)
      in AList.update cid (if eid \<in> set seen then seen else seen @ [eid]) idx)"

definition apply_change :: "string \<Rightarrow> dict \<Rightarrow> dict list \<times> (string \<times> string list) list
    \<Rightarrow> dict list \<times> (string \<times> string list) list" where
  "apply_change eid ch s =
     (case as_str (dget ch ''entity_id'') of
        None \<Rightarrow> s
      | Some cid \<Rightarrow>
          (let (nodes, idx) = s
           in (case dget ch ''new_value'' of
                 JObj nv \<Rightarrow> change_dicts (keyed ''concept_id'' cid)
                             (fold (copy_present nv) [''name'', ''definition'', ''saga_state'']) nodes
               | _ \<Rightarrow> nodes,
               record_proposal eid cid idx)))"

definition apply_concept_graph_proposal :: "string \<Rightarrow> dict \<Rightarrow> dict list \<times> (string \<times> string list) list
    \<Rightarrow> dict list \<times> (string \<times> string list) list" where
  "apply_concept_graph_proposal eid after s = fold (apply_change eid) (obj_items (dget after ''proposed_changes'')) s"

definition reduce_concept_graph :: "dict option \<Rightarrow> event_record \<Rightarrow> reduced" where
  "reduce_concept_graph cur r =
     (let doc = doc_of cur; nodes = obj_items (dget doc ''nodes''); edges = obj_items (dget doc ''edges'');
          idx = supersede_index_of (dget doc ''supersede_index''); pl = payload r; after = after_state pl;
          here = same ''concept_id'' (dget after ''concept_id''); type = event_type r;
          src = (if after = [] then pl else after);
          (nodes', edges', idx') =
            (if type = ''ConceptCreated''
             then (case as_str (dget src ''concept_id'') of
                     None \<Rightarrow> nodes
                   | Some cid \<Rightarrow> upsert_dict (keyed ''concept_id'' cid) id (Some (created_concept r src cid)) nodes,
                   edges, idx)
             else if type = ''ConceptEdgeAdded''
             then (nodes, (case as_str (dget after ''edge_id'') of
                             None \<Rightarrow> edges
                           | Some i \<Rightarrow> upsert_dict (keyed ''edge_id'' i) id (Some (created_edge r after i)) edges), idx)
             else if type = ''ConceptEdgeRemoved''
             then (nodes, change_dicts (same ''edge_id'' (dget (before_state pl) ''edge_id'')) (activate False) edges, idx)
             else if type = ''ConceptStateTransition''
             then (change_dicts here (dset ''saga_state'' (dget after ''saga_state'')) nodes, edges, idx)
             else if type = ''ConceptStateMachineDefined''
             then (change_dicts here (dset ''state_machine'' (state_machine_of r after)) nodes, edges, idx)
             else (case apply_concept_graph_proposal (event_id r) after (nodes, idx) of (ns, i) \<Rightarrow> (ns, edges, i)))
      in Inr (Some (nodes_and_edges nodes' edges'
           @ [(''supersede_index'', JObj (map (\<lambda>(k, xs). (k, JArr (map JStr xs))) idx'))])))"

section \<open>Information needs and interviews\<close>

text \<open>The sessions of a document: the entries that are dictionaries.\<close>

definition sessions_of :: "dict \<Rightarrow> (string \<times> dict) list" where
  "sessions_of doc = List.map_filter (\<lambda>(k, v). map_option (Pair k) (as_obj v)) (obj_of (dget doc ''sessions''))"

definition sessions_json :: "(string \<times> dict) list \<Rightarrow> dict" where
  "sessions_json ss = [(''sessions'', JObj (map (\<lambda>(k, d). (k, JObj d)) ss))]"

definition created_need :: "event_record \<Rightarrow> string \<Rightarrow> dict" where
  "created_need r nid =
     (let pl = payload r in
      [(''need_id'', JStr nid), (''description'', field_or pl ''description'' (JStr [])),
       (''source'', field_or pl ''source'' (JStr [])), (''status'', JStr ''pending''),
       (''red_line'', JBool (truthy (dget pl ''red_line''))), (''red_line_reason'', dget pl ''red_line_reason''),
       (''nature_original_quote'', JNull), (''meaning_interpretation'', JNull),
       (''downstream_impact'', field_or pl ''downstream_impact'' (JArr [])),
       (''dependencies'', field_or pl ''dependencies'' (JArr [])), (''created_by_event_id'', JStr (event_id r)),
       (''last_status_change_event_id'', JNull)])"

definition set_if_given :: "string \<Rightarrow> json \<Rightarrow> dict \<Rightarrow> dict" where
  "set_if_given k v n = (if v = JNull then n else dset k v n)"

definition change_need :: "event_record \<Rightarrow> dict \<Rightarrow> dict" where
  "change_need r n =
     (let pl = payload r in
      set_if_given ''meaning_interpretation'' (dget pl ''meaning_interpretation'')
        (set_if_given ''nature_original_quote'' (dget pl ''nature_original_quote'')
          (dset ''last_status_change_event_id'' (JStr (event_id r))
            (case as_str (dget pl ''new_status'') of None \<Rightarrow> n | Some s \<Rightarrow> dset ''status'' (JStr s) n))))"

definition reduce_information_need_graph :: "dict option \<Rightarrow> event_record \<Rightarrow> reduced" where
  "reduce_information_need_graph cur r =
     (case (dget (payload r) ''session_id'', dget (payload r) ''need_id'') of
        (JStr sid, JStr nid) \<Rightarrow>
          (let ss = sessions_of (doc_of cur);
               sess = (case map_of ss sid of Some d \<Rightarrow> d
                       | None \<Rightarrow> [(''session_id'', JStr sid), (''nodes'', JArr []), (''edges'', JArr [])]);
               nodes = obj_items (dget sess ''nodes'');
               nodes' = (if event_type r = ''InformationNeedCreated''
                         then upsert_dict (keyed ''need_id'' nid) id (Some (created_need r nid)) nodes
                         else upsert_dict (keyed ''need_id'' nid) (change_need r) None nodes)
           in Inr (Some (sessions_json (AList.update sid (dset ''nodes'' (dicts_json nodes') sess) ss))))
      | _ \<Rightarrow> Inr None)"

text \<open>\<open>counts[k] = counts.get(k, 0) + 1\<close>\<close>

definition tally :: "string \<Rightarrow> (string \<times> nat) list \<Rightarrow> (string \<times> nat) list" where
  "tally k counts = AList.update k ((case map_of counts k of None \<Rightarrow> 0 | Some n \<Rightarrow> n) + 1) counts"

definition tally_json :: "(string \<times> nat) list \<Rightarrow> json" where
  "tally_json counts = JObj (map (\<lambda>(k, n). (k, JInt (int n))) counts)"

definition need_text :: "string \<Rightarrow> dict \<Rightarrow> string" where
  "need_text k n = py_str (field_or n k (JStr []))"

definition progress_of :: "event_record \<Rightarrow> string \<Rightarrow> dict \<Rightarrow> dict list \<Rightarrow> dict" where
  "progress_of r sid prev needs =
     (let red = filter (\<lambda>n. truthy (dget n ''red_line'')) needs;
          published = (event_type r = ''InterviewBriefPublished'')
      in [(''session_id'', JStr sid),
          (''brief_published'', JBool (published \<or> truthy (dget prev ''brief_published''))),
          (''brief_event_id'', if published then JStr (event_id r) else dget prev ''brief_event_id''),
          (''total_needs'', JInt (int (length needs))),
          (''by_status'', tally_json (fold (tally \<circ> need_text ''status'') needs [])),
          (''by_source'', tally_json (fold (tally \<circ> need_text ''source'') needs [])),
          (''red_line_total'', JInt (int (length red))),
          (''red_line_pending'', JInt (int (length (filter (\<lambda>n. need_text ''status'' n = ''pending'') red))))])"

definition session_needs :: "dict option \<Rightarrow> string \<Rightarrow> dict list" where
  "session_needs needs sid =
     (case dget (obj_of (dget (doc_of needs) ''sessions'')) sid of JObj d \<Rightarrow> obj_items (dget d ''nodes'') | _ \<Rightarrow> [])"

definition reduce_interview_progress :: "dict option \<Rightarrow> dict option \<Rightarrow> event_record \<Rightarrow> reduced" where
  "reduce_interview_progress needs cur r =
     (case as_str (dget (payload r) ''session_id'') of
        None \<Rightarrow> Inr None
      | Some sid \<Rightarrow>
          (let ss = sessions_of (doc_of cur)
           in Inr (Some (sessions_json (AList.update sid
                (progress_of r sid (doc_of (map_of ss sid)) (session_needs needs sid)) ss)))))"

definition briefs_of :: "dict \<Rightarrow> (string \<times> dict) list" where
  "briefs_of doc = List.map_filter (\<lambda>(k, v). map_option (Pair k) (as_obj v)) (obj_of (dget doc ''briefs''))"

definition brief_entry :: "event_record \<Rightarrow> string \<Rightarrow> json \<Rightarrow> dict" where
  "brief_entry r bid by =
     (let pl = payload r in
      [(''brief_id'', JStr bid), (''brief_event_id'', JStr (event_id r)), (''session_id'', dget pl ''session_id''),
       (''goal_completion_condition'', dget pl ''goal_completion_condition''),
       (''concept_seeds_created'', field_or pl ''concept_seeds_created'' (JArr [])),
       (''supersedes'', dget pl ''supersedes''), (''superseded_by'', by)])"

definition reduce_interview_brief_index :: "dict option \<Rightarrow> event_record \<Rightarrow> reduced" where
  "reduce_interview_brief_index cur r =
     (case as_str (dget (payload r) ''brief_id'') of
        None \<Rightarrow> Inr None
      | Some bid \<Rightarrow>
          (let bs = briefs_of (doc_of cur);
               bs1 = AList.update bid (brief_entry r bid (dget (doc_of (map_of bs bid)) ''superseded_by'')) bs;
               bs2 = (case as_str (dget (payload r) ''supersedes'') of
                        None \<Rightarrow> bs1
                      | Some old \<Rightarrow> map (\<lambda>(k, b). (k, if keyed ''brief_event_id'' old b
                                                  then dset ''superseded_by'' (JStr (event_id r)) b else b)) bs1)
           in Inr (Some [(''briefs'', JObj (map (\<lambda>(k, b). (k, JObj b)) bs2))])))"

section \<open>The impact graph\<close>

definition impact_graph_normalize_flip_concept_edge_types :: "string list" where
  "impact_graph_normalize_flip_concept_edge_types = [''dependency'', ''reference'']"

definition impact_edge :: "string \<Rightarrow> string \<Rightarrow> string \<Rightarrow> json \<Rightarrow> json \<Rightarrow> dict" where
  "impact_edge s t kind etype eid =
     [(''source'', JStr s), (''target'', JStr t), (''kind'', JStr kind), (''edge_type'', etype), (''edge_id'', eid)]"

text \<open>The two ends of an edge, if both are texts that are not empty.\<close>

definition ends_of :: "string \<Rightarrow> string \<Rightarrow> dict \<Rightarrow> (string \<times> string) option" where
  "ends_of k1 k2 e =
     (case (nonempty (dget e k1), nonempty (dget e k2)) of (Some s, Some t) \<Rightarrow> Some (s, t) | _ \<Rightarrow> None)"

definition concept_impact :: "dict \<Rightarrow> dict option" where
  "concept_impact e =
     (if dget e ''is_active'' = JBool False then None
      else case ends_of ''source_concept_id'' ''target_concept_id'' e of
             None \<Rightarrow> None
           | Some (s, t) \<Rightarrow>
               (let k = dget e ''edge_type''
                in Some (if k \<in> JStr ` set impact_graph_normalize_flip_concept_edge_types
                         then impact_edge t s ''concept'' k (dget e ''edge_id'')
                         else impact_edge s t ''concept'' k (dget e ''edge_id''))))"

definition task_impact :: "dict \<Rightarrow> dict option" where
  "task_impact e =
     (case ends_of ''source_task_id'' ''target_task_id'' e of
        None \<Rightarrow> None
      | Some (s, t) \<Rightarrow> Some (impact_edge s t ''task'' (dget e ''dependency_type'') (JStr (''task:'' @ s @ ''->'' @ t))))"

definition recompute_impact_graph :: "dict option \<Rightarrow> dict option \<Rightarrow> dict" where
  "recompute_impact_graph concepts tasks =
     [(''edges'', dicts_json (List.map_filter concept_impact (obj_items (dget (doc_of concepts) ''edges''))
        @ List.map_filter task_impact (obj_items (dget (doc_of tasks) ''edges''))))]"

section \<open>Sessions and locks\<close>

text \<open>
  The events in the flat form of the pure reducer, of which the store passes on only the first two
  kinds.  A node is kept by its identifier, which may be any hashable value; a missing one raises
  \<open>KeyError\<close>.
\<close>

definition node_event_to_flat :: "event_record \<Rightarrow> dict" where
  "node_event_to_flat r =
     fold (\<lambda>(k, v). set_default k v) (after_state (payload r))
       [(''type'', JStr (event_type r)), (''event_id'', JStr (event_id r))]"

type_synonym node_graph = "(json \<times> dict) list \<times> dict list"

definition graph_node :: "json \<Rightarrow> string \<Rightarrow> string \<Rightarrow> dict \<Rightarrow> json \<Rightarrow> dict" where
  "graph_node nid type layer pl ev =
     [(''id'', nid), (''type'', JStr type), (''layer'', JStr layer), (''payload'', JObj pl), (''provenance'', ev),
      (''is_active'', JBool True)]"

definition graph_edge :: "json \<Rightarrow> json \<Rightarrow> string \<Rightarrow> json \<Rightarrow> dict" where
  "graph_edge frm to etype ev =
     [(''from_id'', frm), (''to'', to), (''edge_type'', JStr etype), (''direction'', JStr ''unidirectional''),
      (''is_active'', JBool True), (''slice_bearing'', JBool False), (''provenance'', ev)]"

definition key_at :: "dict \<Rightarrow> string \<Rightarrow> verr + json" where
  "key_at e k = (case map_of e k of None \<Rightarrow> Inl (ValueError ''KeyError'') | Some v \<Rightarrow> Inr v)"

definition as_key :: "json \<Rightarrow> verr + json" where
  "as_key v = (if hashable v then Inr v else Inl (TypeError ''unhashable''))"

definition add_session :: "node_graph \<Rightarrow> dict \<Rightarrow> verr + node_graph" where
  "add_session g e =
     rbind (rbind (key_at e ''session_id'') as_key) (\<lambda>sid.
       let ev = dget e ''event_id''; parent = dget e ''parent_session_id'';
           nodes = AList.update sid (graph_node sid ''session'' ''session_graph'' [(''form'', dget e ''form'')] ev) (fst g)
       in if \<not> truthy parent then Inr (nodes, snd g)
          else rbind (as_key parent) (\<lambda>p.
            Inr (if map_of nodes p = None then nodes @ [(p, graph_node p ''session'' ''session_graph'' [] JNull)] else nodes,
                 snd g @ [graph_edge p sid ''spawned'' ev])))"

definition add_acquired :: "node_graph \<Rightarrow> dict \<Rightarrow> verr + node_graph" where
  "add_acquired g e =
     rbind (key_at e ''lock_id'') (\<lambda>lid0. rbind (key_at e ''session_id'') (\<lambda>sid. rbind (as_key lid0) (\<lambda>lid.
       let ev = dget e ''event_id''
       in Inr (AList.update lid (graph_node lid ''lock'' ''lock_graph'' [(''resource'', dget e ''resource'')] ev) (fst g),
               snd g @ [graph_edge lid sid ''held-by'' ev]))))"

text \<open>A release ends the edges of its lock; without a lock identifier it does nothing.\<close>

definition end_held :: "node_graph \<Rightarrow> dict \<Rightarrow> node_graph" where
  "end_held g e =
     (let lid = dget e ''lock_id'' in
      if truthy lid
      then (fst g, change_dicts (\<lambda>x. dget x ''from_id'' = lid \<and> dget x ''edge_type'' = JStr ''held-by'')
              (dset ''is_active'' (JBool False)) (snd g))
      else g)"

definition add_raised :: "node_graph \<Rightarrow> dict \<Rightarrow> verr + node_graph" where
  "add_raised g e =
     rbind (rbind (key_at e ''escalation_id'') as_key) (\<lambda>eid.
       let ev = dget e ''event_id'';
           link = (\<lambda>k etype. if truthy (dget e k) then [graph_edge eid (dget e k) etype ev] else [])
       in Inr (AList.update eid (graph_node eid ''escalation'' ''escalation_graph'' [(''lifecycle'', JStr ''raised'')] ev) (fst g),
               snd g @ link ''raised_by_session'' ''raised-by'' @ link ''blocks_task'' ''blocks''))"

definition resolve_raised :: "node_graph \<Rightarrow> dict \<Rightarrow> verr + node_graph" where
  "resolve_raised g e =
     rbind (rbind (key_at e ''escalation_id'') as_key) (\<lambda>eid.
       Inr (case map_of (fst g) eid of
              None \<Rightarrow> g
            | Some n \<Rightarrow> (AList.update eid (dset ''payload''
                (JObj (dset ''lifecycle'' (JStr ''resolved'') (obj_of (dget n ''payload'')))) n) (fst g), snd g)))"

definition node_step :: "node_graph \<times> node_graph \<times> node_graph \<Rightarrow> dict \<Rightarrow> verr + node_graph \<times> node_graph \<times> node_graph" where
  "node_step g e =
     (let (sg, lg, eg) = g; type = dget e ''type'' in
      if type = JStr ''SessionSpawned'' then rbind (add_session sg e) (\<lambda>s. Inr (s, lg, eg))
      else if type = JStr ''LockAcquired'' then rbind (add_acquired lg e) (\<lambda>l. Inr (sg, l, eg))
      else if type = JStr ''LockReleased'' then Inr (sg, end_held lg e, eg)
      else if type = JStr ''EscalationRaised'' then rbind (add_raised eg e) (\<lambda>x. Inr (sg, lg, x))
      else if type = JStr ''EscalationResolved'' then rbind (resolve_raised eg e) (\<lambda>x. Inr (sg, lg, x))
      else Inr g)"

definition node_doc :: "node_graph \<Rightarrow> dict" where
  "node_doc g = nodes_and_edges (map snd (fst g)) (snd g)"

definition reduce_node_events :: "dict list \<Rightarrow> verr + (string \<times> dict) list" where
  "reduce_node_events flat =
     rbind (rfold node_step (([], []), ([], []), ([], [])) flat) (\<lambda>(s, l, x).
       Inr [(''session_graph'', node_doc s), (''lock_graph'', node_doc l), (''escalation_graph'', node_doc x)])"

definition reduce_node_graph :: "string \<Rightarrow> event_record list \<Rightarrow> reduced" where
  "reduce_node_graph name recs =
     rbind (reduce_node_events (map node_event_to_flat (sort_key sequence_number recs))) (\<lambda>gs. Inr (map_of gs name))"

end
