(* ===== verification/Projection_Store.thy ===== *)
theory Projection_Store
  imports Projection_Concepts
begin

text \<open>
  The projection store (\<open>l0/projection/projection.py\<close>, class \<open>ProjectionStore\<close>): documents that are
  derived from the log, a cursor, and for each document a meta file with a digest.  A catch-up applies
  the events from the cursor on in memory, writes the documents it has changed, advances the cursor and
  writes the meta files, in that order; each write is an atomic rename.  The log is seen through
  \<open>log_view\<close>, one for each operation.
\<close>

section \<open>What a catch-up sees of the log\<close>

record log_view =
  lv_range :: "int \<Rightarrow> int \<Rightarrow> event_record list"
  lv_event :: "string \<Rightarrow> event_record option"
  lv_type :: "string \<Rightarrow> event_record list"
  lv_next :: int

definition view_of :: "index_api \<Rightarrow> (string \<Rightarrow> event_record option) \<Rightarrow> (int \<Rightarrow> int \<Rightarrow> event_record list) option
    \<Rightarrow> int \<Rightarrow> log_view" where
  "view_of api cold cold_range next_sequence =
     \<lparr>lv_range = get_events_in_range api cold_range, lv_event = get_event api cold,
      lv_type = (\<lambda>t. get_events_by_type api t None None), lv_next = next_sequence\<rparr>"

section \<open>The dispatch of events\<close>

type_synonym docs = "json option dir"
type_synonym reader = "string \<Rightarrow> verr + dict option"

definition read_disk :: "docs \<Rightarrow> reader" where
  "read_disk docs name =
     (case map_of docs name of
        None \<Rightarrow> Inr None
      | Some None \<Rightarrow> Inl (ValueError ''JSONDecodeError'')
      | Some (Some v) \<Rightarrow> Inr (as_obj v))"

record route =
  rt_name :: string
  rt_takes :: "event_record \<Rightarrow> bool"
  rt_reduce :: "log_view \<Rightarrow> reader \<Rightarrow> event_record \<Rightarrow> reduced"

definition of_types :: "string list \<Rightarrow> event_record \<Rightarrow> bool" where
  "of_types ts r \<longleftrightarrow> event_type r \<in> set ts"

definition obligation_lifecycle_events :: "string list" where
  "obligation_lifecycle_events = [''ObligationCaptured'', ''ObligationActivated'', ''ObligationChecked'',
     ''ObligationViolated'', ''ObligationEvolved'', ''ObligationRetired'']"

definition concept_graph_events :: "string list" where
  "concept_graph_events = [''ConceptCreated'', ''ConceptEdgeAdded'', ''ConceptEdgeRemoved'',
     ''ConceptStateTransition'', ''ConceptStateMachineDefined'', ''ConceptGraphProposal'']"

definition task_graph_events :: "string list" where
  "task_graph_events = [''TaskNodeCreated'', ''TaskDependencyEdgeAdded'', ''TaskDependencyEdgeRemoved'',
     ''TaskNodeClosed'', ''TaskNodeOwnerGateCleared'', ''TaskReadSetClaimed'', ''TaskWriteSetClaimed'',
     ''TaskModelTierAssigned'', ''TaskPackagePublished'', ''TaskRunCompleted'']"

definition ownership_events :: "string list" where
  "ownership_events = [''TaskWriteSetClaimed'', ''CommitAccepted'', ''LockReleased'']"

definition at_reference_events :: "string list" where
  "at_reference_events = [''AtReferenceAdded'', ''AtReferenceRemoved'', ''AtReferenceAutoUpdated'',
     ''AtReferenceTargetSuperseded'']"

definition information_need_events :: "string list" where
  "information_need_events = [''InformationNeedCreated'', ''InformationNeedStatusChanged'']"

definition finding_lifecycle_events :: "string list" where
  "finding_lifecycle_events = [''FindingCreated'', ''FindingVerified'', ''FindingDisputed'', ''FindingResolved'',
     ''FindingAccepted'', ''FindingClosureContractAmended'']"

definition detection_rule_events :: "string list" where
  "detection_rule_events = [''DetectionRuleProposed'', ''DetectionRuleShadowing'', ''DetectionRulePromoted'',
     ''DetectionRuleRetired'']"

definition escalation_lifecycle_events :: "string list" where
  "escalation_lifecycle_events = [''EscalationRaised'', ''EscalationTriaged'', ''EscalationResolved'',
     ''EscalationLearningCaptured'', ''EscalationDecisionMade'']"

definition node_graph_events :: "string list" where
  "node_graph_events = [''SessionSpawned'', ''LockAcquired'']"

text \<open>A reducer that reads its own document only.\<close>

definition own :: "string \<Rightarrow> (event_record \<Rightarrow> bool) \<Rightarrow> (log_view \<Rightarrow> dict option \<Rightarrow> event_record \<Rightarrow> reduced) \<Rightarrow> route" where
  "own name takes red = \<lparr>rt_name = name, rt_takes = takes,
     rt_reduce = (\<lambda>lv rd r. rbind (rd name) (\<lambda>cur. red lv cur r))\<rparr>"

definition verdict_of :: "event_record \<Rightarrow> string" where
  "verdict_of r = (if event_type r = ''CommitAccepted'' then ''accepted'' else ''rejected'')"

definition node_route :: "string \<Rightarrow> route" where
  "node_route name = \<lparr>rt_name = name, rt_takes = of_types node_graph_events,
     rt_reduce = (\<lambda>lv rd r. reduce_node_graph name (concat (map (lv_type lv) node_graph_events)))\<rparr>"

text \<open>The branches in the order of the code; those of its first chain take different types.\<close>

definition routes :: "route list" where
  "routes =
     [own ''obligation_lifecycle_state'' (of_types obligation_lifecycle_events) (\<lambda>lv. reduce_obligation_lifecycle),
      own ''commit_history'' (of_types [''CommitAccepted'', ''CommitRejected''])
        (\<lambda>lv cur r. reduce_commit_history (verdict_of r) cur r),
      own ''concept_graph'' (of_types concept_graph_events) (\<lambda>lv. reduce_concept_graph),
      own ''debt_registry'' (of_types [''DebtRegistered'', ''DebtResolved'']) (\<lambda>lv. reduce_debt_registry),
      own ''capability_status'' (of_types [''CapabilityBaselineIngested'', ''CapabilityStatusAdvanced''])
        (\<lambda>lv. reduce_capability_status),
      own ''task_graph'' (of_types task_graph_events) (\<lambda>lv. reduce_task_graph),
      own ''at_reference_graph'' (of_types at_reference_events) (\<lambda>lv. reduce_at_reference_graph),
      own ''ownership'' (of_types ownership_events) (\<lambda>lv. reduce_ownership (lv_event lv)),
      own ''gate_check_firing'' (of_types [''CommitAccepted'', ''CommitRejected''])
        (\<lambda>lv cur r. reduce_gate_check_firing (verdict_of r) cur r),
      own ''information_need_graph'' (of_types information_need_events) (\<lambda>lv. reduce_information_need_graph),
      \<lparr>rt_name = ''interview_progress'', rt_takes = of_types (''InterviewBriefPublished'' # information_need_events),
       rt_reduce = (\<lambda>lv rd r. rbind (rd ''interview_progress'') (\<lambda>cur. rbind (rd ''information_need_graph'') (\<lambda>needs.
         reduce_interview_progress needs cur r)))\<rparr>,
      own ''interview_brief_index'' (of_types [''InterviewBriefPublished'']) (\<lambda>lv. reduce_interview_brief_index),
      own ''finding_lifecycle'' (of_types finding_lifecycle_events) (\<lambda>lv. reduce_finding_lifecycle),
      own ''review_plan'' (of_types [''ReviewPlanCreated'']) (\<lambda>lv. reduce_review_plan),
      own ''consumer_relation'' (of_types [''ConsumerListPublished'']) (\<lambda>lv. reduce_consumer_relation),
      own ''engineering_consensus_index'' (of_types [''EngineeringConsensusFreezed''])
        (\<lambda>lv. reduce_engineering_consensus_index),
      own ''detection_rule_lifecycle'' (of_types detection_rule_events) (\<lambda>lv. reduce_detection_rule),
      own ''escalation_lifecycle'' (\<lambda>r. of_types escalation_lifecycle_events r \<or> world_b_escalation_event r \<noteq> None)
        (\<lambda>lv. reduce_escalation_lifecycle),
      own ''decision'' (\<lambda>r. event_category r = ''semantic_judgment'') (\<lambda>lv. reduce_decision),
      \<lparr>rt_name = ''impact_graph'', rt_takes = of_types (concept_graph_events @ task_graph_events),
       rt_reduce = (\<lambda>lv rd r. rbind (rd ''concept_graph'') (\<lambda>cg. rbind (rd ''task_graph'') (\<lambda>tg.
         Inr (Some (recompute_impact_graph cg tg)))))\<rparr>,
      node_route ''session_graph'', node_route ''lock_graph'', node_route ''escalation_graph'']"

definition store_names :: "string list" where
  "store_names =
     [''concept_graph'', ''task_graph'', ''obligation_lifecycle_state'', ''ownership'', ''at_reference_graph'',
      ''consumer_relation'', ''finding_lifecycle'', ''detection_rule_lifecycle'', ''escalation_lifecycle'',
      ''commit_history'', ''gate_check_firing'', ''debt_registry'', ''capability_status'', ''information_need_graph'',
      ''interview_progress'', ''interview_brief_index'', ''review_plan'', ''engineering_consensus_index'',
      ''impact_graph'', ''decision'', ''session_graph'', ''lock_graph'', ''escalation_graph'']"

text \<open>The documents a batch has written so far hide those on disk.\<close>

type_synonym batch_docs = "(string \<times> dict) list"

definition read_batch :: "docs \<Rightarrow> batch_docs \<Rightarrow> reader" where
  "read_batch docs b name = (case map_of b name of Some d \<Rightarrow> Inr (Some d) | None \<Rightarrow> read_disk docs name)"

definition apply_route :: "log_view \<Rightarrow> docs \<Rightarrow> event_record \<Rightarrow> batch_docs \<Rightarrow> route \<Rightarrow> verr + batch_docs" where
  "apply_route lv docs r b rt =
     (if \<not> rt_takes rt r then Inr b
      else rbind (rt_reduce rt lv (read_batch docs b) r) (\<lambda>out.
             Inr (case out of None \<Rightarrow> b | Some d \<Rightarrow> AList.update (rt_name rt) d b)))"

definition apply_all :: "log_view \<Rightarrow> docs \<Rightarrow> batch_docs \<Rightarrow> event_record \<Rightarrow> verr + batch_docs" where
  "apply_all lv docs b r = rfold (apply_route lv docs r) b routes"

section \<open>The store\<close>

record projection_store =
  ps_docs :: docs
  ps_cursor :: int
  ps_metas :: docs

definition flush :: "batch_docs \<Rightarrow> docs \<Rightarrow> docs" where
  "flush b docs = fold (\<lambda>(name, d). AList.update name (Some (JObj d))) b docs"

definition proj_meta :: "projection_store \<Rightarrow> string \<Rightarrow> dict option" where
  "proj_meta st name = (case map_of (ps_metas st) name of Some (Some (JObj d)) \<Rightarrow> Some d | _ \<Rightarrow> None)"

text \<open>\<open>digest\<close> is the hash of the text of a document, \<open>now\<close> the formatted time.\<close>

definition persist_meta :: "(json option \<Rightarrow> string) \<Rightarrow> string \<Rightarrow> int \<Rightarrow> string \<Rightarrow> projection_store \<Rightarrow> projection_store" where
  "persist_meta digest now watermark name st =
     (case map_of (ps_docs st) name of
        None \<Rightarrow> st
      | Some doc \<Rightarrow>
          (let generation = (case proj_meta st name of
                               Some m \<Rightarrow> (case as_int (dget m ''generation'') of Some n \<Rightarrow> n + 1 | None \<Rightarrow> 1)
                             | None \<Rightarrow> 1)
           in st\<lparr>ps_metas := AList.update name (Some (JObj [(''projection_type'', JStr name),
                (''watermark'', JInt watermark), (''state_hash'', JStr (digest doc)), (''generation'', JInt generation),
                (''updated_at'', JStr now)])) (ps_metas st)\<rparr>))"

definition persist_all_meta :: "(json option \<Rightarrow> string) \<Rightarrow> string \<Rightarrow> int \<Rightarrow> string list \<Rightarrow> projection_store
    \<Rightarrow> projection_store" where
  "persist_all_meta digest now watermark names st = fold (persist_meta digest now watermark) names st"

text \<open>The events of a catch-up, and the documents it changes.\<close>

definition events_from :: "log_view \<Rightarrow> int \<Rightarrow> event_record list" where
  "events_from lv cursor = sort_key sequence_number (lv_range lv cursor (lv_next lv - 1))"

definition catchup :: "(json option \<Rightarrow> string) \<Rightarrow> string \<Rightarrow> log_view \<Rightarrow> projection_store \<Rightarrow> (verr + nat) \<times> projection_store" where
  "catchup digest now lv st =
     (let events = events_from lv (ps_cursor st) in
      if events = [] then (Inr 0, st)
      else case rfold (apply_all lv (ps_docs st)) [] events of
             Inl e \<Rightarrow> (Inl e, st)
           | Inr b \<Rightarrow>
               (let new_cursor = sequence_number (last events) + 1
                in (Inr (length events),
                    persist_all_meta digest now (new_cursor - 1) (map fst b)
                      (st\<lparr>ps_docs := flush b (ps_docs st), ps_cursor := new_cursor\<rparr>))))"

definition drop_doc :: "string \<Rightarrow> docs \<Rightarrow> docs" where
  "drop_doc name docs = AList.delete name docs"

definition rebuild :: "(json option \<Rightarrow> string) \<Rightarrow> string \<Rightarrow> log_view \<Rightarrow> projection_store \<Rightarrow> (verr + nat) \<times> projection_store" where
  "rebuild digest now lv st =
     catchup digest now lv (st\<lparr>ps_docs := fold drop_doc store_names (ps_docs st), ps_cursor := 0\<rparr>)"

text \<open>Outside of a batch every write goes to disk; what was written before an exception stays.\<close>

fun replay :: "(docs \<Rightarrow> event_record \<Rightarrow> verr + docs) \<Rightarrow> docs \<Rightarrow> event_record list \<Rightarrow> (verr + unit) \<times> docs" where
  "replay f docs [] = (Inr (), docs)"
| "replay f docs (r # rs) = (case f docs r of Inl e \<Rightarrow> (Inl e, docs) | Inr docs' \<Rightarrow> replay f docs' rs)"

definition apply_one :: "string \<Rightarrow> log_view \<Rightarrow> docs \<Rightarrow> event_record \<Rightarrow> verr + docs" where
  "apply_one name lv docs r =
     rbind (rfold (apply_route lv docs r) [] (filter (\<lambda>rt. rt_name rt = name) routes)) (\<lambda>b. Inr (flush b docs))"

definition recompute_one :: "(json option \<Rightarrow> string) \<Rightarrow> string \<Rightarrow> log_view \<Rightarrow> string \<Rightarrow> projection_store
    \<Rightarrow> (verr + nat) \<times> projection_store" where
  "recompute_one digest now lv name st =
     (if name \<notin> set store_names then (Inl (ValueError ''unknown projection''), st)
      else let events = events_from lv 0;
               (res, docs) = replay (apply_one name lv) (drop_doc name (ps_docs st)) events;
               st' = st\<lparr>ps_docs := docs\<rparr>
           in case res of
                Inl e \<Rightarrow> (Inl e, st')
              | Inr u \<Rightarrow> (Inr (length events), persist_meta digest now (lv_next lv - 1) name st'))"

text \<open>\<open>bundle\<close> has the parsed texts, \<open>None\<close> where parsing fails.\<close>

definition restore_bundle :: "docs \<Rightarrow> int \<Rightarrow> projection_store \<Rightarrow> string list \<times> projection_store" where
  "restore_bundle bundle cutoff st =
     (let usable = filter (\<lambda>n. n \<in> set store_names \<and>
                       (case map_of bundle n of Some (Some (JObj d)) \<Rightarrow> True | _ \<Rightarrow> False)) (sort (map fst bundle))
      in (usable, st\<lparr>ps_docs := fold (\<lambda>n. AList.update n (the (map_of bundle n))) usable (ps_docs st),
                     ps_cursor := cutoff + 1\<rparr>))"

section \<open>Recovery\<close>

datatype diagnosis = No_Meta | Consistent | Torn_State_Missing | Torn_Hash_Mismatch
datatype recovery = Recomputed | Rebuilt | Advanced | Noop

definition diagnose :: "(json option \<Rightarrow> string) \<Rightarrow> projection_store \<Rightarrow> string \<Rightarrow> diagnosis" where
  "diagnose digest st name =
     (case proj_meta st name of
        None \<Rightarrow> No_Meta
      | Some m \<Rightarrow>
          (case map_of (ps_docs st) name of
             None \<Rightarrow> Torn_State_Missing
           | Some doc \<Rightarrow> if dget m ''state_hash'' = JStr (digest doc) then Consistent else Torn_Hash_Mismatch))"

definition torn_projections :: "(json option \<Rightarrow> string) \<Rightarrow> projection_store \<Rightarrow> string list" where
  "torn_projections digest st =
     filter (\<lambda>n. diagnose digest st n \<in> set [Torn_State_Missing, Torn_Hash_Mismatch]) store_names"

text \<open>The greatest watermark of a consistent projection, from \<open>-1\<close> on.\<close>

definition max_watermark :: "(json option \<Rightarrow> string) \<Rightarrow> projection_store \<Rightarrow> int" where
  "max_watermark digest st =
     fold max (List.map_filter (\<lambda>n. if diagnose digest st n = Consistent
         then Option.bind (proj_meta st n) (\<lambda>m. as_int (dget m ''watermark'')) else None) store_names) (-1)"

text \<open>Repairs one projection after the other, until one fails.\<close>

fun recompute_each :: "(json option \<Rightarrow> string) \<Rightarrow> string \<Rightarrow> log_view \<Rightarrow> string list \<Rightarrow> projection_store
    \<Rightarrow> (verr + unit) \<times> projection_store" where
  "recompute_each digest now lv [] st = (Inr (), st)"
| "recompute_each digest now lv (n # ns) st =
     (case recompute_one digest now lv n st of
        (Inl e, st') \<Rightarrow> (Inl e, st')
      | (Inr k, st') \<Rightarrow> recompute_each digest now lv ns st')"

definition recover_store :: "(json option \<Rightarrow> string) \<Rightarrow> string \<Rightarrow> log_view \<Rightarrow> projection_store
    \<Rightarrow> (verr + recovery) \<times> projection_store" where
  "recover_store digest now lv st =
     (let torn = torn_projections digest st;
          known = filter (\<lambda>n. diagnose digest st n \<noteq> No_Meta) store_names;
          rebuilt = (\<lambda>s. case rebuild digest now lv s of (res, s') \<Rightarrow> (rbind res (\<lambda>n. Inr Rebuilt), s'))
      in if torn \<noteq> []
         then (if length torn = length known then rebuilt st
               else case recompute_each digest now lv torn st of
                      (Inl e, st') \<Rightarrow> rebuilt st'
                    | (Inr u, st') \<Rightarrow> (Inr Recomputed, st'))
         else if 0 \<le> max_watermark digest st \<and> ps_cursor st < max_watermark digest st + 1
         then (Inr Advanced, st\<lparr>ps_cursor := max_watermark digest st + 1\<rparr>)
         else (Inr Noop, st))"

text \<open>The names whose documents a rebuild changes; two documents are compared by their canonical text.\<close>

definition validate_rebuild :: "(json option \<Rightarrow> string) \<Rightarrow> string \<Rightarrow> (dict option \<Rightarrow> string) \<Rightarrow> log_view \<Rightarrow> projection_store
    \<Rightarrow> (verr + nat \<times> string list) \<times> projection_store" where
  "validate_rebuild digest now canonical lv st =
     (let read_all = (\<lambda>s. rfold (\<lambda>acc n. rbind (read_disk (ps_docs s) n) (\<lambda>d. Inr (acc @ [d]))) [] store_names)
      in case read_all st of
           Inl e \<Rightarrow> (Inl e, st)
         | Inr old \<Rightarrow>
             (case rebuild digest now lv st of
                (Inl e, st') \<Rightarrow> (Inl e, st')
              | (Inr k, st') \<Rightarrow>
                  (rbind (read_all st') (\<lambda>new.
                     Inr (k, map fst (filter (\<lambda>(n, a, b). canonical a \<noteq> canonical b) (zip store_names (zip old new))))),
                   st')))"

section \<open>Reading\<close>

definition watermark_of :: "projection_store \<Rightarrow> int" where
  "watermark_of st = max 0 (ps_cursor st - 1)"

definition known_projection :: "string \<Rightarrow> verr + unit" where
  "known_projection name = (if name \<in> set store_names then Inr () else Inl (ValueError ''unknown projection''))"

definition get_projection :: "(json option \<Rightarrow> string) \<Rightarrow> string \<Rightarrow> log_view \<Rightarrow> string \<Rightarrow> projection_store
    \<Rightarrow> (verr + dict \<times> int) \<times> projection_store" where
  "get_projection digest now lv name st =
     (case known_projection name of
        Inl e \<Rightarrow> (Inl e, st)
      | Inr u \<Rightarrow>
          (case catchup digest now lv st of
             (Inl e, st') \<Rightarrow> (Inl e, st')
           | (Inr k, st') \<Rightarrow> (rbind (read_disk (ps_docs st') name) (\<lambda>d. Inr (doc_of d, watermark_of st')), st')))"

definition get_watermark :: "string \<Rightarrow> projection_store \<Rightarrow> verr + int" where
  "get_watermark name st =
     rbind (known_projection name) (\<lambda>u. Inr
       (case Option.bind (proj_meta st name) (\<lambda>m. as_int (dget m ''watermark'')) of
          Some n \<Rightarrow> n | None \<Rightarrow> watermark_of st))"

datatype consistency = Fresh_Required | Allow_Stale | Watermark_At_Least

text \<open>One view of the log for each round before the deadline.\<close>

fun poll :: "(json option \<Rightarrow> string) \<Rightarrow> string \<Rightarrow> consistency \<Rightarrow> int \<Rightarrow> log_view list \<Rightarrow> projection_store
    \<Rightarrow> (verr + int) \<times> projection_store" where
  "poll digest now mode least [] st = (Inl (ValueError ''ProjectionConsistencyError''), st)"
| "poll digest now mode least (lv # lvs) st =
     (case catchup digest now lv st of
        (Inl e, st') \<Rightarrow> (Inl e, st')
      | (Inr k, st') \<Rightarrow>
          (if mode = Fresh_Required \<or> least \<le> watermark_of st' then (Inr (watermark_of st'), st')
           else poll digest now mode least lvs st'))"

definition read_consistent :: "(json option \<Rightarrow> string) \<Rightarrow> string \<Rightarrow> consistency \<Rightarrow> int option \<Rightarrow> log_view list
    \<Rightarrow> projection_store \<Rightarrow> (verr + int) \<times> projection_store" where
  "read_consistent digest now mode least lvs st =
     (if mode = Allow_Stale then (Inr (watermark_of st), st)
      else case (mode, least) of
             (Watermark_At_Least, None) \<Rightarrow> (Inl (ValueError ''min_watermark''), st)
           | (_, None) \<Rightarrow> poll digest now mode 0 lvs st
           | (_, Some n) \<Rightarrow> poll digest now mode n lvs st)"

definition findings_for_review_unit :: "projection_store \<Rightarrow> string \<Rightarrow> verr + dict list" where
  "findings_for_review_unit st unit =
     (if unit = [] then Inr []
      else rbind (read_disk (ps_docs st) ''finding_lifecycle'') (\<lambda>d.
             Inr (filter (keyed ''review_unit_id'' unit) (obj_items (dget (doc_of d) ''findings'')))))"

end
