(* ===== verification/Projection_Slices.thy ===== *)
theory Projection_Slices
  imports Projection_Store
begin

text \<open>
  The queries on the graphs of the projection store: the impact slice and the neighbourhood (breadth
  first, with a bound on the hops), the history and the versions of an entity, and the backfill of
  coupling edges into the concept graph, which keeps it acyclic.
\<close>

section \<open>Walking along edges\<close>

type_synonym arrows = "(string \<times> string) list"

definition targets :: "arrows \<Rightarrow> string \<Rightarrow> string list" where
  "targets es x = map snd (filter (\<lambda>(s, t). s = x) es)"

text \<open>The neighbours of a frontier that were not seen before, each once, in the order they are met.\<close>

definition unseen :: "string list \<Rightarrow> string list \<Rightarrow> string list" where
  "unseen seen xs = foldl (\<lambda>new x. if x \<in> set seen \<or> x \<in> set new then new else new @ [x]) [] xs"

fun hops :: "arrows \<Rightarrow> nat \<Rightarrow> string list \<Rightarrow> string list \<Rightarrow> string list" where
  "hops es 0 seen frontier = []"
| "hops es (Suc n) seen frontier =
     (let new = unseen seen (concat (map (targets es) frontier))
      in if new = [] then [] else new @ hops es n (seen @ new) new)"

definition string_ends :: "string \<Rightarrow> string \<Rightarrow> dict \<Rightarrow> (string \<times> string) option" where
  "string_ends k1 k2 e = (case (dget e k1, dget e k2) of (JStr s, JStr t) \<Rightarrow> Some (s, t) | _ \<Rightarrow> None)"

definition impact_arrows :: "bool \<Rightarrow> dict option \<Rightarrow> arrows" where
  "impact_arrows forward d =
     map (\<lambda>(s, t). if forward then (s, t) else (t, s))
       (List.map_filter (string_ends ''source'' ''target'') (obj_items (dget (doc_of d) ''edges'')))"

text \<open>With a log the store catches up first; without one it reads what is there.\<close>

definition get_impact_slice :: "(json option \<Rightarrow> string) \<Rightarrow> string \<Rightarrow> log_view option \<Rightarrow> string \<Rightarrow> string \<Rightarrow> int
    \<Rightarrow> projection_store \<Rightarrow> (verr + string list) \<times> projection_store" where
  "get_impact_slice digest now lv x direction depth st =
     (if direction \<notin> set [''forward'', ''backward''] then (Inl (ValueError ''direction''), st)
      else case (case lv of None \<Rightarrow> (Inr 0, st) | Some l \<Rightarrow> catchup digest now l st) of
             (Inl e, st') \<Rightarrow> (Inl e, st')
           | (Inr k, st') \<Rightarrow>
               (rbind (read_disk (ps_docs st') ''impact_graph'') (\<lambda>d.
                  Inr (hops (impact_arrows (direction = ''forward'') d) (nat depth) [x] [x])), st'))"

text \<open>The keys of the two graphs that have a neighbourhood.\<close>

definition neighborhood_schema :: "string \<Rightarrow> (string \<times> string \<times> string) option" where
  "neighborhood_schema name =
     map_of [(''concept_graph'', ''concept_id'', ''source_concept_id'', ''target_concept_id''),
             (''task_graph'', ''task_id'', ''source_task_id'', ''target_task_id'')] name"

definition live_edges :: "dict option \<Rightarrow> dict list" where
  "live_edges d = filter (\<lambda>e. dget e ''is_active'' \<noteq> JBool False) (obj_items (dget (doc_of d) ''edges''))"

definition neighbor_arrows :: "string \<Rightarrow> string \<Rightarrow> dict option \<Rightarrow> arrows" where
  "neighbor_arrows k1 k2 d = concat (map (\<lambda>(s, t). [(s, t), (t, s)]) (List.map_filter (ends_of k1 k2) (live_edges d)))"

definition neighborhood_of :: "string \<times> string \<times> string \<Rightarrow> dict option \<Rightarrow> string \<Rightarrow> int \<Rightarrow> dict list \<times> dict list" where
  "neighborhood_of schema d center n =
     (let (k, k1, k2) = schema;
          visited = center # hops (neighbor_arrows k1 k2 d) (nat n) [center] [center];
          inside = (\<lambda>v. v \<in> JStr ` set visited)
      in (filter (\<lambda>x. inside (dget x k)) (obj_items (dget (doc_of d) ''nodes'')),
          filter (\<lambda>e. inside (dget e k1) \<and> inside (dget e k2)) (live_edges d)))"

definition get_neighborhood :: "(json option \<Rightarrow> string) \<Rightarrow> string \<Rightarrow> log_view \<Rightarrow> string \<Rightarrow> string \<Rightarrow> int \<Rightarrow> projection_store
    \<Rightarrow> (verr + dict list \<times> dict list) \<times> projection_store" where
  "get_neighborhood digest now lv name center n st =
     (case neighborhood_schema name of
        None \<Rightarrow> (Inl (ValueError ''graph projections''), st)
      | Some schema \<Rightarrow>
          (case catchup digest now lv st of
             (Inl e, st') \<Rightarrow> (Inl e, st')
           | (Inr k, st') \<Rightarrow>
               (rbind (read_disk (ps_docs st') name) (\<lambda>d. Inr (neighborhood_of schema d center n)), st')))"

section \<open>Histories\<close>

definition entity_history_summary :: "event_record \<Rightarrow> string" where
  "entity_history_summary r =
     (case List.map_filter (\<lambda>k. map_option (Pair k) (nonempty (dget (payload r) k)))
             [''obligation_id'', ''concept_id'', ''task_id'', ''finding_id'', ''capability_id'', ''plan_id''] of
        (k, v) # _ \<Rightarrow> event_type r @ '' ('' @ k @ ''='' @ v @ '')''
      | [] \<Rightarrow> event_type r)"

definition get_entity_history :: "index_api \<Rightarrow> string \<Rightarrow> string \<Rightarrow> (string \<times> string \<times> string \<times> string) list" where
  "get_entity_history api t i =
     map (\<lambda>r. (event_id r, event_type r, timestamp r, entity_history_summary r))
       (sort_key sequence_number (get_events_by_entity api t i))"

text \<open>The versions of an entity from its newest event; \<open>None\<close> is a chain that never ends.\<close>

definition get_entity_versions :: "index_api \<Rightarrow> (string \<Rightarrow> event_record option) \<Rightarrow> string \<Rightarrow> string
    \<Rightarrow> event_record list option" where
  "get_entity_versions api cold t i =
     (let recs = sort_key sequence_number (get_events_by_entity api t i)
      in if recs = [] then Some [] else get_supersede_chain api cold (event_id (last recs)))"

definition get_concept_evolution :: "projection_store \<Rightarrow> string \<Rightarrow> verr + string list \<times> dict option" where
  "get_concept_evolution st cid =
     rbind (read_disk (ps_docs st) ''concept_graph'') (\<lambda>d.
       Inr (case dget (obj_of (dget (doc_of d) ''supersede_index'')) cid of JArr xs \<Rightarrow> map py_str xs | _ \<Rightarrow> [],
            find (keyed ''concept_id'' cid) (obj_items (dget (doc_of d) ''nodes''))))"

section \<open>Backfilling coupling edges\<close>

text \<open>
  The search that guards against cycles: a stack, the last node first; \<open>seen\<close> grows with every node
  that is pushed, so the search ends.
\<close>

function reaches_from :: "arrows \<Rightarrow> string \<Rightarrow> string list \<Rightarrow> string list \<Rightarrow> bool" where
  "reaches_from es dst [] seen = False"
| "reaches_from es dst (x # stack) seen =
     (if dst \<in> set (targets es x) then True
      else let new = unseen seen (targets es x) in reaches_from es dst (rev new @ stack) (seen @ new))"
  by pat_completeness auto

lemma set_unseen: "set (unseen seen xs) = set xs - set seen"
proof -
  have "set (foldl (\<lambda>new x. if x \<in> set seen \<or> x \<in> set new then new else new @ [x]) acc xs) = set acc \<union> (set xs - set seen)"
    for acc by (induction xs arbitrary: acc) auto
  then show ?thesis by (simp add: unseen_def)
qed

lemma distinct_unseen: "distinct (unseen seen xs)"
proof -
  have "distinct acc \<Longrightarrow> distinct (foldl (\<lambda>new x. if x \<in> set seen \<or> x \<in> set new then new else new @ [x]) acc xs)"
    for acc by (induction xs arbitrary: acc) auto
  then show ?thesis by (simp add: unseen_def)
qed

lemma set_targets: "set (targets es x) = {t. (x, t) \<in> set es}"
  by (force simp: targets_def)

termination reaches_from
proof (relation "(\<lambda>(es, dst, stack, seen). card (set (map snd es) - set seen)) <*mlex*> measure (\<lambda>(es, dst, stack, seen). length stack)")
  show "wf ((\<lambda>(es, dst, stack, seen). card (set (map snd es) - set seen)) <*mlex*> measure (\<lambda>(es :: arrows, dst :: string, stack :: string list, seen :: string list). length stack))"
    by (rule wf_mlex) simp
next
  fix es dst x stack seen new
  assume new: "new = unseen seen (targets es x)" and "dst \<notin> set (targets es x)"
  let ?m = "\<lambda>seen. card (set (map snd es) - set seen)"
  show "((es, dst, rev new @ stack, seen @ new), es, dst, x # stack, seen)
      \<in> (\<lambda>(es, dst, stack, seen). card (set (map snd es) - set seen)) <*mlex*> measure (\<lambda>(es, dst, stack, seen). length stack)"
  proof (cases "new = []")
    case True
    then show ?thesis by (intro mlex_leq) simp_all
  next
    case False
    have "set new \<subseteq> set (map snd es) - set seen" unfolding new set_unseen set_targets by force
    with False have "set (map snd es) - set (seen @ new) \<subset> set (map snd es) - set seen"
      by (cases new) auto
    then have "?m (seen @ new) < ?m seen" by (intro psubset_card_mono) simp_all
    then show ?thesis by (intro mlex_less) simp
  qed
qed

definition reaches :: "arrows \<Rightarrow> string \<Rightarrow> string \<Rightarrow> bool" where
  "reaches es src dst = reaches_from es dst [src] [src]"

text \<open>
  An association is oriented by the order of its ends.  \<open>order\<close> is the order key, here a number; an
  association that is linked already, in either direction, or would close a cycle is skipped.
\<close>

definition oriented :: "(string \<Rightarrow> int) \<Rightarrow> string \<Rightarrow> string \<Rightarrow> string \<times> string" where
  "oriented order a b = (if order a < order b \<or> (order a = order b \<and> a \<le> b) then (a, b) else (b, a))"

definition backfill_one :: "string set \<Rightarrow> (string \<Rightarrow> int) \<Rightarrow> arrows \<times> (string \<times> string \<times> 'w) list
    \<Rightarrow> string \<times> string \<times> 'w \<Rightarrow> arrows \<times> (string \<times> string \<times> 'w) list" where
  "backfill_one nodes order s assoc =
     (let (es, added) = s; (a, b, w) = assoc; (u, v) = oriented order a b
      in if a \<notin> nodes \<or> b \<notin> nodes \<or> a = b \<or> (a, b) \<in> set es \<or> (b, a) \<in> set es \<or> reaches es v u then s
         else (es @ [(u, v)], added @ [(u, v, w)]))"

definition backfill_coupling_edges_into_dag :: "string set \<Rightarrow> arrows \<Rightarrow> (string \<times> string \<times> 'w) list
    \<Rightarrow> (string \<Rightarrow> int) \<Rightarrow> (string \<times> string \<times> 'w) list" where
  "backfill_coupling_edges_into_dag nodes active assocs order =
     snd (foldl (backfill_one nodes order)
            (filter (\<lambda>(s, t). s \<in> nodes \<and> t \<in> nodes \<and> s \<noteq> t) active, []) assocs)"

end
