(* ===== verification/Projection_Replay.thy ===== *)
theory Projection_Replay
  imports Projection_Slices
begin

text \<open>
  What catching up amounts to: however it is cut into pieces, the documents are those of one replay of
  the whole log.  A replay depends on the log it sees (envelopes are looked up, sessions and locks are
  folded from all their events); the locale \<open>log_source\<close> states what the views of a growing log have in
  common, and every index that fulfils the lookup contract provides it.
\<close>

section \<open>Documents of a batch\<close>

lemma map_of_flush:
  "distinct (map fst b) \<Longrightarrow> map_of (flush b docs) n = (case map_of b n of Some d \<Rightarrow> Some (Some (JObj d)) | None \<Rightarrow> map_of docs n)"
proof (induction b arbitrary: docs)
  case (Cons x b)
  obtain k d where x: "x = (k, d)" by (cases x)
  have "map_of b k = None" using Cons.prems x by (simp add: map_of_eq_None_iff)
  with Cons x show ?case
    by (simp add: flush_def map_of_update_cases split: option.splits)
qed (simp add: flush_def)

lemma read_flush: "distinct (map fst b) \<Longrightarrow> read_disk (flush b docs) n = read_batch docs b n"
  by (simp add: read_batch_def read_disk_def map_of_flush split: option.splits)

lemma apply_route_distinct:
  "apply_route lv docs r b rt = Inr c \<Longrightarrow> distinct (map fst b) \<Longrightarrow> distinct (map fst c)"
  by (auto simp: apply_route_def py_simps distinct_update split: if_splits option.splits)

lemma apply_event_distinct:
  "apply_all lv docs b r = Inr c \<Longrightarrow> distinct (map fst b) \<Longrightarrow> distinct (map fst c)"
  unfolding apply_all_def by (rule rfold_invariant) (auto intro: apply_route_distinct)

lemma apply_events_distinct:
  "rfold (apply_all lv docs) b rs = Inr c \<Longrightarrow> distinct (map fst b) \<Longrightarrow> distinct (map fst c)"
  by (rule rfold_invariant) (auto intro: apply_event_distinct)

section \<open>Routes that read documents and routes that read the log\<close>

definition node_names :: "string list" where
  "node_names = [''session_graph'', ''lock_graph'', ''escalation_graph'']"

definition plain_names :: "string list" where
  "plain_names = filter (\<lambda>n. n \<notin> set node_names) store_names"

definition plain_routes :: "route list" where
  "plain_routes = take 20 routes"

lemma routes_split: "routes = plain_routes @ map node_route node_names"
  by (simp add: plain_routes_def routes_def node_names_def numeral_eq_Suc)

lemma plain_route_names: "rt \<in> set plain_routes \<Longrightarrow> rt_name rt \<in> set plain_names"
proof -
  have "list_all (\<lambda>n. n \<in> set plain_names) (map rt_name plain_routes)"
    by (simp add: plain_routes_def routes_def own_def plain_names_def store_names_def node_names_def numeral_eq_Suc)
  then show "rt \<in> set plain_routes \<Longrightarrow> rt_name rt \<in> set plain_names" by (simp add: list_all_iff)
qed

lemma plain_not_node: "n \<in> set plain_names \<Longrightarrow> n \<notin> set node_names"
  by (simp add: plain_names_def)

text \<open>Two views look up the same envelope for an accepted commit.\<close>

definition same_lookup :: "log_view \<Rightarrow> log_view \<Rightarrow> event_record \<Rightarrow> bool" where
  "same_lookup lv lv' r \<longleftrightarrow> (event_type r = ''CommitAccepted'' \<longrightarrow>
     (\<forall>i. dget (payload r) ''envelope_event_id'' = JStr i \<longrightarrow> lv_event lv i = lv_event lv' i))"

lemma ownership_lookup:
  "same_lookup lv lv' r \<Longrightarrow> reduce_ownership (lv_event lv) cur r = reduce_ownership (lv_event lv') cur r"
  by (cases "dget (payload r) ''envelope_event_id''")
     (auto simp: reduce_ownership_def release_committed_locks_def same_lookup_def Let_def)

definition blind :: "route \<Rightarrow> bool" where
  "blind rt \<longleftrightarrow> (\<forall>lv lv' rd rd' r. same_lookup lv lv' r \<longrightarrow> (\<forall>n \<in> set plain_names. rd n = rd' n) \<longrightarrow>
     rt_reduce rt lv rd r = rt_reduce rt lv' rd' r)"

lemma blind_own:
  assumes "name \<in> set plain_names" and "\<And>lv lv' cur r. same_lookup lv lv' r \<Longrightarrow> red lv cur r = red lv' cur r"
  shows "blind (own name takes red)"
proof -
  have "rbind (rd name) (\<lambda>cur. red lv cur r) = rbind (rd' name) (\<lambda>cur. red lv' cur r)"
    if "same_lookup lv lv' r" "\<forall>n \<in> set plain_names. rd n = rd' n" for lv lv' rd rd' r
    using that assms by (cases "rd' name") auto
  then show ?thesis by (auto simp: blind_def own_def)
qed

lemma plain_routes_blind: "rt \<in> set plain_routes \<Longrightarrow> blind rt"
proof -
  have names: "''obligation_lifecycle_state'' \<in> set plain_names" "''commit_history'' \<in> set plain_names"
    "''concept_graph'' \<in> set plain_names" "''debt_registry'' \<in> set plain_names" "''capability_status'' \<in> set plain_names"
    "''task_graph'' \<in> set plain_names" "''at_reference_graph'' \<in> set plain_names" "''ownership'' \<in> set plain_names"
    "''gate_check_firing'' \<in> set plain_names" "''information_need_graph'' \<in> set plain_names"
    "''interview_progress'' \<in> set plain_names" "''interview_brief_index'' \<in> set plain_names"
    "''finding_lifecycle'' \<in> set plain_names" "''review_plan'' \<in> set plain_names" "''consumer_relation'' \<in> set plain_names"
    "''engineering_consensus_index'' \<in> set plain_names" "''detection_rule_lifecycle'' \<in> set plain_names"
    "''escalation_lifecycle'' \<in> set plain_names" "''decision'' \<in> set plain_names"
    by (simp_all add: plain_names_def store_names_def node_names_def)
  have two: "blind \<lparr>rt_name = nm, rt_takes = tk, rt_reduce = (\<lambda>lv rd r. rbind (rd x) (\<lambda>a. rbind (rd y) (\<lambda>b. f r a b)))\<rparr>"
    if "x \<in> set plain_names" "y \<in> set plain_names" for nm tk x y f
    using that by (simp add: blind_def)
  have "list_all blind plain_routes"
    by (simp add: plain_routes_def routes_def numeral_eq_Suc names blind_own two ownership_lookup)
  then show "rt \<in> set plain_routes \<Longrightarrow> blind rt" by (simp add: list_all_iff)
qed

section \<open>The same events on like documents\<close>

definition alike :: "docs \<Rightarrow> batch_docs \<Rightarrow> docs \<Rightarrow> batch_docs \<Rightarrow> bool" where
  "alike d b d' b' \<longleftrightarrow> (\<forall>n \<in> set plain_names. read_batch d b n = read_batch d' b' n)"

lemma read_batch_update:
  "read_batch d (AList.update k x b) n = (if n = k then Inr (Some x) else read_batch d b n)"
  by (simp add: read_batch_def map_of_update_cases)

lemma plain_step:
  assumes "rt \<in> set plain_routes" and "alike d b d' b'" and "same_lookup lv lv' r" and "apply_route lv d r b rt = Inr c"
  shows "\<exists>c'. apply_route lv' d' r b' rt = Inr c' \<and> alike d c d' c'
    \<and> (\<forall>n \<in> set node_names. map_of c n = map_of b n \<and> map_of c' n = map_of b' n)"
proof -
  have red: "rt_reduce rt lv (read_batch d b) r = rt_reduce rt lv' (read_batch d' b') r"
    using plain_routes_blind [OF assms(1)] assms(2,3) by (simp add: blind_def alike_def)
  have name: "rt_name rt \<notin> set node_names" using plain_route_names [OF assms(1)] by (rule plain_not_node)
  show ?thesis
  proof (cases "rt_takes rt r")
    case False
    with assms(2,4) show ?thesis by (simp add: apply_route_def)
  next
    case True
    with assms(4) obtain out where out: "rt_reduce rt lv (read_batch d b) r = Inr out"
      and c: "c = (case out of None \<Rightarrow> b | Some x \<Rightarrow> AList.update (rt_name rt) x b)"
      by (auto simp: apply_route_def py_simps)
    let ?c = "case out of None \<Rightarrow> b' | Some x \<Rightarrow> AList.update (rt_name rt) x b'"
    have "apply_route lv' d' r b' rt = Inr ?c"
      using True out unfolding red by (simp add: apply_route_def)
    moreover have "alike d c d' ?c \<and> (\<forall>n \<in> set node_names. map_of c n = map_of b n \<and> map_of ?c n = map_of b' n)"
      using assms(2) name c by (auto simp: alike_def read_batch_update map_of_update_cases split: option.splits)
    ultimately show ?thesis by blast
  qed
qed

lemma plain_steps:
  assumes "set rts \<subseteq> set plain_routes" and "alike d b d' b'" and "same_lookup lv lv' r"
    and "rfold (apply_route lv d r) b rts = Inr c"
  shows "\<exists>c'. rfold (apply_route lv' d' r) b' rts = Inr c' \<and> alike d c d' c'
    \<and> (\<forall>n \<in> set node_names. map_of c n = map_of b n \<and> map_of c' n = map_of b' n)"
  using assms(1,2,4)
proof (induction rts arbitrary: b b')
  case (Cons rt rts)
  from Cons.prems(3) obtain m where m: "apply_route lv d r b rt = Inr m" "rfold (apply_route lv d r) m rts = Inr c"
    by (auto simp: py_simps)
  have rt: "rt \<in> set plain_routes" "set rts \<subseteq> set plain_routes" using Cons.prems(1) by auto
  from plain_step [OF rt(1) Cons.prems(2) assms(3) m(1)] obtain m' where
    m': "apply_route lv' d' r b' rt = Inr m'" "alike d m d' m'"
      "\<forall>n \<in> set node_names. map_of m n = map_of b n \<and> map_of m' n = map_of b' n" by blast
  from Cons.IH [OF rt(2) m'(2) m(2)] m' show ?case by auto
qed auto

text \<open>The graphs that a view folds from its own events.\<close>

definition node_graphs :: "log_view \<Rightarrow> verr + (string \<times> dict) list" where
  "node_graphs lv = reduce_node_events (map node_event_to_flat
     (sort_key sequence_number (concat (map (lv_type lv) node_graph_events))))"

definition is_node_event :: "event_record \<Rightarrow> bool" where
  "is_node_event r \<longleftrightarrow> of_types node_graph_events r"

lemma node_route_eq:
  "apply_route lv d r b (node_route n) =
     (if is_node_event r then rbind (node_graphs lv) (\<lambda>gs. Inr (case map_of gs n of None \<Rightarrow> b | Some x \<Rightarrow> AList.update n x b))
      else Inr b)"
  by (cases "node_graphs lv")
     (auto simp: apply_route_def node_route_def is_node_event_def reduce_node_graph_def node_graphs_def split: option.split)

lemma node_graphs_names: "node_graphs lv = Inr gs \<Longrightarrow> map fst gs = node_names"
  by (auto simp: node_graphs_def reduce_node_events_def py_simps node_names_def)

lemma node_steps_ok:
  assumes "node_graphs lv = Inr gs"
  shows "\<exists>c. rfold (apply_route lv d r) b (map node_route ns) = Inr c
    \<and> (\<forall>n. map_of c n = (if is_node_event r \<and> n \<in> set ns \<and> map_of gs n \<noteq> None then map_of gs n else map_of b n))"
proof (induction ns arbitrary: b)
  case (Cons m ns)
  let ?b = "if is_node_event r then (case map_of gs m of None \<Rightarrow> b | Some x \<Rightarrow> AList.update m x b) else b"
  obtain b1 where b1: "apply_route lv d r b (node_route m) = Inr b1"
    "\<forall>n. map_of b1 n = (if is_node_event r \<and> n = m \<and> map_of gs n \<noteq> None then map_of gs n else map_of b n)"
    by (rule that [of ?b]) (auto simp: node_route_eq assms map_of_update_cases split: option.split)
  from Cons.IH [of b1] obtain c where c: "rfold (apply_route lv d r) b1 (map node_route ns) = Inr c"
    "\<And>n. map_of c n = (if is_node_event r \<and> n \<in> set ns \<and> map_of gs n \<noteq> None then map_of gs n else map_of b1 n)" by blast
  show ?case
  proof (intro exI conjI allI)
    show "rfold (apply_route lv d r) b (map node_route (m # ns)) = Inr c" using b1(1) c(1) by simp
    show "map_of c n = (if is_node_event r \<and> n \<in> set (m # ns) \<and> map_of gs n \<noteq> None then map_of gs n else map_of b n)" for n
      using b1(2) [rule_format, of n] c(2) [of n] by (cases "map_of gs n"; cases "n = m"; cases "n \<in> set ns") simp_all
  qed
qed simp

lemma node_steps_other:
  assumes "\<not> is_node_event r"
  shows "rfold (apply_route lv d r) b (map node_route ns) = Inr b"
  by (induction ns) (simp_all add: node_route_eq assms)

lemma node_steps_needs:
  "is_node_event r \<Longrightarrow> rfold (apply_route lv d r) b (map node_route node_names) = Inr c \<Longrightarrow> is_ok (node_graphs lv)"
  by (cases "node_graphs lv") (simp_all add: node_names_def node_route_eq)

lemma map_of_node_names: "node_graphs lv = Inr gs \<Longrightarrow> n \<in> set node_names \<longleftrightarrow> map_of gs n \<noteq> None"
  using node_graphs_names [of lv gs] by (auto simp: map_of_eq_None_iff simp flip: set_map)

text \<open>What one view writes for a list of events, seen from the documents of another.\<close>

lemma event_alike:
  assumes "alike d b d' b'" and "same_lookup lv lv' r" and "apply_all lv d b r = Inr c"
    and "is_node_event r \<Longrightarrow> is_ok (node_graphs lv')"
  shows "\<exists>c'. apply_all lv' d' b' r = Inr c' \<and> alike d c d' c'
    \<and> (\<forall>n \<in> set node_names. map_of c' n = (if is_node_event r then map_of (projr (node_graphs lv')) n else map_of b' n))
    \<and> (is_node_event r \<longrightarrow> is_ok (node_graphs lv))
    \<and> (\<forall>n \<in> set node_names. map_of c n = (if is_node_event r then map_of (projr (node_graphs lv)) n else map_of b n))"
proof -
  let ?nodes = "map node_route node_names"
  from assms(3) obtain m where m: "rfold (apply_route lv d r) b plain_routes = Inr m"
    "rfold (apply_route lv d r) m ?nodes = Inr c"
    by (auto simp: apply_all_def routes_split rfold_append py_simps)
  from plain_steps [OF subset_refl assms(1,2) m(1)] obtain m' where
    m': "rfold (apply_route lv' d' r) b' plain_routes = Inr m'" "alike d m d' m'"
      "\<forall>n \<in> set node_names. map_of m n = map_of b n \<and> map_of m' n = map_of b' n" by blast
  have split: "apply_all lv' d' b' r = rfold (apply_route lv' d' r) m' ?nodes"
    by (simp add: apply_all_def routes_split rfold_append m'(1))
  show ?thesis
  proof (cases "is_node_event r")
    case False
    with m(2) have "m = c" by (simp add: node_steps_other)
    with False m' show ?thesis by (auto simp: split node_steps_other)
  next
    case True
    then obtain gs gs' where gs: "node_graphs lv = Inr gs" "node_graphs lv' = Inr gs'"
      using node_steps_needs [OF True m(2)] assms(4) by (auto simp: is_ok_def split: sum.splits)
    from node_steps_ok [OF gs(1), where d = d and r = r and b = m and ns = node_names] m(2) True obtain
      c1: "\<forall>n. map_of c n = (if n \<in> set node_names \<and> map_of gs n \<noteq> None then map_of gs n else map_of m n)" by auto
    from node_steps_ok [OF gs(2), where d = d' and r = r and b = m' and ns = node_names] True obtain c' where
      c2: "rfold (apply_route lv' d' r) m' ?nodes = Inr c'"
        "\<forall>n. map_of c' n = (if n \<in> set node_names \<and> map_of gs' n \<noteq> None then map_of gs' n else map_of m' n)" by auto
    have "alike d c d' c'"
      using m'(2) c1 c2(2) plain_not_node by (auto simp: alike_def read_batch_def)
    with c1 c2 gs True show ?thesis
      using map_of_node_names [OF gs(1)] map_of_node_names [OF gs(2)] by (auto simp: split)
  qed
qed

lemma events_alike:
  assumes "alike d b d' b'" and "\<forall>r \<in> set rs. same_lookup lv lv' r" and "rfold (apply_all lv d) b rs = Inr c"
    and "\<exists>r \<in> set rs. is_node_event r \<Longrightarrow> is_ok (node_graphs lv')"
  shows "\<exists>c'. rfold (apply_all lv' d') b' rs = Inr c' \<and> alike d c d' c'
    \<and> (\<forall>n \<in> set node_names. map_of c' n = (if \<exists>r \<in> set rs. is_node_event r then map_of (projr (node_graphs lv')) n else map_of b' n))
    \<and> ((\<exists>r \<in> set rs. is_node_event r) \<longrightarrow> is_ok (node_graphs lv))
    \<and> (\<forall>n \<in> set node_names. map_of c n = (if \<exists>r \<in> set rs. is_node_event r then map_of (projr (node_graphs lv)) n else map_of b n))"
  using assms
proof (induction rs arbitrary: b b')
  case (Cons r rs)
  from Cons.prems(3) obtain m where m: "apply_all lv d b r = Inr m" "rfold (apply_all lv d) m rs = Inr c"
    by (auto simp: py_simps)
  have "same_lookup lv lv' r" "is_node_event r \<Longrightarrow> is_ok (node_graphs lv')" using Cons.prems(2,4) by auto
  from event_alike [OF Cons.prems(1) this(1) m(1) this(2)] obtain m' where
    m': "apply_all lv' d' b' r = Inr m'" "alike d m d' m'"
      "\<forall>n \<in> set node_names. map_of m' n = (if is_node_event r then map_of (projr (node_graphs lv')) n else map_of b' n)"
      "is_node_event r \<longrightarrow> is_ok (node_graphs lv)"
      "\<forall>n \<in> set node_names. map_of m n = (if is_node_event r then map_of (projr (node_graphs lv)) n else map_of b n)" by blast
  have "\<forall>r \<in> set rs. same_lookup lv lv' r" "\<exists>r \<in> set rs. is_node_event r \<Longrightarrow> is_ok (node_graphs lv')"
    using Cons.prems(2,4) by auto
  from Cons.IH [OF m'(2) this(1) m(2) this(2)] m' show ?case by auto
qed auto

lemma replay_needs_graphs:
  assumes "rfold (apply_all lv d) b rs = Inr c" and "\<exists>r \<in> set rs. is_node_event r"
  shows "is_ok (node_graphs lv)"
proof -
  obtain r xs ys where r: "rs = xs @ r # ys" "is_node_event r" using assms(2) by (meson split_list)
  with assms(1) obtain u w where "apply_all lv d u r = Inr w" by (auto simp: rfold_append py_simps)
  with r(2) show ?thesis by (auto simp: apply_all_def routes_split rfold_append py_simps intro: node_steps_needs)
qed

section \<open>Views of a growing log\<close>

definition next_of :: "event_record list \<Rightarrow> int" where
  "next_of recs = (if recs = [] then 0 else sequence_number (last recs) + 1)"

definition in_order :: "event_record list \<Rightarrow> bool" where
  "in_order recs \<longleftrightarrow> sorted_wrt (\<lambda>a b. sequence_number a < sequence_number b) recs
     \<and> (\<forall>r \<in> set recs. 0 \<le> sequence_number r) \<and> distinct (map event_id recs)"

text \<open>The envelope of an accepted commit is in the log before its acceptance.\<close>

fun envelopes_precede :: "string set \<Rightarrow> event_record list \<Rightarrow> bool" where
  "envelopes_precede ids [] = True"
| "envelopes_precede ids (r # rs) \<longleftrightarrow>
     (event_type r = ''CommitAccepted'' \<longrightarrow> dget (payload r) ''envelope_event_id'' \<in> JStr ` ids)
     \<and> envelopes_precede (insert (event_id r) ids) rs"

lemma envelopes_precede_append:
  "envelopes_precede ids (xs @ ys) \<longleftrightarrow> envelopes_precede ids xs \<and> envelopes_precede (ids \<union> event_id ` set xs) ys"
proof (induction xs arbitrary: ids)
  case (Cons x xs)
  have "insert (event_id x) ids \<union> event_id ` set xs = ids \<union> event_id ` set (x # xs)" by auto
  with Cons show ?case by (simp del: Un_insert_left Un_insert_right)
qed simp

lemma envelopes_precede_known:
  "envelopes_precede ids rs \<Longrightarrow> r \<in> set rs \<Longrightarrow> event_type r = ''CommitAccepted''
    \<Longrightarrow> dget (payload r) ''envelope_event_id'' \<in> JStr ` (ids \<union> event_id ` set rs)"
  by (induction ids rs rule: envelopes_precede.induct) auto

lemma in_order_append: "in_order (xs @ ys) \<Longrightarrow> in_order xs"
  by (simp add: in_order_def sorted_wrt_append)

lemma in_order_next:
  assumes "in_order (xs @ ys)"
  shows "r \<in> set xs \<Longrightarrow> sequence_number r < next_of xs" "r \<in> set ys \<Longrightarrow> next_of xs \<le> sequence_number r"
proof -
  have "sequence_number r \<le> sequence_number (last xs)" if r: "r \<in> set xs"
    using r assms by (cases xs rule: rev_cases) (auto simp: in_order_def sorted_wrt_append less_imp_le)
  then show "sequence_number r < next_of xs" if "r \<in> set xs" using that by (auto simp: next_of_def)
  show "next_of xs \<le> sequence_number r" if "r \<in> set ys"
    using that assms by (cases xs rule: rev_cases) (auto simp: next_of_def in_order_def sorted_wrt_append zless_imp_add1_zle)
qed

lemma sort_in_order: "in_order rs \<Longrightarrow> sort_key sequence_number rs = rs"
proof -
  assume "in_order rs"
  then have "sorted (map sequence_number rs)"
    by (simp add: in_order_def sorted_wrt_map) (rule sorted_wrt_mono_rel [where P = "\<lambda>a b. sequence_number a < sequence_number b"], auto)
  then show ?thesis by (simp add: sorted_sort_id sort_key_id_if_sorted)
qed

text \<open>The documents of a store are those that one replay of the log writes.\<close>

definition mirrors :: "log_view \<Rightarrow> event_record list \<Rightarrow> projection_store \<Rightarrow> bool" where
  "mirrors lv recs st \<longleftrightarrow> (\<exists>b. rfold (apply_all lv []) [] recs = Inr b \<and> ps_cursor st = next_of recs
     \<and> (\<forall>n \<in> set store_names. map_of (ps_docs st) n = map_option (\<lambda>d. Some (JObj d)) (map_of b n)))"

definition same_docs :: "projection_store \<Rightarrow> projection_store \<Rightarrow> bool" where
  "same_docs st st' \<longleftrightarrow> ps_cursor st = ps_cursor st'
     \<and> (\<forall>n \<in> set store_names. map_of (ps_docs st) n = map_of (ps_docs st') n)"

lemma mirrors_same: "mirrors lv recs st \<Longrightarrow> mirrors lv recs st' \<Longrightarrow> same_docs st st'"
  by (auto simp: mirrors_def same_docs_def)

lemma persist_meta_keeps [simp]:
  "ps_docs (persist_meta digest now w n st) = ps_docs st" "ps_cursor (persist_meta digest now w n st) = ps_cursor st"
  by (simp_all add: persist_meta_def Let_def split: option.split)

lemma persist_all_meta_keeps [simp]:
  "ps_docs (persist_all_meta digest now w ns st) = ps_docs st" "ps_cursor (persist_all_meta digest now w ns st) = ps_cursor st"
proof -
  have "ps_docs (fold (persist_meta digest now w) ns st) = ps_docs st
      \<and> ps_cursor (fold (persist_meta digest now w) ns st) = ps_cursor st"
    by (induction ns arbitrary: st) simp_all
  then show "ps_docs (persist_all_meta digest now w ns st) = ps_docs st"
    "ps_cursor (persist_all_meta digest now w ns st) = ps_cursor st"
    by (simp_all add: persist_all_meta_def)
qed

lemma catchup_result:
  assumes "catchup digest now lv st = (Inr n, st')" and "events_from lv (ps_cursor st) = rs"
  shows "n = length rs" "rs = [] \<Longrightarrow> st' = st"
    "rs \<noteq> [] \<Longrightarrow> \<exists>b. rfold (apply_all lv (ps_docs st)) [] rs = Inr b \<and> ps_cursor st' = next_of rs
       \<and> (\<forall>n. map_of (ps_docs st') n = (case map_of b n of Some d \<Rightarrow> Some (Some (JObj d)) | None \<Rightarrow> map_of (ps_docs st) n))"
proof -
  note eq = assms(1) [unfolded catchup_def, unfolded assms(2)]
  show "n = length rs" using eq by (auto simp: Let_def split: if_splits sum.splits)
  show "rs = [] \<Longrightarrow> st' = st" using eq by simp
  assume "rs \<noteq> []"
  with eq obtain b where b: "rfold (apply_all lv (ps_docs st)) [] rs = Inr b"
    and st': "st' = persist_all_meta digest now (sequence_number (last rs) + 1 - 1) (map fst b)
      (st\<lparr>ps_docs := flush b (ps_docs st), ps_cursor := sequence_number (last rs) + 1\<rparr>)"
    by (auto simp: Let_def split: sum.splits)
  have "distinct (map fst b)" by (rule apply_events_distinct [OF b]) simp
  with b st' \<open>rs \<noteq> []\<close> show "\<exists>b. rfold (apply_all lv (ps_docs st)) [] rs = Inr b \<and> ps_cursor st' = next_of rs
       \<and> (\<forall>n. map_of (ps_docs st') n = (case map_of b n of Some d \<Rightarrow> Some (Some (JObj d)) | None \<Rightarrow> map_of (ps_docs st) n))"
    by (intro exI [of _ b]) (simp add: map_of_flush next_of_def)
qed

lemma map_of_unlinks: "map_of (fold drop_doc ns docs) n = (if n \<in> set ns then None else map_of docs n)"
  by (induction ns arbitrary: docs) (auto simp: drop_doc_def map_of_delete)

locale log_source =
  fixes view :: "event_record list \<Rightarrow> log_view"
    and ok :: "event_record list \<Rightarrow> bool"
  assumes order_law: "ok recs \<Longrightarrow> in_order recs"
    and prefix_law: "ok (recs @ later) \<Longrightarrow> ok recs"
    and range_law: "ok recs \<Longrightarrow> lv_range (view recs) a b = filter (\<lambda>r. a \<le> sequence_number r \<and> sequence_number r \<le> b) recs"
    and type_law: "ok recs \<Longrightarrow> lv_type (view recs) t = filter (\<lambda>r. event_type r = t) recs"
    and next_law: "ok recs \<Longrightarrow> lv_next (view recs) = next_of recs"
    and event_law: "ok (recs @ later) \<Longrightarrow> r \<in> set recs
      \<Longrightarrow> lv_event (view (recs @ later)) (event_id r) = lv_event (view recs) (event_id r)"
begin

lemma events_after:
  assumes "ok (recs @ later)"
  shows "events_from (view (recs @ later)) (next_of recs) = later"
proof -
  note o = order_law [OF assms]
  have "\<not> (next_of recs \<le> sequence_number r \<and> sequence_number r \<le> next_of (recs @ later) - 1)" if "r \<in> set recs" for r
    using in_order_next(1) [OF o that] by simp
  moreover have "next_of recs \<le> sequence_number r \<and> sequence_number r \<le> next_of (recs @ later) - 1" if "r \<in> set later" for r
    using in_order_next(2) [OF o that] in_order_next(1) [of "recs @ later" "[]" r] o that by simp
  ultimately have "filter (\<lambda>r. next_of recs \<le> sequence_number r \<and> sequence_number r \<le> next_of (recs @ later) - 1) (recs @ later) = later"
    by (simp add: filter_empty_conv filter_id_conv)
  moreover have "in_order later" using o by (simp add: in_order_def sorted_wrt_append)
  ultimately show ?thesis by (simp add: events_from_def range_law [OF assms] next_law [OF assms] sort_in_order)
qed

lemma same_lookup_prefix:
  assumes "ok (recs @ later)" and "envelopes_precede {} recs" and "r \<in> set recs"
  shows "same_lookup (view recs) (view (recs @ later)) r"
  unfolding same_lookup_def
proof (intro impI allI)
  fix i assume "event_type r = ''CommitAccepted''" and i: "dget (payload r) ''envelope_event_id'' = JStr i"
  with envelopes_precede_known [OF assms(2,3)] obtain q where "q \<in> set recs" "event_id q = i" by auto
  with event_law [OF assms(1)] show "lv_event (view recs) i = lv_event (view (recs @ later)) i" by auto
qed

lemma node_graphs_same:
  assumes "ok (recs @ later)" and "\<not> (\<exists>r \<in> set later. is_node_event r)"
  shows "node_graphs (view (recs @ later)) = node_graphs (view recs)"
proof -
  have "\<forall>t \<in> set node_graph_events. filter (\<lambda>r. event_type r = t) later = []"
    using assms(2) by (auto simp: filter_empty_conv is_node_event_def of_types_def)
  then have "map (lv_type (view (recs @ later))) node_graph_events = map (lv_type (view recs)) node_graph_events"
    using type_law [OF assms(1)] type_law [OF prefix_law [OF assms(1)]] by simp
  then show ?thesis unfolding node_graphs_def by (simp only:)
qed

text \<open>A catch-up extends a mirror of a part of the log to a mirror of the whole.\<close>

lemma catchup_mirrors:
  assumes ok: "ok (recs @ later)" and env: "envelopes_precede {} recs" and m: "mirrors (view recs) recs st"
    and run: "catchup digest now (view (recs @ later)) st = (Inr n, st')"
  shows "mirrors (view (recs @ later)) (recs @ later) st' \<and> n = length later"
proof -
  let ?lv = "view recs" and ?lv' = "view (recs @ later)"
  obtain b where b: "rfold (apply_all ?lv []) [] recs = Inr b" and cur: "ps_cursor st = next_of recs"
    and docs: "\<forall>n \<in> set store_names. map_of (ps_docs st) n = map_option (\<lambda>d. Some (JObj d)) (map_of b n)"
    using m by (auto simp: mirrors_def)
  have ev: "events_from ?lv' (ps_cursor st) = later" unfolding cur by (rule events_after [OF ok])
  note res = catchup_result [OF run ev]
  show ?thesis
  proof (cases "later = []")
    case True
    with res(1,2) m show ?thesis by simp
  next
    case False
    with res(3) obtain c where c: "rfold (apply_all ?lv' (ps_docs st)) [] later = Inr c" "ps_cursor st' = next_of later"
      "\<forall>n. map_of (ps_docs st') n = (case map_of c n of Some d \<Rightarrow> Some (Some (JObj d)) | None \<Rightarrow> map_of (ps_docs st) n)"
      by blast
    have refl: "alike [] [] [] []" "alike (ps_docs st) [] (ps_docs st) []" by (simp_all add: alike_def)
    have "\<forall>r \<in> set later. same_lookup ?lv' ?lv' r" by (simp add: same_lookup_def)
    have ok_graphs: "is_ok (node_graphs ?lv')" if "\<exists>r \<in> set (recs @ later). is_node_event r"
    proof (cases "\<exists>r \<in> set later. is_node_event r")
      case True
      with c(1) show ?thesis by (rule replay_needs_graphs)
    next
      case False
      with that have "\<exists>r \<in> set recs. is_node_event r" by auto
      with b have "is_ok (node_graphs ?lv)" by (rule replay_needs_graphs)
      then show ?thesis by (simp add: node_graphs_same [OF ok False])
    qed
    then have graphs: "\<exists>r \<in> set recs. is_node_event r \<Longrightarrow> is_ok (node_graphs ?lv')"
      "\<exists>r \<in> set later. is_node_event r \<Longrightarrow> is_ok (node_graphs ?lv')" by auto
    have "\<forall>r \<in> set recs. same_lookup ?lv ?lv' r" using same_lookup_prefix [OF ok env] by blast
    from events_alike [OF refl(1) this b graphs(1)] obtain b' where b':
      "rfold (apply_all ?lv' []) [] recs = Inr b'" "alike [] b [] b'"
      "\<forall>n \<in> set node_names. map_of b' n = (if \<exists>r \<in> set recs. is_node_event r then map_of (projr (node_graphs ?lv')) n else None)"
      "\<forall>n \<in> set node_names. map_of b n = (if \<exists>r \<in> set recs. is_node_event r then map_of (projr (node_graphs ?lv)) n else None)"
      by auto
    have "read_batch (ps_docs st) [] n = read_batch [] b n" if "n \<in> set plain_names" for n
      using docs that by (auto simp: plain_names_def read_batch_def read_disk_def split: option.splits)
    then have "alike (ps_docs st) [] [] b'" using b'(2) by (simp add: alike_def)
    from events_alike [OF this \<open>\<forall>r \<in> set later. same_lookup ?lv' ?lv' r\<close> c(1) graphs(2)] obtain c' where c':
      "rfold (apply_all ?lv' []) b' later = Inr c'" "alike (ps_docs st) c [] c'"
      "\<forall>n \<in> set node_names. map_of c' n = (if \<exists>r \<in> set later. is_node_event r then map_of (projr (node_graphs ?lv')) n else map_of b' n)"
      "\<forall>n \<in> set node_names. map_of c n = (if \<exists>r \<in> set later. is_node_event r then map_of (projr (node_graphs ?lv')) n else None)"
      by auto
    have "map_of (ps_docs st') n = map_option (\<lambda>d. Some (JObj d)) (map_of c' n)" if n: "n \<in> set store_names" for n
    proof (cases "n \<in> set node_names")
      case True
      show ?thesis
      proof (cases "\<exists>r \<in> set later. is_node_event r")
        case later: True
        then have "is_ok (node_graphs ?lv')" by (rule graphs(2))
        then obtain gs where "node_graphs ?lv' = Inr gs" by (auto simp: is_ok_def split: sum.splits)
        with True later c(3) c'(3,4) map_of_node_names [of ?lv' gs n] show ?thesis by auto
      next
        case False
        then have "map_of c' n = map_of b n" using True c'(3) b'(3,4) node_graphs_same [OF ok False] by simp
        with False True c(3) c'(4) docs n show ?thesis by simp
      qed
    next
      case False
      with n have "n \<in> set plain_names" by (simp add: plain_names_def)
      with c'(2) have "read_batch (ps_docs st) c n = read_batch [] c' n" by (simp add: alike_def)
      then show ?thesis
        using c(3) docs n by (auto simp: read_batch_def read_disk_def split: option.splits)
    qed
    moreover have "next_of later = next_of (recs @ later)" using False by (simp add: next_of_def)
    ultimately show ?thesis
      using b'(1) c'(1) c(2) res(1) by (auto simp: mirrors_def rfold_append)
  qed
qed

lemma rebuild_mirrors:
  assumes ok: "ok recs" and run: "rebuild digest now (view recs) st = (Inr n, st')"
  shows "mirrors (view recs) recs st' \<and> n = length recs"
proof -
  let ?st = "st\<lparr>ps_docs := fold drop_doc store_names (ps_docs st), ps_cursor := 0\<rparr>"
  have "ok ([] @ recs)" using ok by simp
  moreover have "mirrors (view []) [] ?st" by (simp add: mirrors_def next_of_def map_of_unlinks)
  moreover have "catchup digest now (view ([] @ recs)) ?st = (Inr n, st')" using run by (simp add: rebuild_def)
  ultimately show ?thesis using catchup_mirrors [of "[]" recs ?st digest now n st'] by simp
qed

text \<open>A replay that can be done is done by a rebuild.\<close>

lemma rebuild_succeeds:
  assumes ok: "ok recs" and "mirrors (view recs) recs st"
  shows "\<exists>st'. rebuild digest now (view recs) any_st = (Inr (length recs), st')"
proof -
  let ?docs = "fold drop_doc store_names (ps_docs any_st)"
  obtain b where b: "rfold (apply_all (view recs) []) [] recs = Inr b" using assms(2) by (auto simp: mirrors_def)
  have ev: "events_from (view recs) 0 = recs" using events_after [of "[]" recs] ok by (simp add: next_of_def)
  have "alike [] [] ?docs []"
    by (auto simp: alike_def read_batch_def read_disk_def map_of_unlinks plain_names_def)
  moreover have "is_ok (node_graphs (view recs))" if "\<exists>r \<in> set recs. is_node_event r"
    using b that by (rule replay_needs_graphs)
  ultimately obtain c where "rfold (apply_all (view recs) ?docs) [] recs = Inr c"
    using events_alike [OF _ _ b, of ?docs "[]" "view recs"] by (auto simp: same_lookup_def)
  then show ?thesis by (simp add: rebuild_def catchup_def ev Let_def)
qed

end

section \<open>The views that an index gives\<close>

definition record_view :: "(string \<Rightarrow> event_record option) \<Rightarrow> event_record list \<Rightarrow> log_view" where
  "record_view cold recs = view_of (eager_api (event_index_of recs)) cold None (next_of recs)"

lemma last_with_prefix:
  fixes recs :: "event_record list"
  assumes "distinct (map event_id (recs @ later))" and "r \<in> set recs"
  shows "last_with (Some \<circ> event_id) (event_id r) (recs @ later) = last_with (Some \<circ> event_id) (event_id r) recs"
proof -
  have "filter (\<lambda>q. event_id q = event_id r) later = []" using assms by (force simp: filter_empty_conv)
  then have "find (\<lambda>q. event_id q = event_id r) (rev later) = None" by (auto simp: find_None_iff filter_empty_conv)
  moreover have "find p (xs @ ys) = find p ys" if "find p xs = None" for p :: "event_record \<Rightarrow> bool" and xs ys
    using that by (induction xs) (auto split: if_splits)
  ultimately have "find (\<lambda>q. event_id q = event_id r) (rev later @ rev recs) = find (\<lambda>q. event_id q = event_id r) (rev recs)"
    by blast
  then show ?thesis by (simp add: last_with_def)
qed

context lookup_contract
begin

lemma gives_log_source:
  assumes "\<And>recs later. ok (recs @ later) \<Longrightarrow> ok recs"
  shows "log_source (\<lambda>recs. view_of (api recs) cold None (next_of recs)) (\<lambda>recs. ok recs \<and> in_order recs)"
proof unfold_locales
  fix recs later a b t r
  show "ok (recs @ later) \<and> in_order (recs @ later) \<Longrightarrow> ok recs \<and> in_order recs" using assms in_order_append by blast
  show "ok (recs @ later) \<and> in_order (recs @ later) \<Longrightarrow> r \<in> set recs \<Longrightarrow>
      lv_event (view_of (api (recs @ later)) cold None (next_of (recs @ later))) (event_id r)
      = lv_event (view_of (api recs) cold None (next_of recs)) (event_id r)"
    using assms [of recs later] last_with_prefix [of recs later r]
    by (simp add: view_of_def get_event_def id_law in_order_def)
qed (simp_all add: view_of_def get_events_in_range_def get_events_by_type_def take_events_eq range_law type_law)

end

interpretation whole_log: log_source "record_view cold" in_order for cold
  using eager.gives_log_source [of cold] unfolding record_view_def by simp

interpretation adopted_log: log_source "\<lambda>recs. view_of (adopted_api token fs recs) cold None (next_of recs)"
    "\<lambda>recs. (indexable recs \<and> own_files fs) \<and> in_order recs" for token fs cold
  by (rule adopted.gives_log_source) (auto simp: indexable_def)

end
