(* ===== verification/Projection_Repair.thy ===== *)
theory Projection_Repair
  imports Projection_Replay
begin

text \<open>
  Repairing one projection: \<open>recompute_one\<close> replays the whole log for a single document.  For every
  projection whose reducer reads no document but its own, the result is the part that a rebuild would
  write, and nothing else changes.
\<close>

section \<open>Reducers that read their own document\<close>

definition derived_names :: "string list" where
  "derived_names = [''impact_graph'', ''interview_progress'']"

definition selfish :: "route \<Rightarrow> bool" where
  "selfish rt \<longleftrightarrow> (\<forall>lv rd rd' r. rd (rt_name rt) = rd' (rt_name rt) \<longrightarrow> rt_reduce rt lv rd r = rt_reduce rt lv rd' r)"

lemma selfish_own: "selfish (own name takes red)" "selfish (node_route name)"
  by (simp_all add: selfish_def own_def node_route_def)

lemma route_selfish: "rt \<in> set routes \<Longrightarrow> rt_name rt \<notin> set derived_names \<Longrightarrow> selfish rt"
proof -
  have "list_all (\<lambda>rt. rt_name rt \<notin> set derived_names \<longrightarrow> selfish rt) routes"
    by (simp add: routes_def selfish_own derived_names_def)
  then show "rt \<in> set routes \<Longrightarrow> rt_name rt \<notin> set derived_names \<Longrightarrow> selfish rt" by (simp add: list_all_iff)
qed

lemma route_names: "map rt_name routes = map rt_name plain_routes @ node_names"
  by (simp add: routes_split node_route_def node_names_def)

lemma distinct_route_names: "distinct (map rt_name routes)"
  by (simp add: routes_def own_def node_route_def)

lemma route_for:
  assumes "name \<in> set store_names"
  obtains pre rt post where "routes = pre @ rt # post" "rt_name rt = name"
    "\<forall>q \<in> set pre \<union> set post. rt_name q \<noteq> name" "filter (\<lambda>q. rt_name q = name) routes = [rt]"
proof -
  have "set store_names \<subseteq> set (map rt_name routes)"
    by (simp add: store_names_def routes_def own_def node_route_def)
  with assms obtain rt where "rt \<in> set routes" "rt_name rt = name" by auto
  then obtain pre post where r: "routes = pre @ rt # post" by (meson split_list)
  have "distinct (map rt_name pre @ name # map rt_name post)"
    using distinct_route_names \<open>rt_name rt = name\<close> unfolding r by simp
  then have o: "\<forall>q \<in> set pre \<union> set post. rt_name q \<noteq> name" by auto
  then have "filter (\<lambda>q. rt_name q = name) pre = []" "filter (\<lambda>q. rt_name q = name) post = []"
    by (auto simp: filter_empty_conv)
  then have "filter (\<lambda>q. rt_name q = name) routes = [rt]"
    unfolding r using \<open>rt_name rt = name\<close> by simp
  with r \<open>rt_name rt = name\<close> o show thesis by (rule that)
qed

section \<open>One document of a replay\<close>

lemma other_routes_keep:
  assumes "rfold (apply_route lv d r) b rts = Inr c" and "\<forall>q \<in> set rts. rt_name q \<noteq> name"
  shows "map_of c name = map_of b name"
  using assms
proof (induction rts arbitrary: b)
  case (Cons q rts)
  then obtain m where "apply_route lv d r b q = Inr m" "rfold (apply_route lv d r) m rts = Inr c"
    by (auto simp: py_simps)
  moreover from this(1) Cons.prems(2) have "map_of m name = map_of b name"
    by (auto simp: apply_route_def py_simps map_of_update_cases split: if_splits option.splits)
  ultimately show ?case using Cons by auto
qed simp

text \<open>The document on disk is the one of the batch.\<close>

definition doc_holds :: "string \<Rightarrow> docs \<Rightarrow> batch_docs \<Rightarrow> bool" where
  "doc_holds name docs b \<longleftrightarrow> map_of docs name = map_option (\<lambda>d. Some (JObj d)) (map_of b name)"

lemma slice_step:
  assumes name: "name \<in> set store_names" "name \<notin> set derived_names" and h: "doc_holds name docs b"
    and run: "apply_all lv [] b r = Inr c"
  shows "\<exists>docs'. apply_one name lv docs r = Inr docs' \<and> doc_holds name docs' c
    \<and> (\<forall>n. n \<noteq> name \<longrightarrow> map_of docs' n = map_of docs n)"
proof -
  obtain pre rt post where rt: "routes = pre @ rt # post" "rt_name rt = name"
    "\<forall>q \<in> set pre \<union> set post. rt_name q \<noteq> name" "filter (\<lambda>q. rt_name q = name) routes = [rt]"
    using route_for [OF name(1)] .
  from run [unfolded apply_all_def rt(1)] obtain u w where u: "rfold (apply_route lv [] r) b pre = Inr u" "apply_route lv [] r u rt = Inr w"
    "rfold (apply_route lv [] r) w post = Inr c"
    by (auto simp: rfold_append py_simps)
  have same: "map_of u name = map_of b name" "map_of c name = map_of w name"
    using other_routes_keep [OF u(1)] other_routes_keep [OF u(3)] rt(3) by auto
  have reads: "read_batch docs [] name = read_batch [] u name"
    using h same by (auto simp: doc_holds_def read_batch_def read_disk_def split: option.splits)
  have "rt \<in> set routes" unfolding rt(1) by simp
  then have "selfish rt" using route_selfish rt(2) name(2) by blast
  then have red: "rt_reduce rt lv (read_batch docs []) r = rt_reduce rt lv (read_batch [] u) r"
    using reads unfolding selfish_def rt(2) by blast
  have one: "apply_one name lv docs r = rbind (apply_route lv docs r [] rt) (\<lambda>b. Inr (flush b docs))"
    by (cases "apply_route lv docs r [] rt") (simp_all add: apply_one_def rt(4))
  show ?thesis
  proof (cases "rt_takes rt r")
    case False
    with u(2) have "w = u" by (simp add: apply_route_def)
    with False h same show ?thesis by (simp add: one apply_route_def flush_def doc_holds_def)
  next
    case True
    with u(2) obtain out where out: "rt_reduce rt lv (read_batch [] u) r = Inr out"
      and "w = (case out of None \<Rightarrow> u | Some d \<Rightarrow> AList.update (rt_name rt) d u)"
      by (auto simp: apply_route_def py_simps)
    then have w: "w = (case out of None \<Rightarrow> u | Some d \<Rightarrow> AList.update name d u)" unfolding rt(2) by simp
    have "apply_one name lv docs r
        = Inr (case out of None \<Rightarrow> docs | Some d \<Rightarrow> AList.update name (Some (JObj d)) docs)"
      using True red out by (cases out) (simp_all add: one apply_route_def rt(2) flush_def)
    with h same w show ?thesis by (auto simp: doc_holds_def map_of_update_cases split: option.splits)
  qed
qed

lemma slice_replay:
  assumes name: "name \<in> set store_names" "name \<notin> set derived_names"
  shows "doc_holds name docs b \<Longrightarrow> rfold (apply_all lv []) b rs = Inr c \<Longrightarrow>
    \<exists>docs'. replay (apply_one name lv) docs rs = (Inr (), docs') \<and> doc_holds name docs' c
      \<and> (\<forall>n. n \<noteq> name \<longrightarrow> map_of docs' n = map_of docs n)"
proof (induction rs arbitrary: docs b)
  case (Cons r rs)
  from Cons.prems(2) obtain m where m: "apply_all lv [] b r = Inr m" "rfold (apply_all lv []) m rs = Inr c"
    by (auto simp: py_simps)
  from slice_step [OF name Cons.prems(1) m(1)] obtain docs1 where
    d: "apply_one name lv docs r = Inr docs1" "doc_holds name docs1 m" "\<forall>n. n \<noteq> name \<longrightarrow> map_of docs1 n = map_of docs n" by blast
  from Cons.IH [OF d(2) m(2)] d show ?case by auto
qed auto

context log_source
begin

lemma recompute_slice:
  assumes ok: "ok recs" and name: "name \<in> set store_names" "name \<notin> set derived_names"
    and m: "mirrors (view recs) recs full"
  shows "\<exists>st'. recompute_one digest now (view recs) name st = (Inr (length recs), st')
    \<and> map_of (ps_docs st') name = map_of (ps_docs full) name \<and> ps_cursor st' = ps_cursor st
    \<and> (\<forall>n. n \<noteq> name \<longrightarrow> map_of (ps_docs st') n = map_of (ps_docs st) n)"
proof -
  obtain b where b: "rfold (apply_all (view recs) []) [] recs = Inr b"
    "map_of (ps_docs full) name = map_option (\<lambda>d. Some (JObj d)) (map_of b name)"
    using m name(1) by (auto simp: mirrors_def)
  have ev: "events_from (view recs) 0 = recs" using events_after [of "[]" recs] ok by (simp add: next_of_def)
  have "doc_holds name (drop_doc name (ps_docs st)) []" by (simp add: doc_holds_def drop_doc_def map_of_delete)
  from slice_replay [OF name this b(1)] obtain docs where
    d: "replay (apply_one name (view recs)) (drop_doc name (ps_docs st)) recs = (Inr (), docs)" "doc_holds name docs b"
      "\<forall>n. n \<noteq> name \<longrightarrow> map_of docs n = map_of (drop_doc name (ps_docs st)) n" by blast
  with name(1) b(2) show ?thesis
    by (simp add: recompute_one_def ev doc_holds_def drop_doc_def map_of_delete)
qed

end

end
