(* ===== verification/Projection_Crash.thy ===== *)
theory Projection_Crash
  imports Projection_Repair
begin

text \<open>
  The store after a crash: what the verdict counters of a replay add up to, and what repairing a single
  projection does to the meta files that a later recovery trusts.
\<close>

section \<open>Counting verdicts\<close>

definition is_verdict :: "event_record \<Rightarrow> bool" where
  "is_verdict r \<longleftrightarrow> of_types [''CommitAccepted'', ''CommitRejected''] r"

definition verdicts :: "verr + dict option \<Rightarrow> nat" where
  "verdicts d = (case d of Inr x \<Rightarrow> length (list_of (dget (doc_of x) ''commits'')) | Inl e \<Rightarrow> 0)"

definition commit_count :: "projection_store \<Rightarrow> nat" where
  "commit_count st = verdicts (read_disk (ps_docs st) ''commit_history'')"

definition history_route :: route where
  "history_route = own ''commit_history'' (of_types [''CommitAccepted'', ''CommitRejected''])
     (\<lambda>lv cur r. reduce_commit_history (verdict_of r) cur r)"

lemma history_routes:
  obtains pre post where "routes = pre @ history_route # post"
    "\<forall>q \<in> set pre. rt_name q \<noteq> ''commit_history''" "\<forall>q \<in> set post. rt_name q \<noteq> ''commit_history''"
proof
  show "routes = take 1 routes @ history_route # drop 2 routes"
    by (simp add: routes_def history_route_def numeral_eq_Suc)
qed (auto simp: routes_def own_def node_route_def numeral_eq_Suc)

lemma same_history: "map_of c ''commit_history'' = map_of b ''commit_history'' \<Longrightarrow>
    read_batch docs c ''commit_history'' = read_batch docs b ''commit_history''"
  by (simp add: read_batch_def)

definition commit_entry :: "event_record \<Rightarrow> dict" where
  "commit_entry r = [(''commit_event_id'', JStr (event_id r)),
     (''envelope_event_id'', field_or (payload r) ''envelope_event_id'' (JStr [])),
     (''verdict'', JStr (verdict_of r)), (''occurred_at_event_id'', JStr (event_id r))]"

lemma history_step:
  assumes "apply_route lv docs r b history_route = Inr c"
  shows "verdicts (read_batch docs c ''commit_history'')
    = verdicts (read_batch docs b ''commit_history'') + (if is_verdict r then 1 else 0)"
proof (cases "is_verdict r")
  case False
  with assms show ?thesis by (simp add: apply_route_def history_route_def own_def is_verdict_def)
next
  case True
  then have step: "apply_route lv docs r b history_route
      = rbind (read_batch docs b ''commit_history'') (\<lambda>cur. rbind (reduce_commit_history (verdict_of r) cur r)
          (\<lambda>out. Inr (case out of None \<Rightarrow> b | Some d \<Rightarrow> AList.update ''commit_history'' d b)))"
    by (cases "read_batch docs b ''commit_history''")
       (simp_all add: apply_route_def history_route_def own_def is_verdict_def cong: option.case_cong)
  obtain d where d: "read_batch docs b ''commit_history'' = Inr d"
    using assms unfolding step by (cases "read_batch docs b ''commit_history''") auto
  have "reduce_commit_history (verdict_of r) d r
      = Inr (Some [(''commits'', JArr (list_of (dget (doc_of d) ''commits'') @ [JObj (commit_entry r)]))])"
    by (simp add: reduce_commit_history_def commit_entry_def)
  with assms have c: "c = AList.update ''commit_history''
      [(''commits'', JArr (list_of (dget (doc_of d) ''commits'') @ [JObj (commit_entry r)]))] b"
    unfolding step d by simp
  then have "read_batch docs c ''commit_history''
      = Inr (Some [(''commits'', JArr (list_of (dget (doc_of d) ''commits'') @ [JObj (commit_entry r)]))])"
    unfolding c by (simp only: read_batch_update refl if_True)
  with True show ?thesis by (simp add: verdicts_def d doc_of_def dget_def list_of_def)
qed

lemma event_counts:
  assumes "apply_all lv docs b r = Inr c"
  shows "verdicts (read_batch docs c ''commit_history'')
    = verdicts (read_batch docs b ''commit_history'') + (if is_verdict r then 1 else 0)"
proof -
  obtain pre post where rts: "routes = pre @ history_route # post"
    "\<forall>q \<in> set pre. rt_name q \<noteq> ''commit_history''" "\<forall>q \<in> set post. rt_name q \<noteq> ''commit_history''"
    by (rule history_routes)
  from assms [unfolded apply_all_def rts(1)] obtain u w where h:
    "rfold (apply_route lv docs r) b pre = Inr u" "apply_route lv docs r u history_route = Inr w"
    "rfold (apply_route lv docs r) w post = Inr c" by (auto simp: rfold_append py_simps)
  note h = other_routes_keep [OF h(1) rts(2)] history_step [OF h(2)] other_routes_keep [OF h(3) rts(3)]
  show ?thesis unfolding same_history [OF h(3)] h(2) same_history [OF h(1)] ..
qed

lemma events_count:
  "rfold (apply_all lv docs) b rs = Inr c \<Longrightarrow>
     verdicts (read_batch docs c ''commit_history'')
     = verdicts (read_batch docs b ''commit_history'') + length (filter is_verdict rs)"
proof (induction rs arbitrary: b)
  case (Cons r rs)
  then obtain m where "apply_all lv docs b r = Inr m" "rfold (apply_all lv docs) m rs = Inr c"
    by (auto simp: py_simps)
  with Cons.IH [of m] event_counts [of lv docs b r m] show ?case by simp
qed simp

lemma catchup_counts:
  assumes "catchup digest now lv st = (Inr n, st')"
  shows "commit_count st' = commit_count st + length (filter is_verdict (events_from lv (ps_cursor st)))"
proof (cases "events_from lv (ps_cursor st) = []")
  case True
  with catchup_result(2) [OF assms refl] show ?thesis by simp
next
  case False
  with catchup_result(3) [OF assms refl] obtain b where
    b: "rfold (apply_all lv (ps_docs st)) [] (events_from lv (ps_cursor st)) = Inr b"
    "\<forall>n. map_of (ps_docs st') n = (case map_of b n of Some d \<Rightarrow> Some (Some (JObj d)) | None \<Rightarrow> map_of (ps_docs st) n)"
    by blast
  have "read_disk (ps_docs st') ''commit_history'' = read_batch (ps_docs st) b ''commit_history''"
    using b(2) by (simp add: read_disk_def read_batch_def split: option.split)
  with events_count [OF b(1)] show ?thesis by (simp add: commit_count_def read_batch_def)
qed

section \<open>Repairing some projections\<close>

lemma map_of_flush_other: "n \<notin> fst ` set b \<Longrightarrow> map_of (flush b docs) n = map_of docs n"
  by (induction b arbitrary: docs) (auto simp: flush_def map_of_update_cases)

lemma update_keys_subset: "fst ` set (AList.update k v b) = insert k (fst ` set b)"
  by (induction b) auto

lemma routes_of_name_keys:
  assumes "rfold (apply_route lv docs r) b rts = Inr c" and "\<forall>q \<in> set rts. rt_name q = name" and "fst ` set b \<subseteq> {name}"
  shows "fst ` set c \<subseteq> {name}"
  using assms
proof (induction rts arbitrary: b)
  case (Cons q rts)
  from Cons.prems(1) obtain m where m: "apply_route lv docs r b q = Inr m" "rfold (apply_route lv docs r) m rts = Inr c"
    by (auto simp: py_simps)
  from m(1) obtain out where "m = b \<or> m = AList.update (rt_name q) out b"
    by (auto simp: apply_route_def py_simps split: if_splits option.splits)
  with Cons.prems(2,3) have "fst ` set m \<subseteq> {name}"
    by (elim disjE) (simp_all add: update_keys_subset)
  with Cons m(2) show ?case by auto
qed simp

lemma apply_one_keeps: "apply_one name lv docs r = Inr docs' \<Longrightarrow> n \<noteq> name \<Longrightarrow> map_of docs' n = map_of docs n"
  by (auto simp: apply_one_def py_simps intro!: map_of_flush_other dest!: routes_of_name_keys [where name = name])

lemma replay_one_keeps:
  "replay (apply_one name lv) docs rs = (res, docs') \<Longrightarrow> n \<noteq> name \<Longrightarrow> map_of docs' n = map_of docs n"
proof (induction rs arbitrary: docs)
  case (Cons r rs)
  then show ?case
    by (cases "apply_one name lv docs r") (auto simp: apply_one_keeps)
qed simp

text \<open>The meta file that a repair leaves behind has the head of the log as its watermark.\<close>

definition at_head :: "log_view \<Rightarrow> projection_store \<Rightarrow> string \<Rightarrow> bool" where
  "at_head lv st name \<longleftrightarrow> (case proj_meta st name of
     Some m \<Rightarrow> dget m ''watermark'' = JInt (lv_next lv - 1) | None \<Rightarrow> False)"

lemma persist_meta_read:
  "proj_meta (persist_meta digest now w name st) n =
     (if n = name \<and> map_of (ps_docs st) name \<noteq> None
      then proj_meta (persist_meta digest now w name st) name else proj_meta st n)"
  by (auto simp: persist_meta_def proj_meta_def Let_def map_of_update_cases split: option.splits)

lemma persist_meta_watermark:
  assumes "map_of (ps_docs st) name = Some d"
  obtains m where "proj_meta (persist_meta digest now w name st) name = Some m" "dget m ''watermark'' = JInt w"
  using assms by (auto simp: persist_meta_def proj_meta_def Let_def map_of_update_cases dget_def)

lemma recompute_one_form:
  assumes "recompute_one digest now lv name st = (Inr k, st')"
  obtains docs where "st' = persist_meta digest now (lv_next lv - 1) name (st\<lparr>ps_docs := docs\<rparr>)"
    "\<forall>n. n \<noteq> name \<longrightarrow> map_of docs n = map_of (ps_docs st) n"
proof -
  obtain res docs where r: "replay (apply_one name lv) (drop_doc name (ps_docs st)) (events_from lv 0) = (res, docs)"
    by fastforce
  have "name \<in> set store_names" using assms by (cases "name \<in> set store_names") (simp_all add: recompute_one_def)
  with assms have "st' = persist_meta digest now (lv_next lv - 1) name (st\<lparr>ps_docs := docs\<rparr>)"
    by (cases res) (simp_all add: recompute_one_def r)
  moreover have "\<forall>n. n \<noteq> name \<longrightarrow> map_of docs n = map_of (ps_docs st) n"
    using replay_one_keeps [OF r] by (simp add: drop_doc_def map_of_delete)
  ultimately show thesis by (rule that)
qed

lemma read_meta_docs [simp]: "proj_meta (st\<lparr>ps_docs := docs\<rparr>) n = proj_meta st n"
  by (simp add: proj_meta_def)

lemma recompute_one_effect:
  assumes "recompute_one digest now lv name st = (Inr k, st')"
  shows "ps_cursor st' = ps_cursor st" "n \<noteq> name \<Longrightarrow> map_of (ps_docs st') n = map_of (ps_docs st) n"
    "n \<noteq> name \<Longrightarrow> proj_meta st' n = proj_meta st n"
    "proj_meta st name \<noteq> None \<Longrightarrow> proj_meta st' name \<noteq> None"
    "map_of (ps_docs st') name \<noteq> None \<Longrightarrow> at_head lv st' name"
proof -
  obtain docs where st': "st' = persist_meta digest now (lv_next lv - 1) name (st\<lparr>ps_docs := docs\<rparr>)"
    and docs: "\<forall>n. n \<noteq> name \<longrightarrow> map_of docs n = map_of (ps_docs st) n"
    using recompute_one_form [OF assms] .
  show "ps_cursor st' = ps_cursor st" "n \<noteq> name \<Longrightarrow> map_of (ps_docs st') n = map_of (ps_docs st) n"
    by (simp_all add: st' docs)
  show "n \<noteq> name \<Longrightarrow> proj_meta st' n = proj_meta st n"
    using persist_meta_read [of digest now "lv_next lv - 1" name "st\<lparr>ps_docs := docs\<rparr>" n] by (simp add: st')
  show top: "map_of (ps_docs st') name \<noteq> None \<Longrightarrow> at_head lv st' name"
  proof -
    assume "map_of (ps_docs st') name \<noteq> None"
    then obtain d where "map_of (ps_docs (st\<lparr>ps_docs := docs\<rparr>)) name = Some d" by (auto simp: st')
    then obtain m where "proj_meta st' name = Some m" "dget m ''watermark'' = JInt (lv_next lv - 1)"
      unfolding st' by (rule persist_meta_watermark)
    then show "at_head lv st' name" by (simp add: at_head_def)
  qed
  show "proj_meta st name \<noteq> None \<Longrightarrow> proj_meta st' name \<noteq> None"
  proof (cases "map_of (ps_docs st') name")
    case None
    then show "proj_meta st name \<noteq> None \<Longrightarrow> proj_meta st' name \<noteq> None"
      using persist_meta_read [of digest now "lv_next lv - 1" name "st\<lparr>ps_docs := docs\<rparr>" name] by (simp add: st')
  next
    case (Some d)
    then show "proj_meta st name \<noteq> None \<Longrightarrow> proj_meta st' name \<noteq> None"
      using top by (auto simp: at_head_def split: option.splits)
  qed
qed

lemma recompute_each_effect:
  "recompute_each digest now lv ns st = (Inr (), st') \<Longrightarrow> distinct ns \<Longrightarrow>
     ps_cursor st' = ps_cursor st
     \<and> (\<forall>n. n \<notin> set ns \<longrightarrow> map_of (ps_docs st') n = map_of (ps_docs st) n \<and> proj_meta st' n = proj_meta st n)
     \<and> (\<forall>n. proj_meta st n \<noteq> None \<longrightarrow> proj_meta st' n \<noteq> None)
     \<and> (\<forall>n \<in> set ns. map_of (ps_docs st') n \<noteq> None \<longrightarrow> at_head lv st' n)"
proof (induction ns arbitrary: st)
  case (Cons m ns)
  obtain res s where run: "recompute_one digest now lv m st = (res, s)" by fastforce
  with Cons.prems(1) obtain k where s: "recompute_one digest now lv m st = (Inr k, s)"
    "recompute_each digest now lv ns s = (Inr (), st')"
    by (cases res) simp_all
  note e = recompute_one_effect [OF s(1)]
  have ih: "ps_cursor st' = ps_cursor s"
    "\<And>n. n \<notin> set ns \<Longrightarrow> map_of (ps_docs st') n = map_of (ps_docs s) n"
    "\<And>n. n \<notin> set ns \<Longrightarrow> proj_meta st' n = proj_meta s n"
    "\<And>n. proj_meta s n \<noteq> None \<Longrightarrow> proj_meta st' n \<noteq> None"
    "\<And>n. n \<in> set ns \<Longrightarrow> map_of (ps_docs st') n \<noteq> None \<Longrightarrow> at_head lv st' n"
    using Cons.IH [OF s(2)] Cons.prems(2) by auto
  have m: "m \<notin> set ns" using Cons.prems(2) by simp
  have "at_head lv st' m" if "map_of (ps_docs st') m \<noteq> None"
    using that e(5) ih(2,3) [OF m] by (simp add: at_head_def)
  moreover have "proj_meta st' n \<noteq> None" if "proj_meta st n \<noteq> None" for n
    using that e(3) [of n] e(4) ih(4) [of n] by (cases "n = m") simp_all
  ultimately show ?case using ih e(1-3) by simp
qed simp

lemma distinct_torn: "distinct (torn_projections digest st)"
proof -
  have "distinct store_names" unfolding store_names_def by simp
  then show ?thesis by (simp add: torn_projections_def)
qed

lemma torn_has_meta: "n \<in> set (torn_projections digest st) \<Longrightarrow> proj_meta st n \<noteq> None"
  by (cases "proj_meta st n") (auto simp: torn_projections_def diagnose_def)

lemma recomputed_torn:
  assumes "recover_store digest now lv st = (Inr Recomputed, st')"
  shows "torn_projections digest st \<noteq> []" "recompute_each digest now lv (torn_projections digest st) st = (Inr (), st')"
proof -
  obtain res s where run: "recompute_each digest now lv (torn_projections digest st) st = (res, s)" by fastforce
  obtain res2 s2 where re: "rebuild digest now lv st = (res2, s2)" by fastforce
  obtain res3 s3 where re2: "rebuild digest now lv s = (res3, s3)" by fastforce
  show "torn_projections digest st \<noteq> []"
    using assms by (auto simp: recover_store_def Let_def split: if_splits)
  then show "recompute_each digest now lv (torn_projections digest st) st = (Inr (), st')"
    using assms run re re2
    by (cases res; cases res2; cases res3) (simp_all add: recover_store_def Let_def split: if_splits)
qed

lemma fold_max_bounds: "x \<in> set xs \<Longrightarrow> x \<le> fold max xs (a :: int)" "a \<le> fold max xs a"
proof -
  have base: "b \<le> fold max ys b" for b :: int and ys
  proof (induction ys arbitrary: b)
    case (Cons y ys)
    have "b \<le> max y b" by simp
    also have "max y b \<le> fold max ys (max y b)" by (rule Cons)
    finally show ?case by simp
  qed simp
  then show "a \<le> fold max xs a" .
  show "x \<in> set xs \<Longrightarrow> x \<le> fold max xs a"
  proof (induction xs arbitrary: a)
    case (Cons y ys)
    then show ?case using base [of "max y a" ys] by auto
  qed simp
qed

lemma max_watermark_ge:
  assumes "n \<in> set store_names" "diagnose digest st n = Consistent" "at_head lv st n"
  shows "lv_next lv - 1 \<le> max_watermark digest st"
proof -
  have "lv_next lv - 1 \<in> set (List.map_filter (\<lambda>n. if diagnose digest st n = Consistent
      then Option.bind (proj_meta st n) (\<lambda>m. as_int (dget m ''watermark'')) else None) store_names)"
    using assms by (force simp: set_map_filter at_head_def split: option.splits)
  then show ?thesis unfolding max_watermark_def by (rule fold_max_bounds(1))
qed

text \<open>
  After a repair that left no projection torn, the next recovery moves the cursor behind the head of the
  log.
\<close>

lemma second_recovery:
  assumes first: "recover_store digest now lv st = (Inr Recomputed, st1)"
    and settled: "torn_projections digest st1 = []" and pending: "0 \<le> ps_cursor st" "ps_cursor st < lv_next lv"
  shows "\<exists>c. recover_store digest now' lv st1 = (Inr Advanced, st1\<lparr>ps_cursor := c\<rparr>) \<and> lv_next lv \<le> c"
    and "n \<notin> set (torn_projections digest st) \<Longrightarrow> map_of (ps_docs st1) n = map_of (ps_docs st) n"
proof -
  note torn = recomputed_torn [OF first]
  note e = recompute_each_effect [OF torn(2) distinct_torn]
  then show "n \<notin> set (torn_projections digest st) \<Longrightarrow> map_of (ps_docs st1) n = map_of (ps_docs st) n" by simp
  obtain n where n: "n \<in> set (torn_projections digest st)" using torn(1) by (cases "torn_projections digest st") auto
  then have name: "n \<in> set store_names" by (simp add: torn_projections_def)
  have meta: "proj_meta st1 n \<noteq> None" using e torn_has_meta [OF n] by blast
  have intact: "diagnose digest st1 n \<notin> set [Torn_State_Missing, Torn_Hash_Mismatch]"
    using settled name by (auto simp: torn_projections_def filter_empty_conv)
  with meta have there: "map_of (ps_docs st1) n \<noteq> None" by (auto simp: diagnose_def split: option.splits)
  with e n have top: "at_head lv st1 n" by blast
  have "diagnose digest st1 n = Consistent"
    using intact meta there by (auto simp: diagnose_def split: option.splits if_splits)
  from max_watermark_ge [OF name this top] have w: "lv_next lv - 1 \<le> max_watermark digest st1" .
  moreover have "ps_cursor st1 = ps_cursor st" using e by simp
  ultimately have "recover_store digest now' lv st1 = (Inr Advanced, st1\<lparr>ps_cursor := max_watermark digest st1 + 1\<rparr>)"
    using settled pending by (simp add: recover_store_def Let_def)
  with w show "\<exists>c. recover_store digest now' lv st1 = (Inr Advanced, st1\<lparr>ps_cursor := c\<rparr>) \<and> lv_next lv \<le> c" by auto
qed

context log_source
begin

lemma nothing_beyond: "ok recs \<Longrightarrow> lv_next (view recs) \<le> c \<Longrightarrow> events_from (view recs) c = []"
  by (simp add: events_from_def range_law filter_empty_conv)

end

end
