(* ===== verification/Projection_Walks.thy ===== *)
theory Projection_Walks
  imports Projection_Slices
begin

text \<open>
  What the walks of the projection store find: the bounded breadth-first search finds the nodes within
  that many hops, the depth-first search decides reachability, and a backfill of coupling edges that
  asks it keeps the concept graph acyclic and leaves out no more than it must.
\<close>

section \<open>Bounded breadth-first search\<close>

definition within :: "('a \<times> 'a) set \<Rightarrow> nat \<Rightarrow> 'a set \<Rightarrow> 'a set" where
  "within E n S = {y. \<exists>x \<in> S. \<exists>k \<le> n. (x, y) \<in> E ^^ k}"

lemma within_0: "within E 0 S = S"
  by (simp add: within_def)

lemma within_self: "S \<subseteq> within E n S"
  unfolding within_def by (force intro: exI [of _ 0])

lemma within_Suc: "within E (Suc n) S = within E n (S \<union> E `` S)"
proof (intro set_eqI iffI)
  fix y assume "y \<in> within E (Suc n) S"
  then obtain x k where k: "x \<in> S" "k \<le> Suc n" "(x, y) \<in> E ^^ k" by (auto simp: within_def)
  show "y \<in> within E n (S \<union> E `` S)"
  proof (cases k)
    case 0
    with k show ?thesis using within_self [of "S \<union> E `` S" E n] by auto
  next
    case (Suc m)
    with k(3) obtain z where "(x, z) \<in> E" "(z, y) \<in> E ^^ m" by (meson relpow_Suc_D2)
    with k Suc show ?thesis by (auto simp: within_def)
  qed
next
  fix y assume "y \<in> within E n (S \<union> E `` S)"
  then obtain x k where k: "x \<in> S \<or> x \<in> E `` S" "k \<le> n" "(x, y) \<in> E ^^ k" by (auto simp: within_def)
  then show "y \<in> within E (Suc n) S"
  proof (cases "x \<in> S")
    case True
    moreover have "k \<le> Suc n" using k(2) by simp
    ultimately show ?thesis using k(3) by (auto simp: within_def)
  next
    case False
    with k(1) obtain w where "w \<in> S" "(w, x) \<in> E" by auto
    with k(3) have "(w, y) \<in> E ^^ Suc k" by (meson relpow_Suc_I2)
    with \<open>w \<in> S\<close> k(2) show ?thesis by (auto simp: within_def simp del: relpow.simps intro!: exI [of _ "Suc k"])
  qed
qed

lemma within_closed: "E `` S \<subseteq> S \<Longrightarrow> within E n S = S"
  by (induction n) (simp_all add: within_0 within_Suc Un_absorb2)

lemma set_expand: "set (concat (map (targets es) frontier)) = set es `` set frontier"
  by (auto simp: set_targets)

lemma set_hops:
  "set frontier \<subseteq> set seen \<Longrightarrow> set es `` (set seen - set frontier) \<subseteq> set seen \<Longrightarrow>
     set (hops es n seen frontier) = within (set es) n (set seen) - set seen"
proof (induction n arbitrary: seen frontier)
  case 0
  then show ?case by (simp add: within_0)
next
  case (Suc n)
  define found where "found = unseen seen (concat (map (targets es) frontier))"
  have found: "set found = set es `` set frontier - set seen"
    unfolding found_def set_unseen set_expand ..
  have all: "set seen \<union> set es `` set seen = set seen \<union> set found"
    using Suc.prems unfolding found by blast
  show ?case
  proof (cases "found = []")
    case True
    with all have "within (set es) (Suc n) (set seen) = set seen"
      by (intro within_closed) auto
    with True show ?thesis by (simp add: found_def [symmetric])
  next
    case False
    have "set es `` (set (seen @ found) - set found) \<subseteq> set (seen @ found)" using all by auto
    then have "set (hops es n (seen @ found) found)
        = within (set es) n (set (seen @ found)) - set (seen @ found)" by (intro Suc.IH) auto
    moreover have "within (set es) (Suc n) (set seen) = within (set es) n (set (seen @ found))"
      using all by (simp add: within_Suc)
    moreover have "set found \<subseteq> within (set es) n (set (seen @ found))" "set found \<inter> set seen = {}"
      using within_self [of "set (seen @ found)" "set es" n] found by auto
    ultimately show ?thesis using False by (auto simp: found_def [symmetric] Let_def)
  qed
qed

lemma distinct_hops: "distinct (hops es n seen frontier) \<and> set (hops es n seen frontier) \<inter> set seen = {}"
proof (induction n arbitrary: seen frontier)
  case (Suc n)
  define found where "found = unseen seen (concat (map (targets es) frontier))"
  have "distinct found" "set found \<inter> set seen = {}"
    by (auto simp: found_def distinct_unseen set_unseen)
  with Suc.IH [of "seen @ found" found] show ?case by (auto simp: found_def [symmetric] Let_def)
qed simp

lemma hops_from: "set (hops es n [x] [x]) = {y. y \<noteq> x \<and> (\<exists>k \<le> n. (x, y) \<in> set es ^^ k)}"
  using set_hops [of "[x]" "[x]" es n] by (auto simp: within_def)

section \<open>Depth-first reachability\<close>

lemma reaches_from_correct:
  "set stack \<subseteq> set seen \<Longrightarrow> set es `` (set seen - set stack) \<subseteq> set seen - {dst} \<or>
     (set es `` (set seen - set stack) \<subseteq> set seen \<and> dst \<notin> set es `` (set seen - set stack)) \<Longrightarrow>
   reaches_from es dst stack seen \<longleftrightarrow> (\<exists>x \<in> set seen. (x, dst) \<in> (set es)\<^sup>+)"
proof (induction es dst stack seen rule: reaches_from.induct)
  case (1 es dst seen)
  then have closed: "set es `` set seen \<subseteq> set seen" "dst \<notin> set es `` set seen" by auto
  have "y \<in> set seen" if "x \<in> set seen" "(x, y) \<in> (set es)\<^sup>*" for x y
    using that(2,1) closed(1) by (induction rule: rtrancl_induct) auto
  then have "(x, dst) \<notin> (set es)\<^sup>+" if "x \<in> set seen" for x
    using that closed(2) by (auto dest!: tranclD2)
  then show ?case by auto
next
  case (2 es dst x stack seen)
  show ?case
  proof (cases "dst \<in> set (targets es x)")
    case True
    with "2.prems"(1) show ?thesis by (auto simp: set_targets)
  next
    case False
    define found where "found = unseen seen (targets es x)"
    have found: "set found = {t. (x, t) \<in> set es} - set seen"
      by (simp add: found_def set_unseen set_targets)
    have "reaches_from es dst (rev found @ stack) (seen @ found)
        \<longleftrightarrow> (\<exists>z \<in> set (seen @ found). (z, dst) \<in> (set es)\<^sup>+)"
      unfolding found_def
      by (rule "2.IH" [OF False refl]; use "2.prems" False in \<open>auto simp: set_unseen set_targets\<close>)
    moreover have "(x, dst) \<in> (set es)\<^sup>+" if "z \<in> set found" "(z, dst) \<in> (set es)\<^sup>+" for z
      using that found by (auto intro: trancl_into_trancl2)
    ultimately show ?thesis using False "2.prems"(1) by (auto simp: found_def [symmetric] Let_def)
  qed
qed

lemma reaches_correct: "reaches es src dst \<longleftrightarrow> (src, dst) \<in> (set es)\<^sup>+"
  unfolding reaches_def by (subst reaches_from_correct) auto

section \<open>Backfilling\<close>

lemma acyclic_snoc: "acyclic E \<Longrightarrow> u \<noteq> v \<Longrightarrow> (v, u) \<notin> E\<^sup>+ \<Longrightarrow> acyclic (insert (u, v) E)"
  by (auto simp: acyclic_insert rtrancl_eq_or_trancl)

definition edge_linked :: "('a \<times> 'a) set \<Rightarrow> 'a \<Rightarrow> 'a \<Rightarrow> bool" where
  "edge_linked E a b \<longleftrightarrow> (a, b) \<in> E \<or> (b, a) \<in> E"

lemma oriented_cases: "oriented order a b = (a, b) \<or> oriented order a b = (b, a)"
  by (simp add: oriented_def)

definition edge_pairs :: "('a \<times> 'a \<times> 'w) list \<Rightarrow> ('a \<times> 'a) set" where
  "edge_pairs added = (\<lambda>(u, v, w). (u, v)) ` set added"

text \<open>An association is settled when its ends are linked, or when its edge would close a cycle.\<close>

definition association_settled :: "string set \<Rightarrow> (string \<Rightarrow> int) \<Rightarrow> (string \<times> string) set \<Rightarrow> string \<times> string \<times> 'w \<Rightarrow> bool" where
  "association_settled nodes order E = (\<lambda>(a, b, w). a \<in> nodes \<and> b \<in> nodes \<and> a \<noteq> b \<longrightarrow>
     edge_linked E a b \<or> prod.swap (oriented order a b) \<in> E\<^sup>+)"

lemma association_settled_mono: "association_settled nodes order E x \<Longrightarrow> E \<subseteq> E' \<Longrightarrow> association_settled nodes order E' x"
  by (cases x) (auto simp: association_settled_def edge_linked_def dest: trancl_mono)

lemma edge_pairs_snoc [simp]: "edge_pairs (added @ [(u, v, w)]) = insert (u, v) (edge_pairs added)"
  by (simp add: edge_pairs_def)

lemma backfill_one_cases:
  assumes "backfill_one nodes order (es, added) (a, b, w) = (es', added')"
  obtains "es' = es" "added' = added" "association_settled nodes order (set es) (a, b, w)"
  | u v where "es' = es @ [(u, v)]" "added' = added @ [(u, v, w)]" "(u, v) = oriented order a b"
      "a \<in> nodes" "b \<in> nodes" "u \<noteq> v" "(v, u) \<notin> (set es)\<^sup>+"
proof -
  obtain u v where o: "oriented order a b = (u, v)" by (cases "oriented order a b")
  with oriented_cases [of order a b] have ends: "(u, v) = (a, b) \<or> (u, v) = (b, a)" by simp
  let ?skip = "a \<notin> nodes \<or> b \<notin> nodes \<or> a = b \<or> (a, b) \<in> set es \<or> (b, a) \<in> set es \<or> reaches es v u"
  show thesis
  proof (cases ?skip)
    case True
    with assms o have "es' = es" "added' = added" by (simp_all add: backfill_one_def)
    moreover have "association_settled nodes order (set es) (a, b, w)"
      using True o by (auto simp: association_settled_def edge_linked_def reaches_correct)
    ultimately show thesis by (rule that(1))
  next
    case False
    with assms o have "es' = es @ [(u, v)]" "added' = added @ [(u, v, w)]" by (simp_all add: backfill_one_def)
    moreover have "u \<noteq> v" "(v, u) \<notin> (set es)\<^sup>+" using False ends by (auto simp: reaches_correct)
    ultimately show thesis using that(2) o False by simp
  qed
qed

definition sound_edges :: "string set \<Rightarrow> (string \<times> string) set \<Rightarrow> arrows \<times> (string \<times> string \<times> 'w) list \<Rightarrow> bool" where
  "sound_edges nodes E0 s \<longleftrightarrow> set (fst s) = E0 \<union> edge_pairs (snd s) \<and> acyclic (set (fst s))
     \<and> edge_pairs (snd s) \<subseteq> nodes \<times> nodes"

lemma backfill_one_sound:
  assumes "sound_edges nodes E0 s" and "backfill_one nodes order s x = s'"
  shows "sound_edges nodes E0 s' \<and> set (fst s) \<subseteq> set (fst s') \<and> association_settled nodes order (set (fst s')) x"
proof -
  obtain es added where s: "s = (es, added)" by (cases s)
  obtain es' added' where s': "s' = (es', added')" by (cases s')
  obtain a b w where x: "x = (a, b, w)" by (cases x)
  from assms(2) have "backfill_one nodes order (es, added) (a, b, w) = (es', added')" by (simp add: s s' x)
  then show ?thesis
  proof (cases rule: backfill_one_cases)
    case 1
    with assms(1) show ?thesis by (simp add: s s' x)
  next
    case (2 u v)
    with oriented_cases [of order a b] have "u \<in> nodes" "v \<in> nodes" "association_settled nodes order (set es') x"
      by (auto simp: association_settled_def edge_linked_def x)
    moreover have "acyclic (insert (u, v) (set es))"
      using assms(1) 2(6,7) by (intro acyclic_snoc) (auto simp only: sound_edges_def s fst_conv)
    then have "acyclic (set es')" by (simp add: 2(1))
    ultimately show ?thesis using 2(1,2) assms(1) \<open>acyclic (set es')\<close> by (auto simp: sound_edges_def s s')
  qed
qed

lemma backfill_sound:
  assumes "sound_edges nodes E0 s" and "foldl (backfill_one nodes order) s assocs = s'"
  shows "sound_edges nodes E0 s' \<and> set (fst s) \<subseteq> set (fst s') \<and> (\<forall>x \<in> set assocs. association_settled nodes order (set (fst s')) x)"
  using assms
proof (induction assocs arbitrary: s)
  case (Cons x assocs)
  obtain m where m: "backfill_one nodes order s x = m" by blast
  from backfill_one_sound [OF Cons.prems(1) m] Cons.IH [of m] Cons.prems(2) m
  show ?case by (auto intro: association_settled_mono)
qed simp

end
