(* ===== verification/Projection_Locks.thy ===== *)
theory Projection_Locks
  imports Projection_Graphs
begin

text \<open>
  The ownership projection as a lock table: the document says of an entity what the last claim or
  release of it says.
\<close>

declare dget_dset [simp]

lemma obj_items_dicts [simp]: "obj_items (dicts_json ds) = ds"
  by (induction ds) (simp_all add: obj_items_def dicts_json_def List.map_filter_simps)

section \<open>The abstract table\<close>

type_synonym entity_name = "string \<times> string"

datatype ownership_op = Claim entity_name json json | Free entity_name

fun op_key :: "ownership_op \<Rightarrow> entity_name" where
  "op_key (Claim k task run) = k"
| "op_key (Free k) = k"

fun op_says :: "ownership_op \<Rightarrow> (json \<times> json) option" where
  "op_says (Claim k task run) = Some (task, run)"
| "op_says (Free k) = None"

text \<open>What the last operation on an entity says: who holds its lock, by task and run.\<close>

definition last_word :: "ownership_op list \<Rightarrow> entity_name \<Rightarrow> (json \<times> json) option" where
  "last_word ops k = (case find (\<lambda>x. op_key x = k) (rev ops) of None \<Rightarrow> None | Some x \<Rightarrow> op_says x)"

lemma last_word_Nil [simp]: "last_word [] = (\<lambda>k. None)"
  by (simp add: last_word_def fun_eq_iff)

lemma last_word_snoc: "last_word (ops @ [x]) = (last_word ops)(op_key x := op_says x)"
  by (simp add: last_word_def fun_eq_iff)

section \<open>The operations of an event\<close>

definition entity_key :: "dict \<Rightarrow> entity_name option" where
  "entity_key w = (case (dget w ''entity_type'', dget w ''entity_id'') of (JStr t, JStr i) \<Rightarrow> Some (t, i) | _ \<Rightarrow> None)"

definition keys_of :: "json \<Rightarrow> entity_name list" where
  "keys_of v = List.map_filter entity_key (obj_items v)"

definition lock_ops :: "(string \<Rightarrow> event_record option) \<Rightarrow> event_record \<Rightarrow> ownership_op list" where
  "lock_ops envelope_at r =
     (let after = after_state (payload r) in
      if event_type r = ''TaskWriteSetClaimed''
      then map (\<lambda>k. Claim k (dget after ''task_id'') (json_opt (run_id (provenance r)))) (keys_of (dget after ''write_set''))
      else if event_type r = ''CommitAccepted''
      then (case Option.bind (as_str (dget (payload r) ''envelope_event_id'')) envelope_at of
              None \<Rightarrow> [] | Some env \<Rightarrow> map Free (keys_of (dget (payload env) ''write_set'')))
      else if event_type r = ''LockReleased'' then map Free (keys_of (dget after ''entities''))
      else [])"

section \<open>The table in the document\<close>

definition holder :: "dict list \<Rightarrow> entity_name \<Rightarrow> (json \<times> json) option" where
  "holder es k =
     (case find (entity_at (fst k) (snd k)) es of
        None \<Rightarrow> None
      | Some e \<Rightarrow> if dget e ''write_locked'' = JBool True then Some (dget e ''owner_task_id'', dget e ''lock_holder_run_id'')
                  else None)"

definition lock_table :: "dict option \<Rightarrow> entity_name \<Rightarrow> (json \<times> json) option" where
  "lock_table d = holder (obj_items (dget (doc_of d) ''entities''))"

lemma find_upsert_dict:
  assumes "\<And>d. p d \<Longrightarrow> p (f d)" and "case new of None \<Rightarrow> True | Some d \<Rightarrow> p d" and "\<And>d. p d \<Longrightarrow> \<not> q d"
  shows "find p (upsert_dict p f new ds) = (case find p ds of Some d \<Rightarrow> Some (f d) | None \<Rightarrow> new)"
    and "find q (upsert_dict p f new ds) = find q ds"
proof -
  show "find p (upsert_dict p f new ds) = (case find p ds of Some d \<Rightarrow> Some (f d) | None \<Rightarrow> new)"
    using assms(1,2) by (induction ds) (auto split: option.splits)
  show "find q (upsert_dict p f new ds) = find q ds"
    using assms by (induction ds) (auto split: option.splits)
qed

lemma find_change_dicts:
  assumes "\<And>d. p (f d) = p d" and "\<And>d. p d \<Longrightarrow> c d = b"
  shows "find p (change_dicts c f ds) = map_option (\<lambda>d. if b then f d else d) (find p ds)"
  using assms by (induction ds) (auto simp: change_dicts_def)

lemma entity_key_Some: "entity_key w = Some (t, i) \<longleftrightarrow> entity_at t i w"
  by (auto simp: entity_key_def entity_at_def split: json.splits)

lemma set_lock_holder:
  "holder (set_lock task run w es) = (case entity_key w of None \<Rightarrow> holder es | Some k \<Rightarrow> (holder es)(k := Some (task, run)))"
proof (cases "entity_key w")
  case None
  then have "set_lock task run w es = es" by (auto simp: set_lock_def entity_key_def split: json.splits)
  with None show ?thesis by simp
next
  case (Some k)
  obtain t i where k: "k = (t, i)" by (cases k)
  define lock where "lock = [(''entity_type'', JStr t), (''entity_id'', JStr i), (''owner_task_id'', task),
    (''write_locked'', JBool True), (''lock_holder_run_id'', run)]"
  have upd: "set_lock task run w es = upsert_dict (entity_at t i) (dict_update lock) (Some lock) es"
    using Some k by (auto simp: set_lock_def entity_key_def lock_def Let_def split: json.splits)
  have fs: "dget (dict_update lock e) ''entity_type'' = JStr t" "dget (dict_update lock e) ''entity_id'' = JStr i"
    "dget (dict_update lock e) ''owner_task_id'' = task" "dget (dict_update lock e) ''write_locked'' = JBool True"
    "dget (dict_update lock e) ''lock_holder_run_id'' = run" for e
    by (simp_all add: dict_update_def lock_def)
  have "dget lock ''entity_type'' = JStr t" "dget lock ''entity_id'' = JStr i" "dget lock ''owner_task_id'' = task"
    "dget lock ''write_locked'' = JBool True" "dget lock ''lock_holder_run_id'' = run"
    by (simp_all add: lock_def dget_def)
  note gs = fs this
  have "holder (set_lock task run w es) k' = ((holder es)(k := Some (task, run))) k'" for k'
  proof (cases "k' = k")
    case True
    have "find (entity_at t i) (set_lock task run w es)
        = (case find (entity_at t i) es of Some d \<Rightarrow> Some (dict_update lock d) | None \<Rightarrow> Some lock)"
      unfolding upd by (rule find_upsert_dict(1) [where q = "\<lambda>d. False"]) (simp_all add: entity_at_def gs)
    with True k show ?thesis by (cases "find (entity_at t i) es") (simp_all add: holder_def gs)
  next
    case False
    have "find (entity_at (fst k') (snd k')) (set_lock task run w es) = find (entity_at (fst k') (snd k')) es"
      unfolding upd by (rule find_upsert_dict(2)) (use False k in \<open>auto simp: entity_at_def gs\<close>)
    with False show ?thesis by (simp add: holder_def)
  qed
  with Some show ?thesis by (simp add: fun_eq_iff)
qed

lemma release_lock_holder:
  "holder (release_lock w es) = (case entity_key w of None \<Rightarrow> holder es | Some k \<Rightarrow> (holder es)(k := None))"
proof -
  define c where "c = (\<lambda>e. dget e ''entity_type'' = dget w ''entity_type'' \<and> dget e ''entity_id'' = dget w ''entity_id'')"
  define f where "f = (\<lambda>e. dset ''lock_holder_run_id'' JNull (dset ''write_locked'' (JBool False) e))"
  have rel: "release_lock w es = change_dicts c f es" by (simp add: release_lock_def c_def f_def)
  have "holder (release_lock w es) k = (if entity_key w = Some k then None else holder es k)" for k
  proof -
    obtain t i where k: "k = (t, i)" by (cases k)
    have "find (entity_at t i) (release_lock w es)
        = map_option (\<lambda>d. if entity_key w = Some k then f d else d) (find (entity_at t i) es)"
      unfolding rel by (rule find_change_dicts) (auto simp: f_def c_def k entity_key_Some entity_at_def)
    then show ?thesis by (cases "find (entity_at t i) es") (auto simp: holder_def k f_def)
  qed
  then show ?thesis by (auto simp: fun_eq_iff split: option.split)
qed

lemma set_locks_holder:
  assumes "holder es = last_word ops"
  shows "holder (fold (set_lock task run) ws es) = last_word (ops @ map (\<lambda>k. Claim k task run) (List.map_filter entity_key ws))"
  using assms
proof (induction ws arbitrary: es ops)
  case (Cons w ws)
  show ?case
  proof (cases "entity_key w")
    case None
    with Cons show ?thesis by (simp add: List.map_filter_simps set_lock_holder)
  next
    case (Some k)
    with Cons.prems have "holder (set_lock task run w es) = last_word (ops @ [Claim k task run])"
      by (simp add: set_lock_holder last_word_snoc)
    from Cons.IH [OF this] Some show ?thesis by (simp add: List.map_filter_simps)
  qed
qed (simp add: List.map_filter_simps)

lemma release_locks_holder:
  assumes "holder es = last_word ops"
  shows "holder (fold release_lock ws es) = last_word (ops @ map Free (List.map_filter entity_key ws))"
  using assms
proof (induction ws arbitrary: es ops)
  case (Cons w ws)
  show ?case
  proof (cases "entity_key w")
    case None
    with Cons show ?thesis by (simp add: List.map_filter_simps release_lock_holder)
  next
    case (Some k)
    with Cons.prems have "holder (release_lock w es) = last_word (ops @ [Free k])"
      by (simp add: release_lock_holder last_word_snoc)
    from Cons.IH [OF this] Some show ?thesis by (simp add: List.map_filter_simps)
  qed
qed (simp add: List.map_filter_simps)

lemma ownership_step:
  assumes "lock_table cur = last_word ops"
  shows "\<exists>d. reduce_ownership envelope_at cur r = Inr (Some d) \<and> lock_table (Some d) = last_word (ops @ lock_ops envelope_at r)"
  using assms
  by (auto simp: lock_table_def reduce_ownership_def lock_ops_def release_committed_locks_def Let_def keys_of_def doc_of_def
      set_locks_holder release_locks_holder dget_def split: option.splits)

lemma ownership_steps:
  "lock_table cur = last_word ops \<Longrightarrow>
     \<exists>d. rfold (reduce_ownership envelope_at) cur rs = Inr d
       \<and> lock_table d = last_word (ops @ concat (map (lock_ops envelope_at) rs))"
proof (induction rs arbitrary: cur ops)
  case (Cons r rs)
  from ownership_step [OF Cons.prems] obtain d where
    "reduce_ownership envelope_at cur r = Inr (Some d)" "lock_table (Some d) = last_word (ops @ lock_ops envelope_at r)" by blast
  with Cons.IH [of "Some d" "ops @ lock_ops envelope_at r"] show ?case by auto
qed auto

lemma lock_table_None [simp]: "lock_table None = last_word []"
  by (simp add: lock_table_def holder_def doc_of_def dget_def obj_items_def fun_eq_iff)

end
