(* ===== verification/Projection_Properties.thy ===== *)
theory Projection_Properties
  imports Projection_Crash Projection_Walks Projection_Locks Gate_Acceptance
begin

text \<open>
  The properties of the projection store: catching up in pieces is rebuilding, repairing one document
  gives the part of a rebuild, the ownership document is the lock table of its events, the walks on the
  graphs are exact and keep the concept graph acyclic; and what a crash in between and a repeated
  recovery do to it.
\<close>

section \<open>Example logs\<close>

definition event_of :: "nat \<Rightarrow> string \<Rightarrow> string \<Rightarrow> dict \<Rightarrow> event_record" where
  "event_of n i t pl =
     \<lparr>event_id = i, sequence_number = int n, timestamp = ''t'', transaction_id = None, batch_id = None,
      batch_position = None, record_hash = [], local_intent_id = i, event_type = t,
      event_category = ''state_transition'', payload = pl, provenance = system_prov ''owner'' ''o'', base_classification = IMMUTABLE_TRUTH,
      supersede = plain_supersede, subjects = [], schema_version = ''1''\<rparr>"

definition no_store :: projection_store where
  "no_store = \<lparr>ps_docs = [], ps_cursor = 0, ps_metas = []\<rparr>"

definition claimed_event :: event_record where
  "claimed_event = event_of 0 ''e0'' ''TaskWriteSetClaimed'' [(''after_state'', JObj [(''task_id'', JStr ''T''),
     (''write_set'', JArr [JObj [(''entity_type'', JStr ''concept''), (''entity_id'', JStr ''C'')]])])]"

definition proposed_event :: event_record where
  "proposed_event = event_of 1 ''e1'' ''EnvelopeSubmitted''
     [(''write_set'', JArr [JObj [(''entity_type'', JStr ''concept''), (''entity_id'', JStr ''C'')]])]"

definition accepted_event :: event_record where
  "accepted_event = event_of 2 ''e2'' ''CommitAccepted'' [(''envelope_event_id'', JStr ''e1'')]"

definition session_event :: event_record where
  "session_event = event_of 3 ''e3'' ''SessionSpawned'' [(''after_state'', JObj [(''session_id'', JStr ''S'')])]"

section \<open>Catching up and rebuilding\<close>

text \<open>A log that grows piece by piece, with one catch-up after each piece.\<close>

fun catch_ups :: "(json option \<Rightarrow> string) \<Rightarrow> string \<Rightarrow> (string \<Rightarrow> event_record option) \<Rightarrow> event_record list
    \<Rightarrow> event_record list list \<Rightarrow> projection_store \<Rightarrow> (verr + unit) \<times> projection_store" where
  "catch_ups digest now cold recs [] st = (Inr (), st)"
| "catch_ups digest now cold recs (piece # pieces) st =
     (case catchup digest now (record_view cold (recs @ piece)) st of
        (Inl e, st') \<Rightarrow> (Inl e, st')
      | (Inr n, st') \<Rightarrow> catch_ups digest now cold (recs @ piece) pieces st')"

lemma catch_ups_mirror:
  "catch_ups digest now cold recs pieces st = (Inr (), st') \<Longrightarrow> in_order (recs @ concat pieces)
    \<Longrightarrow> envelopes_precede {} (recs @ concat pieces) \<Longrightarrow> mirrors (record_view cold recs) recs st
    \<Longrightarrow> mirrors (record_view cold (recs @ concat pieces)) (recs @ concat pieces) st'"
proof (induction pieces arbitrary: recs st)
  case (Cons piece pieces)
  obtain res s where run: "catchup digest now (record_view cold (recs @ piece)) st = (res, s)" by fastforce
  with Cons.prems(1) obtain n where s: "catchup digest now (record_view cold (recs @ piece)) st = (Inr n, s)"
    "catch_ups digest now cold (recs @ piece) pieces s = (Inr (), st')" by (cases res) simp_all
  have parts: "in_order ((recs @ piece) @ concat pieces)" "envelopes_precede {} ((recs @ piece) @ concat pieces)"
    using Cons.prems(2,3) by simp_all
  then have "in_order (recs @ piece)" "envelopes_precede {} recs"
    using in_order_append [OF parts(1)] Cons.prems(3) by (simp_all add: envelopes_precede_append)
  from whole_log.catchup_mirrors [OF this Cons.prems(4) s(1)]
  have "mirrors (record_view cold (recs @ piece)) (recs @ piece) s" by simp
  from Cons.IH [OF s(2) parts this] show ?case by simp
qed simp

lemma empty_mirrors: "mirrors lv [] no_store"
  by (simp add: mirrors_def no_store_def next_of_def)

text \<open>C7: However a log is cut into pieces, when catching up after each piece from an empty store
  succeeds, then rebuilding any store from the whole log succeeds too and gives the same documents
  and the same cursor, although the reducers look records up and fold event types in the log as it
  is at the time.  The log has growing sequence numbers and holds the envelope of an accepted commit
  before its acceptance, as the gate writes it.\<close>
theorem catch_ups_are_rebuild:
  assumes "in_order (concat pieces)" and "envelopes_precede {} (concat pieces)"
    and "catch_ups digest now cold [] pieces no_store = (Inr (), st)"
  shows "\<exists>st'. rebuild digest now' (record_view cold (concat pieces)) any_st = (Inr (length (concat pieces)), st')
    \<and> same_docs st st'"
proof -
  have m: "mirrors (record_view cold (concat pieces)) (concat pieces) st"
    using catch_ups_mirror [OF assms(3)] assms(1,2) empty_mirrors by simp
  from whole_log.rebuild_succeeds [OF assms(1) this] obtain st' where
    r: "rebuild digest now' (record_view cold (concat pieces)) any_st = (Inr (length (concat pieces)), st')" by blast
  from whole_log.rebuild_mirrors [OF assms(1) r] m mirrors_same r show ?thesis by blast
qed

definition two_pieces :: "event_record list list" where
  "two_pieces = [[claimed_event, proposed_event], [accepted_event, session_event]]"

lemma two_pieces_run: "fst (catch_ups (\<lambda>d. []) ''t'' (\<lambda>i. None) [] two_pieces no_store) = Inr ()"
  by code_simp

lemma two_pieces_ok: "in_order (concat two_pieces)" "envelopes_precede {} (concat two_pieces)"
  by (simp_all add: two_pieces_def in_order_def claimed_event_def proposed_event_def accepted_event_def
      session_event_def event_of_def dget_def)

theorem catch_ups_are_rebuild_witness:
  "\<exists>st st'. catch_ups (\<lambda>d. []) ''t'' (\<lambda>i. None) [] two_pieces no_store = (Inr (), st)
    \<and> rebuild (\<lambda>d. []) ''u'' (record_view (\<lambda>i. None) (concat two_pieces)) no_store = (Inr 4, st') \<and> same_docs st st'"
proof -
  obtain st where st: "catch_ups (\<lambda>d. []) ''t'' (\<lambda>i. None) [] two_pieces no_store = (Inr (), st)"
    using two_pieces_run by (cases "catch_ups (\<lambda>d. []) ''t'' (\<lambda>i. None) [] two_pieces no_store") auto
  have "length (concat two_pieces) = 4" by (simp add: two_pieces_def)
  with st catch_ups_are_rebuild [OF two_pieces_ok st, of "''u''" no_store] show ?thesis by metis
qed

section \<open>Repairing one document\<close>

text \<open>C8: For every projection that reads no other one, recomputing it alone gives the document that
  a rebuild from the same log gives, replays as many events, and leaves the cursor and all other
  documents as they were, whatever the store held before.\<close>
theorem recompute_one_is_rebuild_slice:
  assumes "in_order recs" and "name \<in> set store_names" "name \<notin> set derived_names"
    and "rebuild digest now (record_view cold recs) any_st = (Inr n, full)"
  shows "\<exists>st'. recompute_one digest now' (record_view cold recs) name st = (Inr n, st')
    \<and> map_of (ps_docs st') name = map_of (ps_docs full) name \<and> ps_cursor st' = ps_cursor st
    \<and> (\<forall>m. m \<noteq> name \<longrightarrow> map_of (ps_docs st') m = map_of (ps_docs st) m)"
proof -
  from whole_log.rebuild_mirrors [OF assms(1,4)] have
    m: "mirrors (record_view cold recs) recs full" and n: "n = length recs" by simp_all
  from whole_log.recompute_slice [OF assms(1-3) m] show ?thesis unfolding n by blast
qed

definition stale_store :: projection_store where
  "stale_store = \<lparr>ps_docs = [(''ownership'', None), (''debt_registry'', Some (JObj []))], ps_cursor = 4, ps_metas = []\<rparr>"

theorem recompute_one_is_rebuild_slice_witness:
  "\<exists>st'. recompute_one (\<lambda>d. []) ''t'' (record_view (\<lambda>i. None) (concat two_pieces)) ''ownership'' stale_store = (Inr 4, st')
    \<and> map_of (ps_docs st') ''ownership''
      = map_of (ps_docs (snd (rebuild (\<lambda>d. []) ''t'' (record_view (\<lambda>i. None) (concat two_pieces)) no_store))) ''ownership''
    \<and> ps_cursor st' = 4 \<and> map_of (ps_docs st') ''debt_registry'' = Some (Some (JObj []))"
proof -
  let ?run = "rebuild (\<lambda>d. []) ''t'' (record_view (\<lambda>i. None) (concat two_pieces)) no_store"
  have "fst ?run = Inr 4" by code_simp
  then obtain full where full: "?run = (Inr 4, full)" by (cases ?run) auto
  have "''ownership'' \<in> set store_names" "''ownership'' \<notin> set derived_names"
    by (simp_all add: store_names_def derived_names_def)
  from recompute_one_is_rebuild_slice [OF two_pieces_ok(1) this full, of "''t''" stale_store] full show ?thesis
    by (auto simp: stale_store_def)
qed

section \<open>Ownership\<close>

text \<open>C14: The ownership document is a lock table: after any events, an entity is locked exactly when
  the last claim or release of it was a claim, and then by the task and the run of that claim.  The
  releases are those of accepted commits, for the write set of their envelope, and the explicit ones.\<close>
theorem ownership_is_last_word:
  "\<exists>d. rfold (reduce_ownership envelope_at) None rs = Inr d
    \<and> lock_table d = last_word (concat (map (lock_ops envelope_at) rs))"
  using ownership_steps [of None "[]" envelope_at rs] by simp

section \<open>Walks\<close>

lemma impact_arrows_backward: "set (impact_arrows False d) = (set (impact_arrows True d))\<inverse>"
  by (force simp: impact_arrows_def)

text \<open>C16: An impact slice lists, each once, the nodes other than the start that can be reached along
  at most the given number of edges of the impact graph, or against them for the direction
  \<open>backward\<close>; a negative depth gives none.  The graph is the one the store holds, or the one it holds
  after catching up with the log it is given.\<close>
theorem impact_slice_is_bounded_reachability:
  assumes "direction \<in> {''forward'', ''backward''}"
    and "case lv of None \<Rightarrow> st' = st | Some l \<Rightarrow> \<exists>n. catchup digest now l st = (Inr n, st')"
    and "read_disk (ps_docs st') ''impact_graph'' = Inr d"
  shows "\<exists>xs. get_impact_slice digest now lv x direction depth st = (Inr xs, st') \<and> distinct xs
    \<and> set xs = {y. y \<noteq> x \<and> (\<exists>k \<le> nat depth. (x, y) \<in>
        (if direction = ''forward'' then set (impact_arrows True d) else (set (impact_arrows True d))\<inverse>) ^^ k)}"
proof -
  let ?xs = "hops (impact_arrows (direction = ''forward'') d) (nat depth) [x] [x]"
  have "get_impact_slice digest now lv x direction depth st = (Inr ?xs, st')"
    using assms by (auto simp: get_impact_slice_def split: option.splits)
  moreover have "set (impact_arrows (direction = ''forward'') d)
      = (if direction = ''forward'' then set (impact_arrows True d) else (set (impact_arrows True d))\<inverse>)"
    using impact_arrows_backward [of d] by simp
  moreover have "distinct ?xs" using distinct_hops by blast
  ultimately show ?thesis by (simp add: hops_from)
qed

definition chain_store :: projection_store where
  "chain_store = no_store\<lparr>ps_docs := [(''impact_graph'', Some (JObj [(''edges'', dicts_json
     [impact_edge ''A'' ''B'' ''concept'' JNull JNull, impact_edge ''B'' ''C'' ''concept'' JNull JNull,
      impact_edge ''C'' ''A'' ''task'' JNull JNull])]))]\<rparr>"

theorem impact_slice_is_bounded_reachability_witness:
  "\<exists>d. read_disk (ps_docs chain_store) ''impact_graph'' = Inr d
     \<and> get_impact_slice (\<lambda>d. []) ''t'' None ''A'' ''backward'' 1 chain_store = (Inr [''C''], chain_store)
     \<and> {''C''} = {y. y \<noteq> ''A'' \<and> (\<exists>k \<le> nat 1. (''A'', y) \<in> (set (impact_arrows True d))\<inverse> ^^ k)}"
proof -
  let ?run = "get_impact_slice (\<lambda>d. []) ''t'' None ''A'' ''backward'' 1 chain_store"
  obtain d where d: "read_disk (ps_docs chain_store) ''impact_graph'' = Inr d"
    by (simp add: chain_store_def no_store_def read_disk_def)
  have dir: "''backward'' \<in> {''forward'', ''backward''}" and none: "case None of None \<Rightarrow> chain_store = chain_store
      | Some l \<Rightarrow> \<exists>n. catchup (\<lambda>d. []) ''t'' l chain_store = (Inr n, chain_store)" by simp_all
  have neq: "(''backward'' = ''forward'') = False" by simp
  obtain xs where xs: "?run = (Inr xs, chain_store)"
    "set xs = {y. y \<noteq> ''A'' \<and> (\<exists>k \<le> nat 1. (''A'', y) \<in> (set (impact_arrows True d))\<inverse> ^^ k)}"
    using impact_slice_is_bounded_reachability [OF dir none d, of "''A''" 1, unfolded neq if_False] by blast
  have "fst ?run = Inr [''C'']" by code_simp
  then have "xs = [''C'']" unfolding xs(1) by simp
  then have "set xs = {''C''}" by simp
  then show ?thesis using d xs(1) \<open>xs = [''C'']\<close> unfolding xs(2) by blast
qed

text \<open>C15: Backfilling coupling edges into an acyclic graph keeps it acyclic, adds edges between
  known concepts only, and is complete: every association of two known concepts is linked in the
  result, or adding its edge would close a cycle.\<close>
theorem backfill_stays_acyclic:
  assumes "acyclic (set (filter (\<lambda>(s, t). s \<in> nodes \<and> t \<in> nodes \<and> s \<noteq> t) active))"
    and "backfill_coupling_edges_into_dag nodes active assocs order = added"
    and "E = set (filter (\<lambda>(s, t). s \<in> nodes \<and> t \<in> nodes \<and> s \<noteq> t) active) \<union> edge_pairs added"
  shows "acyclic E \<and> edge_pairs added \<subseteq> nodes \<times> nodes \<and> (\<forall>x \<in> set assocs. association_settled nodes order E x)"
proof -
  let ?es = "filter (\<lambda>(s, t). s \<in> nodes \<and> t \<in> nodes \<and> s \<noteq> t) active"
  obtain s where s: "foldl (backfill_one nodes order) (?es, []) assocs = s" by blast
  have "sound_edges nodes (set ?es) (?es, [] :: (string \<times> string \<times> 'a) list)"
    using assms(1) by (simp add: sound_edges_def edge_pairs_def)
  note sound = backfill_sound [OF this s]
  have "added = snd s" using assms(2) s by (simp add: backfill_coupling_edges_into_dag_def)
  with sound assms(3) have "E = set (fst s)" by (simp add: sound_edges_def)
  with sound \<open>added = snd s\<close> show ?thesis unfolding sound_edges_def by (auto simp only:)
qed

theorem backfill_stays_acyclic_witness:
  "backfill_coupling_edges_into_dag {''A'', ''B'', ''C''} [(''C'', ''B''), (''B'', ''A'')]
     [(''A'', ''C'', 1 :: int), (''D'', ''C'', 2)] (\<lambda>i. 0) = []
   \<and> acyclic {(''C'', ''B''), (''B'', ''A'')}
   \<and> association_settled {''A'', ''B'', ''C''} (\<lambda>i. 0) {(''C'', ''B''), (''B'', ''A'')} (''A'', ''C'', 1 :: int)"
proof -
  let ?es = "[(''C'', ''B''), (''B'', ''A'')]"
  let ?nodes = "{''A'', ''B'', ''C''}"
  have same: "filter (\<lambda>(s, t). s \<in> ?nodes \<and> t \<in> ?nodes \<and> s \<noteq> t) ?es = ?es" by simp
  have "acyclic ({} :: (string \<times> string) set)" by (simp add: acyclic_def)
  then have "acyclic (set ?es)" by (auto simp: acyclic_insert rtrancl_insert)
  then have a: "acyclic (set (filter (\<lambda>(s, t). s \<in> ?nodes \<and> t \<in> ?nodes \<and> s \<noteq> t) ?es))" unfolding same .
  have none: "backfill_coupling_edges_into_dag ?nodes ?es [(''A'', ''C'', 1 :: int), (''D'', ''C'', 2)] (\<lambda>i. 0) = []"
    by code_simp
  from backfill_stays_acyclic [OF a none refl] none show ?thesis unfolding same by (simp add: edge_pairs_def)
qed

section \<open>Crashes and recoveries\<close>

text \<open>C35: A crash after a catch-up has written its documents and before it has written the cursor
  makes the next catch-up count each verdict a second time: the history of commits grows by two
  entries for each of them, because its reducer appends.\<close>
theorem crash_replay_counts_twice:
  assumes "catchup digest now lv st = (Inr n, st1)"
    and "catchup digest now' lv (st1\<lparr>ps_cursor := ps_cursor st, ps_metas := ps_metas st\<rparr>) = (Inr m, st2)"
  shows "commit_count st1 = commit_count st + length (filter is_verdict (events_from lv (ps_cursor st)))
    \<and> commit_count st2 = commit_count st + 2 * length (filter is_verdict (events_from lv (ps_cursor st)))"
  using catchup_counts [OF assms(1)] catchup_counts [OF assms(2)] by (simp add: commit_count_def)

definition one_verdict :: "event_record list" where
  "one_verdict = [event_of 0 ''e0'' ''CommitAccepted'' [(''envelope_event_id'', JStr ''e9'')]]"

theorem crash_replay_counts_twice_witness:
  "\<exists>st1 st2. catchup (\<lambda>d. []) ''t'' (record_view (\<lambda>i. None) one_verdict) no_store = (Inr 1, st1)
    \<and> catchup (\<lambda>d. []) ''t'' (record_view (\<lambda>i. None) one_verdict) (st1\<lparr>ps_cursor := 0, ps_metas := []\<rparr>) = (Inr 1, st2)
    \<and> commit_count st1 = 1 \<and> commit_count st2 = 2"
proof -
  let ?lv = "record_view (\<lambda>i. None) one_verdict"
  let ?run = "catchup (\<lambda>d. []) ''t'' ?lv no_store"
  let ?again = "catchup (\<lambda>d. []) ''t'' ?lv ((snd ?run)\<lparr>ps_cursor := 0, ps_metas := []\<rparr>)"
  have "fst ?run = Inr 1" "fst ?again = Inr 1" by code_simp+
  then obtain st1 st2 where r: "?run = (Inr 1, st1)"
    "catchup (\<lambda>d. []) ''t'' ?lv (st1\<lparr>ps_cursor := ps_cursor no_store, ps_metas := ps_metas no_store\<rparr>) = (Inr 1, st2)"
    by (cases ?run; cases ?again) (auto simp: no_store_def)
  have "length (filter is_verdict (events_from ?lv (ps_cursor no_store))) = 1" "commit_count no_store = 0"
    by code_simp+
  with crash_replay_counts_twice [OF r] r show ?thesis by (auto simp: no_store_def)
qed

text \<open>C36: When a recovery has repaired some torn projections and left none torn while events behind
  the cursor were still to be applied, the next recovery takes the watermark of the repaired ones, which
  is the head of the log, for the position of the store: it moves the cursor there, nothing is left to
  catch up with, and the projections that were intact never see the events in between.\<close>
theorem repeated_recovery_skips_events:
  assumes "in_order recs" and "recover_store digest now (record_view cold recs) st = (Inr Recomputed, st1)"
    and "torn_projections digest st1 = []" and "0 \<le> ps_cursor st" "ps_cursor st < next_of recs"
  shows "\<exists>st2. recover_store digest now' (record_view cold recs) st1 = (Inr Advanced, st2)
    \<and> catchup digest now'' (record_view cold recs) st2 = (Inr 0, st2)
    \<and> (\<forall>n. n \<notin> set (torn_projections digest st) \<longrightarrow> map_of (ps_docs st2) n = map_of (ps_docs st) n)"
proof -
  have head: "lv_next (record_view cold recs) = next_of recs" by (rule whole_log.next_law [OF assms(1)])
  with assms(5) have pending: "ps_cursor st < lv_next (record_view cold recs)" by simp
  note second = second_recovery [OF assms(2,3,4) pending]
  obtain c where c: "recover_store digest now' (record_view cold recs) st1 = (Inr Advanced, st1\<lparr>ps_cursor := c\<rparr>)"
    "lv_next (record_view cold recs) \<le> c" using second(1) by blast
  have "events_from (record_view cold recs) c = []" by (rule whole_log.nothing_beyond [OF assms(1) c(2)])
  then have "catchup digest now'' (record_view cold recs) (st1\<lparr>ps_cursor := c\<rparr>) = (Inr 0, st1\<lparr>ps_cursor := c\<rparr>)"
    by (simp add: catchup_def)
  with c(1) second(2) show ?thesis by auto
qed

text \<open>A digest that tells documents with different numbers of nodes apart.\<close>

definition size_digest :: "json option \<Rightarrow> string" where
  "size_digest d = (case d of Some (JObj ((k, JArr xs) # rest)) \<Rightarrow> replicate (length xs) (CHR ''x'') | _ \<Rightarrow> [])"

definition growing_log :: "event_record list" where
  "growing_log =
     [event_of 0 ''e0'' ''ConceptCreated'' [(''concept_id'', JStr ''A'')], event_of 1 ''e1'' ''DebtRegistered'' [(''debt_id'', JStr ''D'')],
      event_of 2 ''e2'' ''DebtRegistered'' [(''debt_id'', JStr ''E'')], event_of 3 ''e3'' ''ConceptCreated'' [(''concept_id'', JStr ''B'')]]"

text \<open>The second catch-up crashed after the first of its documents was written.\<close>

definition crashed_store :: projection_store where
  "crashed_store =
     (let s = snd (catchup size_digest ''t'' (record_view (\<lambda>i. None) (take 2 growing_log)) no_store);
          s' = snd (catchup size_digest ''t'' (record_view (\<lambda>i. None) growing_log) s)
      in s\<lparr>ps_docs := AList.update ''debt_registry'' (the (map_of (ps_docs s') ''debt_registry'')) (ps_docs s)\<rparr>)"

theorem repeated_recovery_skips_events_witness:
  "\<exists>st1 st2. recover_store size_digest ''t'' (record_view (\<lambda>i. None) growing_log) crashed_store = (Inr Recomputed, st1)
    \<and> recover_store size_digest ''t'' (record_view (\<lambda>i. None) growing_log) st1 = (Inr Advanced, st2)
    \<and> catchup size_digest ''t'' (record_view (\<lambda>i. None) growing_log) st2 = (Inr 0, st2)
    \<and> map_of (ps_docs st2) ''concept_graph'' = map_of (ps_docs crashed_store) ''concept_graph''
    \<and> map_of (ps_docs crashed_store) ''concept_graph''
      \<noteq> map_of (ps_docs (snd (rebuild size_digest ''t'' (record_view (\<lambda>i. None) growing_log) no_store))) ''concept_graph''"
proof -
  let ?lv = "record_view (\<lambda>i. None) growing_log"
  let ?run = "recover_store size_digest ''t'' ?lv crashed_store"
  have ok: "in_order growing_log" by (simp add: growing_log_def in_order_def event_of_def)
  have "fst ?run = Inr Recomputed" by code_simp
  then obtain st1 where r: "?run = (Inr Recomputed, st1)" by (cases ?run) auto
  have "torn_projections size_digest (snd ?run) = []" by code_simp
  then have t: "torn_projections size_digest st1 = []" by (simp add: r)
  have c: "0 \<le> ps_cursor crashed_store" "ps_cursor crashed_store < next_of growing_log" by code_simp+
  have n: "''concept_graph'' \<notin> set (torn_projections size_digest crashed_store)" by code_simp
  have d: "map_of (ps_docs crashed_store) ''concept_graph''
      \<noteq> map_of (ps_docs (snd (rebuild size_digest ''t'' ?lv no_store))) ''concept_graph''" by code_simp
  from repeated_recovery_skips_events [OF ok r t c, of "''t''" "''t''"] r n d show ?thesis by blast
qed

end
