(* ===== verification/Spec2Isabelle.thy ===== *)
theory Spec2Isabelle
  imports Ledger_Properties Event_Log_Properties Crash_Properties Reading_Properties Index_Properties
    Lock_Properties Retention_Properties Review_Properties Claim_Properties Envelope_Properties
    Commit_Gate_Properties Concept_Properties Projection_Properties
begin

text \<open>
  A verification development for Flowness: the append-only records on which its agents
  coordinate, and what their readers may rely on.

  The program has two such records and services around them.  The public ledger core
  (\<open>public-core/flowness-ledger-core/src/flowness_ledger_core\<close>) is a small library: one JSONL
  stream of proposals, proposed records and decisions.  The event log of the harness
  (\<open>harness/src/towow/l0/event_log\<close>) is the truth source of everything above it: segment files
  with one JSON record per line, written by many processes, read through a visibility rule and
  through a derived index.  Above the log the development models the commit gate, which decides on
  every proposed change and writes its verdict; the projection store, which derives documents from
  the log; snapshots, retention and garbage collection; and the locks and claims by which sessions
  and workers keep out of each other's way.

  Theories and what they model.
  \<^item> \<open>Prelude\<close>, \<open>Text_Lines\<close>: JSON values, Python dictionaries as association lists, results with
    an error value, decimal numerals; lines of a text as Python reads them, \<open>strip\<close>, the part of a
    text before its last newline.
  \<^item> \<open>Ledger\<close> (\<open>ledger.py\<close>): \<open>load\<close> and \<open>index\<close> are the reader with its hash chain and its proposal
    state machine, \<open>begin_proposal\<close>, \<open>append_proposed\<close>, \<open>decide\<close>, \<open>recover\<close> the operations, each
    returning an exception or a value and the store.  \<open>Ledger_Safety\<close> has the invariant of valid
    streams and its preservation, \<open>Ledger_Views\<close> the projections and the review verdict with the
    locale \<open>audit_stream\<close>, which states what a view needs of the ledger.
  \<^item> \<open>Event_Record\<close> (\<open>schemas/event_record.py, event_intent.py, transaction_batch.py, version.py\<close>):
    records, intents, batches and their validators.
  \<^item> \<open>Event_Visibility\<close> (\<open>event_log.py\<close>, lines 147 to 292): the generator of visible records, the
    narrowed scan for one type, the start-up scan.  A generator is the list of what it yields and
    the exception it ends with.
  \<^item> \<open>Event_Index\<close>, \<open>Event_Index_Store\<close> (\<open>index.py\<close>): the eager index, the lazy index over
    persisted files, the store.  The lazy index refines the eager one (\<open>lazy_of\<close>).
  \<^item> \<open>Event_Log\<close> (\<open>event_log.py\<close>, \<open>segments.py\<close>): segments, the per-process handle, batch, direct,
    audit and merge writes, audits of integrity, recovery.  \<open>Event_Log_Safety\<close> has the invariant
    \<open>log_ok\<close> of logs and its preservation by any write of any handle, \<open>Event_Log_Crash\<close> the
    prefixes of a write that a crash leaves.
  \<^item> \<open>Event_Log_Reads\<close> (\<open>event_log.py\<close>, constructor and lines 1418 to 1898): adoption of a persisted
    index, catching up the warm index, the read operations over the interface \<open>index_api\<close>.
    \<open>Lookup_Contract\<close> states that interface as a locale with the eager and the adopted index as its
    interpretations; \<open>Index_Catch_Up\<close> proves when catching up is exact.
  \<^item> \<open>Documents\<close>: directories of JSON documents, and the Python conversions \<open>int\<close>, \<open>str\<close> and
    \<open>repr\<close> of JSON values that the code applies to what it reads.
  \<^item> \<open>Session_Locks\<close> (\<open>session_lock.py\<close>): a registry is the kind of its sessions, its lock files
    and its metadata files; \<open>acquire\<close>, \<open>resolve\<close>, \<open>touch\<close>, \<open>release\<close>, \<open>reap_stale\<close> are the
    operations, \<open>run_ops\<close> runs a sequence of them, each in its environment (time, living processes).
    \<open>Session_Locks_Safety\<close> has the invariant \<open>registry_ok\<close> and what an operation of another session
    keeps.
  \<^item> \<open>Retention_Stores\<close> (\<open>cursor.py, lease.py, retention_policy.py, state.py\<close>): consumer cursors,
    leases, the policy, the state files of the snapshot module.
  \<^item> \<open>Gc_Reachability\<close> (\<open>reachability.py\<close>): the seven categories of roots and the closure
    \<open>gc_close\<close>, with its termination and exactness.
  \<^item> \<open>Snapshots\<close> (\<open>snapshot.py\<close>): creating, retaining, archiving, fetching and verifying snapshots.
  \<^item> \<open>Retention_Gc\<close> (\<open>gc.py, segment_align.py, consolidation_guard.py, discard_tombstone.py\<close>): the
    bound of a collection, the run \<open>run_gc\<close>, the decision for a whole segment, with the locale
    \<open>retention_guard\<close> for what caps the bound.  \<open>Retention_Safety\<close> connects them with the index
    through \<open>lookup_contract\<close>.
  \<^item> \<open>Envelope_Schema\<close> (\<open>schemas/envelope.py\<close>) and \<open>Envelope_Builder\<close> (\<open>l0/envelope/builder.py,
    reader.py, engine.py\<close>): the envelope of a proposed change, its validators, how its parts are derived
    from a run and read back.
  \<^item> \<open>Gate_Conflicts\<close>, \<open>Gate_Obligations\<close>, \<open>Gate_Acceptance\<close>, \<open>Gate_Births\<close>, \<open>Gate_Concepts\<close>,
    \<open>Gate_Retire\<close> (modules of \<open>l0/commit_gate\<close> of about these names, \<open>l0/debt/registry.py\<close>,
    \<open>l1/consensus_invalidation.py\<close>): the single checks of the gate as functions from the envelope and
    the records of the log to an outcome.  \<open>Review_Verdict\<close> (\<open>review_verdict.py\<close>) folds findings to a
    verdict, \<open>Exec_Claims\<close> (\<open>awareness/claim.py, fencing_check.py\<close>) has claims, fences and tokens.
  \<^item> \<open>Event_Log_Writes\<close> and \<open>Gate_Log\<close>: what the gate uses of the log is the record of operations
    \<open>log_ops\<close>; the locale \<open>gate_log\<close> states their laws, and its interpretation \<open>site_log\<close> proves them
    for the event log, with other writers between any two calls.
  \<^item> \<open>Commit_Gate\<close> (\<open>gate.py, bootstrap.py\<close>): \<open>attempt_commit\<close> with the order of its checks
    (\<open>run_checks\<close>), the decision, the re-check before the write, \<open>continue_attempt\<close> for audited
    changes, \<open>scan_abandoned\<close>, \<open>bootstrap_commit\<close>.  \<open>Commit_Gate_Effects\<close> and \<open>Commit_Gate_Safety\<close>
    show what each of them appends and what stays true of the log.
  \<^item> \<open>Projection_Reducers\<close>, \<open>Projection_Graphs\<close>, \<open>Projection_Concepts\<close> (\<open>projection.py\<close>,
    \<open>node_reducers.py\<close>): the reducers, each from the document of its projection and one event to the
    document to write.
  \<^item> \<open>Projection_Store\<close> (\<open>projection.py\<close>): the state is the documents, the cursor and the meta files;
    \<open>routes\<close> is the dispatch, \<open>catchup\<close>, \<open>rebuild\<close>, \<open>recompute_one\<close>, \<open>recover_store\<close>,
    \<open>validate_rebuild\<close>, \<open>get_projection\<close> and \<open>read_consistent\<close> are the operations.
    \<open>Projection_Slices\<close> has the queries on graphs and the backfill of edges.
  \<^item> \<open>Projection_Replay\<close>: the locale \<open>log_source\<close> states what the views of a growing log have in
    common; in it, catching up in pieces is one replay.  Every index that fulfils \<open>lookup_contract\<close>
    gives such a source.  \<open>Projection_Repair\<close> is about one document, \<open>Projection_Crash\<close> about what
    crashes and recoveries leave, \<open>Projection_Walks\<close> about searches and acyclicity,
    \<open>Projection_Locks\<close> about the lock table in the ownership document.
  \<^item> \<open>Sample_Codec\<close>: one codec with all assumed laws, for concrete instances of the theorems.
  \<^item> \<open>Ledger_Properties\<close>, \<open>Event_Log_Properties\<close>, \<open>Crash_Properties\<close>, \<open>Reading_Properties\<close>,
    \<open>Index_Properties\<close>, \<open>Lock_Properties\<close>, \<open>Retention_Properties\<close>, \<open>Review_Properties\<close>,
    \<open>Claim_Properties\<close>, \<open>Envelope_Properties\<close>, \<open>Commit_Gate_Properties\<close>, \<open>Concept_Properties\<close>,
    \<open>Projection_Properties\<close>: the properties, each with an instance on a concrete input where it has
    hypotheses.

  What is assumed.  Serialisation (JSON, pydantic) and digests (SHA-256) are arguments; the laws
  used are named definitions: a record is one line that reads back as itself (\<open>ecodec_sound\<close>,
  \<open>codec_sound\<close>), a JSON object cut short or started inside another is not readable
  (\<open>torn_unreadable\<close>), digests do not collide where a statement says so.  Payload schemas are the
  argument \<open>schema_error\<close>, the cold archive is the argument \<open>cold\<close>.  Random identifiers and
  timestamps are arguments of the operations that draw them.  A write holds the file lock, so it
  is one step on the shared disk; a handle may be arbitrarily stale.  Characters are bytes: the
  texts are taken to be ASCII.  Segment numbers end at 999999 as in the file name pattern, so
  statements about several writes assume room for as many rotations.

  For the services: the outcome of a signal to a process (\<open>kill_outcome\<close>), whether a disk write
  succeeds, the reading of ISO timestamps and the contents of the projection files are arguments.
  Times are rationals.  Replacing a file or a directory by a rename is one step.  For the gate,
  the record \<open>gate_env\<close> has what it asks other modules: the evidence of a closure, live targets, the
  invariants of a consolidation, the router of findings, the computed impact set.  For the
  projection store, the digest and the canonical text of a document and the formatted time are
  arguments, and one operation sees one view of the log.

  Bounds and fuel.  The loops are structural, except the walk along a chain of events, which is
  a \<open>partial_function\<close>: it returns when causes precede their effects and runs forever on a cycle, and
  the two searches that mark what they have seen (\<open>gc_close\<close>, \<open>reaches_from\<close>), which end because a
  finite set of unseen nodes shrinks.

  What the statements about errors show.  Some properties are limits of the code, proved on the
  model: the start of two equal proposals at once, a crash that loses only a newline, a torn line
  without recovery, the narrowed scan on payloads that mention a sentinel, merges by two open
  processes, adoption of an old index behind an empty segment, cyclic chains, two claimants with one
  token, an audited attempt whose status hides its rejection, a reference that is added again, a
  crash between the documents and the cursor of the projection store, and its repeated recovery.

  Not modelled.  The checks of closure evidence, live targets and consolidation run recorded
  commands, read the file system and load modules outside of the modelled part; they are arguments.
  Moving records to the cold archive and compaction, the assembly of prompts (\<open>l0/capsule\<close>), the
  closure services (\<open>l1\<close>), the orchestrator and its daemons (\<open>l2\<close>), the views (\<open>l3\<close>), command lines,
  editor hooks and the open-source harness are left out: most of what they do is text, processes
  and input or output around the log.  Payload schemas are declarations.  Of the projection store,
  the mining of couplings from co-changes and the measure of connectivity are left out.
\<close>

end
